(* ===== verification/Json_Api.thy ===== *)
theory Json_Api
  imports Prelude_Rust
begin

text \<open>
  The JSON values of the wire are \<^verbatim>\<open>serde_json::Value\<close>, a type of a library. The development
  takes the type of values and the accessors the code calls as a parameter: a \<^verbatim>\<open>json_api\<close>
  record that every parsing definition receives. What the code relies on is the predicate
  \<open>json_api_ok\<close> below. The type \<^verbatim>\<open>json\<close> at the end is one concrete instance; the
  witnesses run the parsers on it.
\<close>

record 'v json_api =
  get_field :: "'v \<Rightarrow> string \<Rightarrow> 'v option"
  as_str :: "'v \<Rightarrow> string option"
  as_u64 :: "'v \<Rightarrow> nat option"
  as_i64 :: "'v \<Rightarrow> int option"
  as_array :: "'v \<Rightarrow> 'v list option"
  as_map :: "'v \<Rightarrow> (string \<times> 'v) list option"
  as_bool :: "'v \<Rightarrow> bool option"
  is_null :: "'v \<Rightarrow> bool"

text \<open>Documented behaviour of the accessors: \<^verbatim>\<open>Value::get\<close> with a text key reads the entry of an
  object and gives nothing for any other value; an object holds each key once.\<close>

definition json_api_ok :: "'v json_api \<Rightarrow> bool" where
  "json_api_ok J \<longleftrightarrow>
     (\<forall>v k. get_field J v k = (case as_map J v of None \<Rightarrow> None | Some m \<Rightarrow> map_of m k)) \<and>
     (\<forall>v m. as_map J v = Some m \<longrightarrow> distinct (map fst m)) \<and>
     (\<forall>v n. as_u64 J v = Some n \<longrightarrow> n \<le> u64_max)"

text \<open>\<^verbatim>\<open>value.get(key)?.as_str()?\<close> and its kin.\<close>

definition str_field :: "'v json_api \<Rightarrow> 'v \<Rightarrow> string \<Rightarrow> string option" where
  "str_field J v k = Option.bind (get_field J v k) (as_str J)"

definition u64_field :: "'v json_api \<Rightarrow> 'v \<Rightarrow> string \<Rightarrow> nat option" where
  "u64_field J v k = Option.bind (get_field J v k) (as_u64 J)"

definition collect_options :: "('a \<Rightarrow> 'b option) \<Rightarrow> 'a list \<Rightarrow> 'b list option" where
  "collect_options f xs = those (map f xs)"

lemma those_Some_iff: "those xs = Some ys \<longleftrightarrow> xs = map Some ys"
  by (induction xs arbitrary: ys) (auto split: option.splits)

lemma collect_options_Some: "collect_options f xs = Some ys \<longleftrightarrow> map f xs = map Some ys"
  by (simp add: collect_options_def those_Some_iff)

lemma collect_options_set:
  "collect_options f xs = Some ys \<Longrightarrow> y \<in> set ys \<Longrightarrow> \<exists>x \<in> set xs. f x = Some y"
  by (auto simp: collect_options_Some) (metis (no_types, lifting) image_eqI image_set list.set_map imageE)

section \<open>A concrete instance\<close>

datatype json =
  JNull | JBool bool | JInt int | JString string | JArray "json list" | JObject "(string \<times> json) list"

definition json_instance :: "json json_api" where
  "json_instance = \<lparr>
     get_field = (\<lambda>v k. case v of JObject m \<Rightarrow> if distinct (map fst m) then map_of m k else None | _ \<Rightarrow> None),
     as_str = (\<lambda>v. case v of JString s \<Rightarrow> Some s | _ \<Rightarrow> None),
     as_u64 = (\<lambda>v. case v of JInt i \<Rightarrow> if 0 \<le> i \<and> nat i \<le> u64_max then Some (nat i) else None | _ \<Rightarrow> None),
     as_i64 = (\<lambda>v. case v of JInt i \<Rightarrow> if \<bar>i\<bar> \<le> int i64_max then Some i else None | _ \<Rightarrow> None),
     as_array = (\<lambda>v. case v of JArray xs \<Rightarrow> Some xs | _ \<Rightarrow> None),
     as_map = (\<lambda>v. case v of JObject m \<Rightarrow> if distinct (map fst m) then Some m else None | _ \<Rightarrow> None),
     as_bool = (\<lambda>v. case v of JBool b \<Rightarrow> Some b | _ \<Rightarrow> None),
     is_null = (\<lambda>v. v = JNull) \<rparr>"

lemma json_instance_ok: "json_api_ok json_instance"
  by (auto simp: json_api_ok_def json_instance_def split: json.splits if_splits)

end
