(* ===== verification/Crypto_Api.thy ===== *)
theory Crypto_Api
  imports Prelude_Rust
begin

text \<open>
  The cryptographic libraries are parameters: \<^verbatim>\<open>base64\<close> (the engines \<^verbatim>\<open>STANDARD_NO_PAD\<close> and
  \<^verbatim>\<open>URL_SAFE_NO_PAD\<close>), \<^verbatim>\<open>sha2\<close> and the Ed25519 part of \<^verbatim>\<open>vodozemac\<close>. Every definition that
  calls them takes a \<^verbatim>\<open>crypto_api\<close> record. The documented facts the theorems use are stated as
  separate predicates, so that each theorem shows which of them it needs. The instance
  \<^verbatim>\<open>toy_crypto\<close> satisfies all of them; the witnesses run on it.
\<close>

record crypto_api =
  b64_decode :: "string \<Rightarrow> string option"
  b64_encode :: "string \<Rightarrow> string"
  b64url_decode :: "string \<Rightarrow> string option"
  b64url_encode :: "string \<Rightarrow> string"
  sha256 :: "string \<Rightarrow> string"
  ed_key_ok :: "string \<Rightarrow> bool"
  ed_sig_ok :: "string \<Rightarrow> bool"
  ed_verify :: "string \<Rightarrow> string \<Rightarrow> string \<Rightarrow> bool"

text \<open>Characters of the two base64 alphabets.\<close>

definition is_std_b64_char :: "char \<Rightarrow> bool" where
  "is_std_b64_char c \<longleftrightarrow> is_ascii_alphanumeric c \<or> c = CHR ''+'' \<or> c = CHR ''/''"

definition is_url_b64_char :: "char \<Rightarrow> bool" where
  "is_url_b64_char c \<longleftrightarrow> is_ascii_alphanumeric c \<or> c = CHR ''-'' \<or> c = CHR ''_''"

text \<open>The url-safe engine on the first eight bytes of a hash: the text has eleven characters of
  the alphabet of the engine, and it decodes to the bytes.\<close>

definition did_encoding_ok :: "crypto_api \<Rightarrow> bool" where
  "did_encoding_ok C \<longleftrightarrow>
     (\<forall>m. let x = take 8 (sha256 C m); t = b64url_encode C x
          in b64url_decode C t = Some x \<and> list_all is_url_b64_char t \<and> length t = 11)"

definition sha256_ok :: "crypto_api \<Rightarrow> bool" where
  "sha256_ok C \<longleftrightarrow> (\<forall>x. length (sha256 C x) = 32)"

lemma b64_char_not_separator:
  assumes "is_std_b64_char c"
  shows "c \<noteq> CHR '' ''" "c \<noteq> CHR '':''" "c \<noteq> CHR '',''" "c \<noteq> CHR ''.''" "c \<noteq> CHR ''*''"
    "\<not> is_ascii_control c" "is_ascii_char c"
  using assms by (auto simp: is_std_b64_char_def ascii_defs)

lemma url_char_not_separator:
  assumes "is_url_b64_char c"
  shows "c \<noteq> CHR '' ''" "c \<noteq> CHR '':''" "c \<noteq> CHR ''.''" "c \<noteq> CHR ''*''"
    "\<not> is_ascii_control c" "is_ascii_char c"
  using assms by (auto simp: is_url_b64_char_def ascii_defs)

section \<open>A concrete instance\<close>

text \<open>Encoding pads on the left with the letter A to the length base64 would give; a signature
  is the key followed by the last characters of the message.\<close>

definition toy_encode :: "string \<Rightarrow> string" where
  "toy_encode x = replicate ((4 * length x + 2) div 3 - length x) CHR ''A'' @ x"

definition toy_decode :: "string \<Rightarrow> string option" where
  "toy_decode s =
     (let n = length s * 3 div 4; k = length s - n
      in if take k s = replicate k CHR ''A'' then Some (drop k s) else None)"

definition toy_clean :: "char \<Rightarrow> char" where
  "toy_clean c = (if is_std_b64_char c then c else CHR ''A'')"

definition toy_url_clean :: "char \<Rightarrow> char" where
  "toy_url_clean c = (if is_ascii_alphanumeric c then c else CHR ''B'')"

definition toy_digest :: "string \<Rightarrow> string" where
  "toy_digest m = take 32 (map toy_url_clean (rev m) @ replicate 32 CHR ''A'')"

definition toy_signature :: "string \<Rightarrow> string \<Rightarrow> string" where
  "toy_signature k m = k @ toy_digest m"

definition toy_crypto :: crypto_api where
  "toy_crypto = \<lparr>
     b64_decode = toy_decode, b64_encode = toy_encode,
     b64url_decode = toy_decode, b64url_encode = toy_encode,
     sha256 = toy_digest,
     ed_key_ok = (\<lambda>k. length k = 32), ed_sig_ok = (\<lambda>s. length s = 64),
     ed_verify = (\<lambda>k m s. s = toy_signature k m) \<rparr>"

text \<open>Texts of a key and of its signatures in the instance.\<close>

definition toy_key :: "char \<Rightarrow> string" where
  "toy_key c = toy_encode (replicate 32 c)"

definition toy_sign :: "char \<Rightarrow> string \<Rightarrow> string" where
  "toy_sign c m = toy_encode (toy_signature (replicate 32 c) m)"

lemmas toy_defs = toy_crypto_def toy_encode_def toy_decode_def toy_clean_def toy_url_clean_def
  toy_digest_def toy_signature_def toy_key_def toy_sign_def

lemma toy_encode_decode: "toy_decode (toy_encode x) = Some x"
proof -
  define n where "n = length x"
  have len: "length (toy_encode x) = (4 * n + 2) div 3"
    unfolding n_def toy_encode_def by simp
  have "(4 * n + 2) div 3 * 3 div 4 = n" by presburger
  with len show ?thesis
    unfolding toy_decode_def by (simp add: n_def) (simp add: toy_encode_def)
qed

lemma length_toy_digest [simp]: "length (toy_digest m) = 32"
  by (simp add: toy_digest_def)

lemma toy_digest_chars: "c \<in> set (toy_digest m) \<Longrightarrow> is_ascii_alphanumeric c"
  by (auto simp: toy_digest_def toy_url_clean_def ascii_defs dest!: in_set_takeD split: if_splits)

lemma toy_did_encoding_ok: "did_encoding_ok toy_crypto"
  unfolding did_encoding_ok_def Let_def
proof (intro allI conjI)
  fix m
  let ?x = "take 8 (sha256 toy_crypto m)"
  show "b64url_decode toy_crypto (b64url_encode toy_crypto ?x) = Some ?x"
    by (simp add: toy_crypto_def toy_encode_decode)
  show "length (b64url_encode toy_crypto ?x) = 11"
    by (simp add: toy_crypto_def toy_encode_def)
  have "is_url_b64_char c" if "c \<in> set ?x" for c
    using that toy_digest_chars [of c m]
    by (auto simp: toy_crypto_def is_url_b64_char_def dest!: in_set_takeD)
  then show "list_all is_url_b64_char (b64url_encode toy_crypto ?x)"
    by (auto simp: toy_crypto_def toy_encode_def list_all_iff is_url_b64_char_def ascii_defs)
qed

lemma toy_sha256_ok: "sha256_ok toy_crypto"
  by (simp add: sha256_ok_def toy_crypto_def)


section \<open>Accounts\<close>

text \<open>A \<^verbatim>\<open>vodozemac::olm::Account\<close> as the code uses it: the texts of its identity keys and the text
  of a signature it makes. Documented behaviour: the texts are canonical and a signature verifies
  under the Ed25519 key of the account.\<close>

record account =
  acc_ed25519 :: string
  acc_curve25519 :: string
  acc_sign :: "string \<Rightarrow> string"

definition canonical_text :: "crypto_api \<Rightarrow> nat \<Rightarrow> string \<Rightarrow> string \<Rightarrow> bool" where
  "canonical_text C len text raw \<longleftrightarrow>
     length text = len \<and> list_all is_std_b64_char text \<and> b64_decode C text = Some raw \<and> b64_encode C raw = text"

definition account_ok :: "crypto_api \<Rightarrow> account \<Rightarrow> bool" where
  "account_ok C a \<longleftrightarrow>
     (\<exists>k. canonical_text C 43 (acc_ed25519 a) k \<and> length k = 32 \<and> ed_key_ok C k \<and>
        (\<forall>m. \<exists>s. canonical_text C 86 (acc_sign a m) s \<and> length s = 64 \<and> ed_sig_ok C s \<and> ed_verify C k m s)) \<and>
     (\<exists>k. canonical_text C 43 (acc_curve25519 a) k \<and> length k = 32)"

definition toy_account :: "char \<Rightarrow> account" where
  "toy_account c = \<lparr> acc_ed25519 = toy_key c, acc_curve25519 = toy_key CHR ''z'', acc_sign = toy_sign c \<rparr>"

lemma toy_canonical:
  "length x = n \<Longrightarrow> \<forall>c \<in> set x. is_std_b64_char c \<Longrightarrow> canonical_text toy_crypto ((4 * n + 2) div 3) (toy_encode x) x"
proof -
  assume x: "length x = n" "\<forall>c \<in> set x. is_std_b64_char c"
  have "is_std_b64_char CHR ''A''" by (simp add: is_std_b64_char_def ascii_defs)
  with x have "list_all is_std_b64_char (toy_encode x)" by (auto simp: toy_encode_def list_all_iff)
  moreover have "length (toy_encode x) = (4 * n + 2) div 3" using x by (simp add: toy_encode_def)
  ultimately show ?thesis by (simp add: canonical_text_def toy_crypto_def toy_encode_decode)
qed

lemma toy_account_ok:
  assumes "is_std_b64_char c"
  shows "account_ok toy_crypto (toy_account c)"
proof -
  have key: "canonical_text toy_crypto 43 (toy_key d) (replicate 32 d)" if "is_std_b64_char d" for d
    using toy_canonical [of "replicate 32 d" 32] that by (simp add: toy_key_def)
  have alnum: "is_std_b64_char d" if "d \<in> set (toy_digest m)" for d m
    using toy_digest_chars [OF that] by (simp add: is_std_b64_char_def)
  have sign: "canonical_text toy_crypto 86 (toy_sign c m) (toy_signature (replicate 32 c) m)" for m
    using toy_canonical [of "toy_signature (replicate 32 c) m" 64] assms alnum
    by (auto simp: toy_sign_def toy_signature_def)
  have z: "is_std_b64_char CHR ''z''" by (simp add: is_std_b64_char_def ascii_defs)
  have len: "length (toy_signature (replicate 32 c) m) = 64" for m by (simp add: toy_signature_def)
  have api: "ed_key_ok toy_crypto (replicate 32 c)" "ed_sig_ok toy_crypto (toy_signature (replicate 32 c) m)"
    "ed_verify toy_crypto (replicate 32 c) m (toy_signature (replicate 32 c) m)" for m
    by (simp_all add: toy_crypto_def len)
  show ?thesis
    unfolding account_ok_def toy_account_def account.simps
  proof (intro conjI)
    show "\<exists>k. canonical_text toy_crypto 43 (toy_key c) k \<and> length k = 32 \<and> ed_key_ok toy_crypto k \<and>
        (\<forall>m. \<exists>s. canonical_text toy_crypto 86 (toy_sign c m) s \<and> length s = 64 \<and> ed_sig_ok toy_crypto s \<and>
           ed_verify toy_crypto k m s)"
      using key [OF assms] sign api len by (metis length_replicate)
    show "\<exists>k. canonical_text toy_crypto 43 (toy_key CHR ''z'') k \<and> length k = 32"
      using key [OF z] by (intro exI [of _ "replicate 32 CHR ''z''"]) auto
  qed
qed

end
