(* ===== verification/Wire.thy ===== *)
theory Wire
  imports Json_Api Crypto_Api "HOL-Library.Multiset" "HOL-Library.Sublist"
begin

text \<open>
  The per-device wire of \<^verbatim>\<open>e2e_wire.rs\<close>: limits, strict key and signature text, device ids,
  version numbers, the texts the master and the devices sign, the device list rule, frames and
  fragments. The definitions follow the order of the source file; a \<^verbatim>\<open>crypto_api\<close> argument
  stands for the base64 and hash libraries.
\<close>

section \<open>Limits\<close>

definition MAX_LIST_DEVICES :: nat where "MAX_LIST_DEVICES = 4"
definition MAX_ENROLLED_DEVICES :: nat where "MAX_ENROLLED_DEVICES = 3"
definition MAX_VERSION :: nat where "MAX_VERSION = 2147483647"
definition KEY_TEXT_LEN :: nat where "KEY_TEXT_LEN = 43"
definition SIGNATURE_TEXT_LEN :: nat where "SIGNATURE_TEXT_LEN = 86"
definition DID_LEN :: nat where "DID_LEN = 11"
definition PAIRING_LIFETIME_SECS :: nat where "PAIRING_LIFETIME_SECS = 300"
definition PAIRING_MESSAGE_MAX_BYTES :: nat where "PAIRING_MESSAGE_MAX_BYTES = 16 * 1024"
definition PAIRING_TOTAL_MAX_BYTES :: nat where "PAIRING_TOTAL_MAX_BYTES = 64 * 1024"
definition PAIRING_MAX_MESSAGES :: nat where "PAIRING_MAX_MESSAGES = 64"

lemmas wire_limits = MAX_LIST_DEVICES_def MAX_ENROLLED_DEVICES_def MAX_VERSION_def KEY_TEXT_LEN_def
  SIGNATURE_TEXT_LEN_def DID_LEN_def PAIRING_LIFETIME_SECS_def PAIRING_MESSAGE_MAX_BYTES_def
  PAIRING_TOTAL_MAX_BYTES_def PAIRING_MAX_MESSAGES_def

text \<open>\<^verbatim>\<open>checked_add\<close> on \<^verbatim>\<open>usize\<close> (64 bits): no value past the largest one.\<close>

definition pairing_message_fits :: "nat \<Rightarrow> nat \<Rightarrow> nat \<Rightarrow> bool" where
  "pairing_message_fits n total_bytes next_len \<longleftrightarrow>
     next_len \<le> PAIRING_MESSAGE_MAX_BYTES \<and> n < PAIRING_MAX_MESSAGES \<and>
     total_bytes + next_len \<le> u64_max \<and> total_bytes + next_len \<le> PAIRING_TOTAL_MAX_BYTES"

definition WILDCARD :: string where "WILDCARD = ''*''"

definition FRAME_PREFIX :: string where "FRAME_PREFIX = CHR 0x01 # ''E2E ''"
definition FRAME_SUFFIX :: char where "FRAME_SUFFIX = CHR 0x01"

section \<open>Errors, verbs, frames\<close>

datatype WireError =
  BadFrame | BadVerb | BadMsgid | BadFragment | BadDid | BadKey | BadSignature | BadVersion
| BadAddress | BadJson | FragmentMismatch | DuplicateDevice | BadDeviceCount | BadIdCount | BadId
| BadTarget | BadPayload | PayloadTooLarge | TooManyLines | TooManyKeys | BadPriority | BadExpiry
| MissingField | BadFieldType | UnknownField

datatype Verb = KeyReq | Keys | PkMsg | Msg | Nack

fun Verb_as_str :: "Verb \<Rightarrow> string" where
  "Verb_as_str KeyReq = ''KEYREQ''"
| "Verb_as_str Keys = ''KEYS''"
| "Verb_as_str PkMsg = ''PKMSG''"
| "Verb_as_str Msg = ''MSG''"
| "Verb_as_str Nack = ''NACK''"

definition Verb_parse :: "string \<Rightarrow> WireError + Verb" where
  "Verb_parse text =
     (if text = ''KEYREQ'' then Inr KeyReq else if text = ''KEYS'' then Inr Keys
      else if text = ''PKMSG'' then Inr PkMsg else if text = ''MSG'' then Inr Msg
      else if text = ''NACK'' then Inr Nack else Inl BadVerb)"

record Frame =
  fr_verb :: Verb
  fr_msgid :: string
  fr_index :: nat
  fr_total :: nat
  fr_from :: string
  fr_to :: string
  fr_chunk :: string

section \<open>Strict key and signature text\<close>

definition decode_canonical :: "crypto_api \<Rightarrow> string \<Rightarrow> nat \<Rightarrow> string option" where
  "decode_canonical C text expected_len =
     (if length text \<noteq> expected_len \<or> \<not> list_all is_std_b64_char text then None
      else (case b64_decode C text of
              None \<Rightarrow> None
            | Some raw \<Rightarrow> if b64_encode C raw = text then Some raw else None))"

definition decode_key :: "crypto_api \<Rightarrow> string \<Rightarrow> WireError + string" where
  "decode_key C text =
     ok_or (Option.bind (decode_canonical C text KEY_TEXT_LEN)
              (\<lambda>raw. if length raw = 32 then Some raw else None)) BadKey"

definition decode_signature :: "crypto_api \<Rightarrow> string \<Rightarrow> WireError + string" where
  "decode_signature C text =
     ok_or (Option.bind (decode_canonical C text SIGNATURE_TEXT_LEN)
              (\<lambda>raw. if length raw = 64 then Some raw else None)) BadSignature"

definition did_from_raw_key :: "crypto_api \<Rightarrow> string \<Rightarrow> string" where
  "did_from_raw_key C key = b64url_encode C (take 8 (sha256 C key))"

definition did_from_key_text :: "crypto_api \<Rightarrow> string \<Rightarrow> WireError + string" where
  "did_from_key_text C key = rbind (decode_key C key) (\<lambda>raw. Inr (did_from_raw_key C raw))"

definition is_did_shape :: "crypto_api \<Rightarrow> string \<Rightarrow> bool" where
  "is_did_shape C text \<longleftrightarrow>
     length text = DID_LEN \<and> list_all is_url_b64_char text \<and>
     (case b64url_decode C text of None \<Rightarrow> False | Some raw \<Rightarrow> b64url_encode C raw = text)"

section \<open>Version numbers\<close>

text \<open>\<^verbatim>\<open>split_once(['e', 'E'])\<close>: the first of the two letters splits the text.\<close>

fun split_exponent :: "string \<Rightarrow> (string \<times> string) option" where
  "split_exponent [] = None"
| "split_exponent (x # xs) =
     (if x = CHR ''e'' \<or> x = CHR ''E'' then Some ([], xs)
      else map_option (\<lambda>(a, b). (x # a, b)) (split_exponent xs))"

text \<open>\<^verbatim>\<open>str::parse::<i64>\<close>: an optional sign, at least one digit, a value in range.\<close>

definition parse_i64 :: "string \<Rightarrow> int option" where
  "parse_i64 s =
     (case s of
        [] \<Rightarrow> None
      | c # cs \<Rightarrow>
          if c = CHR ''-'' then
            (if cs = [] \<or> \<not> list_all is_ascii_digit cs then None
             else if digits_value 0 cs \<le> i64_max + 1 then Some (- int (digits_value 0 cs)) else None)
          else map_option int (parse_uint i64_max s))"

definition integral_decimal :: "string \<Rightarrow> nat option" where
  "integral_decimal text =
     Option.bind
       (case split_exponent text of
          Some (mantissa, exponent) \<Rightarrow> map_option (\<lambda>e. (mantissa, e)) (parse_i64 exponent)
        | None \<Rightarrow> Some (text, 0))
       (\<lambda>(mantissa, exponent).
          let (whole, fraction) =
                (case split_once CHR ''.'' mantissa of Some p \<Rightarrow> p | None \<Rightarrow> (mantissa, []));
              digits = whole @ fraction
          in if digits = [] \<or> \<not> list_all is_ascii_digit digits then None
             else let digits = dropWhile (\<lambda>c. c = CHR ''0'') digits
                  in if digits = [] then Some 0
                     else let shift = exponent - int (length fraction)
                          in if shift < - (int i64_max + 1) then None
                             else if 0 \<le> shift then
                               (if int (length digits) + shift > 19 then None
                                else parse_uint u64_max (digits @ replicate (nat shift) CHR ''0''))
                             else let cut = nat (- shift)
                                  in if length digits < cut then None
                                     else let keep = length digits - cut
                                          in if \<not> list_all (\<lambda>b. b = CHR ''0'') (drop keep digits) then None
                                             else parse_uint u64_max (take keep digits))"

definition parse_version :: "string \<Rightarrow> WireError + nat" where
  "parse_version raw =
     rbind (ok_or (integral_decimal raw) BadVersion)
       (\<lambda>version. if version \<le> u32_max \<and> 1 \<le> version \<and> version \<le> MAX_VERSION
                  then Inr version else Inl BadVersion)"

section \<open>Signed texts\<close>

definition device_id_signed_text :: "string \<Rightarrow> string \<Rightarrow> string" where
  "device_id_signed_text curve25519_key master_ed25519_key =
     ''irc-e2e:v2:id:'' @ curve25519_key @ '':'' @ master_ed25519_key"

definition bundle_key_signed_text :: "crypto_api \<Rightarrow> string \<Rightarrow> WireError + string" where
  "bundle_key_signed_text C curve25519_key =
     rbind (decode_key C curve25519_key) (\<lambda>_. Inr (''irc-e2e:v1:otk:'' @ curve25519_key))"

definition check_version :: "nat \<Rightarrow> WireError + unit" where
  "check_version version =
     (if 1 \<le> version \<and> version \<le> MAX_VERSION then Inr () else Inl BadVersion)"

definition DEVICE_CERTIFICATE_PREFIX :: string where
  "DEVICE_CERTIFICATE_PREFIX = ''irc-e2e:v2:dev:''"

definition device_certificate_signed_text :: "crypto_api \<Rightarrow> nat \<Rightarrow> string \<Rightarrow> WireError + string" where
  "device_certificate_signed_text C first_list_version device_ed25519_key =
     rbind (check_version first_list_version) (\<lambda>_.
     rbind (decode_key C device_ed25519_key) (\<lambda>_.
       Inr (DEVICE_CERTIFICATE_PREFIX @ dec_string first_list_version @ '':'' @ device_ed25519_key)))"

text \<open>The bytes come as text here; a byte sequence that is not UTF-8 is refused with the same
  error as a text without the prefix.\<close>

definition parse_device_certificate_signed_text ::
    "crypto_api \<Rightarrow> string \<Rightarrow> WireError + (nat \<times> string)" where
  "parse_device_certificate_signed_text C text =
     rbind (ok_or (strip_prefix DEVICE_CERTIFICATE_PREFIX text) BadPayload) (\<lambda>rest.
     rbind (ok_or (split_once CHR '':'' rest) BadPayload) (\<lambda>(version, key).
       if version = [] \<or> length version > 10 \<or> starts_with ''0'' version
          \<or> \<not> list_all is_ascii_digit version
       then Inl BadVersion
       else rbind (ok_or (parse_uint u32_max version) BadVersion) (\<lambda>v.
            rbind (check_version v) (\<lambda>_.
            rbind (decode_key C key) (\<lambda>_. Inr (v, key))))))"

text \<open>The loop of \<^verbatim>\<open>check_list_devices\<close>: the ids seen so far are the accumulator.\<close>

fun check_list_loop :: "crypto_api \<Rightarrow> string list \<Rightarrow> string list \<Rightarrow> WireError + unit" where
  "check_list_loop C dids [] = Inr ()"
| "check_list_loop C dids (key # keys) =
     rbind (did_from_key_text C key)
       (\<lambda>did. if did \<in> set dids then Inl DuplicateDevice else check_list_loop C (dids @ [did]) keys)"

definition check_list_devices :: "crypto_api \<Rightarrow> string list \<Rightarrow> WireError + unit" where
  "check_list_devices C keys =
     (if keys = [] \<or> length keys > MAX_LIST_DEVICES then Inl BadDeviceCount
      else check_list_loop C [] keys)"

definition sort_list_keys :: "crypto_api \<Rightarrow> string list \<Rightarrow> WireError + string list" where
  "sort_list_keys C device_keys =
     rbind (check_list_devices C device_keys) (\<lambda>_. Inr (sort device_keys))"

definition list_text :: "nat \<Rightarrow> string list \<Rightarrow> string" where
  "list_text list_version keys =
     ''irc-e2e:v2:list:'' @ dec_string list_version @ '':'' @ join_with '','' keys"

definition signed_list_signed_text :: "crypto_api \<Rightarrow> nat \<Rightarrow> string list \<Rightarrow> WireError + string" where
  "signed_list_signed_text C list_version device_keys =
     rbind (check_version list_version) (\<lambda>_.
     rbind (sort_list_keys C device_keys) (\<lambda>sorted. Inr (list_text list_version sorted)))"

fun decode_keys :: "crypto_api \<Rightarrow> string list \<Rightarrow> WireError + (string \<times> string) list" where
  "decode_keys C [] = Inr []"
| "decode_keys C (key # keys) =
     rbind (decode_key C key) (\<lambda>raw. rbind (decode_keys C keys) (\<lambda>rest. Inr ((raw, key) # rest)))"

text \<open>\<^verbatim>\<open>raw.sort()\<close> orders the pairs by the raw bytes and then by the text.\<close>

definition sort_pairs :: "(string \<times> string) list \<Rightarrow> (string \<times> string) list" where
  "sort_pairs ps = sort_key fst (sort_key snd ps)"

definition legacy_raw_order_list_signed_text ::
    "crypto_api \<Rightarrow> nat \<Rightarrow> string list \<Rightarrow> WireError + string" where
  "legacy_raw_order_list_signed_text C list_version device_keys =
     rbind (check_version list_version) (\<lambda>_.
     rbind (check_list_devices C device_keys) (\<lambda>_.
     rbind (decode_keys C device_keys) (\<lambda>raw.
       Inr (list_text list_version (map snd (sort_pairs raw))))))"

definition recipient_binding :: "crypto_api \<Rightarrow> string \<Rightarrow> string \<Rightarrow> string" where
  "recipient_binding C sender_ed25519_key recipient_ed25519_key =
     b64_encode C (take 16 (sha256 C
       (''irc-e2e:v2:bind:'' @ sender_ed25519_key @ '':'' @ recipient_ed25519_key)))"

section \<open>The version rule of a signed list\<close>

datatype ListDecision = Replace | NoOp | Ignore

definition decide_list :: "(nat \<times> string list) option \<Rightarrow> nat \<Rightarrow> string list \<Rightarrow> ListDecision" where
  "decide_list stored new_version new_keys =
     (case stored of
        None \<Rightarrow> Replace
      | Some (version, keys) \<Rightarrow>
          if new_version > version then Replace
          else if new_version < version then Ignore
          else if sort keys = sort new_keys then NoOp else Ignore)"

section \<open>Frames\<close>

definition check_msgid :: "string \<Rightarrow> WireError + unit" where
  "check_msgid msgid =
     (if msgid = [] \<or> \<not> list_all is_std_b64_char msgid then Inl BadMsgid else Inr ())"

definition check_address :: "crypto_api \<Rightarrow> string \<Rightarrow> WireError + unit" where
  "check_address C text = (if text = WILDCARD \<or> is_did_shape C text then Inr () else Inl BadAddress)"

definition check_addresses :: "crypto_api \<Rightarrow> Verb \<Rightarrow> string \<Rightarrow> string \<Rightarrow> WireError + unit" where
  "check_addresses C verb from to =
     rbind (check_address C from) (\<lambda>_.
     rbind (check_address C to) (\<lambda>_.
       let from_any = (from = WILDCARD);
           to_any = (to = WILDCARD);
           ok = (case verb of
                   KeyReq \<Rightarrow> \<not> from_any \<and> to_any
                 | Keys \<Rightarrow> from_any \<and> \<not> to_any
                 | PkMsg \<Rightarrow> \<not> from_any
                 | Msg \<Rightarrow> \<not> from_any
                 | Nack \<Rightarrow> \<not> from_any \<and> \<not> to_any)
       in if ok then Inr () else Inl BadAddress))"

definition parse_count :: "string \<Rightarrow> WireError + nat" where
  "parse_count text =
     (if text = [] \<or> length text > 9 \<or> \<not> list_all is_ascii_digit text then Inl BadFragment
      else ok_or (parse_uint u32_max text) BadFragment)"

definition part :: "string list \<Rightarrow> nat \<Rightarrow> WireError + string" where
  "part parts i = (if i < length parts then Inr (parts ! i) else Inl BadFrame)"

definition parse_frame :: "crypto_api \<Rightarrow> string \<Rightarrow> WireError + Frame" where
  "parse_frame C text =
     rbind (ok_or (Option.bind (strip_prefix FRAME_PREFIX text) (strip_suffix [FRAME_SUFFIX])) BadFrame)
     (\<lambda>body.
      if \<not> list_all is_ascii_char body \<or> list_ex is_ascii_control body then Inl BadFrame
      else let parts = splitn 6 CHR '' '' body in
       rbind (part parts 0) (\<lambda>verb_text.
       rbind (Verb_parse verb_text) (\<lambda>verb.
       rbind (part parts 1) (\<lambda>msgid.
       rbind (part parts 2) (\<lambda>fragment.
       rbind (part parts 3) (\<lambda>from.
       rbind (part parts 4) (\<lambda>to.
       rbind (part parts 5) (\<lambda>chunk.
       rbind (check_msgid msgid) (\<lambda>_.
       rbind (ok_or (split_once CHR ''/'' fragment) BadFragment) (\<lambda>(index_text, total_text).
       rbind (parse_count index_text) (\<lambda>index.
       rbind (parse_count total_text) (\<lambda>total.
       if index = 0 \<or> index > total then Inl BadFragment
       else rbind (check_addresses C verb from to) (\<lambda>_.
         if chunk = [] \<or> FRAME_SUFFIX \<in> set chunk then Inl BadFrame
         else Inr \<lparr> fr_verb = verb, fr_msgid = msgid, fr_index = index, fr_total = total,
                    fr_from = from, fr_to = to, fr_chunk = chunk \<rparr>)))))))))))))"

definition frame_text :: "Frame \<Rightarrow> string" where
  "frame_text f =
     FRAME_PREFIX @ Verb_as_str (fr_verb f) @ '' '' @ fr_msgid f @ '' ''
     @ dec_string (fr_index f) @ ''/'' @ dec_string (fr_total f) @ '' ''
     @ fr_from f @ '' '' @ fr_to f @ '' '' @ fr_chunk f @ [FRAME_SUFFIX]"

definition format_frame :: "crypto_api \<Rightarrow> Frame \<Rightarrow> WireError + string" where
  "format_frame C frame =
     rbind (parse_frame C (frame_text frame))
       (\<lambda>parsed. if parsed \<noteq> frame then Inl BadFrame else Inr (frame_text frame))"

definition MAX_FRAGMENTS :: nat where "MAX_FRAGMENTS = 64"
definition FRAME_MSGID_LEN :: nat where "FRAME_MSGID_LEN = 11"

definition frame_line_budget :: "nat \<Rightarrow> string \<Rightarrow> nat" where
  "frame_line_budget frame_budget_base target = min frame_budget_base u64_max - length target"

definition frame_head_len :: "Verb \<Rightarrow> nat \<Rightarrow> string \<Rightarrow> string \<Rightarrow> nat" where
  "frame_head_len verb tot from to =
     length FRAME_PREFIX + length (Verb_as_str verb) + 1 + FRAME_MSGID_LEN + 1
     + 2 * length (dec_string tot) + 1 + 1 + length from + 1 + length to + 1"

definition frame_room :: "Verb \<Rightarrow> nat \<Rightarrow> nat \<Rightarrow> string \<Rightarrow> string \<Rightarrow> nat" where
  "frame_room verb tot line_budget from to = line_budget - (frame_head_len verb tot from to + 1)"

definition saturating_mul :: "nat \<Rightarrow> nat \<Rightarrow> nat" where
  "saturating_mul a b = min (a * b) u64_max"

definition frames_needed :: "Verb \<Rightarrow> nat \<Rightarrow> nat \<Rightarrow> string \<Rightarrow> string \<Rightarrow> nat option" where
  "frames_needed verb payload_len line_budget from to =
     List.find (\<lambda>total. let room = frame_room verb total line_budget from to
                        in room > 0 \<and> saturating_mul room total \<ge> payload_len)
       [1 ..< Suc MAX_FRAGMENTS]"

definition same_message :: "Frame \<Rightarrow> Frame \<Rightarrow> bool" where
  "same_message first frame \<longleftrightarrow>
     fr_verb frame = fr_verb first \<and> fr_msgid frame = fr_msgid first \<and>
     fr_from frame = fr_from first \<and> fr_to frame = fr_to first \<and> fr_total frame = fr_total first"

text \<open>The loop of \<^verbatim>\<open>assemble_fragments\<close> over the slots of the message.\<close>

fun assemble_loop :: "Frame \<Rightarrow> string option list \<Rightarrow> Frame list \<Rightarrow> WireError + string option list" where
  "assemble_loop first chunks [] = Inr chunks"
| "assemble_loop first chunks (frame # frames) =
     (if \<not> same_message first frame then Inl FragmentMismatch
      else if fr_index frame = 0 \<or> fr_index frame - 1 \<ge> length chunks then Inl BadFragment
      else if chunks ! (fr_index frame - 1) \<noteq> None then Inl BadFragment
      else assemble_loop first (chunks[fr_index frame - 1 := Some (fr_chunk frame)]) frames)"

definition flatten_chunks :: "string option list \<Rightarrow> string" where
  "flatten_chunks chunks = concat (List.map_filter (\<lambda>x. x) chunks)"

definition assemble_fragments :: "Frame list \<Rightarrow> WireError + string" where
  "assemble_fragments frames =
     (case frames of
        [] \<Rightarrow> Inl BadFragment
      | first # _ \<Rightarrow>
          if length frames \<noteq> fr_total first then Inl BadFragment
          else rbind (assemble_loop first (replicate (length frames) None) frames)
                 (\<lambda>chunks. Inr (flatten_chunks chunks)))"

section \<open>JSON objects\<close>

text \<open>\<^verbatim>\<open>from_str\<close> is the JSON reader of the library, a parameter.\<close>

definition parse_payload :: "(string \<Rightarrow> 'v option) \<Rightarrow> string \<Rightarrow> WireError + 'v" where
  "parse_payload from_str text =
     (if \<not> list_all is_ascii_char text \<or> list_ex is_ascii_control text then Inl BadJson
      else ok_or (from_str text) BadJson)"

definition as_object :: "'v json_api \<Rightarrow> 'v \<Rightarrow> WireError + (string \<times> 'v) list" where
  "as_object J value = ok_or (as_map J value) BadFieldType"

definition required_str :: "'v json_api \<Rightarrow> (string \<times> 'v) list \<Rightarrow> string \<Rightarrow> WireError + string" where
  "required_str J m key =
     rbind (ok_or (map_of m key) MissingField) (\<lambda>v. ok_or (as_str J v) BadFieldType)"

definition reject_unknown_fields :: "(string \<times> 'v) list \<Rightarrow> string list \<Rightarrow> WireError + unit" where
  "reject_unknown_fields m allowed =
     (if list_ex (\<lambda>(key, _). key \<notin> set allowed) m then Inl UnknownField else Inr ())"

section \<open>Lemmas: keys and device ids\<close>

lemma decode_canonical_Some:
  "decode_canonical C text n = Some raw \<longleftrightarrow>
     length text = n \<and> list_all is_std_b64_char text \<and> b64_decode C text = Some raw \<and> b64_encode C raw = text"
  by (auto simp: decode_canonical_def split: option.splits)

lemma decode_key_Inr:
  "decode_key C text = Inr raw \<longleftrightarrow>
     length text = 43 \<and> list_all is_std_b64_char text \<and> b64_decode C text = Some raw \<and>
     b64_encode C raw = text \<and> length raw = 32"
  by (auto simp: decode_key_def decode_canonical_Some bind_eq_Some_conv KEY_TEXT_LEN_def split: if_splits)

lemma decode_signature_Inr:
  "decode_signature C text = Inr raw \<longleftrightarrow>
     length text = 86 \<and> list_all is_std_b64_char text \<and> b64_decode C text = Some raw \<and>
     b64_encode C raw = text \<and> length raw = 64"
  by (auto simp: decode_signature_def decode_canonical_Some bind_eq_Some_conv SIGNATURE_TEXT_LEN_def
      split: if_splits)

lemma decode_key_Inl: "decode_key C text = Inl e \<Longrightarrow> e = BadKey"
  by (cases "Option.bind (decode_canonical C text KEY_TEXT_LEN) (\<lambda>raw. if length raw = 32 then Some raw else None)")
     (auto simp: decode_key_def)

lemma decode_key_chars: "decode_key C text = Inr raw \<Longrightarrow> c \<in> set text \<Longrightarrow> is_std_b64_char c"
  by (auto simp: decode_key_Inr list_all_iff)

lemma decode_key_no_separator:
  assumes "decode_key C text = Inr raw"
  shows "CHR '':'' \<notin> set text" "CHR '','' \<notin> set text" "text \<noteq> []"
proof -
  show "CHR '':'' \<notin> set text" "CHR '','' \<notin> set text"
    using decode_key_chars [OF assms] b64_char_not_separator by blast+
  show "text \<noteq> []" using assms by (auto simp: decode_key_Inr)
qed

lemma did_from_key_text_Inr:
  "did_from_key_text C key = Inr did \<longleftrightarrow> (\<exists>raw. decode_key C key = Inr raw \<and> did = did_from_raw_key C raw)"
  by (auto simp: did_from_key_text_def rbind_eq_Inr)

lemma did_from_key_text_Inl: "did_from_key_text C key = Inl e \<Longrightarrow> e = BadKey"
  by (auto simp: did_from_key_text_def rbind_eq_Inl dest: decode_key_Inl)

lemma did_from_raw_key_shape: "did_encoding_ok C \<Longrightarrow> is_did_shape C (did_from_raw_key C raw)"
  by (auto simp: did_encoding_ok_def is_did_shape_def did_from_raw_key_def DID_LEN_def Let_def)

lemma is_did_shape_chars:
  assumes "is_did_shape C text"
  shows "length text = 11" "c \<in> set text \<Longrightarrow> is_url_b64_char c"
  using assms by (auto simp: is_did_shape_def DID_LEN_def list_all_iff)

section \<open>Lemmas: lists of devices\<close>

lemma check_list_loop_ok:
  "check_list_loop C dids keys = Inr () \<longleftrightarrow>
     (\<exists>ds. map (did_from_key_text C) keys = map Inr ds \<and> distinct ds \<and> set ds \<inter> set dids = {})"
proof (induction keys arbitrary: dids)
  case Nil
  then show ?case by simp
next
  case (Cons key keys)
  show ?case
  proof (cases "did_from_key_text C key")
    case (Inl e)
    then show ?thesis by auto
  next
    case (Inr d)
    show ?thesis
    proof
      assume "check_list_loop C dids (key # keys) = Inr ()"
      with Inr have d: "d \<notin> set dids" and "check_list_loop C (dids @ [d]) keys = Inr ()"
        by (auto split: if_splits)
      with Cons.IH obtain ds where
        "map (did_from_key_text C) keys = map Inr ds" "distinct ds" "set ds \<inter> set (dids @ [d]) = {}"
        by blast
      with Inr d show "\<exists>ds. map (did_from_key_text C) (key # keys) = map Inr ds \<and> distinct ds \<and> set ds \<inter> set dids = {}"
        by (intro exI [of _ "d # ds"]) auto
    next
      assume "\<exists>ds. map (did_from_key_text C) (key # keys) = map Inr ds \<and> distinct ds \<and> set ds \<inter> set dids = {}"
      then obtain d' ds where *: "did_from_key_text C key = Inr d'"
        "map (did_from_key_text C) keys = map Inr ds" "distinct (d' # ds)" "set (d' # ds) \<inter> set dids = {}"
        by (auto simp: Cons_eq_map_conv)
      then have "check_list_loop C (dids @ [d']) keys = Inr ()"
        unfolding Cons.IH by (intro exI [of _ ds]) auto
      with * show "check_list_loop C dids (key # keys) = Inr ()" by auto
    qed
  qed
qed

definition list_devices_ok :: "crypto_api \<Rightarrow> string list \<Rightarrow> bool" where
  "list_devices_ok C keys \<longleftrightarrow>
     1 \<le> length keys \<and> length keys \<le> MAX_LIST_DEVICES \<and>
     (\<forall>key \<in> set keys. is_ok (decode_key C key)) \<and>
     distinct (map (did_from_key_text C) keys)"

lemma check_list_devices_ok: "check_list_devices C keys = Inr () \<longleftrightarrow> list_devices_ok C keys"
proof -
  have "(\<exists>ds. map (did_from_key_text C) keys = map Inr ds \<and> distinct ds) \<longleftrightarrow>
        (\<forall>key \<in> set keys. is_ok (decode_key C key)) \<and> distinct (map (did_from_key_text C) keys)"
    (is "?l \<longleftrightarrow> ?r")
  proof
    assume ?l
    then obtain ds where ds: "map (did_from_key_text C) keys = map Inr ds" "distinct ds" by blast
    have "distinct (map (Inr :: string \<Rightarrow> WireError + string) ds)"
      using ds(2) by (simp add: distinct_map)
    moreover have "\<exists>d. did_from_key_text C key = Inr d" if "key \<in> set keys" for key
      using ds(1) that by (metis (mono_tags, lifting) imageE image_eqI list.set_map)
    ultimately show ?r using ds(1)
      by (auto simp: did_from_key_text_Inr is_ok_iff)
  next
    assume r: ?r
    define ds where "ds = map (\<lambda>k. projr (did_from_key_text C k)) keys"
    have "did_from_key_text C k = Inr (projr (did_from_key_text C k))" if "k \<in> set keys" for k
      using r that by (auto simp: is_ok_iff did_from_key_text_def)
    then have eq: "map (did_from_key_text C) keys = map Inr ds"
      by (simp add: ds_def)
    with r have "distinct (map (Inr :: string \<Rightarrow> WireError + string) ds)" by simp
    then have "distinct ds" by (simp add: distinct_map)
    with eq show ?l by blast
  qed
  then show ?thesis
    by (auto simp: check_list_devices_def list_devices_ok_def check_list_loop_ok Suc_le_eq)
qed

lemma list_devices_ok_keys:
  assumes "list_devices_ok C keys"
  shows "distinct keys" "keys \<noteq> []" "key \<in> set keys \<Longrightarrow> \<exists>raw. decode_key C key = Inr raw"
  using assms by (auto simp: list_devices_ok_def is_ok_iff distinct_map)

lemma list_devices_ok_mset: "mset keys = mset keys' \<Longrightarrow> list_devices_ok C keys = list_devices_ok C keys'"
proof -
  assume m: "mset keys = mset keys'"
  then have "mset (map (did_from_key_text C) keys) = mset (map (did_from_key_text C) keys')"
    by simp
  then have "distinct (map (did_from_key_text C) keys) = distinct (map (did_from_key_text C) keys')"
    using mset_eq_imp_distinct_iff by blast
  with m show ?thesis
    by (simp add: list_devices_ok_def mset_eq_length [OF m] mset_eq_setD [OF m])
qed

lemma check_version_Inr [simp]: "check_version v = Inr () \<longleftrightarrow> 1 \<le> v \<and> v \<le> MAX_VERSION"
  by (simp add: check_version_def)

lemma signed_list_signed_text_Inr:
  "signed_list_signed_text C v keys = Inr text \<longleftrightarrow>
     1 \<le> v \<and> v \<le> MAX_VERSION \<and> list_devices_ok C keys \<and> text = list_text v (sort keys)"
  by (auto simp: signed_list_signed_text_def sort_list_keys_def rbind_eq_Inr check_list_devices_ok)

lemma sort_eq_iff_mset: "sort xs = sort ys \<longleftrightarrow> mset xs = mset (ys :: string list)"
  by (metis mset_sort properties_for_sort sorted_sort)

lemma decide_list_cases:
  "decide_list stored v keys = Replace \<longleftrightarrow> (case stored of None \<Rightarrow> True | Some (w, _) \<Rightarrow> w < v)"
  "decide_list stored v keys = NoOp \<longleftrightarrow> (case stored of None \<Rightarrow> False | Some (w, old) \<Rightarrow> w = v \<and> mset old = mset keys)"
  by (auto simp: decide_list_def sort_eq_iff_mset split: option.splits)

text \<open>Joining texts without the separator can be undone.\<close>

lemma join_with_inject:
  "\<lbrakk>xs \<noteq> []; ys \<noteq> []; \<forall>x \<in> set xs. c \<notin> set x; \<forall>y \<in> set ys. c \<notin> set y;
    join_with [c] xs = join_with [c] ys\<rbrakk> \<Longrightarrow> xs = ys"
proof (induction xs arbitrary: ys)
  case Nil
  then show ?case by simp
next
  case (Cons x xs)
  obtain y ys' where ys: "ys = y # ys'" using Cons.prems(2) by (cases ys) simp_all
  have x: "split_once c (join_with [c] (x # xs)) = (if xs = [] then None else Some (x, join_with [c] xs))"
    using Cons.prems(3) by (cases xs) (auto simp: split_once_None_iff)
  have y: "split_once c (join_with [c] (y # ys')) = (if ys' = [] then None else Some (y, join_with [c] ys'))"
    using Cons.prems(4) ys by (cases ys') (auto simp: split_once_None_iff)
  show ?case
  proof (cases "xs = []")
    case True
    with x y ys Cons.prems(5) have "ys' = []" by (auto split: if_splits)
    with True ys Cons.prems(5) show ?thesis by simp
  next
    case False
    with x y ys Cons.prems(5) have "ys' \<noteq> []" "x = y" "join_with [c] xs = join_with [c] ys'"
      by (auto split: if_splits)
    moreover have "xs = ys'"
      using Cons.prems ys False calculation by (intro Cons.IH) auto
    ultimately show ?thesis using ys by simp
  qed
qed

lemma dec_string_no_colon: "CHR '':'' \<notin> set (dec_string n)"
  using dec_string_digit_set digit_not_special by blast

lemma dec_string_inject [simp]: "dec_string a = dec_string b \<longleftrightarrow> a = b"
  by (metis digits_value_dec_string)

lemma list_text_inject:
  assumes "list_text v xs = list_text w ys"
  shows "v = w" "join_with '','' xs = join_with '','' ys"
proof -
  have "split_once CHR '':'' (dec_string v @ CHR '':'' # join_with '','' xs) =
        split_once CHR '':'' (dec_string w @ CHR '':'' # join_with '','' ys)"
    using assms by (simp add: list_text_def)
  then show "v = w" "join_with '','' xs = join_with '','' ys"
    by (simp_all add: dec_string_no_colon)
qed

section \<open>Lemmas: frames\<close>

lemma splitn_step: "c \<notin> set a \<Longrightarrow> splitn (Suc (Suc n)) c (a @ c # b) = a # splitn (Suc n) c b"
  by simp

lemma splitn_set: "x \<in> set (splitn n c s) \<Longrightarrow> set x \<subseteq> set s"
proof (induction n c s arbitrary: x rule: splitn.induct)
  case (3 n c s)
  then show ?case
    by (auto split: option.splits dest!: split_once_SomeD) blast
qed auto

lemma digits_value_less: "list_all is_ascii_digit s \<Longrightarrow> digits_value a s < (a + 1) * 10 ^ length s"
proof (induction s arbitrary: a)
  case Nil
  then show ?case by simp
next
  case (Cons c s)
  then have "is_ascii_digit c" by simp
  then have "digit_val c \<le> 9" unfolding is_ascii_digit_def digit_val_def by linarith
  then have "10 * a + digit_val c + 1 \<le> 10 * (a + 1)" by simp
  then have "(10 * a + digit_val c + 1) * 10 ^ length s \<le> 10 * (a + 1) * 10 ^ length s"
    by (rule mult_right_mono) simp
  moreover have "digits_value (10 * a + digit_val c) s < (10 * a + digit_val c + 1) * 10 ^ length s"
    using Cons by simp
  ultimately show ?case by (simp only: digits_value.simps length_Cons power_Suc mult.assoc mult.left_commute)
qed

lemma digits_value_bound: "list_all is_ascii_digit s \<Longrightarrow> digits_value 0 s < 10 ^ length s"
  using digits_value_less [of s 0] by simp

lemma parse_count_Inr:
  "parse_count text = Inr n \<longleftrightarrow>
     text \<noteq> [] \<and> length text \<le> 9 \<and> list_all is_ascii_digit text \<and> n = digits_value 0 text"
proof -
  have "digits_value 0 text \<le> u32_max" if "length text \<le> 9" "list_all is_ascii_digit text"
  proof -
    have "digits_value 0 text < 10 ^ length text" using that(2) by (rule digits_value_bound)
    also have "\<dots> \<le> 10 ^ 9" using that(1) by (intro power_increasing) auto
    finally show ?thesis by (simp add: u32_max_def)
  qed
  then show ?thesis
    by (auto simp: parse_count_def parse_uint_digits)
qed

lemma parse_count_dec_string: "n < 10 ^ 9 \<Longrightarrow> parse_count (dec_string n) = Inr n"
  unfolding parse_count_Inr by (auto simp: dec_string_digits intro: length_dec_string_le)

lemma parse_count_bound:
  assumes "parse_count text = Inr n"
  shows "n < 10 ^ 9"
proof -
  have "n < 10 ^ length text" using assms by (auto simp: parse_count_Inr digits_value_bound)
  also have "(10::nat) ^ length text \<le> 10 ^ 9" using assms by (intro power_increasing) (auto simp: parse_count_Inr)
  finally show ?thesis .
qed

definition printable :: "char \<Rightarrow> bool" where
  "printable c \<longleftrightarrow> is_ascii_char c \<and> \<not> is_ascii_control c"

definition frame_ok :: "crypto_api \<Rightarrow> Frame \<Rightarrow> bool" where
  "frame_ok C f \<longleftrightarrow>
     fr_msgid f \<noteq> [] \<and> list_all is_std_b64_char (fr_msgid f) \<and>
     1 \<le> fr_index f \<and> fr_index f \<le> fr_total f \<and> fr_total f < 10 ^ 9 \<and>
     check_addresses C (fr_verb f) (fr_from f) (fr_to f) = Inr () \<and>
     fr_chunk f \<noteq> [] \<and> list_all printable (fr_chunk f)"

lemma Verb_parse_as_str [simp]: "Verb_parse (Verb_as_str v) = Inr v"
  by (cases v) (simp_all add: Verb_parse_def)

lemma Verb_parse_Inr: "Verb_parse t = Inr v \<longleftrightarrow> t = Verb_as_str v"
  by (cases v) (auto simp: Verb_parse_def split: if_splits)

lemma check_address_chars: "check_address C t = Inr () \<Longrightarrow> c \<in> set t \<Longrightarrow> printable c \<and> c \<noteq> CHR '' ''"
proof -
  assume a: "check_address C t = Inr ()" and c: "c \<in> set t"
  from a have "t = WILDCARD \<or> is_did_shape C t" by (simp add: check_address_def split: if_splits)
  then show ?thesis
  proof
    assume "t = WILDCARD"
    with c show ?thesis by (simp add: WILDCARD_def printable_def ascii_defs)
  next
    assume "is_did_shape C t"
    then have "is_url_b64_char c" using c is_did_shape_chars by blast
    then show ?thesis using url_char_not_separator by (auto simp: printable_def)
  qed
qed

lemma check_addresses_each:
  "check_addresses C v from to = Inr () \<Longrightarrow> check_address C from = Inr () \<and> check_address C to = Inr ()"
  by (auto simp: check_addresses_def rbind_eq_Inr)

definition frame_body :: "Frame \<Rightarrow> string" where
  "frame_body f = Verb_as_str (fr_verb f) @ CHR '' '' # fr_msgid f @ CHR '' ''
     # (dec_string (fr_index f) @ CHR ''/'' # dec_string (fr_total f)) @ CHR '' ''
     # fr_from f @ CHR '' '' # fr_to f @ CHR '' '' # fr_chunk f"

lemma frame_text_body: "frame_text f = FRAME_PREFIX @ frame_body f @ [FRAME_SUFFIX]"
  by (simp add: frame_text_def frame_body_def)

lemma Verb_as_str_chars: "c \<in> set (Verb_as_str v) \<Longrightarrow> printable c \<and> c \<noteq> CHR '' ''"
  by (cases v) (auto simp: printable_def ascii_defs)

lemma dec_string_chars: "c \<in> set (dec_string n) \<Longrightarrow> printable c \<and> c \<noteq> CHR '' '' \<and> c \<noteq> CHR ''/''"
  using dec_string_digit_set [of c n] by (auto simp: printable_def ascii_defs)

lemma std_b64_chars: "is_std_b64_char c \<Longrightarrow> printable c \<and> c \<noteq> CHR '' ''"
  using b64_char_not_separator by (auto simp: printable_def)

lemma frame_body_printable: "frame_ok C f \<Longrightarrow> list_all printable (frame_body f)"
  unfolding list_all_iff
proof
  fix c assume ok: "frame_ok C f" and "c \<in> set (frame_body f)"
  then consider "c \<in> set (Verb_as_str (fr_verb f))" | "c = CHR '' ''" | "c = CHR ''/''"
    | "c \<in> set (fr_msgid f)" | "c \<in> set (dec_string (fr_index f)) \<union> set (dec_string (fr_total f))"
    | "c \<in> set (fr_from f) \<union> set (fr_to f)" | "c \<in> set (fr_chunk f)"
    by (auto simp: frame_body_def)
  moreover have "printable CHR '' ''" "printable CHR ''/''"
    by (simp_all add: printable_def ascii_defs)
  moreover have "printable c" if "c \<in> set (fr_msgid f)"
    using that ok std_b64_chars by (auto simp: frame_ok_def list_all_iff)
  moreover have "printable c" if "c \<in> set (fr_from f) \<union> set (fr_to f)"
    using that ok check_addresses_each check_address_chars unfolding frame_ok_def by (metis UnE)
  moreover have "printable c" if "c \<in> set (fr_chunk f)"
    using that ok by (auto simp: frame_ok_def list_all_iff)
  ultimately show "printable c"
    by cases (use Verb_as_str_chars dec_string_chars in blast)+
qed

lemma printable_body_checks:
  "list_all printable s \<Longrightarrow> list_all is_ascii_char s \<and> \<not> list_ex is_ascii_control s"
  by (auto simp: list_all_iff list_ex_iff printable_def)

lemma frame_body_split:
  assumes "frame_ok C f"
  shows "splitn 6 CHR '' '' (frame_body f) =
     [Verb_as_str (fr_verb f), fr_msgid f, dec_string (fr_index f) @ CHR ''/'' # dec_string (fr_total f),
      fr_from f, fr_to f, fr_chunk f]"
proof -
  have v: "CHR '' '' \<notin> set (Verb_as_str (fr_verb f))" using Verb_as_str_chars by blast
  have m: "CHR '' '' \<notin> set (fr_msgid f)"
    using assms std_b64_chars by (auto simp: frame_ok_def list_all_iff)
  have d: "CHR '' '' \<notin> set (dec_string (fr_index f) @ CHR ''/'' # dec_string (fr_total f))"
    using dec_string_chars by auto
  have a: "CHR '' '' \<notin> set (fr_from f)" "CHR '' '' \<notin> set (fr_to f)"
    using assms check_addresses_each check_address_chars by (fastforce simp: frame_ok_def)+
  have six: "(6::nat) = Suc (Suc (Suc (Suc (Suc (Suc 0)))))" by simp
  show ?thesis
    unfolding frame_body_def six by (simp only: splitn_step [OF v] splitn_step [OF m] splitn_step [OF d]
        splitn_step [OF a(1)] splitn_step [OF a(2)] splitn.simps(2))
qed

lemma parse_frame_text:
  assumes ok: "frame_ok C f"
  shows "parse_frame C (frame_text f) = Inr f"
proof -
  have sfx: "FRAME_SUFFIX \<notin> set (fr_chunk f)"
    using ok by (auto simp: frame_ok_def list_all_iff printable_def ascii_defs FRAME_SUFFIX_def)
  have slash: "CHR ''/'' \<notin> set (dec_string (fr_index f))" using dec_string_chars by blast
  have small: "fr_index f < 10 ^ 9" using ok by (simp add: frame_ok_def)
  show ?thesis
    unfolding parse_frame_def frame_text_body
    using ok printable_body_checks [OF frame_body_printable [OF ok]] sfx slash small
    by (simp add: frame_body_split [OF ok] part_def split_once_append parse_count_dec_string
        frame_ok_def check_msgid_def Let_def)
qed

lemma parse_frame_ok:
  assumes "parse_frame C text = Inr f"
  shows "frame_ok C f"
proof -
  obtain body where body: "list_all is_ascii_char body" "\<not> list_ex is_ascii_control body"
    and chunk: "length (splitn 6 CHR '' '' body) > 5" "fr_chunk f = splitn 6 CHR '' '' body ! 5" "fr_chunk f \<noteq> []"
    and rest: "check_msgid (fr_msgid f) = Inr ()" "\<exists>t. parse_count t = Inr (fr_total f)"
      "0 < fr_index f" "fr_index f \<le> fr_total f" "check_addresses C (fr_verb f) (fr_from f) (fr_to f) = Inr ()"
    using assms unfolding parse_frame_def Let_def
    by (auto simp: rbind_eq_Inr part_def split: if_splits prod.splits) blast
  from chunk have "set (fr_chunk f) \<subseteq> set body"
    by (intro splitn_set [of _ 6 "CHR '' ''"]) (auto intro: nth_mem)
  then have "list_all printable (fr_chunk f)"
    using body by (auto simp: list_all_iff list_ex_iff printable_def)
  moreover have "fr_total f < 10 ^ 9" using rest(2) parse_count_bound by blast
  ultimately show ?thesis using chunk rest
    by (auto simp: frame_ok_def check_msgid_def split: if_splits)
qed

lemma format_frame_Inr: "format_frame C f = Inr text \<longleftrightarrow> frame_ok C f \<and> text = frame_text f"
  by (auto simp: format_frame_def rbind_eq_Inr parse_frame_text dest: parse_frame_ok split: if_splits)

section \<open>Lemmas: fragments\<close>

text \<open>The fragments a sender cuts a message into: fragment \<open>i\<close> carries chunk \<open>i\<close>, counted from
  one, and all share the head \<open>h\<close>.\<close>

definition fragments :: "Frame \<Rightarrow> string list \<Rightarrow> Frame list" where
  "fragments h cs =
     map (\<lambda>i. h\<lparr>fr_index := Suc i, fr_total := length cs, fr_chunk := cs ! i\<rparr>) [0 ..< length cs]"

lemma length_fragments [simp]: "length (fragments h cs) = length cs"
  by (simp add: fragments_def)

lemma set_fragments:
  "f \<in> set (fragments h cs) \<longleftrightarrow>
     (\<exists>i < length cs. f = h\<lparr>fr_index := Suc i, fr_total := length cs, fr_chunk := cs ! i\<rparr>)"
  by (auto simp: fragments_def image_iff)

lemma fragments_indices: "map fr_index (fragments h cs) = map Suc [0 ..< length cs]"
  by (simp add: fragments_def)

lemma distinct_fragments_index: "distinct (map fr_index (fragments h cs))"
  by (simp add: fragments_indices distinct_map)

text \<open>The slots after a successful loop: a slot holds the chunk of the frame with its index, or
  what it held before.\<close>

lemma assemble_loop_Inr:
  "assemble_loop first chunks frames = Inr chunks' \<Longrightarrow>
     (\<forall>f \<in> set frames. same_message first f \<and> 1 \<le> fr_index f \<and> fr_index f \<le> length chunks
        \<and> chunks ! (fr_index f - 1) = None \<and> chunks' ! (fr_index f - 1) = Some (fr_chunk f))
     \<and> distinct (map fr_index frames) \<and> length chunks' = length chunks
     \<and> (\<forall>i < length chunks. chunks ! i \<noteq> None \<longrightarrow> chunks' ! i = chunks ! i)"
proof (induction first chunks frames rule: assemble_loop.induct)
  case (1 first chunks)
  then show ?case by simp
next
  case (2 first chunks frame frames)
  let ?i = "fr_index frame - 1"
  let ?next = "chunks[?i := Some (fr_chunk frame)]"
  from "2.prems" have ok: "same_message first frame" "fr_index frame \<noteq> 0" "?i < length chunks"
    "chunks ! ?i = None" and loop: "assemble_loop first ?next frames = Inr chunks'"
    by (auto split: if_splits)
  have IH: "(\<forall>f \<in> set frames. same_message first f \<and> 1 \<le> fr_index f \<and> fr_index f \<le> length ?next
        \<and> ?next ! (fr_index f - 1) = None \<and> chunks' ! (fr_index f - 1) = Some (fr_chunk f))
     \<and> distinct (map fr_index frames) \<and> length chunks' = length ?next
     \<and> (\<forall>i < length ?next. ?next ! i \<noteq> None \<longrightarrow> chunks' ! i = ?next ! i)"
    using 2 ok loop by simp
  have other: "fr_index f - 1 \<noteq> ?i" if "f \<in> set frames" for f
    using IH that ok(3) by (metis nth_list_update_eq option.distinct(1))
  then have "fr_index frame \<notin> fr_index ` set frames" by force
  moreover have "\<forall>f \<in> set frames. chunks ! (fr_index f - 1) = None"
    using IH other by (metis nth_list_update_neq)
  moreover have "chunks' ! ?i = Some (fr_chunk frame)"
    using IH ok(3) by (metis length_list_update nth_list_update_eq option.distinct(1))
  moreover have "chunks' ! i = chunks ! i" if "i < length chunks" "chunks ! i \<noteq> None" for i
    using IH ok(4) that by (metis length_list_update nth_list_update_neq)
  ultimately show ?case using IH ok by auto
qed

lemma assemble_loop_complete:
  "\<lbrakk>\<forall>f \<in> set frames. same_message first f \<and> 1 \<le> fr_index f \<and> fr_index f \<le> length chunks
      \<and> chunks ! (fr_index f - 1) = None; distinct (map fr_index frames)\<rbrakk>
   \<Longrightarrow> \<exists>chunks'. assemble_loop first chunks frames = Inr chunks'"
proof (induction first chunks frames rule: assemble_loop.induct)
  case (1 first chunks)
  then show ?case by simp
next
  case (2 first chunks frame frames)
  let ?i = "fr_index frame - 1"
  have ok: "same_message first frame" "fr_index frame \<noteq> 0" "?i < length chunks" "chunks ! ?i = None"
    using "2.prems"(1) by auto
  have other: "fr_index f - 1 \<noteq> ?i" if "f \<in> set frames" for f
  proof -
    have "fr_index f \<noteq> fr_index frame" using "2.prems"(2) that by (auto simp: image_iff)
    moreover have "1 \<le> fr_index f" using "2.prems"(1) that by simp
    ultimately show ?thesis using ok(2) by linarith
  qed
  have "\<exists>chunks'. assemble_loop first (chunks[?i := Some (fr_chunk frame)]) frames = Inr chunks'"
  proof (rule "2.IH")
    show "\<forall>f \<in> set frames. same_message first f \<and> 1 \<le> fr_index f
        \<and> fr_index f \<le> length (chunks[?i := Some (fr_chunk frame)])
        \<and> chunks[?i := Some (fr_chunk frame)] ! (fr_index f - 1) = None"
      using "2.prems"(1) other by (metis length_list_update list.set_intros(2) nth_list_update_neq)
  qed (use "2.prems"(2) ok in auto)
  with ok show ?case by auto
qed

lemma flatten_all_Some: "flatten_chunks (map Some cs) = concat cs"
  by (simp add: flatten_chunks_def List.map_filter_def comp_def)

lemma index_image:
  assumes "distinct (map fr_index frames)" "\<forall>f \<in> set frames. 1 \<le> fr_index f \<and> fr_index f \<le> length frames"
  shows "fr_index ` set frames = {1 .. length frames}"
proof -
  have "card (fr_index ` set frames) = length frames"
    using assms(1) by (metis distinct_card length_map list.set_map)
  then show ?thesis using assms(2)
    by (intro card_subset_eq) auto
qed

lemma assemble_fragments_complete:
  assumes cs: "cs \<noteq> []" and perm: "mset frames = mset (fragments h cs)"
  shows "assemble_fragments frames = Inr (concat cs)"
proof -
  have len: "length frames = length cs" using mset_eq_length [OF perm] by simp
  have set_eq: "set frames = set (fragments h cs)" using mset_eq_setD [OF perm] .
  have dist: "distinct (map fr_index frames)"
    using perm distinct_fragments_index [of h cs] by (metis mset_eq_imp_distinct_iff mset_map)
  obtain first rest where fr: "frames = first # rest" using cs len by (cases frames) auto
  have first: "first \<in> set (fragments h cs)" using fr set_eq by auto
  then have all: "\<forall>f \<in> set frames. same_message first f \<and> 1 \<le> fr_index f \<and> fr_index f \<le> length frames"
    unfolding set_eq len by (auto simp: set_fragments same_message_def)
  obtain chunks where loop: "assemble_loop first (replicate (length frames) None) frames = Inr chunks"
    using assemble_loop_complete [of frames first "replicate (length frames) None"] all dist by force
  note slots = assemble_loop_Inr [OF loop]
  have "chunks = map Some cs"
  proof (rule nth_equalityI)
    show "length chunks = length (map Some cs)" using slots len by simp
    fix i assume "i < length chunks"
    then have i: "i < length cs" using slots len by simp
    let ?f = "h\<lparr>fr_index := Suc i, fr_total := length cs, fr_chunk := cs ! i\<rparr>"
    have "?f \<in> set frames" using i set_eq by (auto simp: set_fragments)
    then have "chunks ! (fr_index ?f - 1) = Some (fr_chunk ?f)" using slots by blast
    then show "chunks ! i = map Some cs ! i" using i by simp
  qed
  moreover have "fr_total first = length frames" using first len by (auto simp: set_fragments)
  ultimately show ?thesis using loop fr
    by (simp add: assemble_fragments_def flatten_all_Some del: assemble_loop.simps)
qed

lemma assemble_fragments_sound:
  assumes "assemble_fragments frames = Inr payload"
  shows "\<exists>cs. cs \<noteq> [] \<and> mset frames = mset (fragments (hd frames) cs) \<and> payload = concat cs"
proof -
  obtain first rest where fr: "frames = first # rest" and tot: "fr_total first = length frames"
    using assms by (auto simp: assemble_fragments_def split: list.splits if_splits)
  have "rbind (assemble_loop first (replicate (length frames) None) frames)
      (\<lambda>chunks. Inr (flatten_chunks chunks)) = Inr payload"
    using assms tot unfolding assemble_fragments_def by (simp add: fr del: assemble_loop.simps)
  then obtain chunks where loop: "assemble_loop first (replicate (length frames) None) frames = Inr chunks"
    and pay: "payload = flatten_chunks chunks"
    unfolding rbind_eq_Inr by blast
  note slots = assemble_loop_Inr [OF loop]
  have idx: "fr_index ` set frames = {1 .. length frames}"
    using slots by (intro index_image) auto
  define cs where "cs = map the chunks"
  have len: "length cs = length frames" using slots by (simp add: cs_def)
  have "\<exists>c. chunks ! i = Some c" if "i < length frames" for i
  proof -
    have "Suc i \<in> fr_index ` set frames" using idx that by simp
    then obtain f where "f \<in> set frames" "fr_index f = Suc i" by auto
    then show ?thesis using slots by (metis diff_Suc_1)
  qed
  then have chunks: "chunks = map Some cs"
    using slots len by (intro nth_equalityI) (auto simp: cs_def)
  have mem: "f \<in> set (fragments first cs)" if "f \<in> set frames" for f
  proof -
    have f: "same_message first f" "1 \<le> fr_index f" "fr_index f \<le> length frames"
      "chunks ! (fr_index f - 1) = Some (fr_chunk f)" using slots that by auto
    then have "cs ! (fr_index f - 1) = fr_chunk f" using len by (simp add: cs_def slots)
    with f len tot show ?thesis
      by (auto simp: set_fragments same_message_def intro!: exI [of _ "fr_index f - 1"])
  qed
  have "set frames = set (fragments first cs)"
  proof (rule card_subset_eq)
    show "set frames \<subseteq> set (fragments first cs)" using mem by blast
    have "card (set frames) = length frames" using slots by (simp add: distinct_card distinct_map)
    moreover have "card (set (fragments first cs)) = length cs"
      using distinct_fragments_index [of first cs] by (simp add: distinct_card distinct_map)
    ultimately show "card (set frames) = card (set (fragments first cs))" using len by simp
  qed simp
  moreover have "distinct frames" "distinct (fragments first cs)"
    using slots distinct_fragments_index by (auto simp: distinct_map)
  ultimately have "mset frames = mset (fragments first cs)"
    by (simp add: set_eq_iff_mset_eq_distinct)
  moreover have "cs \<noteq> []" using fr len by auto
  moreover have "payload = concat cs" using pay chunks by (simp add: flatten_all_Some)
  ultimately show ?thesis using fr by (metis list.sel(1))
qed

section \<open>Lemmas: cutting a payload\<close>

lemma length_dec_string_mono: "m \<le> n \<Longrightarrow> length (dec_string m) \<le> length (dec_string n)"
proof (induction n arbitrary: m rule: dec_string.induct)
  case (1 n)
  show ?case
  proof (cases "m < 10")
    case True
    then show ?thesis by (simp add: dec_string.simps [of m] Suc_le_eq)
  next
    case False
    with 1 have "\<not> n < 10" "length (dec_string (m div 10)) \<le> length (dec_string (n div 10))"
      by (auto simp: div_le_mono)
    with False show ?thesis by (simp add: dec_string.simps [of m] dec_string.simps [of n])
  qed
qed

definition total_fits :: "Verb \<Rightarrow> nat \<Rightarrow> nat \<Rightarrow> string \<Rightarrow> string \<Rightarrow> nat \<Rightarrow> bool" where
  "total_fits verb payload_len line_budget from to n \<longleftrightarrow>
     frame_room verb n line_budget from to > 0 \<and>
     saturating_mul (frame_room verb n line_budget from to) n \<ge> payload_len"

lemma frames_needed_Some:
  "frames_needed verb len budget from to = Some n \<longleftrightarrow>
     1 \<le> n \<and> n \<le> MAX_FRAGMENTS \<and> total_fits verb len budget from to n \<and>
     (\<forall>m. 1 \<le> m \<and> m < n \<longrightarrow> \<not> total_fits verb len budget from to m)"
proof -
  define L where "L = [1 ..< Suc MAX_FRAGMENTS]"
  have L: "length L = MAX_FRAGMENTS" "\<And>i. i < MAX_FRAGMENTS \<Longrightarrow> L ! i = Suc i"
    by (simp_all add: L_def nth_upt del: upt_Suc)
  let ?P = "total_fits verb len budget from to"
  have "frames_needed verb len budget from to = Some n \<longleftrightarrow>
      (\<exists>i < length L. ?P (L ! i) \<and> n = L ! i \<and> (\<forall>j < i. \<not> ?P (L ! j)))"
    unfolding frames_needed_def Let_def find_Some_iff total_fits_def [symmetric] L_def by (rule refl)
  also have "\<dots> \<longleftrightarrow> (\<exists>i < MAX_FRAGMENTS. ?P (Suc i) \<and> n = Suc i \<and> (\<forall>j < i. \<not> ?P (Suc j)))"
    using L by (metis order_less_trans)
  also have "\<dots> \<longleftrightarrow> 1 \<le> n \<and> n \<le> MAX_FRAGMENTS \<and> ?P n \<and> (\<forall>m. 1 \<le> m \<and> m < n \<longrightarrow> \<not> ?P m)"
    by (cases n) (auto simp: Suc_le_eq gr0_conv_Suc)
  finally show ?thesis .
qed

lemma length_frame_text:
  "length (frame_text f) =
     length FRAME_PREFIX + length (Verb_as_str (fr_verb f)) + length (fr_msgid f)
     + length (dec_string (fr_index f)) + length (dec_string (fr_total f))
     + length (fr_from f) + length (fr_to f) + length (fr_chunk f) + 7"
  by (simp add: frame_text_def)

section \<open>Lemmas: whole numbers in decimal text\<close>

text \<open>The shape of a JSON number: digits, an optional fraction and an optional exponent.\<close>

definition decimal_shape :: "string \<Rightarrow> string \<Rightarrow> string \<Rightarrow> int \<Rightarrow> bool" where
  "decimal_shape text whole fraction exponent \<longleftrightarrow>
     (\<exists>mantissa.
        (split_exponent text = None \<and> mantissa = text \<and> exponent = 0 \<or>
         (\<exists>et. split_exponent text = Some (mantissa, et) \<and> parse_i64 et = Some exponent)) \<and>
        (split_once CHR ''.'' mantissa = Some (whole, fraction) \<or>
         split_once CHR ''.'' mantissa = None \<and> whole = mantissa \<and> fraction = [])) \<and>
     whole @ fraction \<noteq> [] \<and> list_all is_ascii_digit (whole @ fraction)"

text \<open>The number such a text denotes is \<open>n\<close>: both sides are scaled to whole numbers.\<close>

definition denotes :: "string \<Rightarrow> string \<Rightarrow> int \<Rightarrow> nat \<Rightarrow> bool" where
  "denotes whole fraction exponent n \<longleftrightarrow>
     n * 10 ^ nat (int (length fraction) - exponent)
     = digits_value 0 (whole @ fraction) * 10 ^ nat (exponent - int (length fraction))"

lemma digits_value_zeros: "list_all (\<lambda>b. b = CHR ''0'') zs \<Longrightarrow> digits_value a zs = a * 10 ^ length zs"
proof (induction zs arbitrary: a)
  case (Cons z zs)
  have "digit_val CHR ''0'' = 0" by (simp add: digit_val_def char_code_def)
  with Cons show ?case by simp
qed simp

lemma digits_value_strip: "digits_value 0 (dropWhile (\<lambda>c. c = CHR ''0'') s) = digits_value 0 s"
proof (induction s)
  case (Cons c s)
  have "digit_val CHR ''0'' = 0" by (simp add: digit_val_def char_code_def)
  with Cons show ?case by auto
qed simp

lemma list_all_dropWhile: "list_all P s \<Longrightarrow> list_all P (dropWhile Q s)"
  by (auto simp: list_all_iff dest: set_dropWhileD)

lemma list_all_take: "list_all P s \<Longrightarrow> list_all P (take n s)"
  by (auto simp: list_all_iff dest: in_set_takeD)

lemma parse_uint_Some_digits:
  "list_all is_ascii_digit s \<Longrightarrow> parse_uint m s = Some n \<Longrightarrow> n = digits_value 0 s"
  by (cases "s = []") (auto simp: parse_uint_digits split: if_splits, simp add: parse_uint_def)

text \<open>The core of \<^verbatim>\<open>integral_decimal\<close> after the text is split.\<close>

definition scale_decimal :: "string \<Rightarrow> string \<Rightarrow> int \<Rightarrow> nat option" where
  "scale_decimal whole fraction exponent =
     (let digits = dropWhile (\<lambda>c. c = CHR ''0'') (whole @ fraction);
          shift = exponent - int (length fraction)
      in if digits = [] then Some 0
         else if shift < - (int i64_max + 1) then None
         else if 0 \<le> shift then
           (if int (length digits) + shift > 19 then None
            else parse_uint u64_max (digits @ replicate (nat shift) CHR ''0''))
         else if length digits < nat (- shift) then None
         else if \<not> list_all (\<lambda>b. b = CHR ''0'') (drop (length digits - nat (- shift)) digits) then None
         else parse_uint u64_max (take (length digits - nat (- shift)) digits))"

definition decimal_mantissa :: "string \<Rightarrow> (string \<times> int) option" where
  "decimal_mantissa text =
     (case split_exponent text of
        Some (mantissa, exponent) \<Rightarrow> map_option (\<lambda>e. (mantissa, e)) (parse_i64 exponent)
      | None \<Rightarrow> Some (text, 0))"

definition decimal_point :: "string \<Rightarrow> string \<times> string" where
  "decimal_point mantissa =
     (case split_once CHR ''.'' mantissa of Some p \<Rightarrow> p | None \<Rightarrow> (mantissa, []))"

lemma integral_decimal_scale:
  "integral_decimal text =
     Option.bind (decimal_mantissa text) (\<lambda>(mantissa, exponent).
       case decimal_point mantissa of (whole, fraction) \<Rightarrow>
         if whole @ fraction = [] \<or> \<not> list_all is_ascii_digit (whole @ fraction) then None
         else scale_decimal whole fraction exponent)"
  unfolding integral_decimal_def decimal_mantissa_def decimal_point_def scale_decimal_def Let_def
  by (rule arg_cong2 [where f = Option.bind]) (auto intro!: ext split: prod.splits)

lemma decimal_shape_iff:
  "decimal_shape text whole fraction exponent \<longleftrightarrow>
     (\<exists>mantissa. decimal_mantissa text = Some (mantissa, exponent) \<and> decimal_point mantissa = (whole, fraction)) \<and>
     whole @ fraction \<noteq> [] \<and> list_all is_ascii_digit (whole @ fraction)"
  unfolding decimal_shape_def decimal_mantissa_def decimal_point_def
  by (intro conj_cong refl ex_cong1) (auto split: option.splits prod.splits)

lemma integral_decimal_iff:
  "integral_decimal text = Some n \<longleftrightarrow>
     (\<exists>whole fraction exponent. decimal_shape text whole fraction exponent \<and>
        scale_decimal whole fraction exponent = Some n)"
  unfolding integral_decimal_scale decimal_shape_iff
  by (cases "decimal_mantissa text") (auto split: prod.splits)

lemma scale_decimal_sound:
  assumes d: "list_all is_ascii_digit (whole @ fraction)"
    and s: "scale_decimal whole fraction exponent = Some n"
  shows "denotes whole fraction exponent n"
proof -
  define digits where "digits = dropWhile (\<lambda>c. c = CHR ''0'') (whole @ fraction)"
  define shift where "shift = exponent - int (length fraction)"
  have val: "digits_value 0 digits = digits_value 0 (whole @ fraction)"
    by (simp add: digits_def digits_value_strip)
  have dd: "list_all is_ascii_digit digits" using d unfolding digits_def by (rule list_all_dropWhile)
  show ?thesis
  proof (cases "digits = []")
    case True
    then have "digits_value 0 (whole @ fraction) = 0" using val by simp
    moreover have "n = 0" using s True by (simp add: scale_decimal_def Let_def flip: digits_def)
    ultimately show ?thesis by (simp add: denotes_def)
  next
    case ne: False
    show ?thesis
    proof (cases "0 \<le> shift")
      case True
      have "list_all is_ascii_digit (replicate (nat shift) CHR ''0'')"
        by (simp add: list_all_iff ascii_defs)
      moreover have "parse_uint u64_max (digits @ replicate (nat shift) CHR ''0'') = Some n"
        using s ne True by (simp add: scale_decimal_def Let_def digits_def shift_def split: if_splits)
      ultimately have "n = digits_value 0 (digits @ replicate (nat shift) CHR ''0'')"
        using dd by (intro parse_uint_Some_digits) simp_all
      then have "n = digits_value 0 digits * 10 ^ nat shift"
        by (simp add: digits_value_append digits_value_zeros list_all_iff)
      with True val show ?thesis by (simp add: denotes_def shift_def)
    next
      case False
      define keep where "keep = length digits - nat (- shift)"
      from s ne False have k: "nat (- shift) \<le> length digits"
        "list_all (\<lambda>b. b = CHR ''0'') (drop keep digits)" "parse_uint u64_max (take keep digits) = Some n"
        by (simp_all add: scale_decimal_def Let_def keep_def digits_def shift_def split: if_splits)
      then have "n = digits_value 0 (take keep digits)"
        using dd by (intro parse_uint_Some_digits) (simp_all add: list_all_take)
      moreover have "digits_value 0 digits = digits_value 0 (take keep digits) * 10 ^ length (drop keep digits)"
        using k(2) by (metis append_take_drop_id digits_value_append digits_value_zeros)
      moreover have "length (drop keep digits) = nat (- shift)" using k(1) by (simp add: keep_def)
      ultimately have "digits_value 0 digits = n * 10 ^ nat (- shift)" by simp
      with False val show ?thesis by (simp add: denotes_def shift_def)
    qed
  qed
qed

lemma plain_decimal:
  assumes "list_all is_ascii_digit s"
  shows "decimal_mantissa s = Some (s, 0)" "decimal_point s = (s, [])"
proof -
  have "split_exponent s = None" using assms by (induction s) (auto simp: ascii_defs)
  then show "decimal_mantissa s = Some (s, 0)" by (simp add: decimal_mantissa_def)
  have "CHR ''.'' \<notin> set s" using assms by (auto simp: list_all_iff ascii_defs)
  then show "decimal_point s = (s, [])" by (simp add: decimal_point_def split_once_None_iff [THEN iffD2])
qed

lemma scale_plain_decimal:
  assumes "1 \<le> v" "v < 10 ^ 10"
  shows "scale_decimal (dec_string v) [] 0 = Some v"
proof -
  have "hd (dec_string v) \<noteq> CHR ''0''" using hd_dec_string_nonzero assms by simp
  then have "dropWhile (\<lambda>c. c = CHR ''0'') (dec_string v) = dec_string v"
    by (cases "dec_string v") simp_all
  moreover have "length (dec_string v) \<le> 10" using assms by (intro length_dec_string_le) simp_all
  moreover have "v \<le> u64_max" using assms by (simp add: u64_max_def)
  ultimately show ?thesis by (simp add: scale_decimal_def i64_max_def)
qed

section \<open>Lemmas: decimal text without leading zeros\<close>

lemma digit_char_val: "is_ascii_digit c \<Longrightarrow> digit_char (digit_val c) = c"
  by (simp add: digit_char_def digit_val_def is_ascii_digit_def char_code_def)

lemma digit_val_less: "is_ascii_digit c \<Longrightarrow> digit_val c < 10"
  unfolding digit_val_def is_ascii_digit_def by linarith

lemma digit_char_zero: "digit_char 0 = CHR ''0''"
  by code_simp

lemma dec_string_digits_value:
  "\<lbrakk>s \<noteq> []; list_all is_ascii_digit s; hd s \<noteq> CHR ''0''\<rbrakk> \<Longrightarrow> dec_string (digits_value 0 s) = s"
proof (induction s rule: rev_induct)
  case (snoc c s)
  have c: "is_ascii_digit c" using snoc.prems by simp
  show ?case
  proof (cases "s = []")
    case True
    then show ?thesis using c by (simp add: dec_string.simps digit_val_less digit_char_val)
  next
    case False
    then have IH: "dec_string (digits_value 0 s) = s" using snoc by simp
    have "digits_value 0 s \<noteq> 0"
    proof
      assume "digits_value 0 s = 0"
      with IH have "s = ''0''" by (simp add: dec_string.simps [of 0] digit_char_zero)
      with snoc.prems False show False by simp
    qed
    then show ?thesis
      using c by (subst dec_string.simps)
        (simp add: digits_value_append digit_val_less digit_char_val IH div_add1_eq mod_add_eq)
  qed
qed simp

lemma parse_version_range: "parse_version raw = Inr v \<Longrightarrow> 1 \<le> v \<and> v \<le> MAX_VERSION"
  by (auto simp: parse_version_def rbind_eq_Inr split: if_splits)

lemma device_certificate_text_iff:
  "parse_device_certificate_signed_text C t = Inr (v, key) \<longleftrightarrow> device_certificate_signed_text C v key = Inr t"
proof
  assume "parse_device_certificate_signed_text C t = Inr (v, key)"
  then obtain version where t: "t = DEVICE_CERTIFICATE_PREFIX @ version @ CHR '':'' # key"
    and shape: "version \<noteq> []" "\<not> starts_with ''0'' version" "list_all is_ascii_digit version"
    and v: "parse_uint u32_max version = Some v" "check_version v = Inr ()"
    and k: "\<exists>raw. decode_key C key = Inr raw"
    by (auto simp: parse_device_certificate_signed_text_def rbind_eq_Inr split_once_Some_iff
        split: if_splits dest!: strip_prefix_SomeD)
  have "version = dec_string v"
    using dec_string_digits_value [of version] shape v(1)
    by (cases version) (auto simp: parse_uint_digits starts_with_def split: if_splits)
  then show "device_certificate_signed_text C v key = Inr t"
    using t v k by (auto simp: device_certificate_signed_text_def rbind_eq_Inr)
next
  assume "device_certificate_signed_text C v key = Inr t"
  then have v: "1 \<le> v" "v \<le> MAX_VERSION" and k: "\<exists>raw. decode_key C key = Inr raw"
    and t: "t = DEVICE_CERTIFICATE_PREFIX @ dec_string v @ CHR '':'' # key"
    by (auto simp: device_certificate_signed_text_def rbind_eq_Inr)
  have "length (dec_string v) \<le> 10" using v(2) by (intro length_dec_string_le) (auto simp: MAX_VERSION_def)
  moreover have "\<not> starts_with ''0'' (dec_string v)"
    using hd_dec_string_nonzero [of v] v(1) by (cases "dec_string v") (auto simp: starts_with_def)
  moreover have "v \<le> u32_max" using v(2) by (simp add: MAX_VERSION_def u32_max_def)
  ultimately show "parse_device_certificate_signed_text C t = Inr (v, key)"
    using v k t dec_string_no_colon [of v] dec_string_digits [of v]
    by (auto simp: parse_device_certificate_signed_text_def check_version_def)
qed

section \<open>Properties\<close>

text \<open>
  Frames round trip. Text that \<^verbatim>\<open>format_frame\<close> returns parses back to the same frame, and every
  frame the parser accepts, from whatever text, is one that \<^verbatim>\<open>format_frame\<close> prints.
\<close>

theorem frame_roundtrip:
  "(format_frame C f = Inr t \<longrightarrow> parse_frame C t = Inr f) \<and>
   (parse_frame C t = Inr f \<longrightarrow> format_frame C f = Inr (frame_text f))"
  by (simp add: format_frame_Inr parse_frame_text parse_frame_ok)

definition sample_frame :: Frame where
  "sample_frame = \<lparr> fr_verb = Msg, fr_msgid = ''abc'', fr_index = 1, fr_total = 2,
     fr_from = toy_encode ''BBBBBBBB'', fr_to = ''*'', fr_chunk = ''hi'' \<rparr>"

theorem frame_roundtrip_witness:
  "parse_frame toy_crypto (frame_text sample_frame) = Inr sample_frame \<and>
   format_frame toy_crypto sample_frame = Inr (frame_text sample_frame)"
proof -
  have "format_frame toy_crypto sample_frame = Inr (frame_text sample_frame)" by code_simp
  then show ?thesis using frame_roundtrip [of toy_crypto sample_frame "frame_text sample_frame"] by blast
qed

text \<open>
  Claim C38. Reassembly is exact. A set of frames is accepted if and only if it is, in any order, the
  complete set of fragments of one message, each exactly once; the payload is then the chunks of the
  message in order.
\<close>

theorem assemble_fragments_exact:
  "assemble_fragments frames = Inr payload \<longleftrightarrow>
     (\<exists>h cs. cs \<noteq> [] \<and> mset frames = mset (fragments h cs) \<and> payload = concat cs)"
  using assemble_fragments_sound assemble_fragments_complete by blast

text \<open>
  The number of frames a payload needs is right: that many frames hold the payload, each of
  them fits the line budget, there are at most 64, and no smaller number of frames would do.
\<close>

theorem frames_needed_fits_and_minimal:
  assumes "frames_needed verb len budget from to = Some n" and "0 < len" and "len \<le> u64_max"
  shows "1 \<le> n \<and> n \<le> 64 \<and> len \<le> n * frame_room verb n budget from to \<and>
     (fr_verb f = verb \<and> fr_from f = from \<and> fr_to f = to \<and> length (fr_msgid f) = FRAME_MSGID_LEN \<and>
        fr_index f \<le> n \<and> fr_total f = n \<and> length (fr_chunk f) \<le> frame_room verb n budget from to
        \<longrightarrow> length (frame_text f) \<le> budget) \<and>
     (1 \<le> m \<and> m < n \<longrightarrow> m * frame_room verb m budget from to < len)"
proof -
  have n: "1 \<le> n" "n \<le> 64" "total_fits verb len budget from to n"
    and least: "1 \<le> m \<and> m < n \<Longrightarrow> \<not> total_fits verb len budget from to m"
    using assms(1) by (auto simp: frames_needed_Some MAX_FRAGMENTS_def)
  have "length (frame_text f) \<le> budget"
    if "fr_verb f = verb" "fr_from f = from" "fr_to f = to" "length (fr_msgid f) = FRAME_MSGID_LEN"
      "fr_index f \<le> n" "fr_total f = n" "length (fr_chunk f) \<le> frame_room verb n budget from to"
    using that n(3) length_dec_string_mono [of "fr_index f" n]
    unfolding length_frame_text total_fits_def frame_room_def frame_head_len_def by auto
  moreover have "m * frame_room verb m budget from to < len" if "1 \<le> m \<and> m < n"
    using least [OF that] assms(2,3) by (auto simp: total_fits_def saturating_mul_def mult.commute)
  moreover have "len \<le> n * frame_room verb n budget from to"
    using n(3) by (simp add: total_fits_def saturating_mul_def mult.commute)
  ultimately show ?thesis using n by blast
qed

theorem frames_needed_fits_and_minimal_witness:
  "frames_needed Msg 90 100 ''*'' ''*'' = Some 2 \<and> 1 * frame_room Msg 1 100 ''*'' ''*'' < 90 \<and>
   90 \<le> 2 * frame_room Msg 2 100 ''*'' ''*''"
proof -
  have e: "frames_needed Msg 90 100 ''*'' ''*'' = Some 2" by code_simp
  show ?thesis using e frames_needed_fits_and_minimal [OF e, of sample_frame 1] by (simp add: u64_max_def)
qed

text \<open>
  A signed device list does not depend on the order of the keys and binds its content: two
  lists have the same signed text if and only if they have the same version and the same keys.
\<close>

theorem signed_list_text_binds_content:
  assumes "signed_list_signed_text C v keys = Inr t" and "signed_list_signed_text C w keys' = Inr t'"
  shows "t = t' \<longleftrightarrow> v = w \<and> mset keys = mset keys'"
proof -
  have t: "t = list_text v (sort keys)" "t' = list_text w (sort keys')"
    and ok: "list_devices_ok C keys" "list_devices_ok C keys'"
    using assms by (simp_all add: signed_list_signed_text_Inr)
  have sep: "CHR '','' \<notin> set k" if "k \<in> set keys \<union> set keys'" for k
    using that list_devices_ok_keys(3) [OF ok(1)] list_devices_ok_keys(3) [OF ok(2)]
    by (metis UnE decode_key_no_separator(2))
  have "v = w \<and> mset keys = mset keys'" if "t = t'"
  proof -
    from that t have "list_text v (sort keys) = list_text w (sort keys')" by simp
    note same = list_text_inject [OF this]
    have "sort keys = sort keys'"
      using join_with_inject [of "sort keys" "sort keys'" "CHR '',''"] same(2) sep
        list_devices_ok_keys(2) [OF ok(1)] list_devices_ok_keys(2) [OF ok(2)]
      by (simp add: sort_eq_iff_mset set_sort flip: set_empty)
    with same show ?thesis by (simp add: sort_eq_iff_mset)
  qed
  moreover have "t = t'" if "v = w \<and> mset keys = mset keys'"
    using that t by (simp add: sort_eq_iff_mset [symmetric])
  ultimately show ?thesis by blast
qed

theorem signed_list_text_binds_content_witness:
  "signed_list_signed_text toy_crypto 7 [toy_key CHR ''C'', toy_key CHR ''B''] =
   signed_list_signed_text toy_crypto 7 [toy_key CHR ''B'', toy_key CHR ''C'']"
proof -
  let ?ks = "[toy_key CHR ''C'', toy_key CHR ''B'']" and ?ls = "[toy_key CHR ''B'', toy_key CHR ''C'']"
  have "is_ok (signed_list_signed_text toy_crypto 7 ?ks)" "is_ok (signed_list_signed_text toy_crypto 7 ?ls)"
    by code_simp+
  then obtain t t' where e: "signed_list_signed_text toy_crypto 7 ?ks = Inr t"
    "signed_list_signed_text toy_crypto 7 ?ls = Inr t'"
    by (auto simp: is_ok_iff)
  show ?thesis using e signed_list_text_binds_content [OF e] by simp
qed

text \<open>
  The text of a device certificate is read back exactly: the reader accepts a text with a
  version and a key if and only if it is the text the writer makes from them.
\<close>

theorem device_certificate_text_exact:
  "parse_device_certificate_signed_text C t = Inr (v, key) \<longleftrightarrow> device_certificate_signed_text C v key = Inr t"
  by (rule device_certificate_text_iff)

text \<open>
  Version numbers are read exactly. A number the reader accepts, in plain, fractional or
  exponent form, is the number the text denotes and lies in the range 1 to 2147483647; and the plain
  decimal text of every number of the range is accepted.
\<close>

theorem parse_version_exact:
  "(parse_version raw = Inr v \<longrightarrow> 1 \<le> v \<and> v \<le> MAX_VERSION \<and>
      (\<exists>whole fraction exponent. decimal_shape raw whole fraction exponent \<and> denotes whole fraction exponent v)) \<and>
   (1 \<le> v \<and> v \<le> MAX_VERSION \<longrightarrow> parse_version (dec_string v) = Inr v)"
proof (intro conjI impI)
  assume a: "parse_version raw = Inr v"
  then show "1 \<le> v" "v \<le> MAX_VERSION" using parse_version_range by blast+
  from a have "integral_decimal raw = Some v" by (auto simp: parse_version_def rbind_eq_Inr split: if_splits)
  then show "\<exists>whole fraction exponent. decimal_shape raw whole fraction exponent \<and> denotes whole fraction exponent v"
    unfolding integral_decimal_iff by (metis decimal_shape_def scale_decimal_sound)
next
  assume v: "1 \<le> v \<and> v \<le> MAX_VERSION"
  have "decimal_mantissa (dec_string v) = Some (dec_string v, 0)" "decimal_point (dec_string v) = (dec_string v, [])"
    using plain_decimal [OF dec_string_digits] by blast+
  moreover have "scale_decimal (dec_string v) [] 0 = Some v"
    using v by (intro scale_plain_decimal) (auto simp: MAX_VERSION_def)
  ultimately have "integral_decimal (dec_string v) = Some v"
    by (simp add: integral_decimal_scale dec_string_digits)
  then show "parse_version (dec_string v) = Inr v"
    using v by (simp add: parse_version_def MAX_VERSION_def u32_max_def)
qed

theorem parse_version_exact_witness:
  "parse_version ''1.20e1'' = Inr 12 \<and> (12::nat) \<le> MAX_VERSION \<and> parse_version (dec_string 12) = Inr 12"
proof -
  have "parse_version ''1.20e1'' = Inr 12" by code_simp
  then show ?thesis using parse_version_exact [of "''1.20e1''" 12] by simp
qed

end
