(* ===== verification/Isupport.thy ===== *)
theory Isupport
  imports Json_Api "HOL-Library.Sublist"
begin

text \<open>
  The ISUPPORT snapshot of a network, from \<^verbatim>\<open>isupport.rs\<close>: nickname case folding, the member
  prefixes of a channel MODE line, and the strict reader of the \<^verbatim>\<open>isupport_changed\<close> payload.
  The last section gives the folding contract (locale \<open>nick_folding\<close>) that the pacing rules
  rely on, interpreted on the folding of every case mapping.
\<close>

section \<open>Case mapping\<close>

datatype CaseMapping = Ascii | Rfc1459 | Rfc1459Strict

definition fold_char :: "CaseMapping \<Rightarrow> char \<Rightarrow> char" where
  "fold_char cm c =
     (if is_ascii_upper c then to_ascii_lowercase c
      else if cm \<noteq> Ascii \<and> c = CHR ''['' then CHR ''{''
      else if cm \<noteq> Ascii \<and> c = CHR '']'' then CHR ''}''
      else if cm \<noteq> Ascii \<and> c = CHR 0x5C then CHR ''|''
      else if cm = Rfc1459 \<and> c = CHR ''~'' then CHR 0x5E
      else c)"

definition CaseMapping_fold :: "CaseMapping \<Rightarrow> string \<Rightarrow> string" where
  "CaseMapping_fold cm name = map (fold_char cm) name"

definition CaseMapping_nick_eq :: "CaseMapping \<Rightarrow> string \<Rightarrow> string \<Rightarrow> bool" where
  "CaseMapping_nick_eq cm left right \<longleftrightarrow> CaseMapping_fold cm left = CaseMapping_fold cm right"

section \<open>The snapshot\<close>

record IsupportState =
  chanmodes_a :: "string list"
  chanmodes_b :: "string list"
  chanmodes_c :: "string list"
  chanmodes_d :: "string list"
  list_modes_queryable :: "string list"
  is_prefix :: "(string \<times> string) list"
  prefix_order :: "string list"
  chantypes :: "string list"
  is_casemapping :: CaseMapping
  maxlist :: "(string \<times> nat) list"
  nicklen :: "nat option"
  channellen :: "nat option"
  topiclen :: "nat option"
  frame_budget_base :: nat
  is_network :: "string option"

definition DEFAULT_PREFIXES :: "(string \<times> string) list" where
  "DEFAULT_PREFIXES = [(''q'', ''~''), (''a'', ''&''), (''o'', ''@''), (''h'', ''%''), (''v'', ''+'')]"

definition prefix_symbol_for_mode :: "IsupportState option \<Rightarrow> string \<Rightarrow> string option" where
  "prefix_symbol_for_mode isupport letter =
     (case isupport of
        Some state \<Rightarrow> map_of (is_prefix state) letter
      | None \<Rightarrow> map_option snd (List.find (\<lambda>(mode, _). mode = letter) DEFAULT_PREFIXES))"

definition mode_takes_param :: "IsupportState option \<Rightarrow> string \<Rightarrow> bool \<Rightarrow> bool" where
  "mode_takes_param isupport letter adding =
     (case isupport of
        Some state \<Rightarrow>
          letter \<in> set (chanmodes_a state) \<or> letter \<in> set (chanmodes_b state)
          \<or> (adding \<and> letter \<in> set (chanmodes_c state))
      | None \<Rightarrow>
          letter = ''b'' \<or> letter = ''e'' \<or> letter = ''I'' \<or> letter = ''k'' \<or> (adding \<and> letter = ''l''))"

text \<open>The loop over the characters of the mode text. Its variables are the iterator of the
  arguments, the sign and the changes so far.\<close>

fun prefix_mode_loop ::
    "IsupportState option \<Rightarrow> string list \<Rightarrow> bool \<Rightarrow> (bool \<times> string \<times> string) list \<Rightarrow> string list
     \<Rightarrow> (bool \<times> string \<times> string) list" where
  "prefix_mode_loop isupport args adding changes [] = changes"
| "prefix_mode_loop isupport args adding changes (ch # chs) =
     (if ch = ''+'' then prefix_mode_loop isupport args True changes chs
      else if ch = ''-'' then prefix_mode_loop isupport args False changes chs
      else (case prefix_symbol_for_mode isupport ch of
              Some symbol \<Rightarrow>
                (case args of
                   nick # rest \<Rightarrow> prefix_mode_loop isupport rest adding (changes @ [(adding, symbol, nick)]) chs
                 | [] \<Rightarrow> prefix_mode_loop isupport [] adding changes chs)
            | None \<Rightarrow>
                if mode_takes_param isupport ch adding
                then prefix_mode_loop isupport (tl args) adding changes chs
                else prefix_mode_loop isupport args adding changes chs))"

definition prefix_mode_changes ::
    "string \<Rightarrow> string list \<Rightarrow> IsupportState option \<Rightarrow> (bool \<times> string \<times> string) list" where
  "prefix_mode_changes modes args isupport = prefix_mode_loop isupport args True [] (utf8_chars modes)"

definition prefix_symbol_order :: "IsupportState option \<Rightarrow> string list" where
  "prefix_symbol_order isupport =
     (case isupport of
        Some state \<Rightarrow>
          if prefix_order state \<noteq> [] then List.map_filter (map_of (is_prefix state)) (prefix_order state)
          else [''~'', ''&'', ''@'', ''%'', ''+'']
      | None \<Rightarrow> [''~'', ''&'', ''@'', ''%'', ''+''])"

section \<open>Reading the snapshot\<close>

record IsupportChanged =
  ic_network_id :: int
  ic_state :: IsupportState

definition string_array :: "'v json_api \<Rightarrow> 'v \<Rightarrow> string list option" where
  "string_array J value = Option.bind (as_array J value) (collect_options (as_str J))"

definition string_map :: "'v json_api \<Rightarrow> 'v \<Rightarrow> (string \<times> string) list option" where
  "string_map J value =
     Option.bind (as_map J value) (collect_options (\<lambda>(key, entry). map_option (\<lambda>s. (key, s)) (as_str J entry)))"

definition positive_integer :: "'v json_api \<Rightarrow> 'v \<Rightarrow> nat option" where
  "positive_integer J value =
     Option.bind (as_u64 J value) (\<lambda>number. if number > 0 then Some number else None)"

definition positive_integer_map :: "'v json_api \<Rightarrow> 'v \<Rightarrow> (string \<times> nat) list option" where
  "positive_integer_map J value =
     Option.bind (as_map J value)
       (collect_options (\<lambda>(key, entry). map_option (\<lambda>n. (key, n)) (positive_integer J entry)))"

definition nullable_positive_integer :: "'v json_api \<Rightarrow> 'v \<Rightarrow> nat option option" where
  "nullable_positive_integer J value =
     (if is_null J value then Some None else map_option Some (positive_integer J value))"

definition parse_casemapping :: "string \<Rightarrow> CaseMapping option" where
  "parse_casemapping s =
     (if s = ''ascii'' then Some Ascii else if s = ''rfc1459'' then Some Rfc1459
      else if s = ''rfc1459_strict'' then Some Rfc1459Strict else None)"

definition parse_network_token :: "'v json_api \<Rightarrow> 'v option \<Rightarrow> string option option" where
  "parse_network_token J field =
     (case field of
        None \<Rightarrow> Some None
      | Some v \<Rightarrow> if is_null J v then Some None else map_option Some (as_str J v))"

definition field_with :: "'v json_api \<Rightarrow> 'v \<Rightarrow> string \<Rightarrow> ('v \<Rightarrow> 'a option) \<Rightarrow> 'a option" where
  "field_with J payload key reader = Option.bind (get_field J payload key) reader"

definition parse_isupport_changed :: "'v json_api \<Rightarrow> 'v \<Rightarrow> IsupportChanged option" where
  "parse_isupport_changed J payload =
     Option.bind (field_with J payload ''kind'' (as_str J)) (\<lambda>kind.
     if kind \<noteq> ''isupport_changed'' then None else
     Option.bind (field_with J payload ''network_id'' (as_i64 J)) (\<lambda>network_id.
     if network_id \<le> 0 then None else
     Option.bind (field_with J payload ''casemapping'' (as_str J)) (\<lambda>cm_text.
     Option.bind (parse_casemapping cm_text) (\<lambda>cm.
     Option.bind (field_with J payload ''frame_budget_base'' (positive_integer J)) (\<lambda>budget.
     Option.bind (parse_network_token J (get_field J payload ''network'')) (\<lambda>net.
     Option.bind (field_with J payload ''chanmodes_a'' (string_array J)) (\<lambda>a.
     Option.bind (field_with J payload ''chanmodes_b'' (string_array J)) (\<lambda>b.
     Option.bind (field_with J payload ''chanmodes_c'' (string_array J)) (\<lambda>c.
     Option.bind (field_with J payload ''chanmodes_d'' (string_array J)) (\<lambda>d.
     Option.bind (field_with J payload ''list_modes_queryable'' (string_array J)) (\<lambda>queryable.
     Option.bind (field_with J payload ''prefix'' (string_map J)) (\<lambda>pre.
     Option.bind (field_with J payload ''prefix_order'' (string_array J)) (\<lambda>order.
     Option.bind (field_with J payload ''chantypes'' (string_array J)) (\<lambda>types.
     Option.bind (field_with J payload ''maxlist'' (positive_integer_map J)) (\<lambda>maxl.
     Option.bind (field_with J payload ''nicklen'' (nullable_positive_integer J)) (\<lambda>nl.
     Option.bind (field_with J payload ''channellen'' (nullable_positive_integer J)) (\<lambda>cl.
     Option.bind (field_with J payload ''topiclen'' (nullable_positive_integer J)) (\<lambda>topl.
     Some \<lparr> ic_network_id = network_id, ic_state = \<lparr>
       chanmodes_a = a, chanmodes_b = b, chanmodes_c = c, chanmodes_d = d,
       list_modes_queryable = queryable, is_prefix = pre, prefix_order = order, chantypes = types,
       is_casemapping = cm, maxlist = maxl, nicklen = nl, channellen = cl, topiclen = topl,
       frame_budget_base = budget, is_network = net \<rparr> \<rparr>))))))))))))))))))"

section \<open>Folding is a normal form\<close>

lemma lowercase_not_folded:
  assumes "is_ascii_upper c"
  shows "\<not> is_ascii_upper (to_ascii_lowercase c)" "to_ascii_lowercase c \<noteq> CHR ''[''"
    "to_ascii_lowercase c \<noteq> CHR '']''" "to_ascii_lowercase c \<noteq> CHR 0x5C" "to_ascii_lowercase c \<noteq> CHR ''~''"
proof -
  have code: "char_code (to_ascii_lowercase c) = char_code c + 32"
    using assms by (simp add: to_ascii_lowercase_def char_code_char_of is_ascii_upper_def)
  have range: "65 \<le> char_code c" "char_code c \<le> 90" using assms by (simp_all add: is_ascii_upper_def)
  show "\<not> is_ascii_upper (to_ascii_lowercase c)" using code range by (simp add: is_ascii_upper_def)
  have codes: "char_code CHR ''['' = 91" "char_code CHR '']'' = 93" "char_code CHR 0x5C = 92"
    "char_code CHR ''~'' = 126"
    by (simp_all add: char_code_def)
  show "to_ascii_lowercase c \<noteq> CHR ''[''" using code range codes by auto
  show "to_ascii_lowercase c \<noteq> CHR '']''" using code range codes by auto
  show "to_ascii_lowercase c \<noteq> CHR 0x5C" using code range codes by auto
  show "to_ascii_lowercase c \<noteq> CHR ''~''" using code range codes by auto
qed

lemma special_not_upper:
  "\<not> is_ascii_upper CHR ''{''" "\<not> is_ascii_upper CHR ''}''" "\<not> is_ascii_upper CHR ''|''"
  "\<not> is_ascii_upper CHR 0x5E"
  by (simp_all add: ascii_defs)

lemma fold_char_idem: "fold_char cm (fold_char cm c) = fold_char cm c"
proof (cases "is_ascii_upper c")
  case True
  then have f: "fold_char cm c = to_ascii_lowercase c" by (simp add: fold_char_def)
  show ?thesis unfolding f
    by (subst fold_char_def) (simp add: lowercase_not_folded [OF True])
next
  case False
  then show ?thesis
    using special_not_upper by (simp add: fold_char_def)
qed

lemma CaseMapping_fold_idem: "CaseMapping_fold cm (CaseMapping_fold cm s) = CaseMapping_fold cm s"
  by (simp add: CaseMapping_fold_def fold_char_idem)

text \<open>What a user of a folding needs: folding is idempotent and keeps the length, so equality of
  folded names is an equivalence whose classes have one canonical name.\<close>

locale nick_folding =
  fixes nick_fold :: "string \<Rightarrow> string"
  assumes fold_idem: "nick_fold (nick_fold s) = nick_fold s"
    and fold_length: "length (nick_fold s) = length s"
begin

lemma canonical_unique: "nick_fold a = nick_fold b \<longleftrightarrow> (\<forall>c. nick_fold c = nick_fold a \<longleftrightarrow> nick_fold c = nick_fold b)"
  by metis

lemma folded_is_fixed: "nick_fold a = nick_fold b \<Longrightarrow> nick_fold (nick_fold a) = nick_fold b"
  by (simp add: fold_idem)

lemma same_class_same_length: "nick_fold a = nick_fold b \<Longrightarrow> length a = length b"
  by (metis fold_length)

end

interpretation cm_fold: nick_folding "CaseMapping_fold cm" for cm
  by unfold_locales (simp_all add: CaseMapping_fold_idem, simp add: CaseMapping_fold_def)

section \<open>A reference definition of the member prefix changes\<close>

text \<open>The letters of the mode text with their signs.\<close>

fun signed_letters :: "bool \<Rightarrow> string list \<Rightarrow> (bool \<times> string) list" where
  "signed_letters adding [] = []"
| "signed_letters adding (ch # chs) =
     (if ch = ''+'' then signed_letters True chs
      else if ch = ''-'' then signed_letters False chs
      else (adding, ch) # signed_letters adding chs)"

text \<open>The letters that take a parameter, lined up with the arguments; of those, the member
  prefixes are the changes.\<close>

definition takes_arg :: "IsupportState option \<Rightarrow> bool \<times> string \<Rightarrow> bool" where
  "takes_arg isupport p \<longleftrightarrow>
     prefix_symbol_for_mode isupport (snd p) \<noteq> None \<or> mode_takes_param isupport (snd p) (fst p)"

definition member_change ::
    "IsupportState option \<Rightarrow> (bool \<times> string) \<times> string \<Rightarrow> (bool \<times> string \<times> string) option" where
  "member_change isupport x =
     map_option (\<lambda>symbol. (fst (fst x), symbol, snd x)) (prefix_symbol_for_mode isupport (snd (fst x)))"

definition reference_changes ::
    "IsupportState option \<Rightarrow> string list \<Rightarrow> (bool \<times> string) list \<Rightarrow> (bool \<times> string \<times> string) list" where
  "reference_changes isupport args letters =
     List.map_filter (member_change isupport) (zip (filter (takes_arg isupport) letters) args)"

lemma prefix_mode_loop_reference:
  "prefix_mode_loop isupport args adding changes chs
   = changes @ reference_changes isupport args (signed_letters adding chs)"
proof (induction isupport args adding changes chs rule: prefix_mode_loop.induct)
  case (1 isupport args adding changes)
  then show ?case by (simp add: reference_changes_def map_filter_simps)
next
  case (2 isupport args adding changes ch chs)
  then show ?case
    by (cases args)
       (auto simp: reference_changes_def takes_arg_def member_change_def map_filter_simps
         split: option.splits)
qed

lemma map_filter_subseq:
  "(\<And>x y. f x = Some y \<Longrightarrow> g y = h x) \<Longrightarrow> subseq (map g (List.map_filter f xs)) (map h xs)"
  by (induction xs) (auto simp: map_filter_simps split: option.splits)

lemma subseq_map_snd_zip: "subseq (map snd (zip xs ys)) ys"
proof (induction xs arbitrary: ys)
  case (Cons x xs)
  then show ?case by (cases ys) auto
qed simp

section \<open>Well-formed snapshots\<close>

definition isupport_wf :: "IsupportState \<Rightarrow> bool" where
  "isupport_wf st \<longleftrightarrow>
     0 < frame_budget_base st \<and>
     (\<forall>(mode, limit) \<in> set (maxlist st). 0 < limit) \<and>
     nicklen st \<noteq> Some 0 \<and> channellen st \<noteq> Some 0 \<and> topiclen st \<noteq> Some 0 \<and>
     distinct (map fst (is_prefix st)) \<and> distinct (map fst (maxlist st))"

lemma positive_integer_Some: "positive_integer J v = Some n \<Longrightarrow> 0 < n"
  by (auto simp: positive_integer_def bind_eq_Some_conv split: if_splits)

lemma nullable_positive_integer_Some: "nullable_positive_integer J v = Some o1 \<Longrightarrow> o1 \<noteq> Some 0"
  by (auto simp: nullable_positive_integer_def split: if_splits dest: positive_integer_Some)

lemma collect_keys:
  assumes "collect_options (\<lambda>(key, entry). map_option (\<lambda>s. (key, s)) (f entry)) m = Some ys"
  shows "map fst ys = map fst m"
  using assms unfolding collect_options_Some
proof (induction m arbitrary: ys)
  case (Cons p m)
  then show ?case by (cases p; cases ys) auto
qed simp

lemma string_map_distinct:
  "json_api_ok J \<Longrightarrow> string_map J v = Some m \<Longrightarrow> distinct (map fst m)"
  by (auto simp: string_map_def bind_eq_Some_conv json_api_ok_def dest: collect_keys)

lemma positive_integer_map_facts:
  assumes "json_api_ok J" "positive_integer_map J v = Some m"
  shows "distinct (map fst m)" "(k, n) \<in> set m \<Longrightarrow> 0 < n"
proof -
  obtain obj where obj: "as_map J v = Some obj"
    "collect_options (\<lambda>(key, entry). map_option (\<lambda>n. (key, n)) (positive_integer J entry)) obj = Some m"
    using assms(2) by (auto simp: positive_integer_map_def bind_eq_Some_conv)
  then show "distinct (map fst m)"
    using assms(1) collect_keys by (metis json_api_ok_def)
  show "0 < n" if "(k, n) \<in> set m"
    using collect_options_set [OF obj(2) that] positive_integer_Some by fastforce
qed

lemma parse_isupport_wf:
  assumes "json_api_ok J" "parse_isupport_changed J payload = Some c"
  shows "0 < ic_network_id c \<and> isupport_wf (ic_state c)"
  using assms
  by (auto simp: parse_isupport_changed_def field_with_def bind_eq_Some_conv isupport_wf_def
      split: if_splits dest: positive_integer_Some nullable_positive_integer_Some
      string_map_distinct positive_integer_map_facts)

section \<open>Properties\<close>

text \<open>
  Folding gives each class of equivalent nicknames one canonical name: two names are equal
  exactly when the same names are equal to both, the folded form is equal to the name and folds to
  itself, and two equal names have the same length.
\<close>

theorem nick_folding_canonical:
  "CaseMapping_nick_eq cm (CaseMapping_fold cm a) a \<and>
   (CaseMapping_nick_eq cm a b \<longleftrightarrow> (\<forall>c. CaseMapping_nick_eq cm c a = CaseMapping_nick_eq cm c b)) \<and>
   CaseMapping_fold cm (CaseMapping_fold cm a) = CaseMapping_fold cm a \<and>
   (CaseMapping_nick_eq cm a b \<longrightarrow> length a = length b)"
  using cm_fold.same_class_same_length [of cm a b] cm_fold.canonical_unique [of cm a b]
  by (simp add: CaseMapping_nick_eq_def cm_fold.fold_idem)

theorem nick_folding_canonical_witness:
  "CaseMapping_nick_eq Rfc1459 ''Bob[~]'' ''bOB{^}'' \<and> length ''Bob[~]'' = length ''bOB{^}''"
proof -
  have "CaseMapping_nick_eq Rfc1459 ''Bob[~]'' ''bOB{^}''" by code_simp
  then show ?thesis using nick_folding_canonical [of Rfc1459 "''Bob[~]''" "''bOB{^}''"] by blast
qed

text \<open>
  The member prefix changes of a MODE line are those of the reference definition, which
  lines the letters that take a parameter up with the arguments; so the changed nicknames are
  arguments of the line, in the order of the line.
\<close>

theorem prefix_mode_changes_reference:
  "prefix_mode_changes modes args isupport =
     reference_changes isupport args (signed_letters True (utf8_chars modes)) \<and>
   subseq (map (\<lambda>(_, _, nick). nick) (prefix_mode_changes modes args isupport)) args"
proof
  show eq: "prefix_mode_changes modes args isupport =
     reference_changes isupport args (signed_letters True (utf8_chars modes))"
    by (simp add: prefix_mode_changes_def prefix_mode_loop_reference)
  let ?z = "zip (filter (takes_arg isupport) (signed_letters True (utf8_chars modes))) args"
  have "subseq (map (\<lambda>(_, _, nick). nick) (List.map_filter (member_change isupport) ?z)) (map snd ?z)"
    by (rule map_filter_subseq) (auto simp: member_change_def)
  then show "subseq (map (\<lambda>(_, _, nick). nick) (prefix_mode_changes modes args isupport)) args"
    unfolding eq reference_changes_def using subseq_map_snd_zip subseq_order.trans by blast
qed

text \<open>
  Every snapshot that is read from the server is well formed: its network number, frame
  budget and every limit are positive, and no mode has two prefixes or two list limits.
\<close>

theorem isupport_snapshot_well_formed:
  assumes "json_api_ok J" "parse_isupport_changed J payload = Some c"
  shows "0 < ic_network_id c \<and> isupport_wf (ic_state c)"
  by (rule parse_isupport_wf [OF assms])

definition sample_isupport :: json where
  "sample_isupport = JObject
     [(''kind'', JString ''isupport_changed''), (''network_id'', JInt 3), (''casemapping'', JString ''ascii''),
      (''frame_budget_base'', JInt 400), (''network'', JNull),
      (''chanmodes_a'', JArray [JString ''b'']), (''chanmodes_b'', JArray []), (''chanmodes_c'', JArray []),
      (''chanmodes_d'', JArray []), (''list_modes_queryable'', JArray []),
      (''prefix'', JObject [(''o'', JString ''@'')]), (''prefix_order'', JArray [JString ''o'']),
      (''chantypes'', JArray []), (''maxlist'', JObject [(''b'', JInt 100)]),
      (''nicklen'', JInt 30), (''channellen'', JNull), (''topiclen'', JNull)]"

theorem isupport_snapshot_well_formed_witness:
  "\<exists>c. parse_isupport_changed json_instance sample_isupport = Some c \<and> isupport_wf (ic_state c)"
proof -
  have "parse_isupport_changed json_instance sample_isupport \<noteq> None" by code_simp
  then obtain c where c: "parse_isupport_changed json_instance sample_isupport = Some c" by blast
  then show ?thesis using isupport_snapshot_well_formed [OF json_instance_ok c] by blast
qed

end
