(* ===== verification/Pacing.thy ===== *)
theory Pacing
  imports Wire Isupport
begin

text \<open>
  The pacing and send-status rules of \<^verbatim>\<open>e2e_pacing.rs\<close>. A \<^verbatim>\<open>Duration\<close> since the fixed start is a
  \<^typ>\<open>nat\<close> of nanoseconds, so \<^verbatim>\<open>saturating_sub\<close> is subtraction on \<^typ>\<open>nat\<close>; the overflow of a
  \<^verbatim>\<open>Duration\<close> (past \<open>2 ^ 64\<close> seconds of uptime) is not modelled. A method that changes its
  receiver returns the new receiver, with the result where it has one.
\<close>

type_synonym duration = nat

definition secs :: "nat \<Rightarrow> duration" where "secs n = n * 1000000000"

definition KEYS_ANSWER_INTERVAL :: duration where "KEYS_ANSWER_INTERVAL = secs 15"
definition KEYREQ_INTERVAL :: duration where "KEYREQ_INTERVAL = secs 30"
definition OUTGOING_QUEUE_TTL :: duration where "OUTGOING_QUEUE_TTL = secs 90"
definition OUTGOING_QUEUE_MAX :: nat where "OUTGOING_QUEUE_MAX = 16"
definition ONE_TIME_KEY_INTERVAL :: duration where "ONE_TIME_KEY_INTERVAL = secs 60"
definition ONE_TIME_KEY_GLOBAL_LIMIT :: nat where "ONE_TIME_KEY_GLOBAL_LIMIT = 30"
definition ONE_TIME_KEY_WINDOW :: duration where "ONE_TIME_KEY_WINDOW = secs 3600"
definition REASSEMBLY_TIMEOUT :: duration where "REASSEMBLY_TIMEOUT = secs 60"
definition SEND_SAFETY_MARGIN :: duration where "SEND_SAFETY_MARGIN = secs 2"

definition nick_key :: "string \<Rightarrow> CaseMapping \<Rightarrow> string" where
  "nick_key nick cm = CaseMapping_fold cm nick"

section \<open>One event per nickname in each interval\<close>

record IntervalLimiter =
  il_interval :: duration
  il_casemapping :: "CaseMapping option"
  il_last :: "(string \<times> duration) list"

definition IntervalLimiter_new :: "duration \<Rightarrow> IntervalLimiter" where
  "IntervalLimiter_new interval = \<lparr> il_interval = interval, il_casemapping = None, il_last = [] \<rparr>"

definition IntervalLimiter_sync_casemapping :: "IntervalLimiter \<Rightarrow> CaseMapping \<Rightarrow> IntervalLimiter" where
  "IntervalLimiter_sync_casemapping l cm =
     (if il_casemapping l \<noteq> Some cm then l\<lparr> il_last := [], il_casemapping := Some cm \<rparr> else l)"

definition IntervalLimiter_try_acquire ::
    "IntervalLimiter \<Rightarrow> string \<Rightarrow> CaseMapping \<Rightarrow> duration \<Rightarrow> IntervalLimiter \<times> bool" where
  "IntervalLimiter_try_acquire l0 nick cm now =
     (let l = IntervalLimiter_sync_casemapping l0 cm;
          key = nick_key nick cm;
          admit = (l\<lparr> il_last := AList.update key now (il_last l) \<rparr>, True)
      in case map_of (il_last l) key of
           Some lst \<Rightarrow> if now - lst < il_interval l then (l, False) else admit
         | None \<Rightarrow> admit)"

definition IntervalLimiter_forget :: "IntervalLimiter \<Rightarrow> string \<Rightarrow> CaseMapping \<Rightarrow> IntervalLimiter" where
  "IntervalLimiter_forget l0 nick cm =
     (let l = IntervalLimiter_sync_casemapping l0 cm
      in l\<lparr> il_last := AList.delete (nick_key nick cm) (il_last l) \<rparr>)"

definition keys_answer_limiter :: IntervalLimiter where
  "keys_answer_limiter = IntervalLimiter_new KEYS_ANSWER_INTERVAL"

datatype KeyChoice = OneTime | Fallback

section \<open>At most \<open>limit\<close> events in any window\<close>

record WindowLimiter =
  wl_limit :: nat
  wl_window :: duration
  wl_events :: "duration list"

definition WindowLimiter_new :: "nat \<Rightarrow> duration \<Rightarrow> WindowLimiter" where
  "WindowLimiter_new limit window = \<lparr> wl_limit = limit, wl_window = window, wl_events = [] \<rparr>"

text \<open>The loop pops the front of the queue while it is out of the window.\<close>

definition WindowLimiter_is_ready :: "WindowLimiter \<Rightarrow> duration \<Rightarrow> WindowLimiter \<times> bool" where
  "WindowLimiter_is_ready w now =
     (let events = dropWhile (\<lambda>first. now - first \<ge> wl_window w) (wl_events w)
      in (w\<lparr> wl_events := events \<rparr>, length events < wl_limit w))"

definition WindowLimiter_try_acquire :: "WindowLimiter \<Rightarrow> duration \<Rightarrow> WindowLimiter \<times> bool" where
  "WindowLimiter_try_acquire w0 now =
     (let (w, ready) = WindowLimiter_is_ready w0 now
      in if \<not> ready then (w, False) else (w\<lparr> wl_events := wl_events w @ [now] \<rparr>, True))"

record OneTimeKeyPacer =
  otk_limiter :: IntervalLimiter
  otk_global :: WindowLimiter

definition OneTimeKeyPacer_new :: OneTimeKeyPacer where
  "OneTimeKeyPacer_new = \<lparr> otk_limiter = IntervalLimiter_new ONE_TIME_KEY_INTERVAL,
     otk_global = WindowLimiter_new ONE_TIME_KEY_GLOBAL_LIMIT ONE_TIME_KEY_WINDOW \<rparr>"

text \<open>The three conditions run in order and stop at the first that fails.\<close>

definition OneTimeKeyPacer_choose ::
    "OneTimeKeyPacer \<Rightarrow> string \<Rightarrow> CaseMapping \<Rightarrow> duration \<Rightarrow> OneTimeKeyPacer \<times> KeyChoice" where
  "OneTimeKeyPacer_choose p nick cm now =
     (let limiter = IntervalLimiter_sync_casemapping (otk_limiter p) cm;
          (global, ready) = WindowLimiter_is_ready (otk_global p) now
      in if \<not> ready then (\<lparr> otk_limiter = limiter, otk_global = global \<rparr>, Fallback)
         else let (limiter, free) = IntervalLimiter_try_acquire limiter nick cm now
              in if \<not> free then (\<lparr> otk_limiter = limiter, otk_global = global \<rparr>, Fallback)
                 else let (global, taken) = WindowLimiter_try_acquire global now
                      in (\<lparr> otk_limiter = limiter, otk_global = global \<rparr>,
                          if taken then OneTime else Fallback))"

section \<open>KEYS reassembly\<close>

record ReassemblyGate =
  rg_timeout :: duration
  rg_casemapping :: "CaseMapping option"
  rg_last_fragment :: "(string \<times> (string \<times> duration) list) list"

definition ReassemblyGate_new :: "duration \<Rightarrow> ReassemblyGate" where
  "ReassemblyGate_new timeout = \<lparr> rg_timeout = timeout, rg_casemapping = None, rg_last_fragment = [] \<rparr>"

definition ReassemblyGate_sync_casemapping :: "ReassemblyGate \<Rightarrow> CaseMapping \<Rightarrow> ReassemblyGate" where
  "ReassemblyGate_sync_casemapping g cm =
     (if rg_casemapping g \<noteq> Some cm then g\<lparr> rg_last_fragment := [], rg_casemapping := Some cm \<rparr> else g)"

definition ReassemblyGate_note_fragment ::
    "ReassemblyGate \<Rightarrow> string \<Rightarrow> string \<Rightarrow> CaseMapping \<Rightarrow> duration \<Rightarrow> ReassemblyGate" where
  "ReassemblyGate_note_fragment g0 nick msgid cm now =
     (let g = ReassemblyGate_sync_casemapping g0 cm;
          key = nick_key nick cm;
          messages = (case map_of (rg_last_fragment g) key of Some m \<Rightarrow> m | None \<Rightarrow> []);
          live = filter (\<lambda>(_, lst). now - lst < rg_timeout g) messages
      in g\<lparr> rg_last_fragment := AList.update key (AList.update msgid now live) (rg_last_fragment g) \<rparr>)"

definition ReassemblyGate_finish ::
    "ReassemblyGate \<Rightarrow> string \<Rightarrow> string \<Rightarrow> CaseMapping \<Rightarrow> ReassemblyGate" where
  "ReassemblyGate_finish g0 nick msgid cm =
     (let g = ReassemblyGate_sync_casemapping g0 cm;
          key = nick_key nick cm
      in case map_of (rg_last_fragment g) key of
           None \<Rightarrow> g
         | Some messages \<Rightarrow>
             let rest = AList.delete msgid messages
             in if rest = [] then g\<lparr> rg_last_fragment := AList.delete key (rg_last_fragment g) \<rparr>
                else g\<lparr> rg_last_fragment := AList.update key rest (rg_last_fragment g) \<rparr>)"

definition ReassemblyGate_forget :: "ReassemblyGate \<Rightarrow> string \<Rightarrow> CaseMapping \<Rightarrow> ReassemblyGate" where
  "ReassemblyGate_forget g0 nick cm =
     (let g = ReassemblyGate_sync_casemapping g0 cm
      in g\<lparr> rg_last_fragment := AList.delete (nick_key nick cm) (rg_last_fragment g) \<rparr>)"

definition ReassemblyGate_is_active ::
    "ReassemblyGate \<Rightarrow> string \<Rightarrow> CaseMapping \<Rightarrow> duration \<Rightarrow> ReassemblyGate \<times> bool" where
  "ReassemblyGate_is_active g0 nick cm now =
     (let g = ReassemblyGate_sync_casemapping g0 cm
      in (g, case map_of (rg_last_fragment g) (nick_key nick cm) of
               None \<Rightarrow> False
             | Some messages \<Rightarrow> list_ex (\<lambda>(_, lst). now - lst < rg_timeout g) messages))"

definition ReassemblyGate_may_send_keyreq ::
    "ReassemblyGate \<Rightarrow> string \<Rightarrow> CaseMapping \<Rightarrow> duration \<Rightarrow> ReassemblyGate \<times> bool" where
  "ReassemblyGate_may_send_keyreq g nick cm now =
     (let (g', active) = ReassemblyGate_is_active g nick cm now in (g', \<not> active))"

datatype KeyReqRefusal = Reassembling | Interval

record KeyReqPacer =
  krp_limiter :: IntervalLimiter
  krp_gate :: ReassemblyGate

definition KeyReqPacer_new :: "duration \<Rightarrow> KeyReqPacer" where
  "KeyReqPacer_new reassembly_timeout =
     \<lparr> krp_limiter = IntervalLimiter_new KEYREQ_INTERVAL, krp_gate = ReassemblyGate_new reassembly_timeout \<rparr>"

definition KeyReqPacer_sync_casemapping :: "KeyReqPacer \<Rightarrow> CaseMapping \<Rightarrow> KeyReqPacer" where
  "KeyReqPacer_sync_casemapping p cm =
     \<lparr> krp_limiter = IntervalLimiter_sync_casemapping (krp_limiter p) cm,
       krp_gate = ReassemblyGate_sync_casemapping (krp_gate p) cm \<rparr>"

definition KeyReqPacer_note_fragment ::
    "KeyReqPacer \<Rightarrow> string \<Rightarrow> string \<Rightarrow> CaseMapping \<Rightarrow> duration \<Rightarrow> KeyReqPacer" where
  "KeyReqPacer_note_fragment p0 nick msgid cm now =
     (let p = KeyReqPacer_sync_casemapping p0 cm
      in p\<lparr> krp_gate := ReassemblyGate_note_fragment (krp_gate p) nick msgid cm now \<rparr>)"

definition KeyReqPacer_finish :: "KeyReqPacer \<Rightarrow> string \<Rightarrow> string \<Rightarrow> CaseMapping \<Rightarrow> KeyReqPacer" where
  "KeyReqPacer_finish p0 nick msgid cm =
     (let p = KeyReqPacer_sync_casemapping p0 cm
      in p\<lparr> krp_gate := ReassemblyGate_finish (krp_gate p) nick msgid cm \<rparr>)"

definition KeyReqPacer_try_send ::
    "KeyReqPacer \<Rightarrow> string \<Rightarrow> CaseMapping \<Rightarrow> duration \<Rightarrow> KeyReqPacer \<times> (KeyReqRefusal + unit)" where
  "KeyReqPacer_try_send p0 nick cm now =
     (let p = KeyReqPacer_sync_casemapping p0 cm;
          (gate, may) = ReassemblyGate_may_send_keyreq (krp_gate p) nick cm now;
          p = p\<lparr> krp_gate := gate \<rparr>
      in if \<not> may then (p, Inl Reassembling)
         else let (limiter, free) = IntervalLimiter_try_acquire (krp_limiter p) nick cm now;
                  p = p\<lparr> krp_limiter := limiter \<rparr>
              in if free then (p, Inr ()) else (p, Inl Interval))"

definition KeyReqPacer_forget :: "KeyReqPacer \<Rightarrow> string \<Rightarrow> CaseMapping \<Rightarrow> KeyReqPacer" where
  "KeyReqPacer_forget p0 nick cm =
     (let p = KeyReqPacer_sync_casemapping p0 cm
      in p\<lparr> krp_limiter := IntervalLimiter_forget (krp_limiter p) nick cm,
            krp_gate := ReassemblyGate_forget (krp_gate p) nick cm \<rparr>)"

section \<open>Deadlines and answers\<close>

datatype SendDecision = Go | TooLate

definition check_send_deadline :: "duration \<Rightarrow> duration \<Rightarrow> SendDecision" where
  "check_send_deadline now deadline = (if now + SEND_SAFETY_MARGIN < deadline then Go else TooLate)"

datatype SendFailure = SfTooLate | SfBadRequest

datatype SendResponse = RespAccepted | RespFailed SendFailure | RespUnexpected nat

definition classify_send_response :: "nat \<Rightarrow> string option \<Rightarrow> SendResponse" where
  "classify_send_response status err =
     (if status = 202 then RespAccepted
      else if status = 422 \<and> err = Some ''too_late'' then RespFailed SfTooLate
      else if status = 400 \<and> err = Some ''bad_request'' then RespFailed SfBadRequest
      else RespUnexpected status)"

text \<open>\<^verbatim>\<open>required_msgid\<close> of \<^verbatim>\<open>e2e_device_routes.rs\<close>: no whitespace and no control character. The
  control characters of Unicode are the ASCII ones and U+0080 to U+009F.\<close>

definition is_control_seq :: "string \<Rightarrow> bool" where
  "is_control_seq c \<longleftrightarrow>
     (case c of
        [a] \<Rightarrow> is_ascii_control a
      | [a, b] \<Rightarrow> char_code a = 194 \<and> 128 \<le> char_code b \<and> char_code b < 160
      | _ \<Rightarrow> False)"

definition required_msgid :: "'v json_api \<Rightarrow> (string \<times> 'v) list \<Rightarrow> WireError + string" where
  "required_msgid J m =
     rbind (required_str J m ''msgid'') (\<lambda>msgid.
       if msgid = [] \<or> list_ex (\<lambda>c. c \<in> set whitespace_seqs \<or> is_control_seq c) (utf8_chars msgid)
       then Inl BadMsgid else Inr msgid)"

definition parse_send_accepted :: "'v json_api \<Rightarrow> 'v \<Rightarrow> WireError + string" where
  "parse_send_accepted J body = rbind (as_object J body) (required_msgid J)"

datatype DropReason = Late | SendFailed | SessionEnded | Unreadable | NoSuchNick

definition DropReason_from_wire :: "string \<Rightarrow> DropReason option" where
  "DropReason_from_wire text =
     (if text = ''late'' then Some Late else if text = ''send_failed'' then Some SendFailed
      else if text = ''session_ended'' then Some SessionEnded
      else if text = ''unreadable'' then Some Unreadable
      else if text = ''no_such_nick'' then Some NoSuchNick else None)"

definition DropReason_from_server_wire :: "string \<Rightarrow> DropReason option" where
  "DropReason_from_server_wire text =
     (if text = ''late'' then Some Late else if text = ''send_failed'' then Some SendFailed
      else if text = ''session_ended'' then Some SessionEnded else None)"

fun DropReason_wire_name :: "DropReason \<Rightarrow> string" where
  "DropReason_wire_name Late = ''late''"
| "DropReason_wire_name SendFailed = ''send_failed''"
| "DropReason_wire_name SessionEnded = ''session_ended''"
| "DropReason_wire_name Unreadable = ''unreadable''"
| "DropReason_wire_name NoSuchNick = ''no_such_nick''"

section \<open>Status of the sends\<close>

datatype SendStatus = Pending | Accepted | Failed SendFailure | Dropped DropReason

fun next_status :: "SendResponse \<Rightarrow> SendStatus option" where
  "next_status RespAccepted = Some Accepted"
| "next_status (RespFailed failure) = Some (Failed failure)"
| "next_status (RespUnexpected _) = None"

record SendTracker =
  st_sends :: "(string \<times> SendStatus) list"

definition SendTracker_new :: SendTracker where
  "SendTracker_new = \<lparr> st_sends = [] \<rparr>"

definition SendTracker_start :: "string \<Rightarrow> SendTracker \<Rightarrow> SendTracker" where
  "SendTracker_start i t =
     (if map_of (st_sends t) i = None then t\<lparr> st_sends := AList.update i Pending (st_sends t) \<rparr> else t)"

definition SendTracker_status :: "SendTracker \<Rightarrow> string \<Rightarrow> SendStatus option" where
  "SendTracker_status t i = map_of (st_sends t) i"

definition SendTracker_remove :: "SendTracker \<Rightarrow> string \<Rightarrow> SendTracker \<times> SendStatus option" where
  "SendTracker_remove t i = (t\<lparr> st_sends := AList.delete i (st_sends t) \<rparr>, map_of (st_sends t) i)"

definition SendTracker_apply_response :: "SendTracker \<Rightarrow> string \<Rightarrow> SendResponse \<Rightarrow> SendTracker \<times> bool" where
  "SendTracker_apply_response t i response =
     (case next_status response of
        None \<Rightarrow> (t, False)
      | Some nxt \<Rightarrow>
          if map_of (st_sends t) i = Some Pending
          then (t\<lparr> st_sends := AList.update i nxt (st_sends t) \<rparr>, True) else (t, False))"

definition SendTracker_apply_dropped :: "SendTracker \<Rightarrow> string \<Rightarrow> DropReason \<Rightarrow> SendTracker \<times> bool" where
  "SendTracker_apply_dropped t i reason =
     (if map_of (st_sends t) i = Some Pending \<or> map_of (st_sends t) i = Some Accepted
      then (t\<lparr> st_sends := AList.update i (Dropped reason) (st_sends t) \<rparr>, True) else (t, False))"

definition SEND_DROPPED_KIND :: string where "SEND_DROPPED_KIND = ''e2e_send_dropped''"

record SendKey =
  sk_network :: string
  sk_target :: string
  sk_msgid :: string

definition SendKey_new :: "string \<Rightarrow> string \<Rightarrow> string \<Rightarrow> SendKey" where
  "SendKey_new network target msgid = \<lparr> sk_network = network, sk_target = target, sk_msgid = msgid \<rparr>"

record SendDropped =
  sd_key :: SendKey
  sd_reason :: DropReason

definition SendDropped_from_value :: "'v json_api \<Rightarrow> 'v \<Rightarrow> WireError + SendDropped" where
  "SendDropped_from_value J value =
     rbind (as_object J value) (\<lambda>m.
     rbind (required_str J m ''network'') (\<lambda>network.
     rbind (required_str J m ''target'') (\<lambda>target.
     rbind (required_str J m ''msgid'') (\<lambda>msgid.
     if msgid = [] then Inl MissingField else
     rbind (required_str J m ''reason'') (\<lambda>text.
     rbind (ok_or (DropReason_from_server_wire text) BadFieldType) (\<lambda>reason.
       Inr \<lparr> sd_key = SendKey_new network target msgid, sd_reason = reason \<rparr>))))))"

definition SendDropped_from_payload :: "'v json_api \<Rightarrow> 'v \<Rightarrow> SendDropped option" where
  "SendDropped_from_payload J payload =
     Option.bind (str_field J payload ''kind'') (\<lambda>kind.
       if kind \<noteq> SEND_DROPPED_KIND then None
       else (case SendDropped_from_value J payload of Inl _ \<Rightarrow> None | Inr e \<Rightarrow> Some e))"

record SendBook =
  sb_sends :: "(SendKey \<times> SendStatus) list"

definition SendBook_new :: SendBook where
  "SendBook_new = \<lparr> sb_sends = [] \<rparr>"

definition SendBook_start :: "SendKey \<Rightarrow> SendBook \<Rightarrow> SendBook" where
  "SendBook_start key b =
     (if map_of (sb_sends b) key = None then b\<lparr> sb_sends := AList.update key Pending (sb_sends b) \<rparr> else b)"

definition SendBook_status :: "SendBook \<Rightarrow> SendKey \<Rightarrow> SendStatus option" where
  "SendBook_status b key = map_of (sb_sends b) key"

definition SendBook_remove :: "SendBook \<Rightarrow> SendKey \<Rightarrow> SendBook \<times> SendStatus option" where
  "SendBook_remove b key = (b\<lparr> sb_sends := AList.delete key (sb_sends b) \<rparr>, map_of (sb_sends b) key)"

definition SendBook_apply_response :: "SendBook \<Rightarrow> SendKey \<Rightarrow> SendResponse \<Rightarrow> SendBook \<times> bool" where
  "SendBook_apply_response b key response =
     (case next_status response of
        None \<Rightarrow> (b, False)
      | Some nxt \<Rightarrow>
          if map_of (sb_sends b) key = Some Pending
          then (b\<lparr> sb_sends := AList.update key nxt (sb_sends b) \<rparr>, True) else (b, False))"

definition SendBook_apply_dropped :: "SendBook \<Rightarrow> SendDropped \<Rightarrow> SendBook \<times> bool" where
  "SendBook_apply_dropped b event =
     (if map_of (sb_sends b) (sd_key event) = Some Pending \<or> map_of (sb_sends b) (sd_key event) = Some Accepted
      then (b\<lparr> sb_sends := AList.update (sd_key event) (Dropped (sd_reason event)) (sb_sends b) \<rparr>, True)
      else (b, False))"

definition SendBook_drop_local :: "SendBook \<Rightarrow> SendKey \<Rightarrow> DropReason \<Rightarrow> SendBook \<times> bool" where
  "SendBook_drop_local b key reason = SendBook_apply_dropped b \<lparr> sd_key = key, sd_reason = reason \<rparr>"

text \<open>The loop visits every entry once, in the iteration order of the map.\<close>

fun end_session_loop ::
    "(SendKey \<times> SendStatus) list \<Rightarrow> (SendKey \<times> SendStatus) list \<times> SendDropped list" where
  "end_session_loop [] = ([], [])"
| "end_session_loop ((key, status) # rest) =
     (let (sends, ended) = end_session_loop rest
      in if status = Pending \<or> status = Accepted
         then ((key, Dropped SessionEnded) # sends, \<lparr> sd_key = key, sd_reason = SessionEnded \<rparr> # ended)
         else ((key, status) # sends, ended))"

definition SendBook_end_session :: "SendBook \<Rightarrow> SendBook \<times> SendDropped list" where
  "SendBook_end_session b =
     (let (sends, ended) = end_session_loop (sb_sends b) in (b\<lparr> sb_sends := sends \<rparr>, ended))"

definition SendBook_apply_payload :: "'v json_api \<Rightarrow> SendBook \<Rightarrow> 'v \<Rightarrow> SendBook \<times> SendDropped option" where
  "SendBook_apply_payload J b payload =
     (case SendDropped_from_payload J payload of
        None \<Rightarrow> (b, None)
      | Some event \<Rightarrow>
          let (b', changed) = SendBook_apply_dropped b event
          in (b', if changed then Some event else None))"

definition SendBook_apply_dropped_event :: "'v json_api \<Rightarrow> SendBook \<Rightarrow> 'v \<Rightarrow> SendBook \<times> (WireError + bool)" where
  "SendBook_apply_dropped_event J b payload =
     (case SendDropped_from_value J payload of
        Inl e \<Rightarrow> (b, Inl e)
      | Inr event \<Rightarrow> let (b', changed) = SendBook_apply_dropped b event in (b', Inr changed))"

section \<open>The queue of messages that wait for keys\<close>

record QueuedSend =
  qs_key :: SendKey
  qs_deadline :: duration

record OutgoingQueue =
  oq_items :: "QueuedSend list"

definition OutgoingQueue_new :: OutgoingQueue where
  "OutgoingQueue_new = \<lparr> oq_items = [] \<rparr>"

definition OutgoingQueue_len_for :: "OutgoingQueue \<Rightarrow> string \<Rightarrow> CaseMapping \<Rightarrow> nat" where
  "OutgoingQueue_len_for q target cm =
     length (filter (\<lambda>item. nick_key (sk_target (qs_key item)) cm = nick_key target cm) (oq_items q))"

definition OutgoingQueue_push ::
    "OutgoingQueue \<Rightarrow> SendKey \<Rightarrow> CaseMapping \<Rightarrow> duration \<Rightarrow> OutgoingQueue \<times> bool" where
  "OutgoingQueue_push q key cm now =
     (if OutgoingQueue_len_for q (sk_target key) cm \<ge> OUTGOING_QUEUE_MAX then (q, False)
      else (q\<lparr> oq_items := oq_items q @ [\<lparr> qs_key = key, qs_deadline = now + OUTGOING_QUEUE_TTL \<rparr>] \<rparr>, True))"

text \<open>\<^verbatim>\<open>retain\<close> with a closure that collects the late messages.\<close>

fun expire_loop :: "duration \<Rightarrow> QueuedSend list \<Rightarrow> QueuedSend list \<times> SendDropped list" where
  "expire_loop now [] = ([], [])"
| "expire_loop now (item # items) =
     (let (kept, late) = expire_loop now items
      in if check_send_deadline now (qs_deadline item) = TooLate
         then (kept, \<lparr> sd_key = qs_key item, sd_reason = Late \<rparr> # late)
         else (item # kept, late))"

definition OutgoingQueue_expire :: "OutgoingQueue \<Rightarrow> duration \<Rightarrow> OutgoingQueue \<times> SendDropped list" where
  "OutgoingQueue_expire q now =
     (let (kept, late) = expire_loop now (oq_items q) in (q\<lparr> oq_items := kept \<rparr>, late))"

text \<open>The closure \<^verbatim>\<open>ready\<close> is an \<^verbatim>\<open>FnMut\<close>: it has a state of its own that each call may change.\<close>

fun take_loop ::
    "('s \<Rightarrow> QueuedSend \<Rightarrow> 's \<times> bool) \<Rightarrow> 's \<Rightarrow> QueuedSend list \<Rightarrow> QueuedSend list \<times> QueuedSend list" where
  "take_loop ready s [] = ([], [])"
| "take_loop ready s (item # items) =
     (let (s', go) = ready s item;
          (taken, kept) = take_loop ready s' items
      in if go then (item # taken, kept) else (taken, item # kept))"

definition OutgoingQueue_take_matching ::
    "OutgoingQueue \<Rightarrow> duration \<Rightarrow> ('s \<Rightarrow> QueuedSend \<Rightarrow> 's \<times> bool) \<Rightarrow> 's
     \<Rightarrow> OutgoingQueue \<times> QueuedSend list \<times> SendDropped list" where
  "OutgoingQueue_take_matching q now ready s =
     (let (q', late) = OutgoingQueue_expire q now;
          (taken, kept) = take_loop ready s (oq_items q')
      in (q'\<lparr> oq_items := kept \<rparr>, taken, late))"

definition OutgoingQueue_take_ready ::
    "OutgoingQueue \<Rightarrow> duration \<Rightarrow> OutgoingQueue \<times> QueuedSend list \<times> SendDropped list" where
  "OutgoingQueue_take_ready q now = OutgoingQueue_take_matching q now (\<lambda>_ _. ((), True)) ()"

fun targets_loop :: "string list \<Rightarrow> QueuedSend list \<Rightarrow> string list" where
  "targets_loop targets [] = targets"
| "targets_loop targets (item # items) =
     targets_loop (if sk_target (qs_key item) \<in> set targets then targets
                   else targets @ [sk_target (qs_key item)]) items"

definition OutgoingQueue_targets :: "OutgoingQueue \<Rightarrow> string list" where
  "OutgoingQueue_targets q = targets_loop [] (oq_items q)"

definition OutgoingQueue_remove :: "OutgoingQueue \<Rightarrow> SendKey \<Rightarrow> OutgoingQueue \<times> bool" where
  "OutgoingQueue_remove q key =
     (let kept = filter (\<lambda>item. qs_key item \<noteq> key) (oq_items q)
      in (q\<lparr> oq_items := kept \<rparr>, length kept \<noteq> length (oq_items q)))"

definition OutgoingQueue_restore :: "OutgoingQueue \<Rightarrow> QueuedSend \<Rightarrow> OutgoingQueue" where
  "OutgoingQueue_restore q item = q\<lparr> oq_items := item # oq_items q \<rparr>"

definition OutgoingQueue_end_session :: "OutgoingQueue \<Rightarrow> OutgoingQueue \<times> SendDropped list" where
  "OutgoingQueue_end_session q =
     (q\<lparr> oq_items := [] \<rparr>,
      map (\<lambda>item. \<lparr> sd_key = qs_key item, sd_reason = SessionEnded \<rparr>) (oq_items q))"

section \<open>Runs\<close>

text \<open>A component that now and then lets an event through: a step takes an operation and may emit
  an event. A run collects the emitted events in order.\<close>

fun gate_run :: "('s \<Rightarrow> 'op \<Rightarrow> 's \<times> 'e option) \<Rightarrow> 's \<Rightarrow> 'op list \<Rightarrow> 'e list" where
  "gate_run step s [] = []"
| "gate_run step s (x # xs) =
     (case step s x of (s', out) \<Rightarrow> (case out of None \<Rightarrow> [] | Some e \<Rightarrow> [e]) @ gate_run step s' xs)"

fun gate_state :: "('s \<Rightarrow> 'op \<Rightarrow> 's \<times> 'e option) \<Rightarrow> 's \<Rightarrow> 'op list \<Rightarrow> 's" where
  "gate_state step s [] = s"
| "gate_state step s (x # xs) = gate_state step (fst (step s x)) xs"

text \<open>The contract of a gate that spaces the events of one key.\<close>

locale spaced_gate =
  fixes step :: "'s \<Rightarrow> 'op \<Rightarrow> 's \<times> (string \<times> duration) option"
    and last_at :: "'s \<Rightarrow> string \<Rightarrow> duration option"
    and gap :: "'s \<Rightarrow> duration"
    and key :: "string \<Rightarrow> string"
  assumes emitted: "step s x = (s', Some (n, t)) \<Longrightarrow>
      (case last_at s (key n) of None \<Rightarrow> True | Some l \<Rightarrow> gap s \<le> t - l) \<and>
      last_at s' = (last_at s)(key n \<mapsto> t)"
    and silent: "step s x = (s', None) \<Longrightarrow> last_at s' = last_at s"
    and gap_kept: "gap (fst (step s x)) = gap s"
begin

lemma after_last:
  "\<lbrakk>0 < gap s; (n, t) \<in> set (gate_run step s xs); last_at s (key n) = Some l\<rbrakk> \<Longrightarrow> l + gap s \<le> t"
proof (induction xs arbitrary: s l)
  case Nil
  then show ?case by simp
next
  case (Cons x xs)
  obtain s' out where st: "step s x = (s', out)" by (cases "step s x")
  have g: "gap s' = gap s" using gap_kept [of s x] st by simp
  show ?case
  proof (cases out)
    case None
    with Cons.prems st silent g show ?thesis
      using Cons.IH [of s' l] by fastforce
  next
    case (Some e)
    obtain m u where e: "e = (m, u)" by (cases e)
    with Some st emitted have em: "case last_at s (key m) of None \<Rightarrow> True | Some l \<Rightarrow> gap s \<le> u - l"
      and l': "last_at s' = (last_at s)(key m \<mapsto> u)" by blast+
    consider "(n, t) = (m, u)" | "(n, t) \<in> set (gate_run step s' xs)"
      using Cons.prems(2) st Some e by auto
    then show ?thesis
    proof cases
      case 1
      with em Cons.prems(1,3) show ?thesis by auto
    next
      case 2
      show ?thesis
      proof (cases "key n = key m")
        case True
        then have "u + gap s \<le> t" using Cons.IH [of s' u] 2 l' g Cons.prems(1) by simp
        moreover have "gap s \<le> u - l" using em Cons.prems(3) True by simp
        ultimately show ?thesis using Cons.prems(1) by linarith
      next
        case False
        then show ?thesis using Cons.IH [of s' l] 2 l' g Cons.prems by simp
      qed
    qed
  qed
qed

lemma run_spaced:
  "0 < gap s \<Longrightarrow>
   sorted_wrt (\<lambda>(n, t) (m, u). key n = key m \<longrightarrow> t + gap s \<le> u) (gate_run step s xs)"
proof (induction xs arbitrary: s)
  case Nil
  then show ?case by simp
next
  case (Cons x xs)
  obtain s' out where st: "step s x = (s', out)" by (cases "step s x")
  have g: "gap s' = gap s" using gap_kept [of s x] st by simp
  have IH: "sorted_wrt (\<lambda>(n, t) (m, u). key n = key m \<longrightarrow> t + gap s \<le> u) (gate_run step s' xs)"
    using Cons g by metis
  show ?case
  proof (cases out)
    case None
    then show ?thesis using IH st by simp
  next
    case (Some e)
    obtain n t where e: "e = (n, t)" by (cases e)
    have "last_at s' (key n) = Some t" using emitted [of s x s' n t] st Some e by simp
    then have "t + gap s \<le> u" if "(m, u) \<in> set (gate_run step s' xs)" "key n = key m" for m u
      using after_last [of s' m u xs t] that g Cons.prems by simp
    then show ?thesis using IH st Some e by auto
  qed
qed

end

text \<open>The contract of a gate that admits at most \<open>limit\<close> events in a window: it keeps the times of
  the admitted events and drops those that left the window.\<close>

definition prune_events :: "duration \<Rightarrow> duration \<Rightarrow> duration list \<Rightarrow> duration list" where
  "prune_events window now events = dropWhile (\<lambda>first. now - first \<ge> window) events"

definition in_window :: "duration \<Rightarrow> duration \<Rightarrow> duration \<Rightarrow> bool" where
  "in_window a window t \<longleftrightarrow> a \<le> t \<and> t < a + window"

locale windowed_gate =
  fixes step :: "'s \<Rightarrow> 'op \<Rightarrow> 's \<times> 'e option"
    and clock :: "'op \<Rightarrow> duration"
    and time_of :: "'e \<Rightarrow> duration"
    and events :: "'s \<Rightarrow> duration list"
    and limit :: "'s \<Rightarrow> nat"
    and window :: "'s \<Rightarrow> duration"
  assumes emit_events: "step s x = (s', Some e) \<Longrightarrow>
      time_of e = clock x \<and> events s' = prune_events (window s) (clock x) (events s) @ [clock x] \<and>
      length (prune_events (window s) (clock x) (events s)) < limit s"
    and silent_events: "step s x = (s', None) \<Longrightarrow> events s' = prune_events (window s) (clock x) (events s)"
    and params_kept: "limit (fst (step s x)) = limit s" "window (fst (step s x)) = window s"
begin

lemma run_windowed_from:
  assumes "sorted (map clock xs)" "\<forall>x \<in> set xs. T \<le> clock x" "\<forall>e \<in> set (events s). e \<le> T"
    "\<forall>x \<in> set old. x + window s \<le> T"
    "\<forall>a. length (filter (in_window a (window s)) (old @ events s)) \<le> limit s"
  shows "length (filter (in_window a (window s)) (old @ events s @ map time_of (gate_run step s xs))) \<le> limit s"
  using assms
proof (induction xs arbitrary: s old T)
  case Nil
  then show ?case by simp
next
  case (Cons x xs)
  obtain s' out where st: "step s x = (s', out)" by (cases "step s x")
  have par: "limit s' = limit s" "window s' = window s" using params_kept [of s x] st by simp_all
  define p where "p = prune_events (window s) (clock x) (events s)"
  define d where "d = takeWhile (\<lambda>first. clock x - first \<ge> window s) (events s)"
  have dp: "events s = d @ p" by (simp add: d_def p_def prune_events_def)
  have Tx: "T \<le> clock x" using Cons.prems(2) by simp
  have old: "\<forall>y \<in> set (old @ d). y + window s \<le> clock x"
  proof
    fix y assume "y \<in> set (old @ d)"
    then consider "y \<in> set old" | "y \<in> set d" by auto
    then show "y + window s \<le> clock x"
    proof cases
      case 1
      then show ?thesis using Cons.prems(4) Tx by fastforce
    next
      case 2
      then have "y \<in> set (events s)" "window s \<le> clock x - y"
        unfolding d_def by (auto dest: set_takeWhileD)
      moreover from this have "y \<le> T" using Cons.prems(3) by blast
      ultimately have "window s \<le> clock x - y" "y \<le> T" by blast+
      then show ?thesis using Tx by linarith
    qed
  qed
  have ptime: "\<forall>e \<in> set p. e \<le> clock x"
  proof
    fix e assume "e \<in> set p"
    then have "e \<in> set (events s)" unfolding dp by simp
    then show "e \<le> clock x" using Cons.prems(3) Tx by fastforce
  qed
  have srt: "sorted (map clock xs)" "\<forall>y \<in> set xs. clock x \<le> clock y" using Cons.prems(1) by auto
  show ?case
  proof (cases out)
    case None
    then have ev: "events s' = p" using st silent_events by (simp add: p_def)
    have "length (filter (in_window a (window s')) ((old @ d) @ events s' @ map time_of (gate_run step s' xs))) \<le> limit s'"
    proof (rule Cons.IH [OF srt])
      show "\<forall>b. length (filter (in_window b (window s')) ((old @ d) @ events s')) \<le> limit s'"
        using Cons.prems(5) unfolding dp ev par by (metis append.assoc)
    qed (use ev ptime old par in simp_all)
    with None st ev dp par show ?thesis by simp
  next
    case (Some e)
    then have ev: "events s' = p @ [clock x]" "length p < limit s" "time_of e = clock x"
      using st emit_events [of s x s' e] by (simp_all add: p_def)
    have "length (filter (in_window b (window s)) ((old @ d) @ p @ [clock x])) \<le> limit s" for b
    proof (cases "in_window b (window s) (clock x)")
      case True
      have "\<not> in_window b (window s) y" if "y \<in> set (old @ d)" for y
        using bspec [OF old that] True unfolding in_window_def by linarith
      then have none: "filter (in_window b (window s)) (old @ d) = []"
        by (simp only: filter_empty_conv) blast
      have "length (filter (in_window b (window s)) (p @ [clock x])) \<le> length p + 1"
        by (simp add: le_SucI)
      then show ?thesis using none ev(2) by (simp only: filter_append length_append) simp
    next
      case False
      then show ?thesis using Cons.prems(5) dp by simp
    qed
    then have "\<forall>b. length (filter (in_window b (window s')) ((old @ d) @ events s')) \<le> limit s'"
      unfolding ev par by blast
    then have "length (filter (in_window a (window s')) ((old @ d) @ events s' @ map time_of (gate_run step s' xs))) \<le> limit s'"
      by (intro Cons.IH [OF srt]) (use ev ptime old par in auto)
    with Some st ev dp par show ?thesis by simp
  qed
qed

lemma run_windowed:
  assumes "sorted (map clock xs)" "events s = []"
  shows "length (filter (in_window a (window s)) (map time_of (gate_run step s xs))) \<le> limit s"
  using run_windowed_from [of xs 0 s "[]" a] assms by simp

end

section \<open>The limiters keep the contracts\<close>

lemma sync_limiter_simps [simp]:
  "il_interval (IntervalLimiter_sync_casemapping l cm) = il_interval l"
  "il_casemapping (IntervalLimiter_sync_casemapping l cm) = Some cm"
  "IntervalLimiter_sync_casemapping (IntervalLimiter_sync_casemapping l cm) cm = IntervalLimiter_sync_casemapping l cm"
  by (auto simp: IntervalLimiter_sync_casemapping_def)

definition limiter_last :: "CaseMapping \<Rightarrow> IntervalLimiter \<Rightarrow> string \<Rightarrow> duration option" where
  "limiter_last cm l = map_of (il_last (IntervalLimiter_sync_casemapping l cm))"

definition limiter_free :: "CaseMapping \<Rightarrow> IntervalLimiter \<Rightarrow> string \<Rightarrow> duration \<Rightarrow> bool" where
  "limiter_free cm l nick now \<longleftrightarrow>
     (case limiter_last cm l (nick_key nick cm) of None \<Rightarrow> True | Some t \<Rightarrow> il_interval l \<le> now - t)"

lemma try_acquire_result: "snd (IntervalLimiter_try_acquire l nick cm now) = limiter_free cm l nick now"
  by (auto simp: IntervalLimiter_try_acquire_def limiter_free_def limiter_last_def Let_def not_less
      split: option.splits)

lemma try_acquire_last:
  "limiter_last cm (fst (IntervalLimiter_try_acquire l nick cm now)) =
     (if limiter_free cm l nick now then (limiter_last cm l)(nick_key nick cm \<mapsto> now) else limiter_last cm l)"
proof -
  let ?l = "IntervalLimiter_sync_casemapping l cm"
  have cm: "IntervalLimiter_sync_casemapping (?l\<lparr>il_last := xs\<rparr>) cm = ?l\<lparr>il_last := xs\<rparr>" for xs
    by (simp add: IntervalLimiter_sync_casemapping_def [of "?l\<lparr>il_last := xs\<rparr>"])
  show ?thesis
    by (auto simp: IntervalLimiter_try_acquire_def limiter_free_def limiter_last_def Let_def cm not_less fun_eq_iff
        split: option.splits)
qed

lemma try_acquire_interval [simp]: "il_interval (fst (IntervalLimiter_try_acquire l nick cm now)) = il_interval l"
  by (auto simp: IntervalLimiter_try_acquire_def Let_def split: option.splits)

definition limiter_step :: "CaseMapping \<Rightarrow> IntervalLimiter \<Rightarrow> string \<times> duration \<Rightarrow> IntervalLimiter \<times> (string \<times> duration) option" where
  "limiter_step cm l x =
     (let (l', free) = IntervalLimiter_try_acquire l (fst x) cm (snd x) in (l', if free then Some x else None))"

lemma limiter_step_eq:
  "limiter_step cm l (n, t) =
     (fst (IntervalLimiter_try_acquire l n cm t), if limiter_free cm l n t then Some (n, t) else None)"
  by (simp add: limiter_step_def case_prod_beta try_acquire_result)

interpretation limiter_gate: spaced_gate "limiter_step cm" "limiter_last cm" il_interval "\<lambda>n. nick_key n cm" for cm
  by unfold_locales
     (auto simp: limiter_step_def case_prod_beta try_acquire_result try_acquire_last limiter_free_def
       split: if_splits option.splits)

definition window_step :: "WindowLimiter \<Rightarrow> duration \<Rightarrow> WindowLimiter \<times> duration option" where
  "window_step w now = (let (w', ok) = WindowLimiter_try_acquire w now in (w', if ok then Some now else None))"

lemma is_ready_eq:
  "WindowLimiter_is_ready w now =
     (w\<lparr>wl_events := prune_events (wl_window w) now (wl_events w)\<rparr>,
      length (prune_events (wl_window w) now (wl_events w)) < wl_limit w)"
  by (simp add: WindowLimiter_is_ready_def prune_events_def Let_def)

lemma prune_idem [simp]: "prune_events w now (prune_events w now es) = prune_events w now es"
  by (simp add: prune_events_def dropWhile_eq_self_iff)

interpretation window_gate: windowed_gate window_step "\<lambda>t. t" "\<lambda>t. t" wl_events wl_limit wl_window
  by unfold_locales
     (auto simp: window_step_def WindowLimiter_try_acquire_def is_ready_eq split: if_splits)

lemma choose_eq:
  "OneTimeKeyPacer_choose p nick cm now =
     (let l = IntervalLimiter_sync_casemapping (otk_limiter p) cm;
          g = (otk_global p)\<lparr>wl_events := prune_events (wl_window (otk_global p)) now (wl_events (otk_global p))\<rparr>
      in if length (wl_events g) < wl_limit g \<and> limiter_free cm l nick now
         then (\<lparr>otk_limiter = fst (IntervalLimiter_try_acquire l nick cm now),
                otk_global = g\<lparr>wl_events := wl_events g @ [now]\<rparr>\<rparr>, OneTime)
         else (\<lparr>otk_limiter = (if length (wl_events g) < wl_limit g
                  then fst (IntervalLimiter_try_acquire l nick cm now) else l), otk_global = g\<rparr>, Fallback))"
  by (simp add: OneTimeKeyPacer_choose_def is_ready_eq WindowLimiter_try_acquire_def case_prod_beta
      try_acquire_result Let_def)

definition pacer_step ::
    "CaseMapping \<Rightarrow> OneTimeKeyPacer \<Rightarrow> string \<times> duration \<Rightarrow> OneTimeKeyPacer \<times> (string \<times> duration) option" where
  "pacer_step cm p x =
     (let (p', choice) = OneTimeKeyPacer_choose p (fst x) cm (snd x)
      in (p', if choice = OneTime then Some x else None))"

lemma limiter_last_sync [simp]:
  "limiter_last cm (IntervalLimiter_sync_casemapping l cm) = limiter_last cm l"
  by (simp add: limiter_last_def)

lemma limiter_free_sync [simp]:
  "limiter_free cm (IntervalLimiter_sync_casemapping l cm) nick now = limiter_free cm l nick now"
  by (simp add: limiter_free_def split: option.splits)

interpretation pacer_gate: spaced_gate "pacer_step cm" "\<lambda>p. limiter_last cm (otk_limiter p)"
    "\<lambda>p. il_interval (otk_limiter p)" "\<lambda>n. nick_key n cm" for cm
  by unfold_locales
     (auto simp: pacer_step_def choose_eq Let_def case_prod_beta try_acquire_last limiter_free_def split: if_splits option.splits)

interpretation pacer_window: windowed_gate "pacer_step cm" snd snd "\<lambda>p. wl_events (otk_global p)"
    "\<lambda>p. wl_limit (otk_global p)" "\<lambda>p. wl_window (otk_global p)" for cm
  by unfold_locales
     (auto simp: pacer_step_def choose_eq Let_def case_prod_beta split: if_splits)

section \<open>Key requests and reassembly\<close>

lemma map_of_filter_keep: "map_of xs k = Some v \<Longrightarrow> P (k, v) \<Longrightarrow> map_of (filter P xs) k = Some v"
  by (induction xs) (auto split: if_splits)

lemma sync_gate_simps [simp]:
  "rg_timeout (ReassemblyGate_sync_casemapping g cm) = rg_timeout g"
  "rg_casemapping (ReassemblyGate_sync_casemapping g cm) = Some cm"
  "ReassemblyGate_sync_casemapping (ReassemblyGate_sync_casemapping g cm) cm = ReassemblyGate_sync_casemapping g cm"
  by (auto simp: ReassemblyGate_sync_casemapping_def)

lemma sync_gate_update [simp]:
  "ReassemblyGate_sync_casemapping ((ReassemblyGate_sync_casemapping g cm)\<lparr>rg_last_fragment := m\<rparr>) cm
   = (ReassemblyGate_sync_casemapping g cm)\<lparr>rg_last_fragment := m\<rparr>"
  by (simp add: ReassemblyGate_sync_casemapping_def [of "(ReassemblyGate_sync_casemapping g cm)\<lparr>rg_last_fragment := m\<rparr>"])

text \<open>The time of the last fragment of one message of one nickname.\<close>

definition fragment_time :: "CaseMapping \<Rightarrow> ReassemblyGate \<Rightarrow> string \<Rightarrow> string \<Rightarrow> duration option" where
  "fragment_time cm g nick msgid =
     Option.bind (map_of (rg_last_fragment (ReassemblyGate_sync_casemapping g cm)) (nick_key nick cm))
       (\<lambda>messages. map_of messages msgid)"

lemma fragment_time_note:
  "nick_key n cm = nick_key nick cm \<Longrightarrow>
   fragment_time cm (ReassemblyGate_note_fragment g n msgid cm now) nick msgid = Some now"
  by (simp add: fragment_time_def ReassemblyGate_note_fragment_def Let_def)

lemma fragment_time_note_other:
  assumes "fragment_time cm g nick m = Some t" "now - t < rg_timeout g"
    "\<not> (nick_key n cm = nick_key nick cm \<and> msgid = m)"
  shows "fragment_time cm (ReassemblyGate_note_fragment g n msgid cm now) nick m = Some t"
  using assms
  by (auto simp: fragment_time_def ReassemblyGate_note_fragment_def Let_def bind_eq_Some_conv
      intro: map_of_filter_keep)

lemma fragment_time_finish_other:
  assumes "fragment_time cm g nick m = Some t" "\<not> (nick_key n cm = nick_key nick cm \<and> msgid = m)"
  shows "fragment_time cm (ReassemblyGate_finish g n msgid cm) nick m = Some t"
proof -
  have "AList.delete msgid messages \<noteq> []"
    if "map_of messages m = Some t" "msgid \<noteq> m" for messages
    using that by (metis amap.get_del map_of.simps(1) option.distinct(1))
  with assms show ?thesis
    by (auto simp: fragment_time_def ReassemblyGate_finish_def Let_def bind_eq_Some_conv split: option.splits)
qed

lemma active_if_recent:
  "fragment_time cm g nick m = Some t \<Longrightarrow> now - t < rg_timeout g \<Longrightarrow>
   snd (ReassemblyGate_is_active g nick cm now)"
proof -
  assume "fragment_time cm g nick m = Some t" and now: "now - t < rg_timeout g"
  then obtain messages where
    look: "map_of (rg_last_fragment (ReassemblyGate_sync_casemapping g cm)) (nick_key nick cm) = Some messages"
    and "map_of messages m = Some t"
    by (auto simp: fragment_time_def bind_eq_Some_conv)
  from this(2) have "(m, t) \<in> set messages" by (rule map_of_SomeD)
  with look now show ?thesis by (auto simp: ReassemblyGate_is_active_def Let_def list_ex_iff)
qed

lemma gate_timeout [simp]:
  "rg_timeout (ReassemblyGate_note_fragment g n m cm now) = rg_timeout g"
  "rg_timeout (ReassemblyGate_finish g n m cm) = rg_timeout g"
  "rg_timeout (fst (ReassemblyGate_is_active g n cm now)) = rg_timeout g"
  by (auto simp: ReassemblyGate_note_fragment_def ReassemblyGate_finish_def ReassemblyGate_is_active_def
      Let_def split: option.splits)

lemma is_active_state: "fst (ReassemblyGate_is_active g nick cm now) = ReassemblyGate_sync_casemapping g cm"
  by (simp add: ReassemblyGate_is_active_def Let_def)

lemma fragment_time_sync [simp]:
  "fragment_time cm (ReassemblyGate_sync_casemapping g cm) = fragment_time cm g"
  by (simp add: fragment_time_def fun_eq_iff)

text \<open>The operations of the key request pacer, other than \<^verbatim>\<open>forget\<close>, as the steps of a gate that
  emits the requests it lets through.\<close>

datatype keyreq_op =
  KSend string duration | KNote string string duration | KFinish string string duration

fun keyreq_clock :: "keyreq_op \<Rightarrow> duration" where
  "keyreq_clock (KSend _ t) = t"
| "keyreq_clock (KNote _ _ t) = t"
| "keyreq_clock (KFinish _ _ t) = t"

fun keyreq_step :: "CaseMapping \<Rightarrow> KeyReqPacer \<Rightarrow> keyreq_op \<Rightarrow> KeyReqPacer \<times> (string \<times> duration) option" where
  "keyreq_step cm p (KSend nick now) =
     (let (p', r) = KeyReqPacer_try_send p nick cm now in (p', if is_ok r then Some (nick, now) else None))"
| "keyreq_step cm p (KNote nick msgid now) = (KeyReqPacer_note_fragment p nick msgid cm now, None)"
| "keyreq_step cm p (KFinish nick msgid now) = (KeyReqPacer_finish p nick msgid cm, None)"

lemma try_send_eq:
  "KeyReqPacer_try_send p nick cm now =
     (if snd (ReassemblyGate_is_active (krp_gate p) nick cm now)
      then (KeyReqPacer_sync_casemapping p cm, Inl Reassembling)
      else (\<lparr>krp_limiter = fst (IntervalLimiter_try_acquire (krp_limiter p) nick cm now),
             krp_gate = ReassemblyGate_sync_casemapping (krp_gate p) cm\<rparr>,
            if limiter_free cm (krp_limiter p) nick now then Inr () else Inl Interval))"
proof -
  have a: "snd (ReassemblyGate_is_active (ReassemblyGate_sync_casemapping g cm) nick cm now)
     = snd (ReassemblyGate_is_active g nick cm now)" for g
    by (simp add: ReassemblyGate_is_active_def Let_def)
  have l: "IntervalLimiter_try_acquire (IntervalLimiter_sync_casemapping l cm) nick cm now
     = IntervalLimiter_try_acquire l nick cm now" for l
    by (simp add: IntervalLimiter_try_acquire_def Let_def)
  show ?thesis
    by (simp add: KeyReqPacer_try_send_def KeyReqPacer_sync_casemapping_def ReassemblyGate_may_send_keyreq_def
        case_prod_beta Let_def a l try_acquire_result is_active_state)
qed

interpretation keyreq_gate: spaced_gate "keyreq_step cm" "\<lambda>p. limiter_last cm (krp_limiter p)"
    "\<lambda>p. il_interval (krp_limiter p)" "\<lambda>n. nick_key n cm" for cm
proof (unfold_locales, goal_cases)
  case (1 s x s' n t)
  then show ?case
    by (cases x)
       (auto simp: try_send_eq try_acquire_last limiter_free_def split: if_splits option.splits)
next
  case (2 s x s')
  then show ?case
    by (cases x)
       (auto simp: try_send_eq try_acquire_last KeyReqPacer_sync_casemapping_def KeyReqPacer_note_fragment_def
         KeyReqPacer_finish_def Let_def split: if_splits)
next
  case (3 s x)
  then show ?case
    by (cases x)
       (auto simp: try_send_eq KeyReqPacer_sync_casemapping_def KeyReqPacer_note_fragment_def
         KeyReqPacer_finish_def Let_def)
qed

lemma keyreq_step_gate:
  assumes "fragment_time cm (krp_gate p) nick m = Some t" "t0 \<le> t"
    "t0 \<le> keyreq_clock x" "keyreq_clock x < t0 + rg_timeout (krp_gate p)"
    "\<forall>n now. x = KFinish n m now \<longrightarrow> nick_key n cm \<noteq> nick_key nick cm"
  shows "\<exists>t' \<ge> t0. fragment_time cm (krp_gate (fst (keyreq_step cm p x))) nick m = Some t'"
    and "rg_timeout (krp_gate (fst (keyreq_step cm p x))) = rg_timeout (krp_gate p)"
    and "snd (keyreq_step cm p x) = Some (n, now) \<Longrightarrow> nick_key n cm \<noteq> nick_key nick cm"
proof -
  have recent: "keyreq_clock x - t < rg_timeout (krp_gate p)" using assms(2-4) by linarith
  have recent_sync: "fragment_time cm (ReassemblyGate_sync_casemapping (krp_gate p) cm) nick m = Some t"
    using assms(1) by simp
  show "\<exists>t' \<ge> t0. fragment_time cm (krp_gate (fst (keyreq_step cm p x))) nick m = Some t'"
  proof (cases x)
    case (KSend n now)
    then show ?thesis using assms(1,2)
      by (auto simp: try_send_eq KeyReqPacer_sync_casemapping_def case_prod_beta)
  next
    case (KNote n msgid now)
    show ?thesis
    proof (cases "nick_key n cm = nick_key nick cm \<and> msgid = m")
      case True
      then show ?thesis using KNote assms(3)
        by (auto simp: KeyReqPacer_note_fragment_def KeyReqPacer_sync_casemapping_def fragment_time_note)
    next
      case False
      then show ?thesis using KNote assms(2) recent fragment_time_note_other [OF recent_sync, of now n msgid]
        by (auto simp: KeyReqPacer_note_fragment_def KeyReqPacer_sync_casemapping_def)
    qed
  next
    case (KFinish n msgid now)
    then have "\<not> (nick_key n cm = nick_key nick cm \<and> msgid = m)" using assms(5) by blast
    then show ?thesis using KFinish assms(2) fragment_time_finish_other [OF recent_sync, of n msgid]
      by (auto simp: KeyReqPacer_finish_def KeyReqPacer_sync_casemapping_def)
  qed
  show "rg_timeout (krp_gate (fst (keyreq_step cm p x))) = rg_timeout (krp_gate p)"
    by (cases x) (auto simp: try_send_eq KeyReqPacer_sync_casemapping_def KeyReqPacer_note_fragment_def
        KeyReqPacer_finish_def case_prod_beta)
  assume emit: "snd (keyreq_step cm p x) = Some (n, now)"
  then have x: "x = KSend n now" and ok: "\<not> snd (ReassemblyGate_is_active (krp_gate p) n cm now)"
    by (cases x; auto simp: try_send_eq split: if_splits)+
  show "nick_key n cm \<noteq> nick_key nick cm"
  proof
    assume "nick_key n cm = nick_key nick cm"
    then have "fragment_time cm (krp_gate p) n m = Some t"
      using assms(1) by (simp add: fragment_time_def)
    then show False using active_if_recent [of cm "krp_gate p" n m t now] recent x ok by simp
  qed
qed

lemma keyreq_run_gate:
  assumes "fragment_time cm (krp_gate p) nick m = Some t" "t0 \<le> t"
    "\<forall>x \<in> set xs. t0 \<le> keyreq_clock x \<and> keyreq_clock x < t0 + rg_timeout (krp_gate p)"
    "\<forall>n now. KFinish n m now \<in> set xs \<longrightarrow> nick_key n cm \<noteq> nick_key nick cm"
  shows "\<forall>(n, now) \<in> set (gate_run (keyreq_step cm) p xs). nick_key n cm \<noteq> nick_key nick cm"
  using assms
proof (induction xs arbitrary: p t)
  case Nil
  then show ?case by simp
next
  case (Cons x xs)
  let ?p = "fst (keyreq_step cm p x)"
  have x: "t0 \<le> keyreq_clock x" "keyreq_clock x < t0 + rg_timeout (krp_gate p)"
    "\<forall>n now. x = KFinish n m now \<longrightarrow> nick_key n cm \<noteq> nick_key nick cm"
    using Cons.prems(3,4) by auto
  note step = keyreq_step_gate [OF Cons.prems(1,2) x]
  obtain t' where t': "fragment_time cm (krp_gate ?p) nick m = Some t'" "t0 \<le> t'" using step(1) by blast
  have rest: "\<forall>(n, now) \<in> set (gate_run (keyreq_step cm) ?p xs). nick_key n cm \<noteq> nick_key nick cm"
    by (rule Cons.IH [OF t']) (use Cons.prems(3,4) step(2) in auto)
  have "nick_key n cm \<noteq> nick_key nick cm" if "snd (keyreq_step cm p x) = Some (n, now)" for n now
    using step(3) that by blast
  with rest show ?case
    by (cases "snd (keyreq_step cm p x)") (auto simp: case_prod_beta)
qed

section \<open>The contract of a ledger of sends\<close>

text \<open>The tracker and the book follow the same rules on different keys.\<close>

fun send_rank :: "SendStatus \<Rightarrow> nat" where
  "send_rank Pending = 0"
| "send_rank Accepted = 1"
| "send_rank (Failed _) = 2"
| "send_rank (Dropped _) = 2"

definition final_status :: "SendStatus \<Rightarrow> bool" where
  "final_status st \<longleftrightarrow> send_rank st = 2"

datatype 'k send_op = OpStart 'k | OpRespond 'k SendResponse | OpDrop 'k DropReason

text \<open>The drops that change a send, in a run: the results a caller reports to the user.\<close>

fun reported_drops :: "('b \<Rightarrow> 'k send_op \<Rightarrow> 'b \<times> bool) \<Rightarrow> 'b \<Rightarrow> 'k send_op list \<Rightarrow> ('k \<times> DropReason) list" where
  "reported_drops apply_op b [] = []"
| "reported_drops apply_op b (x # xs) =
     (case x of OpDrop k d \<Rightarrow> if snd (apply_op b x) then [(k, d)] else [] | _ \<Rightarrow> [])
     @ reported_drops apply_op (fst (apply_op b x)) xs"

locale send_ledger =
  fixes status :: "'b \<Rightarrow> 'k \<Rightarrow> SendStatus option"
    and start :: "'k \<Rightarrow> 'b \<Rightarrow> 'b"
    and respond :: "'b \<Rightarrow> 'k \<Rightarrow> SendResponse \<Rightarrow> 'b \<times> bool"
    and drop_send :: "'b \<Rightarrow> 'k \<Rightarrow> DropReason \<Rightarrow> 'b \<times> bool"
    and apply_op :: "'b \<Rightarrow> 'k send_op \<Rightarrow> 'b \<times> bool"
  assumes status_start: "status (start k b) k' = (if k' = k \<and> status b k = None then Some Pending else status b k')"
    and status_respond: "status (fst (respond b k r)) k' =
        (if k' = k \<and> status b k = Some Pending \<and> next_status r \<noteq> None then next_status r else status b k')"
    and respond_changed: "snd (respond b k r) \<longleftrightarrow> status b k = Some Pending \<and> next_status r \<noteq> None"
    and status_drop: "status (fst (drop_send b k d)) k' =
        (if k' = k \<and> (status b k = Some Pending \<or> status b k = Some Accepted) then Some (Dropped d) else status b k')"
    and drop_changed: "snd (drop_send b k d) \<longleftrightarrow> status b k = Some Pending \<or> status b k = Some Accepted"
    and apply_op_eqs: "apply_op b (OpStart k) = (start k b, False)"
      "apply_op b (OpRespond k r) = respond b k r" "apply_op b (OpDrop k d) = drop_send b k d"
begin

lemma apply_op_rank:
  assumes "status b k = Some st"
  shows "\<exists>st'. status (fst (apply_op b x)) k = Some st' \<and> send_rank st \<le> send_rank st' \<and>
     (final_status st \<longrightarrow> st' = st)"
proof (cases x)
  case (OpStart k')
  then show ?thesis using assms by (auto simp: apply_op_eqs status_start)
next
  case (OpRespond k' r)
  then show ?thesis using assms
    by (cases r) (auto simp: apply_op_eqs status_respond final_status_def)
next
  case (OpDrop k' d)
  then show ?thesis using assms by (auto simp: apply_op_eqs status_drop final_status_def)
qed

lemma run_rank:
  "status b k = Some st \<Longrightarrow>
   \<exists>st'. status (foldl (\<lambda>b x. fst (apply_op b x)) b xs) k = Some st' \<and> send_rank st \<le> send_rank st' \<and>
     (final_status st \<longrightarrow> st' = st)"
proof (induction xs arbitrary: b st)
  case Nil
  then show ?case by simp
next
  case (Cons x xs)
  obtain st1 where s1: "status (fst (apply_op b x)) k = Some st1" "send_rank st \<le> send_rank st1"
    "final_status st \<longrightarrow> st1 = st" using apply_op_rank [OF Cons.prems] by blast
  obtain st2 where "status (foldl (\<lambda>b x. fst (apply_op b x)) (fst (apply_op b x)) xs) k = Some st2"
    "send_rank st1 \<le> send_rank st2" "final_status st1 \<longrightarrow> st2 = st1" using Cons.IH [OF s1(1)] by blast
  with s1 show ?case by auto
qed

lemma drop_reported_final:
  "snd (apply_op b (OpDrop k d)) \<Longrightarrow> status (fst (apply_op b (OpDrop k d))) k = Some (Dropped d)"
  by (simp add: apply_op_eqs status_drop drop_changed)

lemma no_drop_after_final:
  "status b k = Some st \<Longrightarrow> final_status st \<Longrightarrow> k \<notin> fst ` set (reported_drops apply_op b xs)"
proof (induction xs arbitrary: b)
  case Nil
  then show ?case by simp
next
  case (Cons x xs)
  have "status (fst (apply_op b x)) k = Some st"
    using apply_op_rank [OF Cons.prems(1), of x] Cons.prems(2) by auto
  then have "k \<notin> fst ` set (reported_drops apply_op (fst (apply_op b x)) xs)" using Cons.IH Cons.prems(2) by blast
  moreover have "\<not> snd (apply_op b (OpDrop k d))" for d
    using Cons.prems by (auto simp: apply_op_eqs drop_changed final_status_def)
  ultimately show ?case by (auto split: send_op.splits if_splits)
qed

lemma drops_reported_once: "distinct (map fst (reported_drops apply_op b xs))"
proof (induction xs arbitrary: b)
  case Nil
  then show ?case by simp
next
  case (Cons x xs)
  have "k \<notin> fst ` set (reported_drops apply_op (fst (apply_op b x)) xs)"
    if "x = OpDrop k d" "snd (apply_op b x)" for k d
    using that drop_reported_final no_drop_after_final by (metis final_status_def send_rank.simps(4))
  with Cons show ?case by (auto split: send_op.splits)
qed

end

fun tracker_op :: "SendTracker \<Rightarrow> string send_op \<Rightarrow> SendTracker \<times> bool" where
  "tracker_op t (OpStart k) = (SendTracker_start k t, False)"
| "tracker_op t (OpRespond k r) = SendTracker_apply_response t k r"
| "tracker_op t (OpDrop k d) = SendTracker_apply_dropped t k d"

fun book_op :: "SendBook \<Rightarrow> SendKey send_op \<Rightarrow> SendBook \<times> bool" where
  "book_op b (OpStart k) = (SendBook_start k b, False)"
| "book_op b (OpRespond k r) = SendBook_apply_response b k r"
| "book_op b (OpDrop k d) = SendBook_drop_local b k d"

interpretation tracker: send_ledger SendTracker_status SendTracker_start SendTracker_apply_response
    SendTracker_apply_dropped tracker_op
  by unfold_locales
     (auto simp: SendTracker_status_def SendTracker_start_def SendTracker_apply_response_def
       SendTracker_apply_dropped_def split: option.splits)

interpretation book: send_ledger SendBook_status SendBook_start SendBook_apply_response
    SendBook_drop_local book_op
  by unfold_locales
     (auto simp: SendBook_status_def SendBook_start_def SendBook_apply_response_def
       SendBook_drop_local_def SendBook_apply_dropped_def split: option.splits)

lemma end_session_loop_eq:
  "end_session_loop sends =
     (map (\<lambda>(k, st). (k, if final_status st then st else Dropped SessionEnded)) sends,
      map (\<lambda>(k, _). \<lparr>sd_key = k, sd_reason = SessionEnded\<rparr>) (filter (\<lambda>(_, st). \<not> final_status st) sends))"
proof (induction sends)
  case Nil
  then show ?case by simp
next
  case (Cons p sends)
  obtain k st where p: "p = (k, st)" by (cases p)
  show ?case using Cons p by (cases st) (simp_all add: final_status_def)
qed

lemma map_of_map_snd: "map_of (map (\<lambda>(k, v). (k, f v)) xs) k = map_option f (map_of xs k)"
  by (induction xs) auto

section \<open>The queue\<close>

lemma expire_loop_eq:
  "expire_loop now items =
     (filter (\<lambda>i. check_send_deadline now (qs_deadline i) = Go) items,
      map (\<lambda>i. \<lparr>sd_key = qs_key i, sd_reason = Late\<rparr>)
        (filter (\<lambda>i. check_send_deadline now (qs_deadline i) = TooLate) items))"
  by (induction items) (auto simp: check_send_deadline_def)

lemma take_loop_facts:
  "take_loop ready s items = (taken, kept) \<Longrightarrow>
     mset items = mset taken + mset kept \<and> subseq taken items \<and> subseq kept items"
proof (induction ready s items arbitrary: taken kept rule: take_loop.induct)
  case (1 ready s)
  then show ?case by simp
next
  case (2 ready s item items)
  obtain s' go where r: "ready s item = (s', go)" by (cases "ready s item")
  obtain t k where l: "take_loop ready s' items = (t, k)" by (cases "take_loop ready s' items")
  have IH: "mset items = mset t + mset k \<and> subseq t items \<and> subseq k items"
    using 2 r l by (metis fst_conv snd_conv)
  show ?case using "2.prems" r l IH by (auto split: if_splits)
qed

definition queue_bounded :: "CaseMapping \<Rightarrow> OutgoingQueue \<Rightarrow> bool" where
  "queue_bounded cm q \<longleftrightarrow> (\<forall>target. OutgoingQueue_len_for q target cm \<le> OUTGOING_QUEUE_MAX)"

lemma len_for_subseq:
  "subseq xs (oq_items q) \<Longrightarrow> OutgoingQueue_len_for (q\<lparr>oq_items := xs\<rparr>) t cm \<le> OutgoingQueue_len_for q t cm"
  unfolding OutgoingQueue_len_for_def using list_emb_length [OF subseq_filter] by simp

lemma queue_bounded_subseq: "queue_bounded cm q \<Longrightarrow> subseq xs (oq_items q) \<Longrightarrow> queue_bounded cm (q\<lparr>oq_items := xs\<rparr>)"
  unfolding queue_bounded_def using len_for_subseq le_trans by blast

lemma queue_bounded_push:
  assumes "queue_bounded cm q"
  shows "queue_bounded cm (fst (OutgoingQueue_push q key cm now))"
  unfolding queue_bounded_def
proof
  fix target
  show "OutgoingQueue_len_for (fst (OutgoingQueue_push q key cm now)) target cm \<le> OUTGOING_QUEUE_MAX"
  proof (cases "nick_key (sk_target key) cm = nick_key target cm")
    case True
    then have "OutgoingQueue_len_for q (sk_target key) cm = OutgoingQueue_len_for q target cm"
      by (simp add: OutgoingQueue_len_for_def)
    with True assms show ?thesis
      by (auto simp: OutgoingQueue_push_def queue_bounded_def) (simp add: OutgoingQueue_len_for_def)
  next
    case False
    then show ?thesis using assms
      by (auto simp: OutgoingQueue_push_def queue_bounded_def) (simp add: OutgoingQueue_len_for_def)
  qed
qed

lemma targets_loop_facts:
  "distinct ts \<Longrightarrow> distinct (targets_loop ts items) \<and>
   set (targets_loop ts items) = set ts \<union> (sk_target \<circ> qs_key) ` set items"
  by (induction ts items rule: targets_loop.induct) auto

lemma dropWhile_dropWhile: "(\<And>x. Q x \<Longrightarrow> P x) \<Longrightarrow> dropWhile P (dropWhile Q xs) = dropWhile P xs"
  by (induction xs) auto

lemma prune_later: "now \<le> now' \<Longrightarrow> prune_events w now' (prune_events w now es) = prune_events w now' es"
  unfolding prune_events_def by (intro dropWhile_dropWhile) simp

lemma choose_result:
  "snd (OneTimeKeyPacer_choose p nick cm now) = OneTime \<longleftrightarrow>
     length (prune_events (wl_window (otk_global p)) now (wl_events (otk_global p))) < wl_limit (otk_global p) \<and>
     limiter_free cm (otk_limiter p) nick now"
  by (simp add: choose_eq Let_def)

datatype queue_op =
  QPush SendKey duration | QExpire duration | QTake duration "QueuedSend \<Rightarrow> bool"
| QRemove SendKey | QEndSession

fun queue_step :: "CaseMapping \<Rightarrow> OutgoingQueue \<Rightarrow> queue_op \<Rightarrow> OutgoingQueue" where
  "queue_step cm q (QPush key now) = fst (OutgoingQueue_push q key cm now)"
| "queue_step cm q (QExpire now) = fst (OutgoingQueue_expire q now)"
| "queue_step cm q (QTake now ready) = fst (OutgoingQueue_take_matching q now (\<lambda>_ i. ((), ready i)) ())"
| "queue_step cm q (QRemove key) = fst (OutgoingQueue_remove q key)"
| "queue_step cm q QEndSession = fst (OutgoingQueue_end_session q)"

lemma queue_step_bounded: "queue_bounded cm q \<Longrightarrow> queue_bounded cm (queue_step cm q x)"
proof (induction x)
  case (QPush key now)
  then show ?case by (simp add: queue_bounded_push)
next
  case (QExpire now)
  then show ?case
    by (auto simp: OutgoingQueue_expire_def expire_loop_eq intro!: queue_bounded_subseq subseq_filter_left)
next
  case (QTake now ready)
  let ?live = "filter (\<lambda>i. check_send_deadline now (qs_deadline i) = Go) (oq_items q)"
  obtain taken kept where l: "take_loop (\<lambda>_ i. ((), ready i)) () ?live = (taken, kept)"
    by (cases "take_loop (\<lambda>_ i. ((), ready i)) () ?live")
  have "subseq kept (oq_items q)"
    using take_loop_facts [OF l] subseq_order.trans subseq_filter_left by blast
  then show ?case using QTake l
    by (simp add: OutgoingQueue_take_matching_def OutgoingQueue_expire_def expire_loop_eq queue_bounded_subseq)
next
  case (QRemove key)
  then show ?case
    by (auto simp: OutgoingQueue_remove_def Let_def intro!: queue_bounded_subseq subseq_filter_left)
next
  case QEndSession
  then show ?case by (auto simp: OutgoingQueue_end_session_def intro!: queue_bounded_subseq)
qed

section \<open>Properties\<close>

text \<open>
  Interval pacing. Whatever calls are made under one case mapping, two events that the
  limiter lets through for the same folded nickname are at least the interval apart, even when the
  clock of the calls goes back.
\<close>

theorem interval_limiter_spaces_events:
  assumes "0 < il_interval l"
  shows "sorted_wrt (\<lambda>(n, t) (m, u). nick_key n cm = nick_key m cm \<longrightarrow> t + il_interval l \<le> u)
     (gate_run (limiter_step cm) l xs)"
  using assms by (rule limiter_gate.run_spaced)

theorem interval_limiter_spaces_events_witness:
  "gate_run (limiter_step Ascii) (IntervalLimiter_new 5) [(''Bob'', 1), (''bob'', 3), (''BOB'', 6)]
     = [(''Bob'', 1), (''BOB'', 6)] \<and>
   sorted_wrt (\<lambda>(n, t) (m, u). nick_key n Ascii = nick_key m Ascii \<longrightarrow> t + 5 \<le> u)
     (gate_run (limiter_step Ascii) (IntervalLimiter_new 5) [(''Bob'', 1), (''bob'', 3), (''BOB'', 6)])"
proof (rule conjI)
  have pos: "0 < il_interval (IntervalLimiter_new 5)" and eq: "il_interval (IntervalLimiter_new 5) = 5"
    by (simp_all add: IntervalLimiter_new_def)
  show "sorted_wrt (\<lambda>(n, t) (m, u). nick_key n Ascii = nick_key m Ascii \<longrightarrow> t + 5 \<le> u)
     (gate_run (limiter_step Ascii) (IntervalLimiter_new 5) [(''Bob'', 1), (''bob'', 3), (''BOB'', 6)])"
    using interval_limiter_spaces_events [OF pos] unfolding eq .
  show "gate_run (limiter_step Ascii) (IntervalLimiter_new 5) [(''Bob'', 1), (''bob'', 3), (''BOB'', 6)]
     = [(''Bob'', 1), (''BOB'', 6)]"
    by code_simp
qed

text \<open>
  Key requests. In any interleaving of requests, fragments and finished reassemblies, two
  KEYREQ to the same folded nickname leave at least 30 seconds apart.
\<close>

theorem keyreq_spaced:
  "sorted_wrt (\<lambda>(n, t) (m, u). nick_key n cm = nick_key m cm \<longrightarrow> t + secs 30 \<le> u)
     (gate_run (keyreq_step cm) (KeyReqPacer_new timeout) xs)"
proof -
  have "il_interval (krp_limiter (KeyReqPacer_new timeout)) = secs 30"
    by (simp add: KeyReqPacer_new_def IntervalLimiter_new_def KEYREQ_INTERVAL_def)
  then show ?thesis
    using keyreq_gate.run_spaced [of "KeyReqPacer_new timeout" cm xs] by (simp add: secs_def)
qed

theorem keyreq_spaced_witness:
  "sorted_wrt (\<lambda>(n, t) (m, u). nick_key n Ascii = nick_key m Ascii \<longrightarrow> t + secs 30 \<le> u)
     (gate_run (keyreq_step Ascii) (KeyReqPacer_new (secs 60)) [KSend ''bob'' 0, KSend ''BOB'' (secs 29), KSend ''bob'' (secs 30)])
   \<and> length (gate_run (keyreq_step Ascii) (KeyReqPacer_new (secs 60)) [KSend ''bob'' 0, KSend ''BOB'' (secs 29), KSend ''bob'' (secs 30)]) = 2"
proof (rule conjI)
  show "length (gate_run (keyreq_step Ascii) (KeyReqPacer_new (secs 60)) [KSend ''bob'' 0, KSend ''BOB'' (secs 29), KSend ''bob'' (secs 30)]) = 2"
    by code_simp
qed (rule keyreq_spaced)

text \<open>
  No KEYREQ goes to a nickname while a KEYS answer of it is in reassembly: after a fragment
  of message \<open>m\<close> at time \<open>t0\<close>, and until the timeout since that fragment or the end of that message,
  no interleaving of calls lets a request to the nickname through.
\<close>

theorem no_keyreq_during_reassembly:
  assumes "\<forall>x \<in> set xs. t0 \<le> keyreq_clock x \<and> keyreq_clock x < t0 + rg_timeout (krp_gate p)"
    and "\<forall>n now. KFinish n m now \<in> set xs \<longrightarrow> nick_key n cm \<noteq> nick_key nick cm"
  shows "\<forall>(n, now) \<in> set (gate_run (keyreq_step cm) (KeyReqPacer_note_fragment p nick m cm t0) xs).
     nick_key n cm \<noteq> nick_key nick cm"
proof (rule keyreq_run_gate [where t0 = t0 and t = t0 and m = m])
  let ?p = "KeyReqPacer_note_fragment p nick m cm t0"
  show "fragment_time cm (krp_gate ?p) nick m = Some t0"
    by (simp add: KeyReqPacer_note_fragment_def KeyReqPacer_sync_casemapping_def fragment_time_note)
  have "rg_timeout (krp_gate ?p) = rg_timeout (krp_gate p)"
    by (simp add: KeyReqPacer_note_fragment_def KeyReqPacer_sync_casemapping_def)
  then show "\<forall>x \<in> set xs. t0 \<le> keyreq_clock x \<and> keyreq_clock x < t0 + rg_timeout (krp_gate ?p)"
    using assms(1) by simp
qed (use assms(2) in simp_all)

theorem no_keyreq_during_reassembly_witness:
  "list_all (\<lambda>(n, now). nick_key n Ascii \<noteq> nick_key ''bob'' Ascii)
     (gate_run (keyreq_step Ascii)
       (KeyReqPacer_note_fragment (KeyReqPacer_new REASSEMBLY_TIMEOUT) ''bob'' ''m1'' Ascii (secs 5))
       [KSend ''Bob'' (secs 6), KFinish ''bob'' ''m2'' (secs 7), KSend ''alice'' (secs 8)])"
  unfolding list_all_iff
  by (rule no_keyreq_during_reassembly)
     (auto simp: KeyReqPacer_new_def ReassemblyGate_new_def REASSEMBLY_TIMEOUT_def secs_def)

text \<open>
  One-time keys. When the clock does not go back, at most 30 one-time keys are chosen in
  any window of one hour, over all nicknames, and two one-time keys for the same folded nickname are
  at least 60 seconds apart.
\<close>

theorem one_time_keys_paced:
  assumes "sorted (map snd xs)"
  shows "length (filter (in_window a (secs 3600)) (map snd (gate_run (pacer_step cm) OneTimeKeyPacer_new xs))) \<le> 30
     \<and> sorted_wrt (\<lambda>(n, t) (m, u). nick_key n cm = nick_key m cm \<longrightarrow> t + secs 60 \<le> u)
         (gate_run (pacer_step cm) OneTimeKeyPacer_new xs)"
proof -
  have new: "il_interval (otk_limiter OneTimeKeyPacer_new) = secs 60"
    "wl_events (otk_global OneTimeKeyPacer_new) = []"
    "wl_limit (otk_global OneTimeKeyPacer_new) = 30" "wl_window (otk_global OneTimeKeyPacer_new) = secs 3600"
    by (simp_all add: OneTimeKeyPacer_new_def IntervalLimiter_new_def WindowLimiter_new_def
        ONE_TIME_KEY_INTERVAL_def ONE_TIME_KEY_GLOBAL_LIMIT_def ONE_TIME_KEY_WINDOW_def)
  have "length (filter (in_window a (secs 3600)) (map snd (gate_run (pacer_step cm) OneTimeKeyPacer_new xs))) \<le> 30"
    using pacer_window.run_windowed [OF assms new(2), of a cm] new by simp
  moreover have "0 < il_interval (otk_limiter OneTimeKeyPacer_new)" by (simp add: new secs_def)
  ultimately show ?thesis
    using pacer_gate.run_spaced [of OneTimeKeyPacer_new cm xs] by (simp add: new)
qed

theorem one_time_keys_paced_witness:
  "length (filter (in_window 0 (secs 3600)) (map snd (gate_run (pacer_step Ascii) OneTimeKeyPacer_new
       [(''a'', secs 1), (''b'', secs 2), (''A'', secs 3)]))) \<le> 30"
  using one_time_keys_paced [of "[(''a'', secs 1), (''b'', secs 2), (''A'', secs 3)]" 0 Ascii]
  by (simp add: secs_def)

text \<open>
  A refused one-time key uses no limit: after a fallback, every later choice for any
  nickname is the one that would have been made without the refused request.
\<close>

theorem refused_choice_uses_no_limit:
  assumes "OneTimeKeyPacer_choose p nick cm now = (p', Fallback)" and "now \<le> now'"
  shows "snd (OneTimeKeyPacer_choose p' other cm now') = snd (OneTimeKeyPacer_choose p other cm now')"
proof -
  have no: "\<not> (length (prune_events (wl_window (otk_global p)) now (wl_events (otk_global p))) < wl_limit (otk_global p)
      \<and> limiter_free cm (otk_limiter p) nick now)"
    using assms(1) choose_result [of p nick cm now] by simp
  have lim: "limiter_last cm (otk_limiter p') = limiter_last cm (otk_limiter p)"
    "il_interval (otk_limiter p') = il_interval (otk_limiter p)"
    using assms(1) no by (auto simp: choose_eq Let_def try_acquire_last split: if_splits)
  have glob: "wl_window (otk_global p') = wl_window (otk_global p)" "wl_limit (otk_global p') = wl_limit (otk_global p)"
    "wl_events (otk_global p') = prune_events (wl_window (otk_global p)) now (wl_events (otk_global p))"
    using assms(1) by (auto simp: choose_eq Let_def split: if_splits)
  have "snd (OneTimeKeyPacer_choose p' other cm now') = OneTime \<longleftrightarrow>
        snd (OneTimeKeyPacer_choose p other cm now') = OneTime"
    by (simp add: choose_result glob lim limiter_free_def prune_later [OF assms(2)] split: option.splits)
  then show ?thesis by (metis (full_types) KeyChoice.exhaust)
qed

theorem refused_choice_uses_no_limit_witness:
  "\<exists>p'. OneTimeKeyPacer_choose (fst (OneTimeKeyPacer_choose OneTimeKeyPacer_new ''a'' Ascii 0)) ''A'' Ascii 5 = (p', Fallback)
     \<and> snd (OneTimeKeyPacer_choose p' ''b'' Ascii 6)
       = snd (OneTimeKeyPacer_choose (fst (OneTimeKeyPacer_choose OneTimeKeyPacer_new ''a'' Ascii 0)) ''b'' Ascii 6)"
proof -
  let ?p = "fst (OneTimeKeyPacer_choose OneTimeKeyPacer_new ''a'' Ascii 0)"
  obtain p' c where e: "OneTimeKeyPacer_choose ?p ''A'' Ascii 5 = (p', c)" by (cases "OneTimeKeyPacer_choose ?p ''A'' Ascii 5")
  have fold: "nick_key ''A'' Ascii = ''a''" "nick_key ''a'' Ascii = ''a''" by code_simp+
  have "snd (OneTimeKeyPacer_choose ?p ''A'' Ascii 5) = Fallback"
    by (simp add: choose_eq OneTimeKeyPacer_new_def WindowLimiter_new_def IntervalLimiter_new_def Let_def
        limiter_free_def limiter_last_def IntervalLimiter_try_acquire_def IntervalLimiter_sync_casemapping_def
        prune_events_def ONE_TIME_KEY_INTERVAL_def ONE_TIME_KEY_GLOBAL_LIMIT_def secs_def fold)
  with e have "OneTimeKeyPacer_choose ?p ''A'' Ascii 5 = (p', Fallback)" by simp
  then show ?thesis using refused_choice_uses_no_limit [of ?p "''A''" Ascii 5 p' 6 "''b''"] by auto
qed

text \<open>
  A final status changes only once. Under any sequence of registrations, HTTP answers and
  drops, the status of a known send only moves forward (pending, accepted, failed or dropped), a failed
  or dropped send keeps its status, and each send is reported as dropped at most once.
\<close>

theorem send_status_moves_forward:
  "(SendBook_status b key = Some st \<longrightarrow>
      (\<exists>st'. SendBook_status (foldl (\<lambda>b x. fst (book_op b x)) b xs) key = Some st' \<and>
        send_rank st \<le> send_rank st' \<and> (final_status st \<longrightarrow> st' = st))) \<and>
   distinct (map fst (reported_drops book_op b xs))"
  using book.run_rank [of b key st xs] book.drops_reported_once [of b xs] by blast

theorem send_status_moves_forward_witness:
  "let k = SendKey_new ''net'' ''bob'' ''m1''; b = SendBook_start k SendBook_new;
       xs = [OpRespond k RespAccepted, OpDrop k Late, OpDrop k SendFailed, OpRespond k (RespFailed SfTooLate)]
   in SendBook_status (foldl (\<lambda>b x. fst (book_op b x)) b xs) k = Some (Dropped Late) \<and>
      (\<exists>st'. SendBook_status (foldl (\<lambda>b x. fst (book_op b x)) b xs) k = Some st' \<and> send_rank Pending \<le> send_rank st') \<and>
      distinct (map fst (reported_drops book_op b xs))"
proof -
  let ?k = "SendKey_new ''net'' ''bob'' ''m1''"
  let ?b = "SendBook_start ?k SendBook_new"
  let ?xs = "[OpRespond ?k RespAccepted, OpDrop ?k Late, OpDrop ?k SendFailed, OpRespond ?k (RespFailed SfTooLate)]"
  have st: "SendBook_status ?b ?k = Some Pending" by code_simp
  have fin: "SendBook_status (foldl (\<lambda>b x. fst (book_op b x)) ?b ?xs) ?k = Some (Dropped Late)" by code_simp
  show ?thesis
    using send_status_moves_forward [of ?b ?k Pending ?xs] st fin unfolding Let_def by blast
qed

lemma end_session_facts:
  assumes "distinct (map fst (sb_sends b))" and "SendBook_end_session b = (b', ended)"
  shows "SendBook_status b' key =
       map_option (\<lambda>st. if final_status st then st else Dropped SessionEnded) (SendBook_status b key)"
    and "distinct (map sd_key ended)"
    and "(\<exists>e \<in> set ended. sd_key e = key) \<longleftrightarrow> (\<exists>st. SendBook_status b key = Some st \<and> \<not> final_status st)"
proof -
  have b': "sb_sends b' = map (\<lambda>(k, st). (k, if final_status st then st else Dropped SessionEnded)) (sb_sends b)"
    and ended: "ended = map (\<lambda>(k, _). \<lparr>sd_key = k, sd_reason = SessionEnded\<rparr>)
        (filter (\<lambda>(_, st). \<not> final_status st) (sb_sends b))"
    using assms(2) by (auto simp: SendBook_end_session_def end_session_loop_eq)
  show "SendBook_status b' key =
       map_option (\<lambda>st. if final_status st then st else Dropped SessionEnded) (SendBook_status b key)"
    unfolding SendBook_status_def b' by (rule map_of_map_snd)
  have keys: "map sd_key ended = map fst (filter (\<lambda>(_, st). \<not> final_status st) (sb_sends b))"
    by (simp add: ended comp_def case_prod_beta)
  then show "distinct (map sd_key ended)" using assms(1) by (simp add: distinct_map_filter)
  have "(\<exists>e \<in> set ended. sd_key e = key) \<longleftrightarrow> key \<in> set (map sd_key ended)" by auto
  also have "\<dots> \<longleftrightarrow> (\<exists>st. (key, st) \<in> set (sb_sends b) \<and> \<not> final_status st)" unfolding keys by force
  also have "\<dots> \<longleftrightarrow> (\<exists>st. SendBook_status b key = Some st \<and> \<not> final_status st)"
    using assms(1) by (simp add: SendBook_status_def)
  finally show "(\<exists>e \<in> set ended. sd_key e = key) \<longleftrightarrow> (\<exists>st. SendBook_status b key = Some st \<and> \<not> final_status st)" .
qed

text \<open>
  The end of a session closes every open send and nothing else: open sends become session
  drops, finished sends keep their status, and the returned events name each open send exactly once.
\<close>

theorem end_session_closes_open_sends:
  assumes "distinct (map fst (sb_sends b))" and "SendBook_end_session b = (b', ended)"
  shows "SendBook_status b' key =
       map_option (\<lambda>st. if final_status st then st else Dropped SessionEnded) (SendBook_status b key)
     \<and> distinct (map sd_key ended)
     \<and> ((\<exists>e \<in> set ended. sd_key e = key) \<longleftrightarrow> (\<exists>st. SendBook_status b key = Some st \<and> \<not> final_status st))"
  using end_session_facts [OF assms] by blast

theorem end_session_closes_open_sends_witness:
  "let k = SendKey_new ''net'' ''bob'' ''m1''; b = SendBook_start k SendBook_new
   in SendBook_status (fst (SendBook_end_session b)) k = Some (Dropped SessionEnded) \<and>
      distinct (map sd_key (snd (SendBook_end_session b)))"
proof -
  let ?k = "SendKey_new ''net'' ''bob'' ''m1''"
  let ?b = "SendBook_start ?k SendBook_new"
  have d: "distinct (map fst (sb_sends ?b))" by code_simp
  have e: "SendBook_end_session ?b = (fst (SendBook_end_session ?b), snd (SendBook_end_session ?b))" by simp
  have st: "SendBook_status ?b ?k = Some Pending" by code_simp
  show ?thesis
    using end_session_closes_open_sends [OF d e, of ?k] st by (simp add: Let_def final_status_def)
qed

text \<open>
  A pushed drop event changes only the send it names, and only an open one; the server can
  give only the reasons late, send failed and session ended; any other payload changes nothing.
\<close>

theorem dropped_payload_changes_one_send:
  "case SendBook_apply_payload J b payload of
     (b', None) \<Rightarrow> b' = b
   | (b', Some e) \<Rightarrow>
       SendBook_status b' key = (if key = sd_key e then Some (Dropped (sd_reason e)) else SendBook_status b key)
       \<and> SendBook_status b (sd_key e) \<in> {Some Pending, Some Accepted}
       \<and> sd_reason e \<in> {Late, SendFailed, SessionEnded} \<and> sk_msgid (sd_key e) \<noteq> []"
proof (cases "SendDropped_from_payload J payload")
  case None
  then show ?thesis by (simp add: SendBook_apply_payload_def)
next
  case (Some e)
  have reason: "sd_reason e \<in> {Late, SendFailed, SessionEnded}" "sk_msgid (sd_key e) \<noteq> []"
    using Some
    by (auto simp: SendDropped_from_payload_def SendDropped_from_value_def bind_eq_Some_conv rbind_eq_Inr
        DropReason_from_server_wire_def SendKey_new_def split: if_splits sum.splits)
  have unchanged: "fst (SendBook_apply_dropped b e) = b" if "\<not> snd (SendBook_apply_dropped b e)"
    using that by (simp add: SendBook_apply_dropped_def split: if_splits)
  show ?thesis
    using Some reason unchanged
    by (auto simp: SendBook_apply_payload_def SendBook_apply_dropped_def SendBook_status_def case_prod_beta
        split: if_splits)
qed

text \<open>
  The wire names of the drop reasons round trip, and the reasons a server event may carry
  are exactly the wire reasons other than unreadable and no such nick.
\<close>

theorem drop_reason_roundtrip:
  "(DropReason_from_wire text = Some r \<longleftrightarrow> text = DropReason_wire_name r) \<and>
   (DropReason_from_server_wire text = Some r \<longleftrightarrow>
      DropReason_from_wire text = Some r \<and> r \<noteq> Unreadable \<and> r \<noteq> NoSuchNick)"
  by (cases r) (auto simp: DropReason_from_wire_def DropReason_from_server_wire_def)

lemma take_matching_facts:
  assumes "OutgoingQueue_take_matching q now ready s = (q', taken, late)"
  shows "mset (map qs_key (oq_items q)) =
       mset (map qs_key taken) + mset (map qs_key (oq_items q')) + mset (map sd_key late)"
    and "subseq taken (oq_items q)" and "subseq (oq_items q') (oq_items q)"
    and "i \<in> set taken \<union> set (oq_items q') \<Longrightarrow> now + secs 2 < qs_deadline i"
proof -
  let ?go = "filter (\<lambda>i. check_send_deadline now (qs_deadline i) = Go) (oq_items q)"
  let ?late = "filter (\<lambda>i. check_send_deadline now (qs_deadline i) = TooLate) (oq_items q)"
  obtain taken' kept where l': "take_loop ready s ?go = (taken', kept)" by (cases "take_loop ready s ?go")
  with assms have l: "take_loop ready s ?go = (taken, kept)" and q': "oq_items q' = kept"
    and late: "map sd_key late = map qs_key ?late"
    by (auto simp: OutgoingQueue_take_matching_def OutgoingQueue_expire_def expire_loop_eq comp_def)
  note f = take_loop_facts [OF l]
  have split: "mset (oq_items q) = mset ?go + mset ?late"
    by (simp add: multiset_partition [of _ "\<lambda>i. check_send_deadline now (qs_deadline i) = Go"] check_send_deadline_def)
  show "mset (map qs_key (oq_items q)) =
       mset (map qs_key taken) + mset (map qs_key (oq_items q')) + mset (map sd_key late)"
    unfolding late q' mset_map split using f by simp
  show "subseq taken (oq_items q)" "subseq (oq_items q') (oq_items q)"
    using f q' subseq_order.trans subseq_filter_left by blast+
  assume "i \<in> set taken \<union> set (oq_items q')"
  then have "i \<in># mset ?go" using f q' by auto
  then show "now + secs 2 < qs_deadline i"
    by (auto simp: check_send_deadline_def SEND_SAFETY_MARGIN_def split: if_splits)
qed

text \<open>
  No queued message is lost or sent twice. When ready messages are taken, every message of
  the queue is taken, kept or reported late, exactly once; the taken and kept ones keep their order
  and can still arrive two seconds before their deadline.
\<close>

theorem take_matching_partitions_queue:
  assumes "OutgoingQueue_take_matching q now ready s = (q', taken, late)"
  shows "mset (map qs_key (oq_items q)) =
       mset (map qs_key taken) + mset (map qs_key (oq_items q')) + mset (map sd_key late)
     \<and> subseq taken (oq_items q) \<and> subseq (oq_items q') (oq_items q)
     \<and> (\<forall>i \<in> set taken \<union> set (oq_items q'). now + secs 2 < qs_deadline i)"
  using take_matching_facts [OF assms] by blast

theorem take_matching_partitions_queue_witness:
  "let k = SendKey_new ''net'' ''bob'' ''m1''; q = fst (OutgoingQueue_push OutgoingQueue_new k Ascii 0);
       r = OutgoingQueue_take_ready q (secs 87)
   in mset (map qs_key (oq_items q)) =
        mset (map qs_key (fst (snd r))) + mset (map qs_key (oq_items (fst r))) + mset (map sd_key (snd (snd r)))
      \<and> length (fst (snd r)) = 1"
proof -
  let ?k = "SendKey_new ''net'' ''bob'' ''m1''"
  let ?q = "fst (OutgoingQueue_push OutgoingQueue_new ?k Ascii 0)"
  let ?r = "OutgoingQueue_take_ready ?q (secs 87)"
  have e: "OutgoingQueue_take_matching ?q (secs 87) (\<lambda>_ _. ((), True)) () = (fst ?r, fst (snd ?r), snd (snd ?r))"
    by (simp add: OutgoingQueue_take_ready_def)
  have "length (fst (snd ?r)) = 1"
    by (simp add: OutgoingQueue_take_ready_def OutgoingQueue_take_matching_def OutgoingQueue_expire_def
        OutgoingQueue_push_def OutgoingQueue_new_def OutgoingQueue_len_for_def OUTGOING_QUEUE_MAX_def
        OUTGOING_QUEUE_TTL_def check_send_deadline_def SEND_SAFETY_MARGIN_def secs_def)
  then show ?thesis using take_matching_partitions_queue [OF e] by (simp only: Let_def)
qed

text \<open>
  The queue is bounded: after any sequence of pushes, expiries, takes, removals and session
  ends, at most 16 messages wait for one folded nickname.
\<close>

theorem outgoing_queue_bounded:
  "OutgoingQueue_len_for (foldl (queue_step cm) OutgoingQueue_new xs) target cm \<le> 16"
proof -
  have "queue_bounded cm (foldl (queue_step cm) q xs)" if "queue_bounded cm q" for q
    using that by (induction xs arbitrary: q) (simp_all add: queue_step_bounded)
  moreover have "queue_bounded cm OutgoingQueue_new"
    by (simp add: queue_bounded_def OutgoingQueue_len_for_def OutgoingQueue_new_def)
  ultimately show ?thesis by (auto simp: queue_bounded_def OUTGOING_QUEUE_MAX_def)
qed

end
