(* ===== verification/Device.thy ===== *)
theory Device
  imports Wire
begin

text \<open>
  Certificates and device lists: \<^verbatim>\<open>e2e_device.rs\<close> (certificates, signed lists, the stored list),
  \<^verbatim>\<open>e2e_list_migration.rs\<close> (lists signed over the old byte order) and \<^verbatim>\<open>e2e_manage.rs\<close> (the
  directory of one remote user). The locale \<open>device_ledger\<close> is the contract every holder of device
  lists keeps: revocations last, list versions never go back, and a device that leaves the list is
  revoked. It is interpreted here on the directory, and on the trust state in the theory of
  \<^verbatim>\<open>e2e_trust.rs\<close>.
\<close>

section \<open>Errors and certificates\<close>

datatype E2eError =
  E2e_Wire WireError | E2e_BadSignature | E2e_UnknownSigner | E2e_DeviceMismatch | E2e_StaleList
| E2e_MasterChanged | E2e_RevokedDevice | E2e_LegacyListOrder | E2e_Replay | E2e_BadCertificateVersion
| E2e_NotListed | E2e_RecipientMismatch

text \<open>The \<^verbatim>\<open>?\<close> operator with the conversion of a wire error.\<close>

definition wire :: "WireError + 'a \<Rightarrow> E2eError + 'a" where
  "wire r = map_err E2e_Wire r"

record DeviceCertificate =
  dc_did :: string
  dc_curve25519 :: string
  dc_master_ed25519 :: string
  dc_signature :: string

record PeerDevice =
  pd_did :: string
  pd_curve25519 :: string
  pd_ed25519 :: string

definition accept_peer_device ::
    "crypto_api \<Rightarrow> DeviceCertificate \<Rightarrow> string list \<Rightarrow> E2eError + PeerDevice" where
  "accept_peer_device C cert approved_keys =
     rbind (wire (decode_key C (dc_curve25519 cert))) (\<lambda>_.
     rbind (wire (decode_key C (dc_master_ed25519 cert))) (\<lambda>master_raw.
     rbind (wire (decode_signature C (dc_signature cert))) (\<lambda>signature_raw.
     rbind (wire (did_from_key_text C (dc_master_ed25519 cert))) (\<lambda>did.
     if did \<noteq> dc_did cert then Inl E2e_DeviceMismatch
     else if dc_master_ed25519 cert \<notin> set approved_keys then Inl E2e_UnknownSigner
     else if \<not> ed_key_ok C master_raw then Inl (E2e_Wire BadKey)
     else if \<not> ed_sig_ok C signature_raw then Inl (E2e_Wire BadSignature)
     else if \<not> ed_verify C master_raw (device_id_signed_text (dc_curve25519 cert) (dc_master_ed25519 cert)) signature_raw
       then Inl E2e_BadSignature
     else Inr \<lparr> pd_did = dc_did cert, pd_curve25519 = dc_curve25519 cert, pd_ed25519 = dc_master_ed25519 cert \<rparr>))))"

definition verify_signature :: "crypto_api \<Rightarrow> string \<Rightarrow> string \<Rightarrow> string \<Rightarrow> E2eError + unit" where
  "verify_signature C signer_ed25519 signature signed =
     rbind (wire (decode_key C signer_ed25519)) (\<lambda>signer_raw.
     rbind (wire (decode_signature C signature)) (\<lambda>signature_raw.
     if \<not> ed_key_ok C signer_raw then Inl (E2e_Wire BadKey)
     else if \<not> ed_sig_ok C signature_raw then Inl (E2e_Wire BadSignature)
     else if \<not> ed_verify C signer_raw signed signature_raw then Inl E2e_BadSignature
     else Inr ()))"

record VersionedDeviceCertificate =
  vc_first_list_version :: nat
  vc_device_ed25519 :: string
  vc_master_ed25519 :: string
  vc_signature :: string

definition build_device_certificate ::
    "crypto_api \<Rightarrow> nat \<Rightarrow> string \<Rightarrow> string \<Rightarrow> (string \<Rightarrow> string) \<Rightarrow> E2eError + VersionedDeviceCertificate" where
  "build_device_certificate C first_list_version device_ed25519 master_ed25519 sign =
     rbind (wire (device_certificate_signed_text C first_list_version device_ed25519)) (\<lambda>text.
     rbind (wire (decode_key C master_ed25519)) (\<lambda>_.
     rbind (wire (decode_signature C (sign text))) (\<lambda>_.
       Inr \<lparr> vc_first_list_version = first_list_version, vc_device_ed25519 = device_ed25519,
              vc_master_ed25519 = master_ed25519, vc_signature = sign text \<rparr>)))"

definition verify_device_certificate_bytes ::
    "crypto_api \<Rightarrow> string \<Rightarrow> string \<Rightarrow> string \<Rightarrow> string list \<Rightarrow> E2eError + (nat \<times> string)" where
  "verify_device_certificate_bytes C signed master_ed25519 signature approved_keys =
     rbind (wire (parse_device_certificate_signed_text C signed)) (\<lambda>(version, device).
     rbind (wire (decode_key C master_ed25519)) (\<lambda>_.
     rbind (wire (decode_signature C signature)) (\<lambda>_.
     if master_ed25519 \<notin> set approved_keys then Inl E2e_UnknownSigner
     else rbind (verify_signature C master_ed25519 signature signed) (\<lambda>_. Inr (version, device)))))"

definition verify_device_certificate ::
    "crypto_api \<Rightarrow> VersionedDeviceCertificate \<Rightarrow> string list \<Rightarrow> E2eError + unit" where
  "verify_device_certificate C cert approved_keys =
     rbind (wire (device_certificate_signed_text C (vc_first_list_version cert) (vc_device_ed25519 cert))) (\<lambda>signed.
     rbind (verify_device_certificate_bytes C signed (vc_master_ed25519 cert) (vc_signature cert) approved_keys)
       (\<lambda>_. Inr ()))"

definition build_signed_list_signature ::
    "crypto_api \<Rightarrow> nat \<Rightarrow> string list \<Rightarrow> (string \<Rightarrow> string) \<Rightarrow> E2eError + string" where
  "build_signed_list_signature C list_version device_keys sign =
     rbind (wire (signed_list_signed_text C list_version device_keys)) (\<lambda>text.
     rbind (wire (decode_signature C (sign text))) (\<lambda>_. Inr (sign text)))"

definition verify_signed_list ::
    "crypto_api \<Rightarrow> nat \<Rightarrow> string list \<Rightarrow> string \<Rightarrow> string \<Rightarrow> E2eError + unit" where
  "verify_signed_list C list_version device_keys master_ed25519 signature =
     rbind (wire (signed_list_signed_text C list_version device_keys))
       (verify_signature C master_ed25519 signature)"

section \<open>The stored list\<close>

record ListState =
  ls_stored :: "(nat \<times> string list) option"

definition ListState_default :: ListState where
  "ListState_default = \<lparr> ls_stored = None \<rparr>"

definition ListState_apply ::
    "crypto_api \<Rightarrow> ListState \<Rightarrow> nat \<Rightarrow> string list \<Rightarrow> ListState \<times> (E2eError + ListDecision)" where
  "ListState_apply C st version keys =
     (if \<not> (1 \<le> version \<and> version \<le> MAX_VERSION) then (st, Inl (E2e_Wire BadVersion))
      else (case check_list_devices C keys of
              Inl e \<Rightarrow> (st, Inl (E2e_Wire e))
            | Inr _ \<Rightarrow>
                (case decide_list (ls_stored st) version keys of
                   Replace \<Rightarrow> (st\<lparr>ls_stored := Some (version, keys)\<rparr>, Inr Replace)
                 | NoOp \<Rightarrow> (st, Inr NoOp)
                 | Ignore \<Rightarrow> (st, Inl E2e_StaleList))))"

definition ListState_version :: "ListState \<Rightarrow> nat" where
  "ListState_version st = (case ls_stored st of None \<Rightarrow> 0 | Some (version, _) \<Rightarrow> version)"

definition ListState_keys :: "ListState \<Rightarrow> string list" where
  "ListState_keys st = (case ls_stored st of None \<Rightarrow> [] | Some (_, keys) \<Rightarrow> keys)"

section \<open>Lists in the old order\<close>

record SignedList =
  sl_version :: nat
  sl_keys :: "string list"
  sl_signature :: string

datatype ListOrder = Current | Legacy

definition has_legacy_order :: "crypto_api \<Rightarrow> nat \<Rightarrow> string list \<Rightarrow> string \<Rightarrow> string \<Rightarrow> bool" where
  "has_legacy_order C version keys master_ed25519 signature =
     (if verify_signed_list C version keys master_ed25519 signature \<noteq> Inl E2e_BadSignature then False
      else (case legacy_raw_order_list_signed_text C version keys of
              Inl _ \<Rightarrow> False
            | Inr text \<Rightarrow> is_ok (verify_signature C master_ed25519 signature text)))"

definition list_order :: "crypto_api \<Rightarrow> nat \<Rightarrow> string list \<Rightarrow> string \<Rightarrow> string \<Rightarrow> E2eError + ListOrder" where
  "list_order C version keys master_ed25519 signature =
     (case verify_signed_list C version keys master_ed25519 signature of
        Inr _ \<Rightarrow> Inr Current
      | Inl err \<Rightarrow>
          if err = E2e_BadSignature then
            (if has_legacy_order C version keys master_ed25519 signature then Inr Legacy else Inl E2e_BadSignature)
          else Inl err)"

definition migrate_own_list :: "crypto_api \<Rightarrow> account \<Rightarrow> SignedList \<Rightarrow> E2eError + SignedList option" where
  "migrate_own_list C master l =
     rbind (list_order C (sl_version l) (sl_keys l) (acc_ed25519 master) (sl_signature l)) (\<lambda>order.
       case order of
         Current \<Rightarrow> Inr None
       | Legacy \<Rightarrow>
           rbind (build_signed_list_signature C (sl_version l) (sl_keys l) (acc_sign master)) (\<lambda>signature.
           rbind (wire (sort_list_keys C (sl_keys l))) (\<lambda>keys.
             Inr (Some \<lparr> sl_version = sl_version l, sl_keys = keys, sl_signature = signature \<rparr>))))"

section \<open>The directory of one remote user\<close>

datatype ManageError = M_E2e E2eError | M_MasterChanged | M_RevokedKey | M_Unverified

record PeerDirectory =
  dir_master_ed25519 :: string
  dir_verified :: bool
  dir_list :: ListState
  dir_revoked :: "string list"

definition PeerDirectory_new :: "crypto_api \<Rightarrow> string \<Rightarrow> ManageError + PeerDirectory" where
  "PeerDirectory_new C master_ed25519 =
     rbind (map_err M_E2e (wire (decode_key C master_ed25519))) (\<lambda>_.
       Inr \<lparr> dir_master_ed25519 = master_ed25519, dir_verified = False, dir_list = ListState_default,
              dir_revoked = [] \<rparr>)"

definition PeerDirectory_keys :: "PeerDirectory \<Rightarrow> string list" where
  "PeerDirectory_keys d = ListState_keys (dir_list d)"

definition PeerDirectory_confirm_sas :: "PeerDirectory \<Rightarrow> PeerDirectory" where
  "PeerDirectory_confirm_sas d = d\<lparr>dir_verified := True\<rparr>"

text \<open>The loop that moves dropped keys to the revoked ones.\<close>

fun push_dropped :: "string list \<Rightarrow> string list \<Rightarrow> string list \<Rightarrow> string list" where
  "push_dropped new_keys revoked [] = revoked"
| "push_dropped new_keys revoked (key # keys) =
     push_dropped new_keys
       (if key \<notin> set new_keys \<and> key \<notin> set revoked then revoked @ [key] else revoked) keys"

definition PeerDirectory_apply_list ::
    "crypto_api \<Rightarrow> PeerDirectory \<Rightarrow> string \<Rightarrow> SignedList \<Rightarrow> PeerDirectory \<times> (ManageError + ListDecision)" where
  "PeerDirectory_apply_list C d master_ed25519 l =
     (if master_ed25519 \<noteq> dir_master_ed25519 d then (d, Inl M_MasterChanged)
      else (case verify_signed_list C (sl_version l) (sl_keys l) master_ed25519 (sl_signature l) of
              Inl e \<Rightarrow> (d, Inl (M_E2e e))
            | Inr _ \<Rightarrow>
                (case ListState_apply C (dir_list d) (sl_version l) (sl_keys l) of
                   (next, Inl e) \<Rightarrow> (d, Inl (M_E2e e))
                 | (next, Inr decision) \<Rightarrow>
                     if decision = Replace then
                       (if list_ex (\<lambda>key. key \<in> set (dir_revoked d)) (sl_keys l) then (d, Inl M_RevokedKey)
                        else (d\<lparr>dir_revoked := push_dropped (sl_keys l) (dir_revoked d) (ListState_keys (dir_list d)),
                                 dir_list := next\<rparr>, Inr decision))
                     else (d, Inr decision))))"

definition PeerDirectory_accept_new_master ::
    "crypto_api \<Rightarrow> PeerDirectory \<Rightarrow> string \<Rightarrow> PeerDirectory \<times> (ManageError + unit)" where
  "PeerDirectory_accept_new_master C d master_ed25519 =
     (case decode_key C master_ed25519 of
        Inl e \<Rightarrow> (d, Inl (M_E2e (E2e_Wire e)))
      | Inr _ \<Rightarrow> (d\<lparr>dir_master_ed25519 := master_ed25519, dir_verified := False, dir_list := ListState_default\<rparr>, Inr ()))"

definition PeerDirectory_accept_device ::
    "crypto_api \<Rightarrow> PeerDirectory \<Rightarrow> DeviceCertificate \<Rightarrow> ManageError + PeerDevice" where
  "PeerDirectory_accept_device C d cert =
     (if \<not> dir_verified d then Inl M_Unverified
      else if dc_master_ed25519 cert \<in> set (dir_revoked d) then Inl M_RevokedKey
      else map_err M_E2e (accept_peer_device C cert (ListState_keys (dir_list d))))"

section \<open>Lemmas: signatures\<close>

lemma wire_simps [simp]: "wire (Inl e) = Inl (E2e_Wire e)" "wire (Inr x) = Inr x"
  "wire r = Inr x \<longleftrightarrow> r = Inr x"
  by (simp_all add: wire_def)

definition signed_by :: "crypto_api \<Rightarrow> string \<Rightarrow> string \<Rightarrow> string \<Rightarrow> bool" where
  "signed_by C key sig text \<longleftrightarrow>
     (\<exists>k s. decode_key C key = Inr k \<and> decode_signature C sig = Inr s \<and> ed_key_ok C k \<and> ed_sig_ok C s
        \<and> ed_verify C k text s)"

lemma verify_signature_Inr: "verify_signature C key sig text = Inr u \<longleftrightarrow> signed_by C key sig text"
  by (auto simp: verify_signature_def signed_by_def rbind_eq_Inr)

lemma verify_signed_list_Inr:
  "verify_signed_list C v keys master sig = Inr u \<longleftrightarrow>
     1 \<le> v \<and> v \<le> MAX_VERSION \<and> list_devices_ok C keys \<and> signed_by C master sig (list_text v (sort keys))"
  by (auto simp: verify_signed_list_def rbind_eq_Inr signed_list_signed_text_Inr verify_signature_Inr)

lemma account_signs:
  assumes "account_ok C a"
  shows "signed_by C (acc_ed25519 a) (acc_sign a m) m" "\<exists>s. decode_signature C (acc_sign a m) = Inr s"
    "\<exists>k. decode_key C (acc_ed25519 a) = Inr k" "\<exists>k. decode_key C (acc_curve25519 a) = Inr k"
proof -
  obtain k where k: "canonical_text C 43 (acc_ed25519 a) k" "length k = 32" "ed_key_ok C k"
    and s: "\<forall>m. \<exists>s. canonical_text C 86 (acc_sign a m) s \<and> length s = 64 \<and> ed_sig_ok C s \<and> ed_verify C k m s"
    and c: "\<exists>k. canonical_text C 43 (acc_curve25519 a) k \<and> length k = 32"
    using assms by (auto simp: account_ok_def)
  then have key: "decode_key C (acc_ed25519 a) = Inr k" by (simp add: decode_key_Inr canonical_text_def)
  obtain s where s': "canonical_text C 86 (acc_sign a m) s" "length s = 64" "ed_sig_ok C s" "ed_verify C k m s"
    using s by blast
  then have sig: "decode_signature C (acc_sign a m) = Inr s" by (simp add: decode_signature_Inr canonical_text_def)
  show "signed_by C (acc_ed25519 a) (acc_sign a m) m"
    unfolding signed_by_def using key sig k s' by blast
  show "\<exists>s. decode_signature C (acc_sign a m) = Inr s" using sig by blast
  show "\<exists>k. decode_key C (acc_ed25519 a) = Inr k" using key by blast
  show "\<exists>k. decode_key C (acc_curve25519 a) = Inr k" using c by (auto simp: decode_key_Inr canonical_text_def)
qed

lemma accept_peer_device_Inr:
  "accept_peer_device C cert approved = Inr d \<longleftrightarrow>
     d = \<lparr> pd_did = dc_did cert, pd_curve25519 = dc_curve25519 cert, pd_ed25519 = dc_master_ed25519 cert \<rparr> \<and>
     is_ok (decode_key C (dc_curve25519 cert)) \<and>
     did_from_key_text C (dc_master_ed25519 cert) = Inr (dc_did cert) \<and>
     dc_master_ed25519 cert \<in> set approved \<and>
     signed_by C (dc_master_ed25519 cert) (dc_signature cert)
       (device_id_signed_text (dc_curve25519 cert) (dc_master_ed25519 cert))"
  by (auto simp: accept_peer_device_def rbind_eq_Inr signed_by_def is_ok_iff did_from_key_text_Inr)

section \<open>Lemmas: the stored list\<close>

lemma ListState_apply_Inr:
  "ListState_apply C st v keys = (st', Inr d) \<longleftrightarrow>
     1 \<le> v \<and> v \<le> MAX_VERSION \<and> list_devices_ok C keys \<and> decide_list (ls_stored st) v keys = d \<and> d \<noteq> Ignore \<and>
     st' = (if d = Replace then \<lparr>ls_stored = Some (v, keys)\<rparr> else st)"
  by (cases d; cases "check_list_devices C keys")
     (auto simp: ListState_apply_def check_list_devices_ok [symmetric] split: ListDecision.splits)

lemma ListState_apply_Inl: "ListState_apply C st v keys = (st', Inl e) \<Longrightarrow> st' = st"
  by (auto simp: ListState_apply_def split: if_splits sum.splits ListDecision.splits)

lemma ListState_apply_version:
  assumes "ListState_apply C st v keys = (st', r)"
  shows "ListState_version st \<le> ListState_version st'"
    "ListState_version st' = ListState_version st \<Longrightarrow> ListState_keys st' = ListState_keys st"
    "r = Inr Replace \<Longrightarrow> ListState_version st < v \<and> ListState_version st' = v \<and> ListState_keys st' = keys"
proof -
  have *: "ListState_version st \<le> ListState_version st'
     \<and> (ListState_version st' = ListState_version st \<longrightarrow> ListState_keys st' = ListState_keys st)
     \<and> (r = Inr Replace \<longrightarrow> ListState_version st < v \<and> ListState_version st' = v \<and> ListState_keys st' = keys)"
  proof (cases r)
    case (Inl e)
    with assms have "st' = st" using ListState_apply_Inl by blast
    with Inl show ?thesis by simp
  next
    case (Inr d)
    then show ?thesis
      using assms by (auto simp: ListState_apply_Inr ListState_version_def ListState_keys_def
          decide_list_cases split: option.splits)
  qed
  then show "ListState_version st \<le> ListState_version st'"
    "ListState_version st' = ListState_version st \<Longrightarrow> ListState_keys st' = ListState_keys st"
    "r = Inr Replace \<Longrightarrow> ListState_version st < v \<and> ListState_version st' = v \<and> ListState_keys st' = keys"
    by blast+
qed

lemma push_dropped_set: "set (push_dropped new_keys revoked keys) = set revoked \<union> (set keys - set new_keys)"
  by (induction new_keys revoked keys rule: push_dropped.induct) auto

section \<open>The contract of a holder of device lists\<close>

text \<open>\<open>forgets\<close> marks the steps that drop revocations and \<open>resets\<close> the steps that drop the stored
  list; both need an explicit action of the user or a reset of the identity.\<close>

locale device_ledger =
  fixes step :: "'s \<Rightarrow> 'x \<Rightarrow> 's"
    and is_rev :: "'s \<Rightarrow> string \<Rightarrow> string option \<Rightarrow> bool"
    and version :: "'s \<Rightarrow> nat"
    and listed :: "'s \<Rightarrow> string list"
    and forgets :: "'x \<Rightarrow> bool"
    and resets :: "'x \<Rightarrow> bool"
  assumes keeps_revoked: "\<not> forgets x \<Longrightarrow> is_rev s ed curve \<Longrightarrow> is_rev (step s x) ed curve"
    and version_grows: "\<not> resets x \<Longrightarrow> version s \<le> version (step s x)"
    and same_version: "\<not> resets x \<Longrightarrow> version (step s x) = version s \<Longrightarrow> listed (step s x) = listed s"
    and dropped_revoked: "\<not> resets x \<Longrightarrow> d \<in> set (listed s) \<Longrightarrow> d \<notin> set (listed (step s x)) \<Longrightarrow> is_rev (step s x) d curve"
begin

lemma run_keeps_revoked:
  "\<forall>x \<in> set xs. \<not> forgets x \<Longrightarrow> is_rev s ed curve \<Longrightarrow> is_rev (foldl step s xs) ed curve"
  by (induction xs arbitrary: s) (auto simp: keeps_revoked)

lemma run_version: "\<forall>x \<in> set xs. \<not> resets x \<Longrightarrow> version s \<le> version (foldl step s xs)"
proof (induction xs arbitrary: s)
  case (Cons x xs)
  then have "version s \<le> version (step s x)" "version (step s x) \<le> version (foldl step (step s x) xs)"
    by (auto simp: version_grows)
  then show ?case by simp
qed simp

lemma run_same_version:
  "\<forall>x \<in> set xs. \<not> resets x \<Longrightarrow> version (foldl step s xs) = version s \<Longrightarrow> listed (foldl step s xs) = listed s"
proof (induction xs arbitrary: s)
  case (Cons x xs)
  have "version s \<le> version (step s x)" "version (step s x) \<le> version (foldl step (step s x) xs)"
    using Cons.prems(1) version_grows run_version by auto
  with Cons.prems have "version (step s x) = version s" "version (foldl step (step s x) xs) = version (step s x)"
    by simp_all
  with Cons same_version show ?case by simp
qed simp

lemma run_listed_or_revoked:
  "\<forall>x \<in> set xs. \<not> forgets x \<and> \<not> resets x \<Longrightarrow> d \<in> set (listed s) \<or> is_rev s d curve \<Longrightarrow>
   d \<in> set (listed (foldl step s xs)) \<or> is_rev (foldl step s xs) d curve"
proof (induction xs arbitrary: s)
  case (Cons x xs)
  then have "d \<in> set (listed (step s x)) \<or> is_rev (step s x) d curve"
    using dropped_revoked keeps_revoked by (metis list.set_intros(1))
  with Cons show ?case by simp
qed simp

end

section \<open>The directory keeps the contract\<close>

datatype DirOp = DirApply string SignedList | DirConfirm | DirNewMaster string

fun dir_step :: "crypto_api \<Rightarrow> PeerDirectory \<Rightarrow> DirOp \<Rightarrow> PeerDirectory" where
  "dir_step C d (DirApply master l) = fst (PeerDirectory_apply_list C d master l)"
| "dir_step C d DirConfirm = PeerDirectory_confirm_sas d"
| "dir_step C d (DirNewMaster master) = fst (PeerDirectory_accept_new_master C d master)"

definition dir_is_revoked :: "PeerDirectory \<Rightarrow> string \<Rightarrow> string option \<Rightarrow> bool" where
  "dir_is_revoked d ed curve \<longleftrightarrow> ed \<in> set (dir_revoked d)"

definition dir_version :: "PeerDirectory \<Rightarrow> nat" where
  "dir_version d = ListState_version (dir_list d)"

definition dir_resets :: "DirOp \<Rightarrow> bool" where
  "dir_resets x = (case x of DirNewMaster _ \<Rightarrow> True | _ \<Rightarrow> False)"

lemma apply_list_cases:
  obtains (same) "fst (PeerDirectory_apply_list C d master l) = d"
    "snd (PeerDirectory_apply_list C d master l) \<noteq> Inr Replace"
  | (replaced) st where "master = dir_master_ed25519 d"
    "verify_signed_list C (sl_version l) (sl_keys l) master (sl_signature l) = Inr ()"
    "ListState_apply C (dir_list d) (sl_version l) (sl_keys l) = (st, Inr Replace)"
    "\<forall>key \<in> set (sl_keys l). key \<notin> set (dir_revoked d)"
    "fst (PeerDirectory_apply_list C d master l) =
       d\<lparr>dir_revoked := push_dropped (sl_keys l) (dir_revoked d) (ListState_keys (dir_list d)), dir_list := st\<rparr>"
    "snd (PeerDirectory_apply_list C d master l) = Inr Replace"
proof -
  obtain st r where ap: "ListState_apply C (dir_list d) (sl_version l) (sl_keys l) = (st, r)"
    by (cases "ListState_apply C (dir_list d) (sl_version l) (sl_keys l)")
  show thesis
  proof (cases "fst (PeerDirectory_apply_list C d master l) = d \<and> snd (PeerDirectory_apply_list C d master l) \<noteq> Inr Replace")
    case True
    then show thesis using same by blast
  next
    case False
    then show thesis
      using ap by (intro replaced [of st])
        (auto simp: PeerDirectory_apply_list_def list_ex_iff split: if_splits sum.splits)
  qed
qed

interpretation directory: device_ledger "dir_step C" dir_is_revoked dir_version PeerDirectory_keys
  "\<lambda>_. False" dir_resets for C
proof unfold_locales
  fix x :: DirOp and s ed curve
  show "dir_is_revoked s ed curve \<Longrightarrow> dir_is_revoked (dir_step C s x) ed curve"
  proof (cases x)
    case (DirApply master l)
    then show "dir_is_revoked s ed curve \<Longrightarrow> ?thesis"
      by (cases C s master l rule: apply_list_cases) (auto simp: dir_is_revoked_def push_dropped_set)
  qed (auto simp: dir_is_revoked_def PeerDirectory_confirm_sas_def PeerDirectory_accept_new_master_def split: sum.splits)
next
  fix x :: DirOp and s
  assume r: "\<not> dir_resets x"
  show "dir_version s \<le> dir_version (dir_step C s x)"
  proof (cases x)
    case (DirApply master l)
    then show ?thesis
      by (cases C s master l rule: apply_list_cases) (auto simp: dir_version_def dest: ListState_apply_version(1))
  qed (use r in \<open>auto simp: dir_version_def PeerDirectory_confirm_sas_def dir_resets_def\<close>)
  show "dir_version (dir_step C s x) = dir_version s \<Longrightarrow> PeerDirectory_keys (dir_step C s x) = PeerDirectory_keys s"
  proof (cases x)
    case (DirApply master l)
    then show "dir_version (dir_step C s x) = dir_version s \<Longrightarrow> ?thesis"
      by (cases C s master l rule: apply_list_cases)
         (auto simp: dir_version_def PeerDirectory_keys_def dest: ListState_apply_version(2))
  qed (use r in \<open>auto simp: PeerDirectory_keys_def PeerDirectory_confirm_sas_def dir_resets_def\<close>)
  show "d \<in> set (PeerDirectory_keys s) \<Longrightarrow> d \<notin> set (PeerDirectory_keys (dir_step C s x)) \<Longrightarrow>
      dir_is_revoked (dir_step C s x) d curve" for d curve
  proof (cases x)
    case (DirApply master l)
    then show "d \<in> set (PeerDirectory_keys s) \<Longrightarrow> d \<notin> set (PeerDirectory_keys (dir_step C s x)) \<Longrightarrow> ?thesis"
      by (cases C s master l rule: apply_list_cases)
         (auto simp: PeerDirectory_keys_def dir_is_revoked_def push_dropped_set dest: ListState_apply_version(3))
  qed (use r in \<open>auto simp: PeerDirectory_keys_def PeerDirectory_confirm_sas_def dir_resets_def\<close>)
qed

section \<open>Properties\<close>

text \<open>
  A revoked key never comes back through the directory of a peer: whatever lists, master
  changes and confirmations follow, and although a new master drops the stored list, no certificate of
  the key is accepted again.
\<close>

theorem directory_never_accepts_revoked:
  assumes "ed \<in> set (dir_revoked d)" and "dc_master_ed25519 cert = ed"
  shows "\<not> is_ok (PeerDirectory_accept_device C (foldl (dir_step C) d xs) cert)"
proof -
  have "dir_is_revoked (foldl (dir_step C) d xs) ed None"
    using directory.run_keeps_revoked [of xs d ed None C] assms by (simp add: dir_is_revoked_def)
  then show ?thesis using assms by (simp add: PeerDirectory_accept_device_def dir_is_revoked_def)
qed

definition sample_list :: "char \<Rightarrow> nat \<Rightarrow> string list \<Rightarrow> SignedList" where
  "sample_list c v keys = \<lparr> sl_version = v, sl_keys = keys, sl_signature = toy_sign c (list_text v (sort keys)) \<rparr>"

definition sample_directory :: PeerDirectory where
  "sample_directory =
     foldl (dir_step toy_crypto)
       \<lparr> dir_master_ed25519 = toy_key CHR ''M'', dir_verified = True, dir_list = ListState_default, dir_revoked = [] \<rparr>
       [DirApply (toy_key CHR ''M'') (sample_list CHR ''M'' 1 [toy_key CHR ''D'', toy_key CHR ''E'']),
        DirApply (toy_key CHR ''M'') (sample_list CHR ''M'' 2 [toy_key CHR ''E''])]"

theorem directory_never_accepts_revoked_witness:
  "toy_key CHR ''D'' \<in> set (dir_revoked sample_directory) \<and>
   \<not> is_ok (PeerDirectory_accept_device toy_crypto
        (foldl (dir_step toy_crypto) sample_directory [DirNewMaster (toy_key CHR ''N''), DirConfirm])
        \<lparr> dc_did = ''AAA'', dc_curve25519 = toy_key CHR ''c'', dc_master_ed25519 = toy_key CHR ''D'', dc_signature = [] \<rparr>)"
proof -
  have r: "toy_key CHR ''D'' \<in> set (dir_revoked sample_directory)" by code_simp
  show ?thesis
    using r directory_never_accepts_revoked [OF r, of
        "\<lparr> dc_did = ''AAA'', dc_curve25519 = toy_key CHR ''c'', dc_master_ed25519 = toy_key CHR ''D'', dc_signature = [] \<rparr>"
        toy_crypto "[DirNewMaster (toy_key CHR ''N''), DirConfirm]"]
    by simp
qed

text \<open>
  A certificate that the holder of the master key builds is accepted by every verifier that
  approves the master, for the device and the version it was built for; and the bytes form accepts only
  text of that exact form.
\<close>

theorem device_certificate_roundtrip:
  assumes "account_ok C master" and "acc_ed25519 master \<in> set approved"
    and "1 \<le> n" and "n \<le> MAX_VERSION" and "is_ok (decode_key C device)"
  shows "\<exists>cert. build_device_certificate C n device (acc_ed25519 master) (acc_sign master) = Inr cert \<and>
     verify_device_certificate C cert approved = Inr () \<and>
     (\<forall>signed m d. verify_device_certificate_bytes C signed (vc_master_ed25519 cert) (vc_signature cert) approved = Inr (m, d)
        \<longrightarrow> device_certificate_signed_text C m d = Inr signed)"
proof -
  obtain t where t: "device_certificate_signed_text C n device = Inr t"
    using assms by (auto simp: device_certificate_signed_text_def check_version_def is_ok_iff)
  have parsed: "parse_device_certificate_signed_text C t = Inr (n, device)"
    using t device_certificate_text_iff by blast
  note acc = account_signs [OF assms(1)]
  obtain k s where "decode_key C (acc_ed25519 master) = Inr k" "decode_signature C (acc_sign master t) = Inr s"
    using acc by blast
  with t parsed acc(1) [of t] assms(2) show ?thesis
    by (auto simp: build_device_certificate_def verify_device_certificate_def verify_device_certificate_bytes_def
        verify_signature_Inr rbind_eq_Inr device_certificate_text_iff split: if_splits)
qed

theorem device_certificate_roundtrip_witness:
  "\<exists>cert. build_device_certificate toy_crypto 3 (toy_key CHR ''D'') (toy_key CHR ''M'') (toy_sign CHR ''M'') = Inr cert \<and>
     verify_device_certificate toy_crypto cert [toy_key CHR ''M''] = Inr ()"
proof -
  have c: "is_std_b64_char CHR ''M''" "is_ok (decode_key toy_crypto (toy_key CHR ''D''))" by code_simp+
  show ?thesis
    using device_certificate_roundtrip [OF toy_account_ok [OF c(1)], of "[toy_key CHR ''M'']" 3 "toy_key CHR ''D''"] c(2)
    by (auto simp: toy_account_def MAX_VERSION_def)
qed

lemma migrate_own_list_facts:
  assumes "account_ok C master" and "migrate_own_list C master l = Inr (Some l')"
  shows "sl_version l' = sl_version l \<and> mset (sl_keys l') = mset (sl_keys l) \<and> sorted (sl_keys l') \<and>
     verify_signed_list C (sl_version l') (sl_keys l') (acc_ed25519 master) (sl_signature l') = Inr () \<and>
     list_order C (sl_version l) (sl_keys l) (acc_ed25519 master) (sl_signature l) = Inr Legacy"
proof -
  obtain sig where legacy: "list_order C (sl_version l) (sl_keys l) (acc_ed25519 master) (sl_signature l) = Inr Legacy"
    and sig: "build_signed_list_signature C (sl_version l) (sl_keys l) (acc_sign master) = Inr sig"
    and l': "l' = \<lparr> sl_version = sl_version l, sl_keys = sort (sl_keys l), sl_signature = sig \<rparr>"
    using assms(2) unfolding migrate_own_list_def rbind_eq_Inr sort_list_keys_def
    by (auto simp: rbind_eq_Inr split: ListOrder.splits) (metis ListOrder.exhaust)
  from sig have ok: "1 \<le> sl_version l" "sl_version l \<le> MAX_VERSION" "list_devices_ok C (sl_keys l)"
    and s: "sig = acc_sign master (list_text (sl_version l) (sort (sl_keys l)))"
    by (auto simp: build_signed_list_signature_def rbind_eq_Inr signed_list_signed_text_Inr)
  have "verify_signed_list C (sl_version l') (sl_keys l') (acc_ed25519 master) (sl_signature l') = Inr ()"
    using ok account_signs(1) [OF assms(1)] list_devices_ok_mset [of "sort (sl_keys l)" "sl_keys l" C]
    by (simp add: verify_signed_list_Inr l' s sorted_sort_id)
  then show ?thesis using legacy l' by simp
qed

text \<open>
  The migration of the own list signs again only a list of the own master in the old order;
  the new list has the version and the keys of the old one, is in the current order and verifies.
\<close>

theorem migrated_list_verifies:
  assumes "account_ok C master" and "migrate_own_list C master l = Inr (Some l')"
  shows "sl_version l' = sl_version l \<and> mset (sl_keys l') = mset (sl_keys l) \<and> sorted (sl_keys l') \<and>
     list_order C (sl_version l') (sl_keys l') (acc_ed25519 master) (sl_signature l') = Inr Current \<and>
     list_order C (sl_version l) (sl_keys l) (acc_ed25519 master) (sl_signature l) = Inr Legacy"
proof -
  note facts = migrate_own_list_facts [OF assms]
  then have "list_order C (sl_version l') (sl_keys l') (acc_ed25519 master) (sl_signature l') = Inr Current"
    unfolding list_order_def by (elim conjE) (simp only: sum.case)
  then show ?thesis using facts by blast
qed

text \<open>An instance of the libraries whose base64 alphabet turns the order of two keys around.\<close>

definition flip_char :: "char \<Rightarrow> char" where
  "flip_char c = (if c = CHR ''D'' then CHR ''E'' else if c = CHR ''E'' then CHR ''D'' else c)"

definition flip_crypto :: crypto_api where
  "flip_crypto = toy_crypto\<lparr> b64_decode := (\<lambda>s. map_option (map flip_char) (toy_decode s)),
     b64_encode := (\<lambda>x. toy_encode (map flip_char x)) \<rparr>"

definition flip_sign :: "string \<Rightarrow> string" where
  "flip_sign m = toy_encode (map flip_char (toy_signature (replicate 32 CHR ''M'') m))"

definition flip_account :: account where
  "flip_account = \<lparr> acc_ed25519 = toy_key CHR ''M'', acc_curve25519 = toy_key CHR ''M'', acc_sign = flip_sign \<rparr>"

lemma flip_char_idem [simp]: "flip_char (flip_char c) = c"
  by (simp add: flip_char_def)

lemma flip_canonical:
  "canonical_text toy_crypto n t x \<Longrightarrow> canonical_text flip_crypto n t (map flip_char x)"
  by (simp add: canonical_text_def flip_crypto_def toy_crypto_def comp_def)

lemma flip_account_ok: "account_ok flip_crypto flip_account"
proof -
  let ?k = "replicate 32 CHR ''M''"
  have std: "is_std_b64_char (flip_char c)" if "is_std_b64_char c" for c
    using that by (auto simp: flip_char_def is_std_b64_char_def ascii_defs)
  have M: "is_std_b64_char CHR ''M''" "flip_char CHR ''M'' = CHR ''M''"
    by (simp_all add: flip_char_def is_std_b64_char_def ascii_defs)
  have key: "canonical_text flip_crypto 43 (toy_key CHR ''M'') ?k"
    using flip_canonical [OF toy_canonical [of ?k 32]] M by (simp add: toy_key_def)
  have "\<forall>c \<in> set (map flip_char (toy_signature ?k m)). is_std_b64_char c" for m
    using std M toy_digest_chars by (auto simp: toy_signature_def is_std_b64_char_def)
  then have "canonical_text flip_crypto 86 (flip_sign m) (map flip_char (map flip_char (toy_signature ?k m)))" for m
    using flip_canonical [OF toy_canonical [of "map flip_char (toy_signature ?k m)" 64]]
    by (simp add: flip_sign_def toy_signature_def)
  then have sig: "canonical_text flip_crypto 86 (flip_sign m) (toy_signature ?k m)" for m
    by (simp add: comp_def)
  have api: "ed_key_ok flip_crypto ?k" "ed_sig_ok flip_crypto (toy_signature ?k m)"
    "ed_verify flip_crypto ?k m (toy_signature ?k m)" "length (toy_signature ?k m) = 64" for m
    by (simp_all add: flip_crypto_def toy_crypto_def toy_signature_def)
  show ?thesis
    unfolding account_ok_def flip_account_def account.simps using key sig api by (metis length_replicate)
qed

lemma case_Inr_SomeD: "(case r of Inr (Some _) \<Rightarrow> True | _ \<Rightarrow> False) \<Longrightarrow> \<exists>l. r = Inr (Some l)"
  by (auto split: sum.splits option.splits)

theorem migrated_list_verifies_witness:
  "let l = \<lparr> sl_version = 4, sl_keys = [toy_key CHR ''D'', toy_key CHR ''E''],
            sl_signature = flip_sign (list_text 4 [toy_key CHR ''E'', toy_key CHR ''D'']) \<rparr>
   in \<exists>l'. migrate_own_list flip_crypto flip_account l = Inr (Some l') \<and> sorted (sl_keys l') \<and>
        list_order flip_crypto 4 (sl_keys l') (acc_ed25519 flip_account) (sl_signature l') = Inr Current"
proof -
  let ?l = "\<lparr> sl_version = 4, sl_keys = [toy_key CHR ''D'', toy_key CHR ''E''],
            sl_signature = flip_sign (list_text 4 [toy_key CHR ''E'', toy_key CHR ''D'']) \<rparr>"
  have "case migrate_own_list flip_crypto flip_account ?l of Inr (Some _) \<Rightarrow> True | _ \<Rightarrow> False" by code_simp
  then obtain l' where m: "migrate_own_list flip_crypto flip_account ?l = Inr (Some l')"
    using case_Inr_SomeD by blast
  have "sorted (sl_keys l') \<and> list_order flip_crypto 4 (sl_keys l') (acc_ed25519 flip_account) (sl_signature l') = Inr Current"
    using migrated_list_verifies [OF flip_account_ok m] unfolding SignedList.simps by metis
  with m show ?thesis unfolding Let_def by blast
qed

end
