(* ===== verification/Trust.thy ===== *)
theory Trust
  imports Device
begin

text \<open>
  Peer trust and retained revocation, from \<^verbatim>\<open>e2e_trust.rs\<close>: the record kept for each peer, the
  operations on the map of peers, and the proof that the trust state keeps the contract
  \<open>device_ledger\<close> for every peer. A \<^verbatim>\<open>BTreeSet\<close> is a list used as a set. The JSON form of the
  state is written and read by derived library code and is not modelled.
\<close>

section \<open>The record of a peer\<close>

datatype MasterStatus = MasterNew | MasterSame | MasterChanged

record PeerRecord =
  pr_master :: string
  pr_sas_verified :: bool
  pr_key_verified :: bool
  pr_list :: ListState
  pr_curves :: "(string \<times> string) list"
  pr_revoked :: "string list"
  pr_revoked_curves :: "string list"
  pr_needs_new_list :: bool
  pr_certified :: "(string \<times> nat) list"
  pr_released :: bool

definition PeerRecord_new :: "string \<Rightarrow> PeerRecord" where
  "PeerRecord_new master = \<lparr>
     pr_master = master, pr_sas_verified = False, pr_key_verified = False, pr_list = ListState_default,
     pr_curves = [], pr_revoked = [], pr_revoked_curves = [], pr_needs_new_list = False,
     pr_certified = [], pr_released = False \<rparr>"

definition take_master :: "string \<Rightarrow> PeerRecord \<Rightarrow> PeerRecord" where
  "take_master master r =
     r\<lparr>pr_master := master, pr_sas_verified := False, pr_key_verified := False, pr_released := False\<rparr>"

definition PeerRecord_is_revoked :: "PeerRecord \<Rightarrow> string \<Rightarrow> string option \<Rightarrow> bool" where
  "PeerRecord_is_revoked r ed25519 curve25519 \<longleftrightarrow>
     ed25519 \<in> set (pr_revoked r) \<or>
     (case curve25519 of None \<Rightarrow> False | Some curve \<Rightarrow> curve \<in> set (pr_revoked_curves r))"

section \<open>The trust state\<close>

type_synonym PeerTrust = "(string \<times> PeerRecord) list"

definition peer_key :: "string \<Rightarrow> string \<Rightarrow> string" where
  "peer_key network nick = network @ CHR 0x00 # nick"

definition observe_master ::
    "crypto_api \<Rightarrow> PeerTrust \<Rightarrow> string \<Rightarrow> string \<Rightarrow> string \<Rightarrow> PeerTrust \<times> (E2eError + MasterStatus)" where
  "observe_master C t network nick master =
     (case decode_key C master of
        Inl e \<Rightarrow> (t, Inl (E2e_Wire e))
      | Inr _ \<Rightarrow>
          (let key = peer_key network nick in
           case map_of t key of
             None \<Rightarrow> (AList.update key (PeerRecord_new master) t, Inr MasterNew)
           | Some record \<Rightarrow>
               if pr_released record then (AList.update key (take_master master record) t, Inr MasterNew)
               else if pr_master record = master then (t, Inr MasterSame)
               else (t, Inr MasterChanged)))"

definition trust_master :: "PeerTrust \<Rightarrow> string \<Rightarrow> string \<Rightarrow> string option" where
  "trust_master t network nick =
     (case map_of t (peer_key network nick) of
        None \<Rightarrow> None
      | Some record \<Rightarrow> if \<not> pr_released record then Some (pr_master record) else None)"

definition is_sas_verified :: "PeerTrust \<Rightarrow> string \<Rightarrow> string \<Rightarrow> bool" where
  "is_sas_verified t network nick =
     (case map_of t (peer_key network nick) of None \<Rightarrow> False | Some record \<Rightarrow> pr_sas_verified record)"

definition mark_sas_verified ::
    "PeerTrust \<Rightarrow> string \<Rightarrow> string \<Rightarrow> string \<Rightarrow> PeerTrust \<times> (E2eError + unit)" where
  "mark_sas_verified t network nick master =
     (let key = peer_key network nick in
      case map_of t key of
        None \<Rightarrow> (t, Inl E2e_MasterChanged)
      | Some record \<Rightarrow>
          if \<not> pr_released record \<and> pr_master record = master
          then (AList.update key (record\<lparr>pr_sas_verified := True\<rparr>) t, Inr ())
          else (t, Inl E2e_MasterChanged))"

definition is_key_verified :: "PeerTrust \<Rightarrow> string \<Rightarrow> string \<Rightarrow> bool" where
  "is_key_verified t network nick =
     (case map_of t (peer_key network nick) of
        None \<Rightarrow> False | Some record \<Rightarrow> \<not> pr_released record \<and> pr_key_verified record)"

definition mark_key_verified ::
    "PeerTrust \<Rightarrow> string \<Rightarrow> string \<Rightarrow> string \<Rightarrow> PeerTrust \<times> (E2eError + unit)" where
  "mark_key_verified t network nick master =
     (let key = peer_key network nick in
      case map_of t key of
        None \<Rightarrow> (t, Inl E2e_MasterChanged)
      | Some record \<Rightarrow>
          if \<not> pr_released record \<and> pr_master record = master
          then (AList.update key (record\<lparr>pr_key_verified := True\<rparr>) t, Inr ())
          else (t, Inl E2e_MasterChanged))"

definition released :: "PeerRecord \<Rightarrow> PeerRecord" where
  "released record =
     record\<lparr>pr_released := True, pr_sas_verified := False, pr_key_verified := False,
            pr_list := ListState_default, pr_curves := [], pr_certified := [], pr_needs_new_list := False\<rparr>"

definition release_master :: "PeerTrust \<Rightarrow> string \<Rightarrow> string \<Rightarrow> PeerTrust" where
  "release_master t network nick =
     (let key = peer_key network nick in
      case map_of t key of None \<Rightarrow> t | Some record \<Rightarrow> AList.update key (released record) t)"

definition replace_master_by_user ::
    "crypto_api \<Rightarrow> PeerTrust \<Rightarrow> string \<Rightarrow> string \<Rightarrow> string \<Rightarrow> PeerTrust \<times> (E2eError + unit)" where
  "replace_master_by_user C t network nick master =
     (case decode_key C master of
        Inl e \<Rightarrow> (t, Inl (E2e_Wire e))
      | Inr _ \<Rightarrow> (AList.update (peer_key network nick) (PeerRecord_new master) t, Inr ()))"

section \<open>Accepting a list\<close>

text \<open>The devices that a replacing list drops: those of the stored list it lacks, and those a
  certificate named at its version or below it.\<close>

definition dropped_devices :: "PeerRecord \<Rightarrow> string list \<Rightarrow> nat \<Rightarrow> string list \<Rightarrow> string list" where
  "dropped_devices record previous version keys =
     filter (\<lambda>device. device \<notin> set keys) previous
     @ map fst (filter (\<lambda>(device, n). n \<le> version \<and> device \<notin> set keys) (pr_certified record))"

text \<open>The loop that revokes them, each with its curve key when it is known.\<close>

definition revoke_one :: "PeerRecord \<Rightarrow> string \<Rightarrow> PeerRecord" where
  "revoke_one record device =
     (let record = (case map_of (pr_curves record) device of
                      None \<Rightarrow> record
                    | Some curve \<Rightarrow> record\<lparr>pr_revoked_curves := List.insert curve (pr_revoked_curves record)\<rparr>)
      in record\<lparr>pr_revoked := List.insert device (pr_revoked record)\<rparr>)"

fun revoke_all :: "PeerRecord \<Rightarrow> string list \<Rightarrow> PeerRecord" where
  "revoke_all record [] = record"
| "revoke_all record (device # devices) = revoke_all (revoke_one record device) devices"

text \<open>The record after the checks of master and signature: the refusal of revoked devices, the
  version rule and the revocations.\<close>

definition apply_to_record ::
    "crypto_api \<Rightarrow> PeerRecord \<Rightarrow> nat \<Rightarrow> string list \<Rightarrow> E2eError + (PeerRecord \<times> ListDecision)" where
  "apply_to_record C record version keys =
     (if list_ex (\<lambda>device. PeerRecord_is_revoked record device (map_of (pr_curves record) device)) keys
      then Inl E2e_RevokedDevice
      else (let previous = ListState_keys (pr_list record) in
            case ListState_apply C (pr_list record) version keys of
              (_, Inl e) \<Rightarrow> Inl e
            | (next, Inr decision) \<Rightarrow>
                let record = record\<lparr>pr_list := next, pr_needs_new_list := False\<rparr>;
                    record = (if decision = Replace then
                                (let record = revoke_all record (dropped_devices record previous version keys)
                                 in record\<lparr>pr_certified := filter (\<lambda>(_, n). n > version) (pr_certified record)\<rparr>)
                              else record)
                in Inr (record, decision)))"

definition accept_list ::
    "crypto_api \<Rightarrow> PeerTrust \<Rightarrow> string \<Rightarrow> string \<Rightarrow> string \<Rightarrow> nat \<Rightarrow> string list \<Rightarrow> string
     \<Rightarrow> PeerTrust \<times> (E2eError + ListDecision)" where
  "accept_list C t network nick master version keys signature =
     (let key = peer_key network nick in
      case verify_signed_list C version keys master signature of
        Inl err \<Rightarrow>
          if has_legacy_order C version keys master signature then
            ((case map_of t key of
                None \<Rightarrow> t
              | Some record \<Rightarrow>
                  if pr_master record = master then AList.update key (record\<lparr>pr_needs_new_list := True\<rparr>) t else t),
             Inl E2e_LegacyListOrder)
          else (t, Inl err)
      | Inr _ \<Rightarrow>
          (case (case map_of t key of
                   None \<Rightarrow> Inr (PeerRecord_new master)
                 | Some record \<Rightarrow>
                     if pr_released record then Inr (take_master master record)
                     else if pr_master record \<noteq> master then Inl E2e_MasterChanged
                     else Inr record) of
             Inl e \<Rightarrow> (t, Inl e)
           | Inr record \<Rightarrow>
               (case apply_to_record C record version keys of
                  Inl e \<Rightarrow> (t, Inl e)
                | Inr (record, decision) \<Rightarrow> (AList.update key record t, Inr decision))))"

section \<open>Single devices\<close>

definition revoke_device ::
    "crypto_api \<Rightarrow> PeerTrust \<Rightarrow> string \<Rightarrow> string \<Rightarrow> string \<Rightarrow> string \<Rightarrow> PeerTrust \<times> (E2eError + unit)" where
  "revoke_device C t network nick master ed25519 =
     (case rbind (decode_key C master) (\<lambda>_. decode_key C ed25519) of
        Inl e \<Rightarrow> (t, Inl (E2e_Wire e))
      | Inr _ \<Rightarrow>
          (let key = peer_key network nick;
               record = (case map_of t key of None \<Rightarrow> PeerRecord_new master | Some record \<Rightarrow> record)
           in (AList.update key (revoke_one record ed25519) t, Inr ())))"

definition record_curve ::
    "crypto_api \<Rightarrow> PeerTrust \<Rightarrow> string \<Rightarrow> string \<Rightarrow> string \<Rightarrow> string \<Rightarrow> PeerTrust \<times> (E2eError + bool)" where
  "record_curve C t network nick ed25519 curve25519 =
     (case rbind (decode_key C ed25519) (\<lambda>_. decode_key C curve25519) of
        Inl e \<Rightarrow> (t, Inl (E2e_Wire e))
      | Inr _ \<Rightarrow>
          (let key = peer_key network nick in
           case map_of t key of
             None \<Rightarrow> (t, Inr False)
           | Some record \<Rightarrow>
               let record = record\<lparr>pr_curves := AList.update ed25519 curve25519 (pr_curves record)\<rparr>;
                   record = (if ed25519 \<in> set (pr_revoked record)
                             then record\<lparr>pr_revoked_curves := List.insert curve25519 (pr_revoked_curves record)\<rparr>
                             else record)
               in (AList.update key record t, Inr True)))"

definition record_certified :: "PeerTrust \<Rightarrow> string \<Rightarrow> string \<Rightarrow> string \<Rightarrow> nat \<Rightarrow> PeerTrust \<times> bool" where
  "record_certified t network nick ed25519 n =
     (let key = peer_key network nick in
      case map_of t key of
        None \<Rightarrow> (t, False)
      | Some record \<Rightarrow>
          (AList.update key (record\<lparr>pr_certified := AList.update ed25519 n (pr_certified record)\<rparr>) t, True))"

section \<open>Reading the state\<close>

definition list_version :: "PeerTrust \<Rightarrow> string \<Rightarrow> string \<Rightarrow> nat" where
  "list_version t network nick =
     (case map_of t (peer_key network nick) of None \<Rightarrow> 0 | Some record \<Rightarrow> ListState_version (pr_list record))"

definition needs_new_list :: "PeerTrust \<Rightarrow> string \<Rightarrow> string \<Rightarrow> bool" where
  "needs_new_list t network nick =
     (case map_of t (peer_key network nick) of None \<Rightarrow> False | Some record \<Rightarrow> pr_needs_new_list record)"

definition listed_devices :: "PeerTrust \<Rightarrow> string \<Rightarrow> string \<Rightarrow> string list" where
  "listed_devices t network nick =
     (case map_of t (peer_key network nick) of None \<Rightarrow> [] | Some record \<Rightarrow> ListState_keys (pr_list record))"

definition has_revoked_devices :: "PeerTrust \<Rightarrow> string \<Rightarrow> string \<Rightarrow> bool" where
  "has_revoked_devices t network nick =
     (case map_of t (peer_key network nick) of None \<Rightarrow> False | Some record \<Rightarrow> pr_revoked record \<noteq> [])"

definition is_revoked :: "PeerTrust \<Rightarrow> string \<Rightarrow> string \<Rightarrow> string \<Rightarrow> string option \<Rightarrow> bool" where
  "is_revoked t network nick ed25519 curve25519 =
     (case map_of t (peer_key network nick) of
        None \<Rightarrow> False | Some record \<Rightarrow> PeerRecord_is_revoked record ed25519 curve25519)"

definition is_did_revoked :: "crypto_api \<Rightarrow> PeerTrust \<Rightarrow> string \<Rightarrow> string \<Rightarrow> string \<Rightarrow> bool" where
  "is_did_revoked C t network nick did =
     (case map_of t (peer_key network nick) of
        None \<Rightarrow> False
      | Some record \<Rightarrow> list_ex (\<lambda>key. did_from_key_text C key = Inr did) (pr_revoked record))"

section \<open>Lemmas: one record\<close>

lemma revoke_one_fields [simp]:
  "pr_master (revoke_one r d) = pr_master r" "pr_list (revoke_one r d) = pr_list r"
  "pr_curves (revoke_one r d) = pr_curves r" "pr_released (revoke_one r d) = pr_released r"
  "pr_certified (revoke_one r d) = pr_certified r" "set (pr_revoked (revoke_one r d)) = insert d (set (pr_revoked r))"
  "set (pr_revoked_curves (revoke_one r d)) =
     set (pr_revoked_curves r) \<union> (case map_of (pr_curves r) d of None \<Rightarrow> {} | Some c \<Rightarrow> {c})"
  by (auto simp: revoke_one_def Let_def split: option.splits)

lemma revoke_all_fields [simp]:
  "pr_master (revoke_all r ds) = pr_master r" "pr_list (revoke_all r ds) = pr_list r"
  "pr_curves (revoke_all r ds) = pr_curves r" "pr_released (revoke_all r ds) = pr_released r"
  "pr_certified (revoke_all r ds) = pr_certified r" "set (pr_revoked (revoke_all r ds)) = set ds \<union> set (pr_revoked r)"
  "set (pr_revoked_curves (revoke_all r ds)) =
     set (pr_revoked_curves r) \<union> {c. \<exists>d \<in> set ds. map_of (pr_curves r) d = Some c}"
  by (induction r ds rule: revoke_all.induct) (auto split: option.splits)

lemma is_revoked_mono:
  assumes "set (pr_revoked r) \<subseteq> set (pr_revoked r')" "set (pr_revoked_curves r) \<subseteq> set (pr_revoked_curves r')"
    and "PeerRecord_is_revoked r ed curve"
  shows "PeerRecord_is_revoked r' ed curve"
  using assms by (auto simp: PeerRecord_is_revoked_def split: option.splits)

lemma dropped_devices_update [simp]:
  "dropped_devices (r\<lparr>pr_list := st, pr_needs_new_list := b\<rparr>) previous v keys = dropped_devices r previous v keys"
  by (simp add: dropped_devices_def)

lemma apply_to_record_Inr:
  assumes "apply_to_record C r v keys = Inr (r', d)"
  shows "\<forall>device \<in> set keys. \<not> PeerRecord_is_revoked r device (map_of (pr_curves r) device)"
    and "\<exists>st. ListState_apply C (pr_list r) v keys = (st, Inr d) \<and> pr_list r' = st"
    and "pr_master r' = pr_master r" "pr_released r' = pr_released r" "d = Replace \<Longrightarrow> pr_curves r' = pr_curves r"
    and "set (pr_revoked r') = set (pr_revoked r) \<union>
      (if d = Replace then set (dropped_devices r (ListState_keys (pr_list r)) v keys) else {})"
    and "set (pr_revoked_curves r') = set (pr_revoked_curves r) \<union>
      (if d = Replace then {c. \<exists>dev \<in> set (dropped_devices r (ListState_keys (pr_list r)) v keys).
         map_of (pr_curves r) dev = Some c} else {})"
  using assms
  by (auto simp: apply_to_record_def Let_def list_ex_iff split: if_splits prod.splits sum.splits)

section \<open>Runs of trust operations\<close>

datatype TrustOp =
  TObserve string string string
| TMarkSas string string string
| TMarkKey string string string
| TRelease string string
| TReplace string string string
| TAcceptList string string string nat "string list" string
| TRevoke string string string string
| TRecordCurve string string string string
| TRecordCertified string string string nat

fun trust_step :: "crypto_api \<Rightarrow> PeerTrust \<Rightarrow> TrustOp \<Rightarrow> PeerTrust" where
  "trust_step C t (TObserve n k m) = fst (observe_master C t n k m)"
| "trust_step C t (TMarkSas n k m) = fst (mark_sas_verified t n k m)"
| "trust_step C t (TMarkKey n k m) = fst (mark_key_verified t n k m)"
| "trust_step C t (TRelease n k) = release_master t n k"
| "trust_step C t (TReplace n k m) = fst (replace_master_by_user C t n k m)"
| "trust_step C t (TAcceptList n k m v keys sig) = fst (accept_list C t n k m v keys sig)"
| "trust_step C t (TRevoke n k m ed) = fst (revoke_device C t n k m ed)"
| "trust_step C t (TRecordCurve n k ed c) = fst (record_curve C t n k ed c)"
| "trust_step C t (TRecordCertified n k ed v) = fst (record_certified t n k ed v)"

fun op_peer :: "TrustOp \<Rightarrow> string" where
  "op_peer (TObserve n k _) = peer_key n k"
| "op_peer (TMarkSas n k _) = peer_key n k"
| "op_peer (TMarkKey n k _) = peer_key n k"
| "op_peer (TRelease n k) = peer_key n k"
| "op_peer (TReplace n k _) = peer_key n k"
| "op_peer (TAcceptList n k _ _ _ _) = peer_key n k"
| "op_peer (TRevoke n k _ _) = peer_key n k"
| "op_peer (TRecordCurve n k _ _) = peer_key n k"
| "op_peer (TRecordCertified n k _ _) = peer_key n k"

fun is_replace :: "TrustOp \<Rightarrow> bool" where
  "is_replace (TReplace _ _ _) = True"
| "is_replace _ = False"

fun is_release :: "TrustOp \<Rightarrow> bool" where
  "is_release (TRelease _ _) = True"
| "is_release _ = False"

text \<open>The steps that drop the revocations or the list of one peer.\<close>

definition forgets_peer :: "string \<Rightarrow> string \<Rightarrow> TrustOp \<Rightarrow> bool" where
  "forgets_peer network nick x \<longleftrightarrow> is_replace x \<and> op_peer x = peer_key network nick"

definition resets_peer :: "string \<Rightarrow> string \<Rightarrow> TrustOp \<Rightarrow> bool" where
  "resets_peer network nick x \<longleftrightarrow> (is_replace x \<or> is_release x) \<and> op_peer x = peer_key network nick"

text \<open>The record of a peer, a fresh one for an unknown peer, and what every step does to it.\<close>

definition peer_at :: "PeerTrust \<Rightarrow> string \<Rightarrow> PeerRecord" where
  "peer_at t key = (case map_of t key of None \<Rightarrow> PeerRecord_new [] | Some r \<Rightarrow> r)"

definition keeps_revocations :: "PeerRecord \<Rightarrow> PeerRecord \<Rightarrow> bool" where
  "keeps_revocations r r' \<longleftrightarrow>
     set (pr_revoked r) \<subseteq> set (pr_revoked r') \<and> set (pr_revoked_curves r) \<subseteq> set (pr_revoked_curves r')"

definition list_evolves :: "PeerRecord \<Rightarrow> PeerRecord \<Rightarrow> bool" where
  "list_evolves r r' \<longleftrightarrow>
     ListState_version (pr_list r) \<le> ListState_version (pr_list r') \<and>
     (ListState_version (pr_list r') = ListState_version (pr_list r) \<longrightarrow>
        ListState_keys (pr_list r') = ListState_keys (pr_list r)) \<and>
     (\<forall>d \<in> set (ListState_keys (pr_list r)) - set (ListState_keys (pr_list r')). d \<in> set (pr_revoked r'))"

lemma evolve_refl [simp]: "keeps_revocations r r" "list_evolves r r"
  by (simp_all add: keeps_revocations_def list_evolves_def)

lemma evolve_same_list:
  "pr_list r' = pr_list r \<Longrightarrow> list_evolves r r'"
  by (simp add: list_evolves_def)

lemma readers_peer_at:
  "is_revoked t n k ed curve = PeerRecord_is_revoked (peer_at t (peer_key n k)) ed curve"
  "list_version t n k = ListState_version (pr_list (peer_at t (peer_key n k)))"
  "listed_devices t n k = ListState_keys (pr_list (peer_at t (peer_key n k)))"
  by (auto simp: is_revoked_def list_version_def listed_devices_def peer_at_def PeerRecord_new_def
      PeerRecord_is_revoked_def ListState_default_def ListState_version_def ListState_keys_def split: option.splits)

lemma peer_at_update: "peer_at (AList.update k r t) key = (if key = k then r else peer_at t key)"
  by (simp add: peer_at_def)

lemma apply_to_record_evolves:
  assumes "apply_to_record C r v keys = Inr (r', d)"
  shows "keeps_revocations r r' \<and> list_evolves r r'"
proof -
  note f = apply_to_record_Inr [OF assms]
  obtain st where st: "ListState_apply C (pr_list r) v keys = (st, Inr d)" "pr_list r' = st" using f(2) by blast
  note g = ListState_apply_version [OF st(1)]
  have "d \<in> set (pr_revoked r')"
    if "d \<in> set (ListState_keys (pr_list r))" "d \<notin> set (ListState_keys (pr_list r'))" for d
  proof -
    have "ListState_keys (pr_list r') = keys \<and> decide_list (ls_stored (pr_list r)) v keys = Replace"
      using st that by (auto simp: ListState_apply_Inr ListState_keys_def split: if_splits)
    then show ?thesis using that f(6) st by (auto simp: ListState_apply_Inr dropped_devices_def)
  qed
  then show ?thesis using f(6,7) g(1,2) st(2) by (auto simp: keeps_revocations_def list_evolves_def)
qed

lemma take_master_evolves [simp]:
  "keeps_revocations (take_master m r) r' = keeps_revocations r r'" "list_evolves (take_master m r) r' = list_evolves r r'"
  "keeps_revocations r (take_master m r') = keeps_revocations r r'" "list_evolves r (take_master m r') = list_evolves r r'"
  by (simp_all add: keeps_revocations_def list_evolves_def take_master_def)

lemma new_evolves [simp]:
  "keeps_revocations (PeerRecord_new m) r'" "list_evolves (PeerRecord_new m) (PeerRecord_new m')"
  by (simp_all add: keeps_revocations_def list_evolves_def PeerRecord_new_def)

lemma pr_list_new [simp]: "pr_list (PeerRecord_new m) = ListState_default"
  by (simp add: PeerRecord_new_def)

lemma new_evolves_any: "list_evolves (PeerRecord_new m) r' \<Longrightarrow> list_evolves (PeerRecord_new m') r'"
  by (simp add: list_evolves_def PeerRecord_new_def)

lemma revoke_one_evolves [simp]: "keeps_revocations r (revoke_one r ed)" "list_evolves r (revoke_one r ed)"
  by (auto simp: keeps_revocations_def list_evolves_def)

text \<open>The record a list is applied to, or the refusal of its master.\<close>

definition record_for :: "PeerTrust \<Rightarrow> string \<Rightarrow> string \<Rightarrow> E2eError + PeerRecord" where
  "record_for t key master =
     (case map_of t key of
        None \<Rightarrow> Inr (PeerRecord_new master)
      | Some record \<Rightarrow>
          if pr_released record then Inr (take_master master record)
          else if pr_master record \<noteq> master then Inl E2e_MasterChanged
          else Inr record)"

lemma accept_list_verified:
  assumes "verify_signed_list C v keys m sig = Inr ()"
  shows "accept_list C t n k m v keys sig =
    (case rbind (record_for t (peer_key n k) m) (\<lambda>r. apply_to_record C r v keys) of
       Inl e \<Rightarrow> (t, Inl e)
     | Inr (r', d) \<Rightarrow> (AList.update (peer_key n k) r' t, Inr d))"
  using assms unfolding accept_list_def Let_def record_for_def [symmetric]
  by (cases "record_for t (peer_key n k) m") simp_all

lemma accept_list_unverified:
  assumes "verify_signed_list C v keys m sig = Inl e"
  shows "accept_list C t n k m v keys sig =
    (if has_legacy_order C v keys m sig then
       ((case map_of t (peer_key n k) of
           None \<Rightarrow> t
         | Some r \<Rightarrow> if pr_master r = m then AList.update (peer_key n k) (r\<lparr>pr_needs_new_list := True\<rparr>) t else t),
        Inl E2e_LegacyListOrder)
     else (t, Inl e))"
  using assms by (simp add: accept_list_def Let_def)

lemma accept_list_Inr:
  "accept_list C t n k m v keys sig = (t', Inr d) \<longleftrightarrow>
     verify_signed_list C v keys m sig = Inr () \<and>
     (\<exists>r r'. record_for t (peer_key n k) m = Inr r \<and> apply_to_record C r v keys = Inr (r', d) \<and>
        t' = AList.update (peer_key n k) r' t)"
proof (cases "verify_signed_list C v keys m sig")
  case (Inl e)
  then show ?thesis by (simp add: accept_list_unverified)
next
  case (Inr u)
  then have "verify_signed_list C v keys m sig = Inr ()" by simp
  then show ?thesis
    by (auto simp: accept_list_verified rbind_eq_Inr split: sum.splits prod.splits)
qed

lemma accept_list_Inl:
  assumes "accept_list C t n k m v keys sig = (t', Inl e)"
  shows "t' = t \<or> (e = E2e_LegacyListOrder \<and> (\<exists>r. map_of t (peer_key n k) = Some r \<and> pr_master r = m \<and>
     t' = AList.update (peer_key n k) (r\<lparr>pr_needs_new_list := True\<rparr>) t))"
proof (cases "verify_signed_list C v keys m sig")
  case (Inl e')
  with assms show ?thesis by (auto simp: accept_list_unverified split: if_splits option.splits)
next
  case (Inr u)
  then have "verify_signed_list C v keys m sig = Inr ()" by simp
  then have "t' = t"
    using assms accept_list_verified [of C v keys m sig t n k]
    by (cases "rbind (record_for t (peer_key n k) m) (\<lambda>r. apply_to_record C r v keys)") (simp_all add: case_prod_beta)
  then show ?thesis by blast
qed

lemma accept_list_other:
  assumes "key \<noteq> peer_key n k"
  shows "map_of (fst (accept_list C t n k m v keys sig)) key = map_of t key"
proof -
  obtain t' res where e: "accept_list C t n k m v keys sig = (t', res)" by (cases "accept_list C t n k m v keys sig")
  show ?thesis
  proof (cases res)
    case (Inl err)
    with e assms show ?thesis using accept_list_Inl [of C t n k m v keys sig t' err] by auto
  next
    case (Inr d)
    with e have "\<exists>r'. t' = AList.update (peer_key n k) r' t" using accept_list_Inr by metis
    with e assms show ?thesis by auto
  qed
qed

lemma trust_step_evolves:
  assumes "\<not> (is_replace x \<and> op_peer x = key)"
  shows "keeps_revocations (peer_at t key) (peer_at (trust_step C t x) key)"
    and "\<not> (is_release x \<and> op_peer x = key) \<Longrightarrow> list_evolves (peer_at t key) (peer_at (trust_step C t x) key)"
proof -
  have "keeps_revocations (peer_at t key) (peer_at (trust_step C t x) key) \<and>
        (\<not> (is_release x \<and> op_peer x = key) \<longrightarrow> list_evolves (peer_at t key) (peer_at (trust_step C t x) key))"
  proof (cases x)
    case (TObserve n k m)
    then show ?thesis
      by (auto simp: observe_master_def Let_def peer_at_update split: sum.splits option.splits)
         (auto simp: peer_at_def)
  next
    case (TMarkSas n k m)
    then show ?thesis
      by (auto simp: mark_sas_verified_def Let_def peer_at_update split: option.splits)
         (auto simp: peer_at_def keeps_revocations_def intro: evolve_same_list)
  next
    case (TMarkKey n k m)
    then show ?thesis
      by (auto simp: mark_key_verified_def Let_def peer_at_update split: option.splits)
         (auto simp: peer_at_def keeps_revocations_def intro: evolve_same_list)
  next
    case (TRelease n k)
    then show ?thesis
      by (auto simp: release_master_def Let_def peer_at_update split: option.splits)
         (auto simp: peer_at_def keeps_revocations_def released_def)
  next
    case (TReplace n k m)
    then show ?thesis
      using assms by (auto simp: replace_master_by_user_def peer_at_update split: sum.splits)
  next
    case (TAcceptList n k m v keys sig)
    show ?thesis
    proof (cases "accept_list C t n k m v keys sig")
      case (Pair t' res)
      show ?thesis
      proof (cases res)
        case (Inl e)
        then show ?thesis
          using accept_list_Inl [of C t n k m v keys sig t' e] Pair TAcceptList
          by (auto simp: peer_at_update) (auto simp: peer_at_def keeps_revocations_def intro: evolve_same_list)
      next
        case (Inr d)
        then obtain r r' where r: "record_for t (peer_key n k) m = Inr r"
          and ap: "apply_to_record C r v keys = Inr (r', d)" and upd: "t' = AList.update (peer_key n k) r' t"
          using accept_list_Inr Pair by metis
        have "keeps_revocations (peer_at t (peer_key n k)) r' \<and> list_evolves (peer_at t (peer_key n k)) r'"
          using apply_to_record_evolves [OF ap] r new_evolves_any [of m r']
          by (auto simp: record_for_def peer_at_def split: option.splits if_splits)
        then show ?thesis unfolding TAcceptList trust_step.simps Pair fst_conv upd peer_at_update by auto
      qed
    qed
  next
    case (TRevoke n k m ed)
    then show ?thesis
      by (auto simp: revoke_device_def Let_def peer_at_update split: sum.splits option.splits)
         (auto simp: peer_at_def intro!: evolve_same_list)
  next
    case (TRecordCurve n k ed c)
    then show ?thesis
      by (auto simp: record_curve_def Let_def peer_at_update split: sum.splits option.splits)
         (auto simp: peer_at_def keeps_revocations_def intro: evolve_same_list)
  next
    case (TRecordCertified n k ed v)
    then show ?thesis
      by (auto simp: record_certified_def Let_def peer_at_update split: option.splits)
         (auto simp: peer_at_def keeps_revocations_def intro: evolve_same_list)
  qed
  then show "keeps_revocations (peer_at t key) (peer_at (trust_step C t x) key)"
    and "\<not> (is_release x \<and> op_peer x = key) \<Longrightarrow> list_evolves (peer_at t key) (peer_at (trust_step C t x) key)"
    by blast+
qed

interpretation trust: device_ledger "trust_step C" "\<lambda>t. is_revoked t network nick"
  "\<lambda>t. list_version t network nick" "\<lambda>t. listed_devices t network nick"
  "forgets_peer network nick" "resets_peer network nick" for C network nick
proof unfold_locales
  fix x t ed curve
  assume "\<not> forgets_peer network nick x"
  then have "keeps_revocations (peer_at t (peer_key network nick)) (peer_at (trust_step C t x) (peer_key network nick))"
    by (intro trust_step_evolves) (simp add: forgets_peer_def)
  then show "is_revoked t network nick ed curve \<Longrightarrow> is_revoked (trust_step C t x) network nick ed curve"
    unfolding readers_peer_at keeps_revocations_def using is_revoked_mono by blast
next
  fix x t
  assume "\<not> resets_peer network nick x"
  then have e: "list_evolves (peer_at t (peer_key network nick)) (peer_at (trust_step C t x) (peer_key network nick))"
    by (intro trust_step_evolves) (auto simp: resets_peer_def)
  then show "list_version t network nick \<le> list_version (trust_step C t x) network nick"
    "list_version (trust_step C t x) network nick = list_version t network nick \<Longrightarrow>
       listed_devices (trust_step C t x) network nick = listed_devices t network nick"
    by (simp_all add: readers_peer_at list_evolves_def)
  show "d \<in> set (listed_devices t network nick) \<Longrightarrow> d \<notin> set (listed_devices (trust_step C t x) network nick) \<Longrightarrow>
      is_revoked (trust_step C t x) network nick d curve" for d curve
    using e by (auto simp: readers_peer_at list_evolves_def PeerRecord_is_revoked_def)
qed

section \<open>Lemmas: the pinned master\<close>

definition pinned :: "PeerTrust \<Rightarrow> string \<Rightarrow> string \<Rightarrow> bool" where
  "pinned t key m \<longleftrightarrow> (\<exists>r. map_of t key = Some r \<and> \<not> pr_released r \<and> pr_master r = m)"

lemma trust_master_pinned: "trust_master t n k = Some m \<longleftrightarrow> pinned t (peer_key n k) m"
  by (auto simp: trust_master_def pinned_def split: option.splits)

lemma trust_step_pinned:
  assumes "pinned t key m" and "\<not> ((is_replace x \<or> is_release x) \<and> op_peer x = key)"
  shows "pinned (trust_step C t x) key m"
proof (cases "op_peer x = key")
  case False
  then show ?thesis
    using assms(1)
  proof (cases x)
    case (TAcceptList n k m' v keys sig)
    then show ?thesis
      using False assms(1) accept_list_other [of key n k C t m' v keys sig] by (simp add: pinned_def)
  qed (auto simp: pinned_def observe_master_def mark_sas_verified_def mark_key_verified_def release_master_def
      replace_master_by_user_def revoke_device_def record_curve_def record_certified_def Let_def
      split: sum.splits option.splits)
next
  case key: True
  obtain r where r: "map_of t key = Some r" "\<not> pr_released r" "pr_master r = m"
    using assms(1) by (auto simp: pinned_def)
  show ?thesis
  proof (cases x)
    case (TAcceptList n k m' v keys sig)
    obtain t' res where e: "accept_list C t n k m' v keys sig = (t', res)" by (cases "accept_list C t n k m' v keys sig")
    show ?thesis
    proof (cases res)
      case (Inl err)
      then show ?thesis using accept_list_Inl [of C t n k m' v keys sig t' err] e r TAcceptList key
        by (auto simp: pinned_def)
    next
      case (Inr d)
      then obtain r0 r' where "record_for t (peer_key n k) m' = Inr r0"
        "apply_to_record C r0 v keys = Inr (r', d)" "t' = AList.update (peer_key n k) r' t"
        using accept_list_Inr e by metis
      then show ?thesis using r e TAcceptList key apply_to_record_Inr(3,4) [of C r0 v keys r' d]
        by (auto simp: record_for_def pinned_def split: if_splits)
    qed
  qed (use r key assms(2) in \<open>auto simp: pinned_def observe_master_def mark_sas_verified_def mark_key_verified_def
      revoke_device_def record_curve_def record_certified_def Let_def split: sum.splits\<close>)
qed

lemma run_master_pinned:
  assumes "trust_master t network nick = Some m" and "\<forall>x \<in> set xs. \<not> resets_peer network nick x"
  shows "trust_master (foldl (trust_step C) t xs) network nick = Some m"
  using assms
proof (induction xs arbitrary: t)
  case (Cons x xs)
  then have "trust_master (trust_step C t x) network nick = Some m"
    using trust_step_pinned [of t "peer_key network nick" m x C] by (simp add: trust_master_pinned resets_peer_def)
  with Cons show ?case by simp
qed simp

lemma accepted_list_all:
  assumes "accept_list C t network nick master version keys signature = (t', Inr decision)"
    and "map_of t (peer_key network nick) = Some r"
  shows "verify_signed_list C version keys master signature = Inr () \<and>
     (\<not> pr_released r \<longrightarrow> pr_master r = master) \<and>
     (\<forall>d \<in> set keys. d \<notin> set (pr_revoked r)) \<and>
     trust_master t' network nick = Some master \<and> mset (listed_devices t' network nick) = mset keys \<and>
     (decision = Replace \<longrightarrow>
        list_version t network nick < version \<and> list_version t' network nick = version \<and>
        (\<forall>d. (d \<in> set (listed_devices t network nick) \<or> (\<exists>n \<le> version. (d, n) \<in> set (pr_certified r))) \<and> d \<notin> set keys
           \<longrightarrow> is_revoked t' network nick d None \<and>
               (\<forall>c. map_of (pr_curves r) d = Some c \<longrightarrow> (\<forall>other. is_revoked t' network nick other (Some c)))))"
proof -
  let ?key = "peer_key network nick"
  obtain r0 r' where ver: "verify_signed_list C version keys master signature = Inr ()"
    and r0: "record_for t ?key master = Inr r0" and ap: "apply_to_record C r0 version keys = Inr (r', decision)"
    and t': "t' = AList.update ?key r' t"
    using assms(1) accept_list_Inr by metis
  have base: "pr_list r0 = pr_list r" "pr_curves r0 = pr_curves r" "pr_revoked r0 = pr_revoked r"
    "pr_certified r0 = pr_certified r" "pr_master r0 = master" "\<not> pr_released r0"
    "\<not> pr_released r \<longrightarrow> pr_master r = master"
    using r0 assms(2) by (auto simp: record_for_def take_master_def split: if_splits)
  note f = apply_to_record_Inr [OF ap]
  obtain st where st: "ListState_apply C (pr_list r) version keys = (st, Inr decision)" "pr_list r' = st"
    using f(2) base by auto
  have "mset (ListState_keys st) = mset keys"
    using st by (auto simp: ListState_apply_Inr ListState_keys_def decide_list_def sort_eq_iff_mset
        split: option.splits if_splits)
  moreover have "\<forall>d \<in> set keys. d \<notin> set (pr_revoked r)" using f(1) base by (auto simp: PeerRecord_is_revoked_def)
  moreover have "trust_master t' network nick = Some master"
    using f(3,4) base by (simp add: trust_master_def t')
  moreover have "list_version t network nick < version \<and> list_version t' network nick = version"
    if "decision = Replace"
    using ListState_apply_version(3) [OF st(1)] st(2) that assms(2) by (simp add: list_version_def t')
  moreover have "is_revoked t' network nick d None \<and>
      (\<forall>c. map_of (pr_curves r) d = Some c \<longrightarrow> (\<forall>other. is_revoked t' network nick other (Some c)))"
    if "decision = Replace" "d \<notin> set keys"
      "d \<in> set (listed_devices t network nick) \<or> (\<exists>n \<le> version. (d, n) \<in> set (pr_certified r))" for d
  proof -
    have "d \<in> set (dropped_devices r0 (ListState_keys (pr_list r0)) version keys)"
      using that assms(2) base by (auto simp: dropped_devices_def listed_devices_def image_iff)
    then show ?thesis using f(6,7) that(1) base
      by (auto simp: is_revoked_def t' PeerRecord_is_revoked_def)
  qed
  ultimately show ?thesis using ver base st(2) assms(2) by (auto simp: listed_devices_def t')
qed

lemma accepted_list_facts:
  assumes "accept_list C t network nick master version keys signature = (t', Inr decision)"
    and "map_of t (peer_key network nick) = Some r"
  shows "verify_signed_list C version keys master signature = Inr ()"
    "trust_master t' network nick = Some master" "mset (listed_devices t' network nick) = mset keys"
  using accepted_list_all [OF assms] by blast+

section \<open>Properties\<close>

definition sample_trust :: PeerTrust where
  "sample_trust = foldl (trust_step toy_crypto) []
     [TObserve ''net'' ''bob'' (toy_key CHR ''M''),
      TAcceptList ''net'' ''bob'' (toy_key CHR ''M'') 1 [toy_key CHR ''D'', toy_key CHR ''E'']
        (toy_sign CHR ''M'' (list_text 1 [toy_key CHR ''D'', toy_key CHR ''E''])),
      TRecordCurve ''net'' ''bob'' (toy_key CHR ''D'') (toy_key CHR ''c'')]"

definition sample_drop :: TrustOp where
  "sample_drop = TAcceptList ''net'' ''bob'' (toy_key CHR ''M'') 2 [toy_key CHR ''E'']
     (toy_sign CHR ''M'' (list_text 2 [toy_key CHR ''E'']))"

text \<open>
  Claim C1. A revoked key stays revoked. Whatever lists, new masters, releases, marks and recorded
  devices follow, for this peer or for others, a device or curve key that is revoked remains so, as
  long as the user does not replace the master of the peer by hand.
\<close>

theorem revoked_key_stays_revoked:
  assumes "is_revoked t network nick ed curve" and "\<forall>x \<in> set xs. \<not> forgets_peer network nick x"
  shows "is_revoked (foldl (trust_step C) t xs) network nick ed curve"
  using trust.run_keeps_revoked [OF assms(2) assms(1)] .

theorem revoked_key_stays_revoked_witness:
  "let t = trust_step toy_crypto sample_trust sample_drop
   in is_revoked t ''net'' ''bob'' ''other'' (Some (toy_key CHR ''c'')) \<and>
      is_revoked (foldl (trust_step toy_crypto) t
         [TRelease ''net'' ''bob'', TObserve ''net'' ''bob'' (toy_key CHR ''N''), TReplace ''net'' ''eve'' (toy_key CHR ''N'')])
        ''net'' ''bob'' ''other'' (Some (toy_key CHR ''c''))"
proof -
  have r: "is_revoked (trust_step toy_crypto sample_trust sample_drop) ''net'' ''bob'' ''other'' (Some (toy_key CHR ''c''))"
    by code_simp
  show ?thesis
    unfolding Let_def using r by (intro conjI revoked_key_stays_revoked) (auto simp: forgets_peer_def peer_key_def)
qed

text \<open>
  No rollback and no equivocation. Until the identity of a peer is reset, the version of its
  stored list never goes down, two states with the same version hold the same list, and every device
  that was in the list is still in it or is revoked.
\<close>

theorem peer_list_never_rolls_back:
  assumes "\<forall>x \<in> set xs. \<not> resets_peer network nick x"
  shows "list_version t network nick \<le> list_version (foldl (trust_step C) t xs) network nick \<and>
     (list_version (foldl (trust_step C) t xs) network nick = list_version t network nick \<longrightarrow>
        listed_devices (foldl (trust_step C) t xs) network nick = listed_devices t network nick) \<and>
     (\<forall>d \<in> set (listed_devices t network nick).
        d \<in> set (listed_devices (foldl (trust_step C) t xs) network nick) \<or>
        is_revoked (foldl (trust_step C) t xs) network nick d curve)"
proof -
  have both: "\<forall>x \<in> set xs. \<not> forgets_peer network nick x \<and> \<not> resets_peer network nick x"
    using assms by (auto simp: forgets_peer_def resets_peer_def)
  show ?thesis
    using trust.run_version [OF assms] trust.run_same_version [OF assms] trust.run_listed_or_revoked [OF both]
    by blast
qed

theorem peer_list_never_rolls_back_witness:
  "let t = foldl (trust_step toy_crypto) sample_trust [sample_drop, TObserve ''net'' ''bob'' (toy_key CHR ''N'')]
   in list_version sample_trust ''net'' ''bob'' \<le> list_version t ''net'' ''bob'' \<and> list_version t ''net'' ''bob'' = 2"
proof -
  let ?xs = "[sample_drop, TObserve ''net'' ''bob'' (toy_key CHR ''N'')]"
  have ok: "\<forall>x \<in> set ?xs. \<not> resets_peer ''net'' ''bob'' x" by (simp add: sample_drop_def resets_peer_def)
  have "list_version (foldl (trust_step toy_crypto) sample_trust ?xs) ''net'' ''bob'' = 2" by code_simp
  then show ?thesis using peer_list_never_rolls_back [OF ok, of sample_trust toy_crypto] unfolding Let_def by blast
qed

text \<open>
  A refused list changes nothing that trust rests on: the masters, their verification, the
  revocations and the lists of all peers stay. The only trace a refusal may leave is the mark that the
  peer needs a new list, when its list verifies only in the old byte order.
\<close>

theorem refused_list_changes_nothing:
  assumes "accept_list C t network nick master version keys signature = (t', Inl e)"
  shows "trust_master t' n k = trust_master t n k \<and> is_sas_verified t' n k = is_sas_verified t n k \<and>
     is_key_verified t' n k = is_key_verified t n k \<and> is_revoked t' n k ed curve = is_revoked t n k ed curve \<and>
     list_version t' n k = list_version t n k \<and> listed_devices t' n k = listed_devices t n k \<and>
     (e \<noteq> E2e_LegacyListOrder \<longrightarrow> t' = t)"
proof (cases "t' = t")
  case False
  then obtain r where r: "e = E2e_LegacyListOrder" "map_of t (peer_key network nick) = Some r"
    and t': "t' = AList.update (peer_key network nick) (r\<lparr>pr_needs_new_list := True\<rparr>) t"
    using accept_list_Inl [OF assms] by blast
  show ?thesis
    by (cases "peer_key n k = peer_key network nick")
       (simp_all add: t' r trust_master_def is_sas_verified_def is_key_verified_def is_revoked_def list_version_def
         listed_devices_def PeerRecord_is_revoked_def split: option.split)
qed simp

theorem refused_list_changes_nothing_witness:
  "let r = accept_list toy_crypto sample_trust ''net'' ''bob'' (toy_key CHR ''N'') 2 [toy_key CHR ''E'']
             (toy_sign CHR ''N'' (list_text 2 [toy_key CHR ''E'']))
   in snd r = Inl E2e_MasterChanged \<and> fst r = sample_trust"
proof -
  let ?r = "accept_list toy_crypto sample_trust ''net'' ''bob'' (toy_key CHR ''N'') 2 [toy_key CHR ''E'']
             (toy_sign CHR ''N'' (list_text 2 [toy_key CHR ''E'']))"
  have e: "snd ?r = Inl E2e_MasterChanged" by code_simp
  then have "?r = (fst ?r, Inl E2e_MasterChanged)" by (metis prod.collapse)
  from refused_list_changes_nothing [OF this] e show ?thesis unfolding Let_def by blast
qed

text \<open>
  Claim C2. An accepted list is signed by the pinned master, names no revoked device, and is then the
  stored list; when it replaces the stored one its version is higher, and every device that the old
  list or a certificate at or below the version named and the new list lacks is revoked at once,
  together with its recorded curve key.
\<close>

theorem accepted_list_is_checked_and_applied:
  assumes "accept_list C t network nick master version keys signature = (t', Inr decision)"
    and "map_of t (peer_key network nick) = Some r"
  shows "verify_signed_list C version keys master signature = Inr () \<and>
     (\<not> pr_released r \<longrightarrow> pr_master r = master) \<and>
     (\<forall>d \<in> set keys. d \<notin> set (pr_revoked r)) \<and>
     trust_master t' network nick = Some master \<and> mset (listed_devices t' network nick) = mset keys \<and>
     (decision = Replace \<longrightarrow>
        list_version t network nick < version \<and> list_version t' network nick = version \<and>
        (\<forall>d. (d \<in> set (listed_devices t network nick) \<or> (\<exists>n \<le> version. (d, n) \<in> set (pr_certified r))) \<and> d \<notin> set keys
           \<longrightarrow> is_revoked t' network nick d None \<and>
               (\<forall>c. map_of (pr_curves r) d = Some c \<longrightarrow> (\<forall>other. is_revoked t' network nick other (Some c)))))"
  by (rule accepted_list_all [OF assms])

theorem accepted_list_is_checked_and_applied_witness:
  "let t' = trust_step toy_crypto sample_trust sample_drop
   in snd (accept_list toy_crypto sample_trust ''net'' ''bob'' (toy_key CHR ''M'') 2 [toy_key CHR ''E'']
        (toy_sign CHR ''M'' (list_text 2 [toy_key CHR ''E'']))) = Inr Replace \<and>
      trust_master t' ''net'' ''bob'' = Some (toy_key CHR ''M'') \<and>
      mset (listed_devices t' ''net'' ''bob'') = mset [toy_key CHR ''E'']"
proof -
  let ?r = "accept_list toy_crypto sample_trust ''net'' ''bob'' (toy_key CHR ''M'') 2 [toy_key CHR ''E'']
        (toy_sign CHR ''M'' (list_text 2 [toy_key CHR ''E'']))"
  have s: "snd ?r = Inr Replace" by code_simp
  then have e: "?r = (fst ?r, Inr Replace)" by (metis prod.collapse)
  have "map_of sample_trust (peer_key ''net'' ''bob'') \<noteq> None" by code_simp
  then obtain r where r: "map_of sample_trust (peer_key ''net'' ''bob'') = Some r" by blast
  have step: "trust_step toy_crypto sample_trust sample_drop = fst ?r" by (simp add: sample_drop_def)
  show ?thesis
    unfolding Let_def step using s accepted_list_is_checked_and_applied [OF e r] by blast
qed

text \<open>
  Claim C3. The master of a known peer is pinned: it is replaced only by an explicit user action or
  after a reset of the identity, never by a list, a certificate or a key that is merely observed.
\<close>

theorem master_pinned_until_reset:
  assumes "trust_master t network nick = Some m" and "\<forall>x \<in> set xs. \<not> resets_peer network nick x"
  shows "trust_master (foldl (trust_step C) t xs) network nick = Some m"
  by (rule run_master_pinned [OF assms])

theorem master_pinned_until_reset_witness:
  "trust_master (foldl (trust_step toy_crypto) sample_trust [TObserve ''net'' ''bob'' (toy_key CHR ''N''), sample_drop])
     ''net'' ''bob'' = Some (toy_key CHR ''M'')"
proof -
  have "trust_master sample_trust ''net'' ''bob'' = Some (toy_key CHR ''M'')" by code_simp
  then show ?thesis by (rule master_pinned_until_reset) (simp add: sample_drop_def resets_peer_def)
qed

text \<open>A revocation by the own account leaves the key in the stored list, so the set of revoked keys
  and the stored list may overlap until the next list.\<close>

lemma revoke_device_keeps_list:
  "let t = fst (revoke_device toy_crypto sample_trust ''net'' ''bob'' (toy_key CHR ''M'') (toy_key CHR ''D''))
   in is_revoked t ''net'' ''bob'' (toy_key CHR ''D'') None \<and> toy_key CHR ''D'' \<in> set (listed_devices t ''net'' ''bob'')"
  by code_simp

end
