(* ===== verification/Peer.thy ===== *)
theory Peer
  imports Trust
begin

text \<open>
  The two doors by which a remote device reaches the engine, and its replay state, from
  \<^verbatim>\<open>e2e_peer.rs\<close>. A door works on a copy of the trust state and stores it only when the code does;
  the lemmas show that whatever a door stores is the result of a run of trust operations without a
  reset, so the contract of the trust state covers the doors too.
\<close>

section \<open>Bundles\<close>

definition REPLAY_WINDOW :: nat where "REPLAY_WINDOW = 256"

definition peer_device_key :: "string \<Rightarrow> string \<Rightarrow> string \<Rightarrow> string" where
  "peer_device_key network nick did = network @ CHR 0x00 # nick @ CHR 0x00 # did"

record PeerBundle =
  pb_master :: string
  pb_list_version :: nat
  pb_list_keys :: "string list"
  pb_list_signature :: string
  pb_device_ed25519 :: string
  pb_curve25519 :: string
  pb_id_signature :: string

record CertifiedBundle =
  cb_master :: string
  cb_certificate_version :: nat
  cb_certificate_signature :: string
  cb_device_ed25519 :: string
  cb_curve25519 :: string
  cb_id_signature :: string

section \<open>The doors\<close>

definition apply_peer_list ::
    "crypto_api \<Rightarrow> PeerTrust \<Rightarrow> string \<Rightarrow> string \<Rightarrow> string \<Rightarrow> nat \<Rightarrow> string list \<Rightarrow> string
     \<Rightarrow> PeerTrust \<times> (E2eError + ListDecision)" where
  "apply_peer_list C trust network nick master version list_keys list_signature =
     (case observe_master C trust network nick master of
        (_, Inl err) \<Rightarrow> (trust, Inl err)
      | (next, Inr status) \<Rightarrow>
          if status = MasterChanged then (trust, Inl E2e_MasterChanged)
          else (case accept_list C next network nick master version list_keys list_signature of
                  (next, Inl err) \<Rightarrow>
                    (if status = MasterSame \<and> err = E2e_LegacyListOrder then (next, Inl err) else (trust, Inl err))
                | (next, Inr decision) \<Rightarrow>
                    (if status = MasterSame \<and> decision = Replace then (next, Inr decision)
                     else (trust, Inr decision))))"

definition check_id_block :: "crypto_api \<Rightarrow> string \<Rightarrow> string \<Rightarrow> string \<Rightarrow> string \<Rightarrow> E2eError + unit" where
  "check_id_block C master device curve25519 id_signature =
     rbind (wire (decode_key C curve25519)) (\<lambda>_.
       verify_signature C device id_signature (device_id_signed_text curve25519 master))"

definition check_listed_device ::
    "crypto_api \<Rightarrow> PeerTrust \<Rightarrow> string \<Rightarrow> string \<Rightarrow> string list option \<Rightarrow> PeerBundle \<Rightarrow> E2eError + string" where
  "check_listed_device C next network nick server_keys bundle =
     rbind (wire (did_from_key_text C (pb_device_ed25519 bundle))) (\<lambda>did.
     if is_revoked next network nick (pb_device_ed25519 bundle) (Some (pb_curve25519 bundle))
       then Inl E2e_RevokedDevice
     else (let listed = pb_device_ed25519 bundle \<in> set (pb_list_keys bundle);
               on_server = (case server_keys of None \<Rightarrow> True | Some keys \<Rightarrow> pb_device_ed25519 bundle \<in> set keys)
           in if \<not> listed \<or> \<not> on_server then Inl E2e_NotListed
              else rbind (check_id_block C (pb_master bundle) (pb_device_ed25519 bundle) (pb_curve25519 bundle)
                            (pb_id_signature bundle)) (\<lambda>_. Inr did)))"

definition verify_peer_device ::
    "crypto_api \<Rightarrow> PeerTrust \<Rightarrow> string \<Rightarrow> string \<Rightarrow> string list option \<Rightarrow> PeerBundle
     \<Rightarrow> PeerTrust \<times> (E2eError + PeerDevice)" where
  "verify_peer_device C trust network nick server_keys bundle =
     (case observe_master C trust network nick (pb_master bundle) of
        (_, Inl err) \<Rightarrow> (trust, Inl err)
      | (next, Inr status) \<Rightarrow>
          if status = MasterChanged then (trust, Inl E2e_MasterChanged)
          else (case accept_list C next network nick (pb_master bundle) (pb_list_version bundle) (pb_list_keys bundle)
                       (pb_list_signature bundle) of
                  (next, Inl err) \<Rightarrow>
                    (if status = MasterSame \<and> err = E2e_LegacyListOrder then (next, Inl err) else (trust, Inl err))
                | (next, Inr decision) \<Rightarrow>
                    (case check_listed_device C next network nick server_keys bundle of
                       Inr did \<Rightarrow>
                         (case record_curve C next network nick (pb_device_ed25519 bundle) (pb_curve25519 bundle) of
                            (_, Inl err) \<Rightarrow> (trust, Inl err)
                          | (next, Inr _) \<Rightarrow>
                              (next, Inr \<lparr> pd_did = did, pd_curve25519 = pb_curve25519 bundle,
                                           pd_ed25519 = pb_device_ed25519 bundle \<rparr>))
                     | Inl err \<Rightarrow>
                         (if status = MasterSame \<and> decision = Replace then (next, Inl err) else (trust, Inl err)))))"

definition certificate_of :: "CertifiedBundle \<Rightarrow> VersionedDeviceCertificate" where
  "certificate_of bundle = \<lparr>
     vc_first_list_version = cb_certificate_version bundle, vc_device_ed25519 = cb_device_ed25519 bundle,
     vc_master_ed25519 = cb_master bundle, vc_signature = cb_certificate_signature bundle \<rparr>"

text \<open>The checks of a first message, in the order of the code, and the state it then keeps.\<close>

definition verify_certified_checked ::
    "crypto_api \<Rightarrow> PeerTrust \<Rightarrow> string \<Rightarrow> string \<Rightarrow> CertifiedBundle \<Rightarrow> E2eError + (PeerTrust \<times> PeerDevice)" where
  "verify_certified_checked C next network nick bundle =
     (let device = cb_device_ed25519 bundle in
      rbind (wire (did_from_key_text C device)) (\<lambda>did.
      rbind (check_id_block C (cb_master bundle) device (cb_curve25519 bundle) (cb_id_signature bundle)) (\<lambda>_.
      rbind (verify_device_certificate C (certificate_of bundle) [cb_master bundle]) (\<lambda>_.
      if is_revoked next network nick device (Some (cb_curve25519 bundle)) then Inl E2e_RevokedDevice
      else (let listed = device \<in> set (listed_devices next network nick) in
        if \<not> listed \<and> cb_certificate_version bundle \<le> list_version next network nick then Inl E2e_NotListed
        else (let next = (if listed then next
                          else fst (record_certified next network nick device (cb_certificate_version bundle)))
              in case record_curve C next network nick device (cb_curve25519 bundle) of
                   (_, Inl err) \<Rightarrow> Inl err
                 | (next, Inr _) \<Rightarrow>
                     Inr (next, \<lparr> pd_did = did, pd_curve25519 = cb_curve25519 bundle, pd_ed25519 = device \<rparr>)))))))"

definition verify_certified_device ::
    "crypto_api \<Rightarrow> PeerTrust \<Rightarrow> string \<Rightarrow> string \<Rightarrow> CertifiedBundle \<Rightarrow> PeerTrust \<times> (E2eError + PeerDevice)" where
  "verify_certified_device C trust network nick bundle =
     (case observe_master C trust network nick (cb_master bundle) of
        (_, Inl err) \<Rightarrow> (trust, Inl err)
      | (next, Inr status) \<Rightarrow>
          if status = MasterChanged then (trust, Inl E2e_MasterChanged)
          else (case verify_certified_checked C next network nick bundle of
                  Inl err \<Rightarrow> (trust, Inl err)
                | Inr (next, device) \<Rightarrow> (next, Inr device)))"

section \<open>Replay state\<close>

record ReplayState =
  rs_first_messages :: "(string \<times> string list) list"
  rs_sessions :: "(string \<times> string list) list"

definition ReplayState_default :: ReplayState where
  "ReplayState_default = \<lparr> rs_first_messages = [], rs_sessions = [] \<rparr>"

text \<open>\<^verbatim>\<open>entry(..).or_default()\<close> leaves an empty entry behind when the id is refused; an entry always
  holds the refused id then, so only the write of a new id changes the map.\<close>

definition record_id ::
    "(string \<times> string list) list \<Rightarrow> string \<Rightarrow> string \<Rightarrow> string \<Rightarrow> string
     \<Rightarrow> (string \<times> string list) list \<times> (E2eError + unit)" where
  "record_id m network nick did i =
     (let key = peer_device_key network nick did;
          seen = (case map_of m key of None \<Rightarrow> [] | Some ids \<Rightarrow> ids)
      in if i \<in> set seen then (m, Inl E2e_Replay)
         else (let seen = seen @ [i];
                   seen = (if length seen > REPLAY_WINDOW then tl seen else seen)
               in (AList.update key seen m, Inr ())))"

definition accept_first_message ::
    "ReplayState \<Rightarrow> string \<Rightarrow> string \<Rightarrow> string \<Rightarrow> string \<Rightarrow> ReplayState \<times> (E2eError + unit)" where
  "accept_first_message st network nick did msgid =
     (case record_id (rs_first_messages st) network nick did msgid of (m, r) \<Rightarrow> (st\<lparr>rs_first_messages := m\<rparr>, r))"

definition accept_new_session ::
    "ReplayState \<Rightarrow> string \<Rightarrow> string \<Rightarrow> string \<Rightarrow> string \<Rightarrow> ReplayState \<times> (E2eError + unit)" where
  "accept_new_session st network nick did session_id =
     (case record_id (rs_sessions st) network nick did session_id of (m, r) \<Rightarrow> (st\<lparr>rs_sessions := m\<rparr>, r))"

section \<open>Lemmas: the doors are runs of trust operations\<close>

text \<open>The operations a door may perform on the trust state of one peer.\<close>

definition door_op :: "string \<Rightarrow> string \<Rightarrow> TrustOp \<Rightarrow> bool" where
  "door_op network nick x \<longleftrightarrow> op_peer x = peer_key network nick \<and> \<not> is_replace x \<and> \<not> is_release x"

definition door_run :: "crypto_api \<Rightarrow> string \<Rightarrow> string \<Rightarrow> PeerTrust \<Rightarrow> PeerTrust \<Rightarrow> bool" where
  "door_run C network nick t t' \<longleftrightarrow> (\<exists>xs. t' = foldl (trust_step C) t xs \<and> (\<forall>x \<in> set xs. door_op network nick x))"

lemma door_run_refl [simp]: "door_run C network nick t t"
  by (auto simp: door_run_def intro: exI [of _ "[]"])

lemma door_run_step:
  assumes "door_run C network nick t t'" and "trust_step C t' x = t''" and "door_op network nick x"
  shows "door_run C network nick t t''"
proof -
  obtain xs where "t' = foldl (trust_step C) t xs" "\<forall>x \<in> set xs. door_op network nick x"
    using assms(1) by (auto simp: door_run_def)
  then show ?thesis using assms(2,3) unfolding door_run_def by (intro exI [of _ "xs @ [x]"]) auto
qed

lemma door_run_observe:
  "door_run C n k t t' \<Longrightarrow> observe_master C t' n k m = (t'', r) \<Longrightarrow> door_run C n k t t''"
  by (erule door_run_step [where x = "TObserve n k m"]) (simp_all add: door_op_def)

lemma door_run_accept:
  "door_run C n k t t' \<Longrightarrow> accept_list C t' n k m v keys sig = (t'', r) \<Longrightarrow> door_run C n k t t''"
  by (erule door_run_step [where x = "TAcceptList n k m v keys sig"]) (simp_all add: door_op_def)

lemma door_run_curve:
  "door_run C n k t t' \<Longrightarrow> record_curve C t' n k ed c = (t'', r) \<Longrightarrow> door_run C n k t t''"
  by (erule door_run_step [where x = "TRecordCurve n k ed c"]) (simp_all add: door_op_def)

lemma door_run_certified:
  "door_run C n k t t' \<Longrightarrow> door_run C n k t (fst (record_certified t' n k ed v))"
  by (erule door_run_step [where x = "TRecordCertified n k ed v"]) (simp_all add: door_op_def)

lemma observe_master_facts:
  assumes "observe_master C t n k m = (t', Inr status)" and "status \<noteq> MasterChanged"
  shows "trust_master t' n k = Some m" "status = MasterSame \<Longrightarrow> t' = t \<and> trust_master t n k = Some m"
    "is_revoked t' n k ed curve = is_revoked t n k ed curve" "list_version t' n k = list_version t n k"
    "listed_devices t' n k = listed_devices t n k" "\<exists>raw. decode_key C m = Inr raw"
  using assms
  by (auto simp: observe_master_def Let_def trust_master_def is_revoked_def list_version_def listed_devices_def
      PeerRecord_new_def take_master_def PeerRecord_is_revoked_def ListState_default_def ListState_version_def
      ListState_keys_def split: sum.splits option.splits if_splits)

lemma apply_peer_list_run:
  assumes "apply_peer_list C t n k m v keys sig = (t', r)"
  shows "door_run C n k t t'"
  using assms
  by (auto simp: apply_peer_list_def split: prod.splits sum.splits if_splits
      intro: door_run_accept [OF door_run_observe [OF door_run_refl]])

lemma verify_peer_device_run:
  assumes "verify_peer_device C t n k server b = (t', r)"
  shows "door_run C n k t t'"
  using assms
  by (auto simp: verify_peer_device_def split: prod.splits sum.splits if_splits
      intro: door_run_accept [OF door_run_observe [OF door_run_refl]]
      door_run_curve [OF door_run_accept [OF door_run_observe [OF door_run_refl]]])

lemma verify_certified_checked_Inr:
  assumes "verify_certified_checked C t n k b = Inr (t', d)"
  shows "did_from_key_text C (cb_device_ed25519 b) = Inr (pd_did d)"
    "pd_ed25519 d = cb_device_ed25519 b" "pd_curve25519 d = cb_curve25519 b"
    "signed_by C (cb_device_ed25519 b) (cb_id_signature b) (device_id_signed_text (cb_curve25519 b) (cb_master b))"
    "verify_device_certificate C (certificate_of b) [cb_master b] = Inr ()"
    "\<not> is_revoked t n k (cb_device_ed25519 b) (Some (cb_curve25519 b))"
    "cb_device_ed25519 b \<in> set (listed_devices t n k) \<or> list_version t n k < cb_certificate_version b"
    "\<exists>r. record_curve C (if cb_device_ed25519 b \<in> set (listed_devices t n k) then t
        else fst (record_certified t n k (cb_device_ed25519 b) (cb_certificate_version b)))
        n k (cb_device_ed25519 b) (cb_curve25519 b) = (t', Inr r)"
  using assms
  by (auto simp: verify_certified_checked_def Let_def rbind_eq_Inr check_id_block_def verify_signature_Inr
      split: if_splits prod.splits sum.splits)

lemma verify_certified_device_Inr:
  assumes "verify_certified_device C t n k b = (t', Inr d)"
  obtains t1 status where "observe_master C t n k (cb_master b) = (t1, Inr status)" "status \<noteq> MasterChanged"
    "verify_certified_checked C t1 n k b = Inr (t', d)"
  using assms by (auto simp: verify_certified_device_def split: prod.splits sum.splits if_splits)

lemma verify_certified_device_Inl: "verify_certified_device C t n k b = (t', Inl e) \<Longrightarrow> t' = t"
  by (auto simp: verify_certified_device_def split: prod.splits sum.splits if_splits)

lemma verify_certified_device_run:
  assumes "verify_certified_device C t n k b = (t', r)"
  shows "door_run C n k t t'"
proof (cases r)
  case (Inl e)
  with assms show ?thesis using verify_certified_device_Inl by fastforce
next
  case (Inr d)
  with assms obtain t1 status where o: "observe_master C t n k (cb_master b) = (t1, Inr status)"
    and c: "verify_certified_checked C t1 n k b = Inr (t', d)"
    by (metis verify_certified_device_Inr)
  have t1: "door_run C n k t t1" using door_run_observe [OF door_run_refl o] .
  have "door_run C n k t (if listed then t1 else fst (record_certified t1 n k ed v))" for listed ed v
    using t1 door_run_certified [OF t1] by simp
  then show ?thesis using verify_certified_checked_Inr(8) [OF c] door_run_curve by blast
qed

lemma verify_peer_device_Inr:
  assumes "verify_peer_device C t n k server b = (t', Inr d)"
  obtains t1 status t2 decision where
    "observe_master C t n k (pb_master b) = (t1, Inr status)" "status \<noteq> MasterChanged"
    "accept_list C t1 n k (pb_master b) (pb_list_version b) (pb_list_keys b) (pb_list_signature b) = (t2, Inr decision)"
    "check_listed_device C t2 n k server b = Inr (pd_did d)"
    "\<exists>r. record_curve C t2 n k (pb_device_ed25519 b) (pb_curve25519 b) = (t', Inr r)"
    "pd_ed25519 d = pb_device_ed25519 b" "pd_curve25519 d = pb_curve25519 b"
proof -
  obtain t1 o1 where o: "observe_master C t n k (pb_master b) = (t1, o1)"
    by (cases "observe_master C t n k (pb_master b)")
  with assms obtain status where st: "o1 = Inr status" "status \<noteq> MasterChanged"
    by (cases o1) (auto simp: verify_peer_device_def split: if_splits)
  obtain t2 o2 where a: "accept_list C t1 n k (pb_master b) (pb_list_version b) (pb_list_keys b) (pb_list_signature b) = (t2, o2)"
    by (cases "accept_list C t1 n k (pb_master b) (pb_list_version b) (pb_list_keys b) (pb_list_signature b)")
  with assms o st obtain decision where dec: "o2 = Inr decision"
    by (cases o2) (simp_all add: verify_peer_device_def split: if_splits)
  with assms o st a obtain did where did: "check_listed_device C t2 n k server b = Inr did"
    by (cases "check_listed_device C t2 n k server b") (simp_all add: verify_peer_device_def split: if_splits)
  obtain t3 o3 where c: "record_curve C t2 n k (pb_device_ed25519 b) (pb_curve25519 b) = (t3, o3)"
    by (cases "record_curve C t2 n k (pb_device_ed25519 b) (pb_curve25519 b)")
  with assms o st a dec did have "\<exists>r. o3 = Inr r"
    "t3 = t' \<and> d = \<lparr> pd_did = did, pd_curve25519 = pb_curve25519 b, pd_ed25519 = pb_device_ed25519 b \<rparr>"
    by (cases o3; simp add: verify_peer_device_def)+
  with o st a dec did c show thesis by (intro that [of t1 status t2 decision]) auto
qed

lemma check_listed_device_Inr:
  "check_listed_device C t n k server b = Inr did \<longleftrightarrow>
     did_from_key_text C (pb_device_ed25519 b) = Inr did \<and>
     \<not> is_revoked t n k (pb_device_ed25519 b) (Some (pb_curve25519 b)) \<and>
     pb_device_ed25519 b \<in> set (pb_list_keys b) \<and>
     (case server of None \<Rightarrow> True | Some keys \<Rightarrow> pb_device_ed25519 b \<in> set keys) \<and>
     is_ok (decode_key C (pb_curve25519 b)) \<and>
     signed_by C (pb_device_ed25519 b) (pb_id_signature b) (device_id_signed_text (pb_curve25519 b) (pb_master b))"
  by (auto simp: check_listed_device_def Let_def rbind_eq_Inr check_id_block_def verify_signature_Inr is_ok_iff)

lemma record_curve_known:
  assumes "record_curve C t n k ed c = (t', Inr r)" and "trust_master t n k = Some m"
  shows "trust_master t' n k = Some m" "listed_devices t' n k = listed_devices t n k"
    "list_version t' n k = list_version t n k" "is_revoked t' n k ed' None = is_revoked t n k ed' None"
  using assms
  by (auto simp: record_curve_def Let_def trust_master_def listed_devices_def list_version_def is_revoked_def
      PeerRecord_is_revoked_def split: sum.splits option.splits if_splits)

section \<open>Lemmas: the replay window\<close>

text \<open>A run of records on one map; the accepted ids of one device, oldest first.\<close>

fun record_run ::
    "(string \<times> string list) list \<Rightarrow> (string \<times> string \<times> string \<times> string) list
     \<Rightarrow> (string \<times> string list) list \<times> (string \<times> string) list" where
  "record_run m [] = (m, [])"
| "record_run m ((network, nick, did, i) # xs) =
     (case record_id m network nick did i of
        (m', r) \<Rightarrow> (case record_run m' xs of
          (m'', acc) \<Rightarrow> (m'', if is_ok r then (peer_device_key network nick did, i) # acc else acc)))"

definition ids_of :: "string \<Rightarrow> (string \<times> string) list \<Rightarrow> string list" where
  "ids_of key acc = map snd (filter (\<lambda>p. fst p = key) acc)"

definition last_n :: "nat \<Rightarrow> 'a list \<Rightarrow> 'a list" where
  "last_n n xs = drop (length xs - n) xs"

text \<open>The ids that no earlier one of the last \<open>n\<close> equals.\<close>

definition spaced_ids :: "nat \<Rightarrow> 'a list \<Rightarrow> bool" where
  "spaced_ids n xs \<longleftrightarrow> (\<forall>i j. i < j \<and> j < length xs \<and> xs ! i = xs ! j \<longrightarrow> i + n < j)"

definition seen_ids :: "(string \<times> string list) list \<Rightarrow> string \<Rightarrow> string list" where
  "seen_ids m key = (case map_of m key of None \<Rightarrow> [] | Some ids \<Rightarrow> ids)"

lemma spaced_ids_snoc:
  assumes "spaced_ids n xs" and "x \<notin> set (last_n n xs)"
  shows "spaced_ids n (xs @ [x])"
  unfolding spaced_ids_def
proof (intro allI impI)
  fix i j assume h: "i < j \<and> j < length (xs @ [x]) \<and> (xs @ [x]) ! i = (xs @ [x]) ! j"
  show "i + n < j"
  proof (cases "j < length xs")
    case True
    with h assms(1) show ?thesis by (auto simp: spaced_ids_def nth_append)
  next
    case False
    then have j: "j = length xs" and xi: "xs ! i = x" using h by (auto simp: nth_append)
    have "\<not> length xs - n \<le> i"
    proof
      assume le: "length xs - n \<le> i"
      have "last_n n xs ! (i - (length xs - n)) = x" using h le xi j by (simp add: last_n_def)
      moreover have "i - (length xs - n) < length (last_n n xs)" using h le j by (simp add: last_n_def diff_less_mono)
      ultimately show False using assms(2) nth_mem by metis
    qed
    then show ?thesis using j by linarith
  qed
qed

lemma last_n_snoc:
  "0 < n \<Longrightarrow> (let s = last_n n xs @ [x] in if length s > n then tl s else s) = last_n n (xs @ [x])"
proof (cases "length xs < n")
  case True
  then show ?thesis by (simp add: last_n_def Let_def)
next
  case False
  assume "0 < n"
  with False have "drop (length xs - n) xs \<noteq> []" by simp
  with False show ?thesis
    by (simp add: last_n_def Let_def Suc_diff_le drop_Suc tl_drop tl_append2)
qed

lemma record_id_eq:
  "record_id m network nick did i =
     (let key = peer_device_key network nick did; s = seen_ids m key @ [i] in
      if i \<in> set (seen_ids m key) then (m, Inl E2e_Replay)
      else (AList.update key (if length s > REPLAY_WINDOW then tl s else s) m, Inr ()))"
  by (simp add: record_id_def seen_ids_def Let_def)

lemma seen_ids_update [simp]: "seen_ids (AList.update k ids m) key = (if key = k then ids else seen_ids m key)"
  by (simp add: seen_ids_def)

lemma record_id_seen:
  assumes "record_id m network nick did i = (m', r)" and "seen_ids m key = last_n REPLAY_WINDOW xs"
  shows "if is_ok r \<and> key = peer_device_key network nick did
    then seen_ids m' key = last_n REPLAY_WINDOW (xs @ [i]) \<and> i \<notin> set (last_n REPLAY_WINDOW xs)
    else seen_ids m' key = seen_ids m key"
proof -
  have "0 < REPLAY_WINDOW" by (simp add: REPLAY_WINDOW_def)
  note snoc = last_n_snoc [OF this, of xs i, unfolded Let_def]
  show ?thesis
    using assms snoc unfolding record_id_eq by (auto simp: Let_def split: if_splits)
qed

lemma record_run_spaced:
  "\<lbrakk>record_run m xs = (m', acc); seen_ids m key = last_n REPLAY_WINDOW ys; spaced_ids REPLAY_WINDOW ys\<rbrakk>
   \<Longrightarrow> seen_ids m' key = last_n REPLAY_WINDOW (ys @ ids_of key acc) \<and> spaced_ids REPLAY_WINDOW (ys @ ids_of key acc)"
proof (induction xs arbitrary: m ys acc)
  case Nil
  then show ?case by (simp add: ids_of_def)
next
  case (Cons x xs)
  obtain network nick did i where x: "x = (network, nick, did, i)" by (cases x)
  obtain m1 r where r: "record_id m network nick did i = (m1, r)" by (cases "record_id m network nick did i")
  obtain acc1 where run: "record_run m1 xs = (m', acc1)"
    and acc: "acc = (if is_ok r then (peer_device_key network nick did, i) # acc1 else acc1)"
    using Cons.prems(1) by (auto simp: x r split: prod.splits)
  show ?case
  proof (cases "is_ok r \<and> key = peer_device_key network nick did")
    case True
    then have "seen_ids m1 key = last_n REPLAY_WINDOW (ys @ [i])" "spaced_ids REPLAY_WINDOW (ys @ [i])"
      using record_id_seen [OF r Cons.prems(2)] spaced_ids_snoc Cons.prems(3) by auto
    from Cons.IH [OF run this] True acc show ?thesis by (simp add: ids_of_def)
  next
    case False
    then have "seen_ids m1 key = last_n REPLAY_WINDOW ys"
      using record_id_seen [OF r Cons.prems(2)] Cons.prems(2) by auto
    from Cons.IH [OF run this Cons.prems(3)] False acc show ?thesis by (auto simp: ids_of_def)
  qed
qed

section \<open>Properties\<close>

definition sample_sign :: "char \<Rightarrow> char \<Rightarrow> char \<Rightarrow> string" where
  "sample_sign device curve master = toy_sign device (device_id_signed_text (toy_key curve) (toy_key master))"

definition sample_bundle :: PeerBundle where
  "sample_bundle = \<lparr> pb_master = toy_key CHR ''M'', pb_list_version = 1,
     pb_list_keys = [toy_key CHR ''D'', toy_key CHR ''E''],
     pb_list_signature = toy_sign CHR ''M'' (list_text 1 [toy_key CHR ''D'', toy_key CHR ''E'']),
     pb_device_ed25519 = toy_key CHR ''D'', pb_curve25519 = toy_key CHR ''c'',
     pb_id_signature = sample_sign CHR ''D'' CHR ''c'' CHR ''M'' \<rparr>"

definition sample_certified :: CertifiedBundle where
  "sample_certified = \<lparr> cb_master = toy_key CHR ''M'', cb_certificate_version = 2,
     cb_certificate_signature = toy_sign CHR ''M'' (DEVICE_CERTIFICATE_PREFIX @ ''2:'' @ toy_key CHR ''F''),
     cb_device_ed25519 = toy_key CHR ''F'', cb_curve25519 = toy_key CHR ''f'',
     cb_id_signature = sample_sign CHR ''F'' CHR ''f'' CHR ''M'' \<rparr>"

text \<open>
  Claim C4. A device that the door of a KEYS answer accepts is a device of the pinned master: the
  master signed the list that holds it, the server list (when there is one) holds it, the device signed
  its curve key and the master, its id comes from its key, and neither key was revoked.
\<close>

theorem verify_peer_device_sound:
  assumes "verify_peer_device C t network nick server b = (t', Inr d)"
  shows "trust_master t' network nick = Some (pb_master b) \<and>
     (\<forall>m. trust_master t network nick = Some m \<longrightarrow> m = pb_master b) \<and>
     verify_signed_list C (pb_list_version b) (pb_list_keys b) (pb_master b) (pb_list_signature b) = Inr () \<and>
     pd_ed25519 d \<in> set (listed_devices t' network nick) \<and> pd_ed25519 d = pb_device_ed25519 b \<and>
     (\<forall>keys. server = Some keys \<longrightarrow> pd_ed25519 d \<in> set keys) \<and>
     did_from_key_text C (pd_ed25519 d) = Inr (pd_did d) \<and>
     signed_by C (pd_ed25519 d) (pb_id_signature b) (device_id_signed_text (pd_curve25519 d) (pb_master b)) \<and>
     \<not> is_revoked t network nick (pd_ed25519 d) (Some (pd_curve25519 d)) \<and>
     \<not> is_revoked t' network nick (pd_ed25519 d) None"
proof -
  obtain t1 status t2 decision where o: "observe_master C t network nick (pb_master b) = (t1, Inr status)" "status \<noteq> MasterChanged"
    and a: "accept_list C t1 network nick (pb_master b) (pb_list_version b) (pb_list_keys b) (pb_list_signature b) = (t2, Inr decision)"
    and c: "check_listed_device C t2 network nick server b = Inr (pd_did d)"
    and r: "\<exists>r. record_curve C t2 network nick (pb_device_ed25519 b) (pb_curve25519 b) = (t', Inr r)"
    and d: "pd_ed25519 d = pb_device_ed25519 b" "pd_curve25519 d = pb_curve25519 b"
    using assms by (rule verify_peer_device_Inr)
  note obs = observe_master_facts [OF o]
  have "\<exists>r1. map_of t1 (peer_key network nick) = Some r1"
    using obs(1) by (auto simp: trust_master_def split: option.splits)
  then obtain r1 where r1: "map_of t1 (peer_key network nick) = Some r1" by blast
  note acc = accepted_list_facts [OF a r1]
  note chk = c [unfolded check_listed_device_Inr]
  obtain rb where rc: "record_curve C t2 network nick (pb_device_ed25519 b) (pb_curve25519 b) = (t', Inr rb)" using r by blast
  note rec = record_curve_known [OF rc acc(2)]
  have "is_revoked t2 network nick ed curve" if "is_revoked t network nick ed curve" for ed curve
  proof -
    have "\<not> forgets_peer network nick (TAcceptList network nick (pb_master b) (pb_list_version b) (pb_list_keys b) (pb_list_signature b))"
      by (simp add: forgets_peer_def)
    from trust.keeps_revoked [OF this, of t1 ed curve C] show ?thesis using that obs(3) a by simp
  qed
  moreover have "\<forall>m. trust_master t network nick = Some m \<longrightarrow> m = pb_master b"
    using o by (auto simp: observe_master_def Let_def trust_master_def split: sum.splits option.splits if_splits)
  moreover have "pb_device_ed25519 b \<in> set (listed_devices t2 network nick)"
    using chk acc(3) mset_eq_setD by metis
  moreover have "\<not> is_revoked t2 network nick (pb_device_ed25519 b) None"
    using chk by (auto simp: is_revoked_def PeerRecord_is_revoked_def split: option.splits)
  ultimately show ?thesis using acc rec chk d by auto
qed

theorem verify_peer_device_sound_witness:
  "let r = verify_peer_device toy_crypto [] ''net'' ''bob'' None sample_bundle
   in \<exists>d. snd r = Inr d \<and> trust_master (fst r) ''net'' ''bob'' = Some (toy_key CHR ''M'') \<and>
        pd_ed25519 d \<in> set (listed_devices (fst r) ''net'' ''bob'')"
proof -
  let ?r = "verify_peer_device toy_crypto [] ''net'' ''bob'' None sample_bundle"
  have "is_ok (snd ?r)" by code_simp
  then obtain d where d: "snd ?r = Inr d" by (auto simp: is_ok_iff)
  then have e: "?r = (fst ?r, Inr d)" by (metis prod.collapse)
  have m: "pb_master sample_bundle = toy_key CHR ''M''" by (simp add: sample_bundle_def)
  show ?thesis using verify_peer_device_sound [OF e] d unfolding m Let_def by blast
qed

text \<open>
  Claim C5. A device that the door of a first message accepts is certified by the pinned master: the
  certificate of the master names the device, the device signed its curve key and the master, neither
  key was revoked, and the stored list holds the device or is older than the certificate. A device the
  list does not hold is kept with its version, so a later list that reaches the version revokes it.
\<close>

theorem verify_certified_device_sound:
  assumes "verify_certified_device C t network nick b = (t', Inr d)"
  shows "trust_master t' network nick = Some (cb_master b) \<and>
     (\<forall>m. trust_master t network nick = Some m \<longrightarrow> m = cb_master b) \<and>
     pd_ed25519 d = cb_device_ed25519 b \<and> pd_curve25519 d = cb_curve25519 b \<and>
     did_from_key_text C (pd_ed25519 d) = Inr (pd_did d) \<and>
     verify_device_certificate C (certificate_of b) [cb_master b] = Inr () \<and>
     signed_by C (pd_ed25519 d) (cb_id_signature b) (device_id_signed_text (pd_curve25519 d) (cb_master b)) \<and>
     \<not> is_revoked t network nick (pd_ed25519 d) (Some (pd_curve25519 d)) \<and>
     (pd_ed25519 d \<in> set (listed_devices t network nick) \<or>
      list_version t network nick < cb_certificate_version b \<and>
      (\<exists>r. map_of t' (peer_key network nick) = Some r \<and>
           map_of (pr_certified r) (pd_ed25519 d) = Some (cb_certificate_version b)))"
proof -
  obtain t1 status where o: "observe_master C t network nick (cb_master b) = (t1, Inr status)" "status \<noteq> MasterChanged"
    and c: "verify_certified_checked C t1 network nick b = Inr (t', d)"
    using assms by (rule verify_certified_device_Inr)
  note obs = observe_master_facts [OF o] and chk = verify_certified_checked_Inr [OF c]
  obtain r1 where r1: "map_of t1 (peer_key network nick) = Some r1"
    using obs(1) by (auto simp: trust_master_def split: option.splits)
  have "trust_master t' network nick = Some (cb_master b)"
    using chk(8) obs(1) r1
    by (auto simp: record_curve_def record_certified_def Let_def trust_master_def split: sum.splits if_splits)
  moreover have "\<exists>r. map_of t' (peer_key network nick) = Some r \<and>
      map_of (pr_certified r) (cb_device_ed25519 b) = Some (cb_certificate_version b)"
    if "cb_device_ed25519 b \<notin> set (listed_devices t network nick)"
    using chk(8) that obs(5) r1
    by (auto simp: record_curve_def record_certified_def Let_def split: sum.splits if_splits)
  moreover have "\<forall>m. trust_master t network nick = Some m \<longrightarrow> m = cb_master b"
    using o by (auto simp: observe_master_def Let_def trust_master_def split: sum.splits option.splits if_splits)
  ultimately show ?thesis using chk(1-7) obs(3-5) by auto
qed

theorem verify_certified_device_sound_witness:
  "let r = verify_certified_device toy_crypto sample_trust ''net'' ''bob'' sample_certified
   in \<exists>d. snd r = Inr d \<and> trust_master (fst r) ''net'' ''bob'' = Some (cb_master sample_certified) \<and>
        \<not> is_revoked sample_trust ''net'' ''bob'' (pd_ed25519 d) (Some (pd_curve25519 d))"
proof -
  let ?r = "verify_certified_device toy_crypto sample_trust ''net'' ''bob'' sample_certified"
  have "is_ok (snd ?r)" by code_simp
  then obtain d where d: "snd ?r = Inr d" by (auto simp: is_ok_iff)
  then have e: "?r = (fst ?r, Inr d)" by (metis prod.collapse)
  show ?thesis using verify_certified_device_sound [OF e] d unfolding Let_def by blast
qed

text \<open>
  Claim C6. The doors refine the trust state. Whatever a door stores, accepted or refused, is the
  result of a run of trust operations on that one peer without a reset, so a device or curve key that
  is revoked, for any peer, stays revoked, and a pinned master stays pinned.
\<close>

theorem doors_refine_trust:
  assumes "t' = fst (verify_peer_device C t network nick server pb) \<or>
     t' = fst (verify_certified_device C t network nick cb) \<or>
     t' = fst (apply_peer_list C t network nick master v keys sig)"
  shows "(\<exists>xs. t' = foldl (trust_step C) t xs \<and>
       (\<forall>x \<in> set xs. op_peer x = peer_key network nick \<and> \<not> is_replace x \<and> \<not> is_release x)) \<and>
     (is_revoked t n k ed curve \<longrightarrow> is_revoked t' n k ed curve) \<and>
     (trust_master t n k = Some m \<longrightarrow> trust_master t' n k = Some m)"
proof -
  have "door_run C network nick t t'"
    using assms verify_peer_device_run [of C t network nick server pb]
      verify_certified_device_run [of C t network nick cb] apply_peer_list_run [of C t network nick master v keys sig]
    by (metis prod.collapse)
  then obtain xs where xs: "t' = foldl (trust_step C) t xs" "\<forall>x \<in> set xs. door_op network nick x"
    by (auto simp: door_run_def)
  then have "\<forall>x \<in> set xs. \<not> forgets_peer n k x" "\<forall>x \<in> set xs. \<not> resets_peer n k x"
    by (auto simp: door_op_def forgets_peer_def resets_peer_def)
  then show ?thesis
    using xs trust.run_keeps_revoked [of xs n k t ed curve C] run_master_pinned [of t n k m xs C]
    by (auto simp: door_op_def)
qed

theorem doors_refine_trust_witness:
  "trust_master (fst (verify_certified_device toy_crypto sample_trust ''net'' ''bob'' sample_certified)) ''net'' ''bob''
     = Some (toy_key CHR ''M'')"
proof -
  have "trust_master sample_trust ''net'' ''bob'' = Some (toy_key CHR ''M'')" by code_simp
  then show ?thesis
    using doors_refine_trust [of "fst (verify_certified_device toy_crypto sample_trust ''net'' ''bob'' sample_certified)"
        toy_crypto sample_trust "''net''" "''bob''" None sample_bundle sample_certified "[]" 0 "[]" "[]"] by blast
qed

text \<open>
  Claim C7. Replay protection. In any run of first messages from an empty state, two accepted messages
  of one device with the same id have at least 256 other accepted messages of the device between them;
  in particular none of the last 256 accepted ids is accepted again.
\<close>

theorem replay_window:
  assumes "record_run [] xs = (m, acc)"
  shows "spaced_ids 256 (ids_of key acc) \<and>
     (i \<in> set (last_n 256 (ids_of (peer_device_key network nick did) acc)) \<longrightarrow>
        record_id m network nick did i = (m, Inl E2e_Replay))"
proof -
  have start: "seen_ids [] key = last_n REPLAY_WINDOW []" "spaced_ids REPLAY_WINDOW []" for key
    by (simp_all add: seen_ids_def last_n_def spaced_ids_def)
  have w: "REPLAY_WINDOW = 256" by (simp add: REPLAY_WINDOW_def)
  show ?thesis
    using record_run_spaced [OF assms start(1) start(2), of key]
      record_run_spaced [OF assms start(1) start(2), of "peer_device_key network nick did"]
    by (simp add: w record_id_eq Let_def)
qed

theorem replay_window_witness:
  "let r = record_run [] [(''n'', ''b'', ''d'', ''1''), (''n'', ''b'', ''d'', ''2''), (''n'', ''b'', ''d'', ''1'')]
   in record_id (fst r) ''n'' ''b'' ''d'' ''1'' = (fst r, Inl E2e_Replay) \<and> spaced_ids 256 (ids_of ''x'' (snd r))"
proof -
  let ?r = "record_run [] [(''n'', ''b'', ''d'', ''1''), (''n'', ''b'', ''d'', ''2''), (''n'', ''b'', ''d'', ''1'')]"
  have e: "record_run [] [(''n'', ''b'', ''d'', ''1''), (''n'', ''b'', ''d'', ''2''), (''n'', ''b'', ''d'', ''1'')] = (fst ?r, snd ?r)"
    by simp
  have "''1'' \<in> set (last_n 256 (ids_of (peer_device_key ''n'' ''b'' ''d'') (snd ?r)))" by code_simp
  then show ?thesis using replay_window [OF e, of "''x''" "''1''" "''n''" "''b''" "''d''"] unfolding Let_def by blast
qed

text \<open>A valid list that changes nothing is accepted without storing anything, so the mark that the peer
  needs a new list is not cleared by it, unlike by the list operation of the trust state.\<close>

lemma apply_peer_list_noop_keeps_mark:
  assumes "apply_peer_list C t network nick master v keys sig = (t', Inr NoOp)"
  shows "needs_new_list t' network nick = needs_new_list t network nick"
  using assms by (auto simp: apply_peer_list_def split: prod.splits sum.splits if_splits)

end
