(* ===== verification/Refusal.thy ===== *)
theory Refusal
  imports Wire
begin

text \<open>
  The typed refusals of the E2E routes, from \<^verbatim>\<open>e2e_refusal.rs\<close>, and the client error they are
  read from (\<^verbatim>\<open>client.rs\<close>). A duration is its number of nanoseconds; the error of the HTTP
  library is a type parameter.
\<close>

section \<open>Client errors\<close>

datatype 'h GrappaClientError =
  Http 'h
| InvalidUrl string
| Rejected nat "string option" "nat option"
| TooLarge nat

text \<open>\<^verbatim>\<open>http_status\<close> is \<^verbatim>\<open>reqwest::Error::status\<close>, a parameter.\<close>

fun GrappaClientError_status :: "('h \<Rightarrow> nat option) \<Rightarrow> 'h GrappaClientError \<Rightarrow> nat option" where
  "GrappaClientError_status http_status (Http err) = http_status err"
| "GrappaClientError_status http_status (InvalidUrl _) = None"
| "GrappaClientError_status http_status (TooLarge _) = None"
| "GrappaClientError_status http_status (Rejected status _ _) = Some status"

fun GrappaClientError_code :: "'h GrappaClientError \<Rightarrow> string option" where
  "GrappaClientError_code (Rejected _ code _) = code"
| "GrappaClientError_code _ = None"

fun GrappaClientError_retry_after :: "'h GrappaClientError \<Rightarrow> nat option" where
  "GrappaClientError_retry_after (Rejected _ _ retry_after) = retry_after"
| "GrappaClientError_retry_after _ = None"

section \<open>Refusals\<close>

datatype E2eRefusal =
  R_BadRequest | R_InvalidLine | R_UnknownDevice | R_TooLarge | R_TooLate | R_RateLimited | R_NotFound
| R_UpstreamUnreachable | R_SessionTimeout | R_DbUnavailable | R_ListedDevice | R_TooManyDevices
| R_MasterMismatch | R_StaleList | R_SameDevice | R_KeylessDevice | R_KeyTaken | R_RemovedDevice
| R_InboxFull | R_PairingAlreadyJoined | R_PairingOwnRendezvous | R_PairingNotJoined | R_PairingFull
| R_PairingNotAParty | R_RequestState | R_RequestsFull | R_Unknown nat "string option"

definition KNOWN :: "(E2eRefusal \<times> string \<times> nat) list" where
  "KNOWN =
     [(R_BadRequest, ''bad_request'', 400), (R_InvalidLine, ''invalid_line'', 400),
      (R_UnknownDevice, ''unknown_device'', 422), (R_TooLarge, ''too_large'', 413),
      (R_TooLate, ''too_late'', 422), (R_RateLimited, ''rate_limited'', 429),
      (R_NotFound, ''not_found'', 404), (R_UpstreamUnreachable, ''upstream_unreachable'', 502),
      (R_SessionTimeout, ''session_timeout'', 504), (R_DbUnavailable, ''db_unavailable'', 503),
      (R_ListedDevice, ''listed_device'', 409), (R_TooManyDevices, ''too_many_devices'', 409),
      (R_MasterMismatch, ''master_mismatch'', 409), (R_StaleList, ''stale_list'', 409),
      (R_SameDevice, ''same_device'', 409), (R_KeylessDevice, ''keyless_device'', 409),
      (R_KeyTaken, ''key_taken'', 409), (R_RemovedDevice, ''removed_device'', 409),
      (R_InboxFull, ''inbox_full'', 413), (R_PairingAlreadyJoined, ''pairing_already_joined'', 409),
      (R_PairingOwnRendezvous, ''pairing_own_rendezvous'', 409),
      (R_PairingNotJoined, ''pairing_not_joined'', 409), (R_PairingFull, ''pairing_full'', 413),
      (R_PairingNotAParty, ''pairing_not_a_party'', 403), (R_RequestState, ''request_state'', 409),
      (R_RequestsFull, ''requests_full'', 422)]"

definition from_response :: "nat \<Rightarrow> string option \<Rightarrow> E2eRefusal" where
  "from_response status token =
     (case Option.bind token (\<lambda>t. List.find (\<lambda>(_, name, code). name = t \<and> code = status) KNOWN) of
        Some (refusal, _, _) \<Rightarrow> refusal
      | None \<Rightarrow> R_Unknown status token)"

definition entry :: "E2eRefusal \<Rightarrow> (E2eRefusal \<times> string \<times> nat) option" where
  "entry r = List.find (\<lambda>(refusal, _, _). refusal = r) KNOWN"

definition refusal_status :: "E2eRefusal \<Rightarrow> nat" where
  "refusal_status r =
     (case r of R_Unknown status _ \<Rightarrow> status
      | known \<Rightarrow> (case entry known of None \<Rightarrow> 0 | Some (_, _, code) \<Rightarrow> code))"

definition refusal_token :: "E2eRefusal \<Rightarrow> string option" where
  "refusal_token r =
     (case r of R_Unknown _ token \<Rightarrow> token
      | known \<Rightarrow> map_option (\<lambda>(_, name, _). name) (entry known))"

definition is_known :: "E2eRefusal \<Rightarrow> bool" where
  "is_known r = (case r of R_Unknown _ _ \<Rightarrow> False | _ \<Rightarrow> True)"

datatype ClaimRetry = Again | WaitForKeys

definition refusal_claim_retry :: "E2eRefusal \<Rightarrow> ClaimRetry option" where
  "refusal_claim_retry r =
     (case r of R_KeyTaken \<Rightarrow> Some Again | R_KeylessDevice \<Rightarrow> Some WaitForKeys | _ \<Rightarrow> None)"

section \<open>Route errors\<close>

datatype 'h E2eRouteError =
  Refused E2eRefusal "nat option"
| ClientErr "'h GrappaClientError"
| Unavailable
| WireErr WireError

definition route_error_from_client :: "'h GrappaClientError \<Rightarrow> 'h E2eRouteError" where
  "route_error_from_client err =
     (case err of
        Rejected status code retry_after \<Rightarrow> Refused (from_response status code) retry_after
      | other \<Rightarrow> ClientErr other)"

definition route_error_from_wire :: "WireError \<Rightarrow> 'h E2eRouteError" where
  "route_error_from_wire err = WireErr err"

definition route_claim_retry :: "'h E2eRouteError \<Rightarrow> ClaimRetry option" where
  "route_claim_retry e = (case e of Refused refusal _ \<Rightarrow> refusal_claim_retry refusal | _ \<Rightarrow> None)"

definition route_retry_after :: "'h E2eRouteError \<Rightarrow> nat option" where
  "route_retry_after e =
     (case e of
        Refused _ retry_after \<Rightarrow> retry_after
      | ClientErr err \<Rightarrow> GrappaClientError_retry_after err
      | Unavailable \<Rightarrow> None
      | WireErr _ \<Rightarrow> None)"

section \<open>Lemmas\<close>

lemma find_map_of: "List.find (\<lambda>(k, _, _). k = x) xs = map_option (\<lambda>v. (x, v)) (map_of xs x)"
  by (induction xs) auto

lemma KNOWN_distinct: "distinct (map fst KNOWN)" "distinct (map snd KNOWN)"
  by code_simp+

lemma KNOWN_complete: "r \<in> set (map fst KNOWN) \<longleftrightarrow> is_known r"
  by (cases r) (simp_all add: KNOWN_def is_known_def)

lemma entry_iff: "entry r = Some e \<longleftrightarrow> e \<in> set KNOWN \<and> fst e = r"
proof -
  obtain a b c where e: "e = (a, b, c)" by (cases e)
  have "entry r = Some e \<longleftrightarrow> map_of KNOWN r = Some (b, c) \<and> r = a"
    unfolding entry_def find_map_of e by auto
  also have "\<dots> \<longleftrightarrow> e \<in> set KNOWN \<and> fst e = r"
    using KNOWN_distinct(1) by (auto simp: e)
  finally show ?thesis .
qed

lemma find_SomeD: "List.find P xs = Some e \<Longrightarrow> e \<in> set xs \<and> P e"
  by (auto simp: find_Some_iff)

lemma find_known:
  "List.find (\<lambda>(_, name, code). name = t \<and> code = s) KNOWN = Some e \<longleftrightarrow> e \<in> set KNOWN \<and> snd e = (t, s)"
proof
  assume "List.find (\<lambda>(_, name, code). name = t \<and> code = s) KNOWN = Some e"
  from find_SomeD [OF this] show "e \<in> set KNOWN \<and> snd e = (t, s)" by (cases e) auto
next
  assume e: "e \<in> set KNOWN \<and> snd e = (t, s)"
  then have "List.find (\<lambda>(_, name, code). name = t \<and> code = s) KNOWN \<noteq> None"
    by (auto simp: find_None_iff split: prod.splits) (metis prod.collapse)
  then obtain e' where e': "List.find (\<lambda>(_, name, code). name = t \<and> code = s) KNOWN = Some e'" by blast
  from find_SomeD [OF e'] have "e' \<in> set KNOWN" "snd e' = (t, s)" by (cases e', auto)+
  with e have "e' = e" using KNOWN_distinct(2) by (metis distinct_map inj_on_def)
  with e' show "List.find (\<lambda>(_, name, code). name = t \<and> code = s) KNOWN = Some e" by simp
qed

lemma refusal_token_status:
  assumes "is_known r"
  shows "\<exists>t. (r, t, refusal_status r) \<in> set KNOWN \<and> refusal_token r = Some t"
proof -
  obtain t s where e: "(r, t, s) \<in> set KNOWN" using assms KNOWN_complete [of r] by auto
  then have "entry r = Some (r, t, s)" by (simp add: entry_iff)
  then show ?thesis using e assms by (cases r) (auto simp: refusal_status_def refusal_token_def is_known_def)
qed

section \<open>Properties\<close>

text \<open>
  Refusals are read exactly. A refusal prints to its status and token, and reading those
  gives it back; an answer is read as a known refusal only when its status and token are those of the
  table, and every other answer, a known token under another status included, keeps its status and
  token as unknown.
\<close>

theorem refusal_roundtrip:
  "(is_known r \<longrightarrow> from_response (refusal_status r) (refusal_token r) = r) \<and>
   refusal_status (from_response s tok) = s \<and> refusal_token (from_response s tok) = tok \<and>
   (is_known (from_response s tok) \<longleftrightarrow> (\<exists>t. tok = Some t \<and> (from_response s tok, t, s) \<in> set KNOWN))"
proof -
  have hit: "from_response s (Some t) = r \<and> is_known r \<and> refusal_status r = s \<and> refusal_token r = Some t"
    if "(r, t, s) \<in> set KNOWN" for r t s
  proof -
    from that have "List.find (\<lambda>(_, name, code). name = t \<and> code = s) KNOWN = Some (r, t, s)"
      by (simp add: find_known)
    then have f: "from_response s (Some t) = r" by (simp add: from_response_def)
    from that have "entry r = Some (r, t, s)" by (simp add: entry_iff)
    moreover have "r \<in> set (map fst KNOWN)" using that by force
    ultimately show ?thesis using f KNOWN_complete [of r]
      by (cases r) (auto simp: refusal_status_def refusal_token_def is_known_def)
  qed
  have miss: "from_response s tok = R_Unknown s tok" if "\<forall>r t. tok = Some t \<longrightarrow> (r, t, s) \<notin> set KNOWN"
  proof (cases tok)
    case (Some t)
    have "List.find (\<lambda>(_, name, code). name = t \<and> code = s) KNOWN = None"
    proof (rule ccontr)
      assume "List.find (\<lambda>(_, name, code). name = t \<and> code = s) KNOWN \<noteq> None"
      then obtain e where "e \<in> set KNOWN \<and> snd e = (t, s)" using find_known by blast
      then show False using that Some by (metis prod.collapse)
    qed
    then show ?thesis using Some by (simp add: from_response_def)
  qed (simp add: from_response_def)
  have "is_known r \<longrightarrow> from_response (refusal_status r) (refusal_token r) = r"
    using refusal_token_status hit by metis
  moreover have "refusal_status (from_response s tok) = s \<and> refusal_token (from_response s tok) = tok \<and>
     (is_known (from_response s tok) \<longleftrightarrow> (\<exists>t. tok = Some t \<and> (from_response s tok, t, s) \<in> set KNOWN))"
  proof (cases "\<exists>r t. tok = Some t \<and> (r, t, s) \<in> set KNOWN")
    case True
    then obtain r t where "tok = Some t" "(r, t, s) \<in> set KNOWN" by blast
    with hit [OF this(2)] show ?thesis by auto
  next
    case False
    then show ?thesis using miss by (auto simp: refusal_status_def refusal_token_def is_known_def)
  qed
  ultimately show ?thesis by blast
qed

theorem refusal_roundtrip_witness:
  "from_response 409 (Some ''key_taken'') = R_KeyTaken \<and> is_known R_KeyTaken
   \<and> from_response (refusal_status R_KeyTaken) (refusal_token R_KeyTaken) = R_KeyTaken
   \<and> from_response 400 (Some ''key_taken'') = R_Unknown 400 (Some ''key_taken'')"
proof -
  have a: "from_response 409 (Some ''key_taken'') = R_KeyTaken" "is_known R_KeyTaken"
    "from_response 400 (Some ''key_taken'') = R_Unknown 400 (Some ''key_taken'')" by code_simp+
  show ?thesis using a refusal_roundtrip [of R_KeyTaken] by blast
qed

end
