(* ===== verification/Files.thy ===== *)
theory Files
  imports Prelude_Rust
begin

text \<open>
  Files and the atomic replacement of a file, from \<^verbatim>\<open>persistence.rs\<close>. A disk is the map of the
  files, the counter behind the names of temporary files, and a plan of faults: each call of the
  file system takes the next entry of the plan, so every operation can fail at every point, a write
  after any number of bytes. A crash is a plan whose remaining entries all fail. The contract of an
  atomic writer is the locale \<open>atomic_files\<close>, with the commit of a store proved once in it.
\<close>

section \<open>The disk\<close>

text \<open>A path is its folder and its file name.\<close>

type_synonym path = "string \<times> string"

datatype fault = NoFault | Fails | FailsAfter nat

record disk =
  dk_files :: "(path \<times> string) list"
  dk_serial :: nat
  dk_pid :: nat
  dk_faults :: "fault list"

definition next_fault :: "disk \<Rightarrow> fault \<times> disk" where
  "next_fault d = (case dk_faults d of [] \<Rightarrow> (NoFault, d) | f # fs \<Rightarrow> (f, d\<lparr>dk_faults := fs\<rparr>))"

definition file_at :: "disk \<Rightarrow> path \<Rightarrow> string option" where
  "file_at d p = map_of (dk_files d) p"

text \<open>\<^verbatim>\<open>fs::read\<close>, \<^verbatim>\<open>fs::rename\<close> and \<^verbatim>\<open>fs::remove_file\<close> of the standard library.\<close>

definition fs_read :: "disk \<Rightarrow> path \<Rightarrow> disk \<times> (string + string)" where
  "fs_read d p =
     (case next_fault d of (f, d) \<Rightarrow>
        if f = NoFault then (d, ok_or (file_at d p) ''not found'') else (d, Inl ''read''))"

definition rename_file :: "disk \<Rightarrow> path \<Rightarrow> path \<Rightarrow> disk \<times> (string + unit)" where
  "rename_file d from to =
     (case next_fault d of (f, d) \<Rightarrow>
        if f \<noteq> NoFault then (d, Inl ''rename'')
        else (case file_at d from of
                None \<Rightarrow> (d, Inl ''not found'')
              | Some contents \<Rightarrow>
                  (d\<lparr>dk_files := AList.update to contents (AList.delete from (dk_files d))\<rparr>, Inr ())))"

definition remove_file :: "disk \<Rightarrow> path \<Rightarrow> disk" where
  "remove_file d p =
     (case next_fault d of (f, d) \<Rightarrow>
        if f \<noteq> NoFault then d else d\<lparr>dk_files := AList.delete p (dk_files d)\<rparr>)"

section \<open>The atomic writer\<close>

definition temp_path_for :: "disk \<Rightarrow> path \<Rightarrow> disk \<times> path" where
  "temp_path_for d p =
     (d\<lparr>dk_serial := dk_serial d + 1\<rparr>,
      (fst p, ''.'' @ snd p @ ''.'' @ dec_string (dk_pid d) @ ''-'' @ dec_string (dk_serial d) @ ''.tmp''))"

definition write_synced :: "disk \<Rightarrow> path \<Rightarrow> string \<Rightarrow> disk \<times> (string + unit)" where
  "write_synced d p contents =
     (case next_fault d of (f, d) \<Rightarrow>
        if file_at d p \<noteq> None then (d, Inl ''exists'')
        else (case f of
                Fails \<Rightarrow> (d, Inl ''open'')
              | FailsAfter n \<Rightarrow> (d\<lparr>dk_files := AList.update p (take n contents) (dk_files d)\<rparr>, Inl ''write'')
              | NoFault \<Rightarrow> (d\<lparr>dk_files := AList.update p contents (dk_files d)\<rparr>, Inr ())))"

definition write_atomic_with ::
    "disk \<Rightarrow> path \<Rightarrow> string \<Rightarrow> (disk \<Rightarrow> path \<Rightarrow> path \<Rightarrow> disk \<times> (string + unit)) \<Rightarrow> disk \<times> (string + unit)" where
  "write_atomic_with d p contents rename =
     (case temp_path_for d p of (d, temp) \<Rightarrow>
      case (case write_synced d temp contents of
              (d, Inr _) \<Rightarrow> rename d temp p
            | (d, Inl e) \<Rightarrow> (d, Inl e)) of
        (d, Inl e) \<Rightarrow> (remove_file d temp, Inl e)
      | (d, Inr _) \<Rightarrow> (d, Inr ()))"

definition write_atomic :: "disk \<Rightarrow> path \<Rightarrow> string \<Rightarrow> disk \<times> (string + unit)" where
  "write_atomic d p contents = write_atomic_with d p contents rename_file"

section \<open>The commit of a store\<close>

text \<open>A store seals its next value, writes it and only then keeps it.\<close>

definition commit_with ::
    "('d \<Rightarrow> path \<Rightarrow> string \<Rightarrow> 'd \<times> (string + unit)) \<Rightarrow> (string \<Rightarrow> 'e) \<Rightarrow> 'd \<Rightarrow> path \<Rightarrow> 'e + string \<Rightarrow> 's \<Rightarrow> 's
     \<Rightarrow> 'd \<times> 's \<times> ('e + unit)" where
  "commit_with put_file io_error d p sealed old next =
     (case sealed of
        Inl e \<Rightarrow> (d, old, Inl e)
      | Inr bytes \<Rightarrow>
          (case put_file d p bytes of
             (d, Inl e) \<Rightarrow> (d, old, Inl (io_error e))
           | (d, Inr _) \<Rightarrow> (d, next, Inr ())))"

section \<open>The contract\<close>

locale atomic_files =
  fixes read_at :: "'d \<Rightarrow> path \<Rightarrow> string option"
    and put_file :: "'d \<Rightarrow> path \<Rightarrow> string \<Rightarrow> 'd \<times> (string + unit)"
  assumes write_ok: "put_file d p bytes = (d', Inr u) \<Longrightarrow> read_at d' p = Some bytes"
    and write_err: "put_file d p bytes = (d', Inl e) \<Longrightarrow> read_at d' p = read_at d p"
begin

lemma old_or_new: "read_at (fst (put_file d p bytes)) p \<in> {read_at d p, Some bytes}"
proof (cases "put_file d p bytes")
  case (Pair d' r)
  then show ?thesis using write_ok [of d p bytes d'] write_err [of d p bytes d'] by (cases r) auto
qed

text \<open>Memory and file stay together: \<open>good\<close> relates the bytes of the file to the value in memory.\<close>

lemma commit_durable:
  assumes "commit_with put_file io_error d p sealed old next = (d', st, r)"
    and "\<And>bytes. sealed = Inr bytes \<Longrightarrow> good (Some bytes) next"
    and "good (read_at d p) old"
  shows "good (read_at d' p) st"
    and "\<exists>e. r = Inl e \<Longrightarrow> st = old \<and> read_at d' p = read_at d p"
    and "r = Inr () \<Longrightarrow> st = next \<and> (\<exists>bytes. sealed = Inr bytes \<and> read_at d' p = Some bytes)"
proof -
  have "good (read_at d' p) st \<and> ((\<exists>e. r = Inl e) \<longrightarrow> st = old \<and> read_at d' p = read_at d p) \<and>
    (r = Inr () \<longrightarrow> st = next \<and> (\<exists>bytes. sealed = Inr bytes \<and> read_at d' p = Some bytes))"
  proof (cases sealed)
    case (Inl e)
    then show ?thesis using assms by (auto simp: commit_with_def)
  next
    case (Inr bytes)
    obtain d1 w where w: "put_file d p bytes = (d1, w)" by (cases "put_file d p bytes")
    show ?thesis
    proof (cases w)
      case (Inl e)
      then show ?thesis using assms w \<open>sealed = Inr bytes\<close> write_err [of d p bytes d1 e]
        by (auto simp: commit_with_def)
    next
      case (Inr u)
      then show ?thesis using assms w \<open>sealed = Inr bytes\<close> write_ok [of d p bytes d1 u]
        by (auto simp: commit_with_def)
    qed
  qed
  then show "good (read_at d' p) st" "\<exists>e. r = Inl e \<Longrightarrow> st = old \<and> read_at d' p = read_at d p"
    "r = Inr () \<Longrightarrow> st = next \<and> (\<exists>bytes. sealed = Inr bytes \<and> read_at d' p = Some bytes)"
    by blast+
qed

end

section \<open>The atomic writer keeps the contract\<close>

lemma next_fault_files [simp]: "next_fault d = (f, d') \<Longrightarrow> dk_files d' = dk_files d"
  "next_fault d = (f, d') \<Longrightarrow> file_at d' p = file_at d p"
  by (auto simp: next_fault_def file_at_def split: list.splits)

lemma temp_path_other:
  assumes "temp_path_for d p = (d', temp)"
  shows "temp \<noteq> p \<and> dk_files d' = dk_files d"
proof -
  have "length (snd temp) > length (snd p)" "dk_files d' = dk_files d"
    using assms by (auto simp: temp_path_for_def)
  then show ?thesis by auto
qed

lemma write_synced_cases:
  assumes "write_synced d p contents = (d', r)"
  shows "\<forall>q. q \<noteq> p \<longrightarrow> file_at d' q = file_at d q" "r = Inr () \<Longrightarrow> file_at d' p = Some contents"
  using assms
  by (auto simp: write_synced_def split: prod.splits if_splits fault.splits) (auto simp: file_at_def)

lemma rename_file_cases:
  assumes "rename_file d from to = (d', r)" and "from \<noteq> to"
  shows "\<forall>q. q \<noteq> from \<and> q \<noteq> to \<longrightarrow> file_at d' q = file_at d q"
    "r = Inr () \<Longrightarrow> file_at d' to = file_at d from \<and> file_at d' from = None"
    "r = Inl e \<Longrightarrow> file_at d' q = file_at d q"
  using assms
  by (auto simp: rename_file_def split: prod.splits if_splits option.splits) (auto simp: file_at_def)

lemma remove_file_other: "q \<noteq> p \<Longrightarrow> file_at (remove_file d p) q = file_at d q"
  by (auto simp: remove_file_def split: prod.splits) (auto simp: file_at_def)

lemma write_atomic_cases:
  assumes "write_atomic d p contents = (d', r)"
  shows "r = Inr () \<Longrightarrow> file_at d' p = Some contents"
    and "r = Inl e \<Longrightarrow> file_at d' p = file_at d p"
    and "q \<noteq> p \<Longrightarrow> q \<noteq> snd (temp_path_for d p) \<Longrightarrow> file_at d' q = file_at d q"
    and "r = Inr () \<Longrightarrow> file_at d' (snd (temp_path_for d p)) = None"
proof -
  obtain d1 temp where t: "temp_path_for d p = (d1, temp)" by (cases "temp_path_for d p")
  note temp = temp_path_other [OF t]
  then have f1: "file_at d1 q = file_at d q" and np: "p \<noteq> temp" for q by (auto simp: file_at_def)
  obtain d2 w where w: "write_synced d1 temp contents = (d2, w)" by (cases "write_synced d1 temp contents")
  note ws = write_synced_cases [OF w]
  have d2: "file_at d2 q = file_at d q" if "q \<noteq> temp" for q using ws(1) f1 that by metis
  have "(r = Inr () \<longrightarrow> file_at d' p = Some contents \<and> file_at d' temp = None) \<and>
    ((\<exists>e. r = Inl e) \<longrightarrow> file_at d' p = file_at d p) \<and> (\<forall>q. q \<noteq> p \<and> q \<noteq> temp \<longrightarrow> file_at d' q = file_at d q)"
  proof (cases w)
    case (Inl e)
    then have "d' = remove_file d2 temp" "r = Inl e"
      using assms by (auto simp: write_atomic_def write_atomic_with_def t w)
    then show ?thesis using np by (simp add: remove_file_other d2)
  next
    case (Inr u)
    obtain d3 s where s: "rename_file d2 temp p = (d3, s)" by (cases "rename_file d2 temp p")
    note rn = rename_file_cases [OF s]
    show ?thesis
    proof (cases s)
      case (Inl e)
      then have "d' = remove_file d3 temp" "r = Inl e"
        using assms \<open>w = Inr u\<close> by (auto simp: write_atomic_def write_atomic_with_def t w s)
      moreover have "file_at d3 q = file_at d2 q" for q using rn(3) temp Inl by blast
      ultimately show ?thesis using np by (simp add: remove_file_other d2)
    next
      case (Inr u')
      then have "d' = d3" "r = Inr ()"
        using assms \<open>w = Inr u\<close> by (auto simp: write_atomic_def write_atomic_with_def t w s)
      moreover have "file_at d3 q = file_at d q" if "q \<noteq> temp" "q \<noteq> p" for q using rn(1) temp d2 that by metis
      ultimately show ?thesis using temp ws(2) rn(2) Inr \<open>w = Inr u\<close> by simp
    qed
  qed
  then show "r = Inr () \<Longrightarrow> file_at d' p = Some contents" "r = Inl e \<Longrightarrow> file_at d' p = file_at d p"
    "q \<noteq> p \<Longrightarrow> q \<noteq> snd (temp_path_for d p) \<Longrightarrow> file_at d' q = file_at d q"
    "r = Inr () \<Longrightarrow> file_at d' (snd (temp_path_for d p)) = None"
    unfolding t snd_conv by blast+
qed

interpretation disk_files: atomic_files file_at write_atomic
  by unfold_locales (auto dest: write_atomic_cases)

section \<open>Properties\<close>

text \<open>
  Claim C29. A file is replaced all at once: whatever call of the file system fails, and after however
  many bytes, the file then holds the old bytes or the new ones, the new ones exactly when the writer
  reports success; no other file changes but the temporary one, and success leaves no temporary file.
\<close>

theorem write_atomic_all_or_nothing:
  "file_at (fst (write_atomic d p contents)) p =
     (if is_ok (snd (write_atomic d p contents)) then Some contents else file_at d p) \<and>
   (q \<notin> {p, snd (temp_path_for d p)} \<longrightarrow> file_at (fst (write_atomic d p contents)) q = file_at d q) \<and>
   (is_ok (snd (write_atomic d p contents)) \<longrightarrow>
      file_at (fst (write_atomic d p contents)) (snd (temp_path_for d p)) = None)"
proof -
  obtain d' r where w: "write_atomic d p contents = (d', r)" by (cases "write_atomic d p contents")
  note c = write_atomic_cases [OF w]
  show ?thesis
  proof (cases r)
    case (Inl e)
    then show ?thesis using c(2) [of e] c(3) [of q] w by simp
  next
    case (Inr u)
    then show ?thesis using c(1,4) c(3) [of q] w by simp
  qed
qed

theorem write_atomic_all_or_nothing_witness:
  "let p = (''dir'', ''a''); d = \<lparr> dk_files = [(p, ''old'')], dk_serial = 0, dk_pid = 7, dk_faults = [FailsAfter 1] \<rparr>
   in file_at (fst (write_atomic d p ''new'')) p = Some ''old'' \<and>
      file_at (fst (write_atomic d p ''new'')) (''dir'', ''b'') = None"
proof -
  let ?p = "(''dir'', ''a'')"
  let ?d = "\<lparr> dk_files = [(?p, ''old'')], dk_serial = 0, dk_pid = 7, dk_faults = [FailsAfter 1] \<rparr>"
  have a: "\<not> is_ok (snd (write_atomic ?d ?p ''new''))" "file_at ?d ?p = Some ''old''" "file_at ?d (''dir'', ''b'') = None"
    "(''dir'', ''b'') \<notin> {?p, snd (temp_path_for ?d ?p)}" by code_simp+
  show ?thesis unfolding Let_def using a write_atomic_all_or_nothing [of ?d ?p "''new''" "(''dir'', ''b'')"] by simp
qed

end
