(* ===== verification/State_Store.thy ===== *)
theory State_Store
  imports Peer Files
begin

text \<open>
  The sealed local state of the E2E device, from \<^verbatim>\<open>e2e_state.rs\<close>: the data, the seal, opening with
  the migration of the first schema, and every operation of the store. An operation takes the
  libraries (\<open>store_env\<close>: the cipher, the JSON form, the pickles, the hash), the disk and the nonce
  the cipher draws, and returns the disk, the store and the result.
\<close>

section \<open>Data\<close>

datatype E2eStoreError =
  SecureStorageUnavailable | StoreKey string | NoDataDir | InUse | Corrupted | WrongKey | StoreIo string

record PendingRevoke =
  rev_ed25519 :: string
  rev_did :: string

record StateData =
  sd_account :: "string option"
  sd_sessions :: "(string \<times> string) list"
  sd_master :: "string option"
  sd_signed_list :: "SignedList option"
  sd_list_pending :: bool
  sd_list_migrated :: bool
  sd_device_certificate :: "VersionedDeviceCertificate option"
  sd_trust :: PeerTrust
  sd_pending_pairing :: "string option"
  sd_replay :: ReplayState
  sd_pending_revoke :: "PendingRevoke option"
  sd_own_revoked :: "string list"
  sd_reset_pending :: bool
  sd_dropped_rows :: "(string \<times> string) list"

definition StateData_default :: StateData where
  "StateData_default = \<lparr>
     sd_account = None, sd_sessions = [], sd_master = None, sd_signed_list = None, sd_list_pending = False,
     sd_list_migrated = False, sd_device_certificate = None, sd_trust = [], sd_pending_pairing = None,
     sd_replay = ReplayState_default, sd_pending_revoke = None, sd_own_revoked = [],
     sd_reset_pending = False, sd_dropped_rows = [] \<rparr>"

record ('a, 's) store_env =
  aead_encrypt :: "string \<Rightarrow> string \<Rightarrow> string \<Rightarrow> string \<Rightarrow> string option"
  aead_decrypt :: "string \<Rightarrow> string \<Rightarrow> string \<Rightarrow> string \<Rightarrow> string option"
  json_of :: "StateData \<Rightarrow> string option"
  of_json :: "string \<Rightarrow> StateData option"
  store_hash :: "string \<Rightarrow> string"
  account_pickle :: "'a \<Rightarrow> string \<Rightarrow> string"
  account_unpickle :: "string \<Rightarrow> string \<Rightarrow> 'a option"
  account_ed25519 :: "'a \<Rightarrow> string"
  session_pickle :: "'s \<Rightarrow> string \<Rightarrow> string"
  session_unpickle :: "string \<Rightarrow> string \<Rightarrow> 's option"

record Store =
  st_path :: path
  st_key :: string
  st_data :: StateData

definition MAGIC_V1 :: string where "MAGIC_V1 = ''CORDIALE-E2E-STATE-1''"
definition MAGIC :: string where "MAGIC = ''CORDIALE-E2E-STATE-2''"
definition NONCE_LEN :: nat where "NONCE_LEN = 24"
definition CHECK_LEN :: nat where "CHECK_LEN = 16"
definition CHECK_DOMAIN :: string where "CHECK_DOMAIN = ''cordiale-e2e-state-key-check''"
definition STAGING_SUFFIX :: string where "STAGING_SUFFIX = ''.migrating''"

section \<open>The seal\<close>

definition key_check :: "('a, 's) store_env \<Rightarrow> string \<Rightarrow> string" where
  "key_check E key = take CHECK_LEN (store_hash E (CHECK_DOMAIN @ key))"

definition seal :: "('a, 's) store_env \<Rightarrow> string \<Rightarrow> string \<Rightarrow> StateData \<Rightarrow> E2eStoreError + string" where
  "seal E key nonce data =
     rbind (ok_or (json_of E data) (StoreIo ''json'')) (\<lambda>plain.
       let header = MAGIC @ key_check E key in
       rbind (ok_or (aead_encrypt E key nonce plain header) Corrupted) (\<lambda>sealed.
         Inr (header @ nonce @ sealed)))"

definition open_sealed :: "('a, 's) store_env \<Rightarrow> string \<Rightarrow> string \<Rightarrow> string \<Rightarrow> E2eStoreError + string" where
  "open_sealed E key body aad =
     (if length body < NONCE_LEN then Inl Corrupted
      else ok_or (aead_decrypt E key (take NONCE_LEN body) (drop NONCE_LEN body) aad) Corrupted)"

definition parse_state :: "('a, 's) store_env \<Rightarrow> string \<Rightarrow> E2eStoreError + StateData" where
  "parse_state E plain = ok_or (of_json E plain) Corrupted"

definition unseal :: "('a, 's) store_env \<Rightarrow> string \<Rightarrow> string \<Rightarrow> E2eStoreError + (StateData \<times> bool)" where
  "unseal E key raw =
     (if starts_with MAGIC_V1 raw then
        rbind (open_sealed E key (drop (length MAGIC_V1) raw) MAGIC_V1) (\<lambda>plain.
        rbind (parse_state E plain) (\<lambda>data. Inr (data, True)))
      else
        let header_len = length MAGIC + CHECK_LEN in
        if \<not> starts_with MAGIC raw \<or> length raw < header_len + NONCE_LEN then Inl Corrupted
        else if drop (length MAGIC) (take header_len raw) \<noteq> key_check E key then Inl WrongKey
        else rbind (open_sealed E key (drop header_len raw) (take header_len raw)) (\<lambda>plain.
             rbind (parse_state E plain) (\<lambda>data. Inr (data, False))))"

section \<open>Commit and migration\<close>

definition commit ::
    "('a, 's) store_env \<Rightarrow> disk \<Rightarrow> string \<Rightarrow> Store \<Rightarrow> (StateData \<Rightarrow> StateData) \<Rightarrow> disk \<times> Store \<times> (E2eStoreError + unit)" where
  "commit E d nonce s change =
     (let next = change (st_data s) in
      commit_with write_atomic StoreIo d (st_path s) (seal E (st_key s) nonce next) s (s\<lparr>st_data := next\<rparr>))"

definition write_checked ::
    "('a, 's) store_env \<Rightarrow> disk \<Rightarrow> string \<Rightarrow> Store \<Rightarrow> path \<Rightarrow> disk \<times> (E2eStoreError + unit)" where
  "write_checked E d nonce s staging =
     (case seal E (st_key s) nonce (st_data s) of
        Inl e \<Rightarrow> (d, Inl e)
      | Inr bytes \<Rightarrow>
          (case write_atomic d staging bytes of
             (d, Inl e) \<Rightarrow> (d, Inl (StoreIo e))
           | (d, Inr _) \<Rightarrow>
               (case fs_read d staging of
                  (d, Inl e) \<Rightarrow> (d, Inl (StoreIo e))
                | (d, Inr raw) \<Rightarrow>
                    (case unseal E (st_key s) raw of
                       Inl e \<Rightarrow> (d, Inl e)
                     | Inr (back, legacy) \<Rightarrow>
                         if \<not> legacy \<and> back = st_data s then (d, Inr ()) else (d, Inl Corrupted)))))"

definition staging_path :: "path \<Rightarrow> path" where
  "staging_path p = (fst p, snd p @ STAGING_SUFFIX)"

definition migrate :: "('a, 's) store_env \<Rightarrow> disk \<Rightarrow> string \<Rightarrow> Store \<Rightarrow> disk \<times> (E2eStoreError + unit)" where
  "migrate E d nonce s =
     (let staging = staging_path (st_path s) in
      case (case write_checked E d nonce s staging of
              (d, Inl e) \<Rightarrow> (d, Inl e)
            | (d, Inr _) \<Rightarrow> (case rename_file d staging (st_path s) of (d, r) \<Rightarrow> (d, map_err StoreIo r))) of
        (d, Inl e) \<Rightarrow> (remove_file d staging, Inl e)
      | (d, Inr _) \<Rightarrow> (d, Inr ()))"

text \<open>The lock of the sidecar file is an outcome of the system, as is the key of the provider. The
  folder exists.\<close>

datatype lock_outcome = LockTaken | LockHeld | LockError string

definition open_store ::
    "('a, 's) store_env \<Rightarrow> disk \<Rightarrow> string \<Rightarrow> path \<Rightarrow> lock_outcome \<Rightarrow> E2eStoreError + string
     \<Rightarrow> disk \<times> (E2eStoreError + Store)" where
  "open_store E d nonce p lock provided_key =
     (case lock of
        LockHeld \<Rightarrow> (d, Inl InUse)
      | LockError e \<Rightarrow> (d, Inl (StoreIo e))
      | LockTaken \<Rightarrow>
          (case provided_key of
             Inl e \<Rightarrow> (d, Inl e)
           | Inr key \<Rightarrow>
               (if file_at d p = None then (d, Inr \<lparr> st_path = p, st_key = key, st_data = StateData_default \<rparr>)
                else (case fs_read d p of
                        (d, Inl e) \<Rightarrow> (d, Inl (StoreIo e))
                      | (d, Inr raw) \<Rightarrow>
                          (case unseal E key raw of
                             Inl e \<Rightarrow> (d, Inl e)
                           | Inr (data, legacy) \<Rightarrow>
                               let store = \<lparr> st_path = p, st_key = key, st_data = data \<rparr> in
                               if legacy then
                                 (case migrate E d nonce store of
                                    (d, Inl e) \<Rightarrow> (d, Inl e)
                                  | (d, Inr _) \<Rightarrow> (d, Inr store))
                               else (d, Inr store))))))"

section \<open>Reading the store\<close>

definition olm_identity :: "('a, 's) store_env \<Rightarrow> Store \<Rightarrow> E2eStoreError + 'a option" where
  "olm_identity E s =
     (case sd_account (st_data s) of
        None \<Rightarrow> Inr None
      | Some text \<Rightarrow> rbind (ok_or (account_unpickle E text (st_key s)) Corrupted) (\<lambda>a. Inr (Some a)))"

definition device_key :: "('a, 's) store_env \<Rightarrow> Store \<Rightarrow> E2eStoreError + string option" where
  "device_key E s = rbind (olm_identity E s) (\<lambda>a. Inr (map_option (account_ed25519 E) a))"

definition get_session :: "('a, 's) store_env \<Rightarrow> Store \<Rightarrow> string \<Rightarrow> E2eStoreError + 's option" where
  "get_session E s i =
     (case map_of (sd_sessions (st_data s)) i of
        None \<Rightarrow> Inr None
      | Some text \<Rightarrow> rbind (ok_or (session_unpickle E text (st_key s)) Corrupted) (\<lambda>x. Inr (Some x)))"

definition peer_session :: "('a, 's) store_env \<Rightarrow> Store \<Rightarrow> string \<Rightarrow> string \<Rightarrow> string \<Rightarrow> E2eStoreError + 's option" where
  "peer_session E s network nick did = get_session E s (peer_device_key network nick did)"

definition master_key :: "('a, 's) store_env \<Rightarrow> Store \<Rightarrow> E2eStoreError + 'a option" where
  "master_key E s =
     (case sd_master (st_data s) of
        None \<Rightarrow> Inr None
      | Some text \<Rightarrow> rbind (ok_or (account_unpickle E text (st_key s)) Corrupted) (\<lambda>a. Inr (Some a)))"

definition master_public_key :: "('a, 's) store_env \<Rightarrow> Store \<Rightarrow> E2eStoreError + string option" where
  "master_public_key E s =
     (case sd_device_certificate (st_data s) of
        Some certificate \<Rightarrow> Inr (Some (vc_master_ed25519 certificate))
      | None \<Rightarrow> rbind (master_key E s) (\<lambda>m. Inr (map_option (account_ed25519 E) m)))"

section \<open>Changing the store\<close>

text \<open>The change each operation commits. \<open>None\<close> is an operation that writes nothing.\<close>

definition change_account :: "string \<Rightarrow> StateData \<Rightarrow> StateData" where
  "change_account text data = data\<lparr>sd_account := Some text\<rparr>"

definition change_session :: "string \<Rightarrow> string \<Rightarrow> StateData \<Rightarrow> StateData" where
  "change_session i text data = data\<lparr>sd_sessions := AList.update i text (sd_sessions data)\<rparr>"

definition change_remove_session :: "string \<Rightarrow> StateData \<Rightarrow> StateData option" where
  "change_remove_session key data =
     (if map_of (sd_sessions data) key = None then None
      else Some (data\<lparr>sd_sessions := AList.delete key (sd_sessions data)\<rparr>))"

definition stale_sessions :: "string \<Rightarrow> (string \<Rightarrow> bool) \<Rightarrow> StateData \<Rightarrow> string list" where
  "stale_sessions network is_peer data =
     filter (\<lambda>key. case strip_prefix (network @ [CHR 0x00]) key of
                     None \<Rightarrow> False
                   | Some rest \<Rightarrow> is_peer (hd (split_char CHR 0x00 rest)))
       (map fst (sd_sessions data))"

definition change_remove_sessions :: "string \<Rightarrow> (string \<Rightarrow> bool) \<Rightarrow> StateData \<Rightarrow> StateData option" where
  "change_remove_sessions network is_peer data =
     (let stale = stale_sessions network is_peer data in
      if stale = [] then None
      else Some (data\<lparr>sd_sessions := fold AList.delete stale (sd_sessions data)\<rparr>))"

definition change_inbound ::
    "string \<Rightarrow> string \<Rightarrow> string option \<Rightarrow> ReplayState option \<Rightarrow> StateData \<Rightarrow> StateData" where
  "change_inbound key session_text account_text replay data =
     (let data = data\<lparr>sd_sessions := AList.update key session_text (sd_sessions data)\<rparr>;
          data = (case account_text of None \<Rightarrow> data | Some text \<Rightarrow> data\<lparr>sd_account := Some text\<rparr>)
      in case replay of None \<Rightarrow> data | Some r \<Rightarrow> data\<lparr>sd_replay := r\<rparr>)"

definition change_replay :: "ReplayState \<Rightarrow> StateData \<Rightarrow> StateData" where
  "change_replay replay data = data\<lparr>sd_replay := replay\<rparr>"

definition change_master :: "string \<Rightarrow> StateData \<Rightarrow> StateData" where
  "change_master text data = data\<lparr>sd_master := Some text\<rparr>"

definition change_signed_list :: "SignedList \<Rightarrow> StateData \<Rightarrow> StateData" where
  "change_signed_list l data = data\<lparr>sd_signed_list := Some l\<rparr>"

definition change_signed_list_pending :: "SignedList \<Rightarrow> StateData \<Rightarrow> StateData" where
  "change_signed_list_pending l data = data\<lparr>sd_signed_list := Some l, sd_list_pending := True\<rparr>"

definition change_published_list :: "SignedList \<Rightarrow> StateData \<Rightarrow> StateData" where
  "change_published_list l data = data\<lparr>sd_signed_list := Some l, sd_list_pending := False\<rparr>"

definition change_list_migrated :: "StateData \<Rightarrow> StateData option" where
  "change_list_migrated data = (if sd_list_migrated data then None else Some (data\<lparr>sd_list_migrated := True\<rparr>))"

definition change_migrated_list :: "SignedList \<Rightarrow> bool \<Rightarrow> StateData \<Rightarrow> StateData" where
  "change_migrated_list l pending data =
     data\<lparr>sd_signed_list := Some l, sd_list_pending := (sd_list_pending data \<or> pending), sd_list_migrated := True\<rparr>"

definition change_clear_list_pending :: "StateData \<Rightarrow> StateData option" where
  "change_clear_list_pending data =
     (if \<not> sd_list_pending data then None else Some (data\<lparr>sd_list_pending := False\<rparr>))"

definition change_device_certificate :: "VersionedDeviceCertificate \<Rightarrow> StateData \<Rightarrow> StateData" where
  "change_device_certificate c data = data\<lparr>sd_device_certificate := Some c\<rparr>"

definition change_trust :: "PeerTrust \<Rightarrow> StateData \<Rightarrow> StateData" where
  "change_trust t data = data\<lparr>sd_trust := t\<rparr>"

definition change_dropped_row :: "string \<Rightarrow> string \<Rightarrow> StateData \<Rightarrow> StateData option" where
  "change_dropped_row row reason data =
     (if map_of (sd_dropped_rows data) row \<noteq> None then None
      else Some (data\<lparr>sd_dropped_rows := AList.update row reason (sd_dropped_rows data)\<rparr>))"

definition change_pending_pairing :: "string \<Rightarrow> StateData \<Rightarrow> StateData" where
  "change_pending_pairing state data = data\<lparr>sd_pending_pairing := Some state\<rparr>"

definition change_clear_pending_pairing :: "StateData \<Rightarrow> StateData option" where
  "change_clear_pending_pairing data =
     (if sd_pending_pairing data = None then None else Some (data\<lparr>sd_pending_pairing := None\<rparr>))"

definition change_begin_revoke :: "PendingRevoke \<Rightarrow> SignedList \<Rightarrow> StateData \<Rightarrow> StateData" where
  "change_begin_revoke pending l data =
     (let data = (if rev_ed25519 pending \<in> set (sd_own_revoked data) then data
                  else data\<lparr>sd_own_revoked := sd_own_revoked data @ [rev_ed25519 pending]\<rparr>)
      in data\<lparr>sd_signed_list := Some l, sd_list_pending := True, sd_pending_revoke := Some pending\<rparr>)"

definition change_clear_pending_revoke :: "StateData \<Rightarrow> StateData option" where
  "change_clear_pending_revoke data =
     (if sd_pending_revoke data = None then None else Some (data\<lparr>sd_pending_revoke := None\<rparr>))"

definition change_begin_reset :: "StateData \<Rightarrow> StateData option" where
  "change_begin_reset data = (if sd_reset_pending data then None else Some (data\<lparr>sd_reset_pending := True\<rparr>))"

definition change_finish_reset :: "string \<Rightarrow> string \<Rightarrow> StateData \<Rightarrow> StateData" where
  "change_finish_reset network own_nick data =
     data\<lparr>sd_trust := release_master (sd_trust data) network own_nick,
          sd_account := None, sd_master := None, sd_sessions := [], sd_pending_pairing := None,
          sd_signed_list := None, sd_list_pending := False, sd_list_migrated := False,
          sd_device_certificate := None, sd_pending_revoke := None, sd_own_revoked := [],
          sd_reset_pending := False\<rparr>"

section \<open>The operations\<close>

datatype ('a, 's) StoreOp =
  SetAccount 'a
| SetSession string 's
| SetPeerSession string string string 's
| RemovePeerSession string string string
| RemovePeerSessions string "string \<Rightarrow> bool"
| SetInbound string string string 's "'a option" "ReplayState option"
| SetReplay ReplayState
| SetMasterKey 'a
| SetSignedList SignedList
| SetSignedListPending SignedList
| SetPublishedList SignedList
| SetListMigrated
| SetMigratedList SignedList bool
| ClearListPending
| SetDeviceCertificate VersionedDeviceCertificate
| SetTrust PeerTrust
| SetDroppedRow string string
| SetPendingPairing string
| ClearPendingPairing
| BeginRevoke PendingRevoke SignedList
| ClearPendingRevoke
| BeginReset
| FinishReset string string

fun store_change :: "('a, 's) store_env \<Rightarrow> string \<Rightarrow> ('a, 's) StoreOp \<Rightarrow> StateData \<Rightarrow> StateData option" where
  "store_change E key (SetAccount a) data = Some (change_account (account_pickle E a key) data)"
| "store_change E key (SetSession i x) data = Some (change_session i (session_pickle E x key) data)"
| "store_change E key (SetPeerSession n k did x) data =
     Some (change_session (peer_device_key n k did) (session_pickle E x key) data)"
| "store_change E key (RemovePeerSession n k did) data = change_remove_session (peer_device_key n k did) data"
| "store_change E key (RemovePeerSessions n is_peer) data = change_remove_sessions n is_peer data"
| "store_change E key (SetInbound n k did x a r) data =
     Some (change_inbound (peer_device_key n k did) (session_pickle E x key)
             (map_option (\<lambda>a. account_pickle E a key) a) r data)"
| "store_change E key (SetReplay r) data = Some (change_replay r data)"
| "store_change E key (SetMasterKey a) data = Some (change_master (account_pickle E a key) data)"
| "store_change E key (SetSignedList l) data = Some (change_signed_list l data)"
| "store_change E key (SetSignedListPending l) data = Some (change_signed_list_pending l data)"
| "store_change E key (SetPublishedList l) data = Some (change_published_list l data)"
| "store_change E key SetListMigrated data = change_list_migrated data"
| "store_change E key (SetMigratedList l pending) data = Some (change_migrated_list l pending data)"
| "store_change E key ClearListPending data = change_clear_list_pending data"
| "store_change E key (SetDeviceCertificate c) data = Some (change_device_certificate c data)"
| "store_change E key (SetTrust t) data = Some (change_trust t data)"
| "store_change E key (SetDroppedRow row reason) data = change_dropped_row row reason data"
| "store_change E key (SetPendingPairing state) data = Some (change_pending_pairing state data)"
| "store_change E key ClearPendingPairing data = change_clear_pending_pairing data"
| "store_change E key (BeginRevoke pending l) data = Some (change_begin_revoke pending l data)"
| "store_change E key ClearPendingRevoke data = change_clear_pending_revoke data"
| "store_change E key BeginReset data = change_begin_reset data"
| "store_change E key (FinishReset n k) data = Some (change_finish_reset n k data)"

definition store_step ::
    "('a, 's) store_env \<Rightarrow> disk \<Rightarrow> string \<Rightarrow> Store \<Rightarrow> ('a, 's) StoreOp \<Rightarrow> disk \<times> Store \<times> (E2eStoreError + unit)" where
  "store_step E d nonce s x =
     (case store_change E (st_key s) x (st_data s) of
        None \<Rightarrow> (d, s, Inr ())
      | Some _ \<Rightarrow> commit E d nonce s (\<lambda>data. the (store_change E (st_key s) x data)))"

fun store_run ::
    "('a, 's) store_env \<Rightarrow> disk \<times> Store \<Rightarrow> (string \<times> ('a, 's) StoreOp) list \<Rightarrow> disk \<times> Store" where
  "store_run E (d, s) [] = (d, s)"
| "store_run E (d, s) ((nonce, x) # xs) = (case store_step E d nonce s x of (d', s', _) \<Rightarrow> store_run E (d', s') xs)"

section \<open>Lemmas: the seal\<close>

text \<open>Documented behaviour of the libraries: decryption undoes encryption under the same key, nonce
  and associated data, the JSON text of a value reads back as the value, and a hash has at least
  sixteen bytes.\<close>

definition store_env_ok :: "('a, 's) store_env \<Rightarrow> bool" where
  "store_env_ok E \<longleftrightarrow>
     (\<forall>key nonce msg aad c. aead_encrypt E key nonce msg aad = Some c \<longrightarrow> aead_decrypt E key nonce c aad = Some msg) \<and>
     (\<forall>data text. json_of E data = Some text \<longrightarrow> of_json E text = Some data) \<and>
     (\<forall>x. CHECK_LEN \<le> length (store_hash E x))"

lemma length_key_check: "store_env_ok E \<Longrightarrow> length (key_check E key) = CHECK_LEN"
  unfolding store_env_ok_def key_check_def by (simp add: min_absorb2)

lemma magic_facts: "length MAGIC = 20" "length MAGIC_V1 = 20" "MAGIC \<noteq> MAGIC_V1"
  by (simp_all add: MAGIC_def MAGIC_V1_def)

lemma seal_Inr:
  "seal E key nonce data = Inr raw \<longleftrightarrow>
     (\<exists>plain c. json_of E data = Some plain \<and> aead_encrypt E key nonce plain (MAGIC @ key_check E key) = Some c \<and>
        raw = MAGIC @ key_check E key @ nonce @ c)"
  by (auto simp: seal_def rbind_eq_Inr Let_def)

lemma unseal_sealed:
  assumes "store_env_ok E" "seal E key nonce data = Inr raw" "length nonce = NONCE_LEN"
  shows "unseal E key raw = Inr (data, False)"
    and "key_check E other \<noteq> key_check E key \<Longrightarrow> unseal E other raw = Inl WrongKey"
proof -
  obtain plain c where pc: "json_of E data = Some plain"
    "aead_encrypt E key nonce plain (MAGIC @ key_check E key) = Some c"
    and raw: "raw = MAGIC @ key_check E key @ nonce @ c"
    using assms(2) by (auto simp: seal_Inr)
  have len: "length (key_check E key) = CHECK_LEN" by (rule length_key_check [OF assms(1)])
  have dec: "aead_decrypt E key nonce c (MAGIC @ key_check E key) = Some plain" "of_json E plain = Some data"
    using assms(1) pc by (auto simp: store_env_ok_def)
  have v1: "\<not> starts_with MAGIC_V1 raw" using magic_facts by (simp add: starts_with_def raw)
  have m: "starts_with MAGIC raw" by (simp add: starts_with_def raw)
  have parts: "take (length MAGIC + CHECK_LEN) raw = MAGIC @ key_check E key"
    "drop (length MAGIC + CHECK_LEN) raw = nonce @ c"
    "length raw \<ge> length MAGIC + CHECK_LEN + NONCE_LEN"
    by (simp_all add: raw len assms(3))
  have short: "\<not> length raw < length MAGIC + CHECK_LEN + NONCE_LEN" using parts(3) by simp
  show "unseal E key raw = Inr (data, False)"
    unfolding unseal_def Let_def using v1 m short assms(3) dec
    by (simp add: parts(1,2) open_sealed_def parse_state_def)
  show "unseal E other raw = Inl WrongKey" if "key_check E other \<noteq> key_check E key"
    unfolding unseal_def Let_def using v1 m short that by (simp add: parts(1,2))
qed

section \<open>Lemmas: memory and file stay together\<close>

definition bytes_hold :: "('a, 's) store_env \<Rightarrow> string option \<Rightarrow> Store \<Rightarrow> bool" where
  "bytes_hold E file s \<longleftrightarrow>
     (case file of
        None \<Rightarrow> st_data s = StateData_default
      | Some raw \<Rightarrow> unseal E (st_key s) raw = Inr (st_data s, False))"

definition in_sync :: "('a, 's) store_env \<Rightarrow> disk \<Rightarrow> Store \<Rightarrow> bool" where
  "in_sync E d s \<longleftrightarrow> bytes_hold E (file_at d (st_path s)) s"

lemma commit_facts:
  assumes "store_env_ok E" "length nonce = NONCE_LEN" "in_sync E d s"
    and "commit E d nonce s change = (d', s', r)"
  shows "in_sync E d' s'" "st_path s' = st_path s" "st_key s' = st_key s"
    and "\<exists>e. r = Inl e \<Longrightarrow> s' = s \<and> file_at d' (st_path s) = file_at d (st_path s)"
    and "r = Inr () \<Longrightarrow> st_data s' = change (st_data s)"
proof -
  let ?next = "s\<lparr>st_data := change (st_data s)\<rparr>"
  let ?good = "bytes_hold E"
  have c: "commit_with write_atomic StoreIo d (st_path s) (seal E (st_key s) nonce (change (st_data s))) s ?next = (d', s', r)"
    using assms(4) by (simp add: commit_def Let_def)
  have good: "?good (Some bytes) ?next" if "seal E (st_key s) nonce (change (st_data s)) = Inr bytes" for bytes
    using unseal_sealed(1) [OF assms(1) that assms(2)] by (simp add: bytes_hold_def)
  have old: "?good (file_at d (st_path s)) s" using assms(3) by (simp add: in_sync_def)
  note d = disk_files.commit_durable [OF c, of ?good, OF good old]
  have s': "s' = s \<or> s' = ?next" using d(2,3) by (cases r) auto
  then show path: "st_path s' = st_path s" "st_key s' = st_key s" by auto
  show "in_sync E d' s'" using d(1) path(1) by (simp add: in_sync_def)
  show "\<exists>e. r = Inl e \<Longrightarrow> s' = s \<and> file_at d' (st_path s) = file_at d (st_path s)" using d(2) by simp
  show "r = Inr () \<Longrightarrow> st_data s' = change (st_data s)" using d(3) by simp
qed

lemma store_step_facts:
  assumes "store_env_ok E" "length nonce = NONCE_LEN" "in_sync E d s" "store_step E d nonce s x = (d', s', r)"
  shows "in_sync E d' s'" "st_path s' = st_path s" "st_key s' = st_key s"
    and "\<exists>e. r = Inl e \<Longrightarrow> s' = s \<and> file_at d' (st_path s) = file_at d (st_path s)"
    and "r = Inr () \<Longrightarrow> st_data s' = (case store_change E (st_key s) x (st_data s) of None \<Rightarrow> st_data s | Some data \<Rightarrow> data)"
proof -
  have "in_sync E d' s' \<and> st_path s' = st_path s \<and> st_key s' = st_key s \<and>
    ((\<exists>e. r = Inl e) \<longrightarrow> s' = s \<and> file_at d' (st_path s) = file_at d (st_path s)) \<and>
    (r = Inr () \<longrightarrow> st_data s' = (case store_change E (st_key s) x (st_data s) of None \<Rightarrow> st_data s | Some data \<Rightarrow> data))"
  proof (cases "store_change E (st_key s) x (st_data s)")
    case None
    then show ?thesis using assms(3,4) by (auto simp: store_step_def)
  next
    case (Some data)
    then have c: "commit E d nonce s (\<lambda>data. the (store_change E (st_key s) x data)) = (d', s', r)"
      using assms(4) by (simp add: store_step_def)
    show ?thesis using commit_facts [OF assms(1-3) c] Some by simp
  qed
  then show "in_sync E d' s'" "st_path s' = st_path s" "st_key s' = st_key s"
    "\<exists>e. r = Inl e \<Longrightarrow> s' = s \<and> file_at d' (st_path s) = file_at d (st_path s)"
    "r = Inr () \<Longrightarrow> st_data s' = (case store_change E (st_key s) x (st_data s) of None \<Rightarrow> st_data s | Some data \<Rightarrow> data)"
    by blast+
qed

lemma store_run_sync:
  "\<lbrakk>store_env_ok E; in_sync E d s; \<forall>(nonce, x) \<in> set xs. length nonce = NONCE_LEN; store_run E (d, s) xs = (d', s')\<rbrakk>
   \<Longrightarrow> in_sync E d' s' \<and> st_path s' = st_path s \<and> st_key s' = st_key s"
proof (induction xs arbitrary: d s)
  case (Cons p xs)
  obtain nonce x where p: "p = (nonce, x)" by (cases p)
  obtain d1 s1 r where st: "store_step E d nonce s x = (d1, s1, r)" by (metis prod_cases3)
  have len: "length nonce = NONCE_LEN" using Cons.prems(3) p by simp
  note f = store_step_facts [OF Cons.prems(1) len Cons.prems(2) st]
  have "store_run E (d1, s1) xs = (d', s')" using Cons.prems(4) p st by simp
  from Cons.IH [OF Cons.prems(1) f(1) _ this] Cons.prems(3) p f show ?case by simp
qed simp

lemma open_in_sync:
  assumes "in_sync E d s" "dk_faults d = []"
  shows "open_store E d nonce (st_path s) LockTaken (Inr (st_key s)) = (d, Inr s)"
proof (cases "file_at d (st_path s)")
  case None
  then show ?thesis using assms by (cases s) (simp add: open_store_def in_sync_def bytes_hold_def)
next
  case (Some raw)
  then have "fs_read d (st_path s) = (d, Inr raw)" using assms(2) by (simp add: fs_read_def next_fault_def)
  then show ?thesis using assms Some by (cases s) (simp add: open_store_def in_sync_def bytes_hold_def)
qed

section \<open>Lemmas: the migration\<close>

lemma fs_read_file: "fs_read d p = (d', r) \<Longrightarrow> file_at d' q = file_at d q" "fs_read d p = (d', Inr raw) \<Longrightarrow> file_at d p = Some raw"
  by (auto simp: fs_read_def split: prod.splits if_splits)

lemma staging_other: "staging_path p \<noteq> p"
proof -
  have "length (snd (staging_path p)) > length (snd p)" by (simp add: staging_path_def STAGING_SUFFIX_def)
  then show ?thesis by auto
qed

lemma temp_of_staging: "snd (temp_path_for d (staging_path p)) \<noteq> p"
proof -
  have "length (snd (snd (temp_path_for d (staging_path p)))) > length (snd p)"
    by (simp add: temp_path_for_def staging_path_def STAGING_SUFFIX_def)
  then show ?thesis by auto
qed

lemma write_checked_facts:
  assumes "write_checked E d nonce s (staging_path (st_path s)) = (d', r)"
  shows "file_at d' (st_path s) = file_at d (st_path s)"
    and "r = Inr () \<Longrightarrow> \<exists>raw. file_at d' (staging_path (st_path s)) = Some raw \<and> unseal E (st_key s) raw = Inr (st_data s, False)"
proof -
  let ?p = "st_path s" let ?q = "staging_path ?p"
  have "file_at d' ?p = file_at d ?p \<and>
    (r = Inr () \<longrightarrow> (\<exists>raw. file_at d' ?q = Some raw \<and> unseal E (st_key s) raw = Inr (st_data s, False)))"
  proof (cases "seal E (st_key s) nonce (st_data s)")
    case (Inl e)
    then show ?thesis using assms by (auto simp: write_checked_def)
  next
    case (Inr bytes)
    obtain d1 w where w: "write_atomic d ?q bytes = (d1, w)" by (cases "write_atomic d ?q bytes")
    have d1: "file_at d1 ?p = file_at d ?p"
      using write_atomic_cases(3) [OF w, of ?p] staging_other temp_of_staging by metis
    obtain d2 rd where rd: "fs_read d1 ?q = (d2, rd)" by (cases "fs_read d1 ?q")
    have d2: "file_at d2 ?p = file_at d ?p" "file_at d2 ?q = file_at d1 ?q"
      using fs_read_file(1) [OF rd] d1 by simp_all
    show ?thesis
    proof (cases w)
      case (Inl e)
      then show ?thesis using assms w d1 \<open>seal _ _ _ _ = _\<close> by (auto simp: write_checked_def)
    next
      case w': (Inr u)
      show ?thesis
      proof (cases rd)
        case (Inl e)
        then show ?thesis using assms w w' rd d1 d2 \<open>seal _ _ _ _ = _\<close> by (auto simp: write_checked_def)
      next
        case (Inr raw)
        then have "file_at d2 ?q = Some raw" using fs_read_file(2) [of d1 ?q d2 raw] rd d2(2) by simp
        then show ?thesis using assms w w' rd Inr d1 d2 \<open>seal _ _ _ _ = _\<close>
          by (auto simp: write_checked_def split: sum.splits if_splits)
      qed
    qed
  qed
  then show "file_at d' ?p = file_at d ?p"
    "r = Inr () \<Longrightarrow> \<exists>raw. file_at d' ?q = Some raw \<and> unseal E (st_key s) raw = Inr (st_data s, False)"
    by blast+
qed

lemma migrate_facts:
  assumes "migrate E d nonce s = (d', r)"
  shows "\<exists>e. r = Inl e \<Longrightarrow> file_at d' (st_path s) = file_at d (st_path s)"
    and "r = Inr () \<Longrightarrow> in_sync E d' s"
proof -
  let ?p = "st_path s" let ?q = "staging_path ?p"
  obtain d1 w where w: "write_checked E d nonce s ?q = (d1, w)" by (cases "write_checked E d nonce s ?q")
  note wf = write_checked_facts [OF w]
  obtain d2 rn where rn: "rename_file d1 ?q ?p = (d2, rn)" by (cases "rename_file d1 ?q ?p")
  note rf = rename_file_cases [OF rn staging_other]
  have "((\<exists>e. r = Inl e) \<longrightarrow> file_at d' ?p = file_at d ?p) \<and> (r = Inr () \<longrightarrow> in_sync E d' s)"
  proof (cases w)
    case (Inl e)
    then have "d' = remove_file d1 ?q" "r = Inl e" using assms w by (auto simp: migrate_def)
    moreover have "file_at (remove_file d1 ?q) ?p = file_at d1 ?p"
      using staging_other by (intro remove_file_other) (metis)
    ultimately show ?thesis using wf(1) by simp
  next
    case w': (Inr u)
    show ?thesis
    proof (cases rn)
      case (Inl e)
      then have "d' = remove_file d2 ?q" "r = Inl (StoreIo e)" using assms w w' rn by (auto simp: migrate_def)
      moreover have "file_at (remove_file d2 ?q) ?p = file_at d2 ?p"
        using staging_other by (intro remove_file_other) (metis)
      ultimately show ?thesis using wf(1) rf(3) [OF Inl] by simp
    next
      case (Inr u')
      then have d': "d' = d2" "r = Inr ()" using assms w w' rn by (auto simp: migrate_def)
      obtain raw where "file_at d1 ?q = Some raw" "unseal E (st_key s) raw = Inr (st_data s, False)"
        using wf(2) w' by auto
      then show ?thesis using rf(2) Inr d' by (auto simp: in_sync_def bytes_hold_def)
    qed
  qed
  then show "\<exists>e. r = Inl e \<Longrightarrow> file_at d' ?p = file_at d ?p" "r = Inr () \<Longrightarrow> in_sync E d' s" by blast+
qed

lemma open_store_facts:
  assumes "open_store E d nonce p lock key = (d', r)"
  shows "r = Inl e \<Longrightarrow> file_at d' p = file_at d p"
    and "r = Inr s \<Longrightarrow> st_path s = p \<and> in_sync E d' s \<and>
      (case file_at d p of None \<Rightarrow> st_data s = StateData_default
       | Some raw \<Rightarrow> \<exists>legacy. unseal E (st_key s) raw = Inr (st_data s, legacy))"
proof -
  have "((\<exists>e. r = Inl e) \<longrightarrow> file_at d' p = file_at d p) \<and>
    (\<forall>s. r = Inr s \<longrightarrow> st_path s = p \<and> in_sync E d' s \<and>
      (case file_at d p of None \<Rightarrow> st_data s = StateData_default
       | Some raw \<Rightarrow> \<exists>legacy. unseal E (st_key s) raw = Inr (st_data s, legacy)))"
  proof (cases "lock = LockTaken \<and> (\<exists>k. key = Inr k)")
    case False
    then show ?thesis using assms by (cases lock; cases key) (auto simp: open_store_def)
  next
    case True
    then obtain k where k: "lock = LockTaken" "key = Inr k" by blast
    show ?thesis
    proof (cases "file_at d p")
      case None
      then show ?thesis using assms k by (auto simp: open_store_def in_sync_def bytes_hold_def)
    next
      case (Some raw0)
      obtain d1 rd where rd: "fs_read d p = (d1, rd)" by (cases "fs_read d p")
      have d1: "file_at d1 z = file_at d z" for z using fs_read_file(1) [OF rd] .
      show ?thesis
      proof (cases rd)
        case (Inl e)
        then show ?thesis using assms k Some rd d1 by (auto simp: open_store_def)
      next
        case (Inr raw)
        have raw: "raw = raw0" using fs_read_file(2) rd Inr Some by (metis option.inject)
        show ?thesis
        proof (cases "unseal E k raw")
          case (Inl e)
          then show ?thesis using assms k Some rd Inr d1 \<open>rd = Inr raw\<close> by (auto simp: open_store_def)
        next
          case un: (Inr res)
          obtain data legacy where res: "res = (data, legacy)" by (cases res)
          let ?s = "\<lparr> st_path = p, st_key = k, st_data = data \<rparr>"
          obtain d2 m where m: "migrate E d1 nonce ?s = (d2, m)" by (cases "migrate E d1 nonce ?s")
          note mf = migrate_facts [OF m]
          have eq: "(d', r) = (if legacy then (case m of Inl e \<Rightarrow> (d2, Inl e) | Inr _ \<Rightarrow> (d2, Inr ?s)) else (d1, Inr ?s))"
            using assms k Some rd Inr un res m by (auto simp: open_store_def Let_def split: sum.splits)
          show ?thesis
          proof (cases legacy)
            case True
            then show ?thesis using eq mf d1 Some un res raw by (cases m) auto
          next
            case False
            then show ?thesis using eq d1 Some un res raw by (auto simp: in_sync_def bytes_hold_def)
          qed
        qed
      qed
    qed
  qed
  then show "r = Inl e \<Longrightarrow> file_at d' p = file_at d p"
    "r = Inr s \<Longrightarrow> st_path s = p \<and> in_sync E d' s \<and>
      (case file_at d p of None \<Rightarrow> st_data s = StateData_default
       | Some raw \<Rightarrow> \<exists>legacy. unseal E (st_key s) raw = Inr (st_data s, legacy))"
    by blast+
qed

section \<open>Properties\<close>

text \<open>A concrete environment: the cipher puts key, nonce and associated data in front of the message,
  a pickle is the key and the text, and two values of the data have a JSON text.\<close>

definition toy_pending :: StateData where
  "toy_pending = StateData_default\<lparr>sd_list_pending := True\<rparr>"

definition toy_store_env :: "(string, string) store_env" where
  "toy_store_env = \<lparr>
     aead_encrypt = (\<lambda>key nonce msg aad. Some (key @ nonce @ aad @ msg)),
     aead_decrypt = (\<lambda>key nonce c aad. strip_prefix (key @ nonce @ aad) c),
     json_of = (\<lambda>data. if data = StateData_default then Some ''{}''
                       else if data = toy_pending then Some ''pending'' else None),
     of_json = (\<lambda>text. if text = ''{}'' then Some StateData_default
                       else if text = ''pending'' then Some toy_pending else None),
     store_hash = (\<lambda>x. toy_digest x),
     account_pickle = (\<lambda>a key. key @ a), account_unpickle = (\<lambda>text key. strip_prefix key text),
     account_ed25519 = (\<lambda>a. a),
     session_pickle = (\<lambda>x key. key @ x), session_unpickle = (\<lambda>text key. strip_prefix key text) \<rparr>"

lemma toy_store_env_ok: "store_env_ok toy_store_env"
proof -
  have "strip_prefix (key @ nonce @ aad) (key @ nonce @ aad @ msg) = Some msg" for key nonce aad msg :: string
    using strip_prefix_append [of "key @ nonce @ aad" msg] by simp
  then show ?thesis
    by (auto simp: store_env_ok_def toy_store_env_def CHECK_LEN_def split: if_splits)
qed

definition toy_store :: Store where
  "toy_store = \<lparr> st_path = (''dir'', ''state''), st_key = ''k'', st_data = StateData_default \<rparr>"

definition toy_disk :: "fault list \<Rightarrow> disk" where
  "toy_disk faults = \<lparr> dk_files = [], dk_serial = 0, dk_pid = 1, dk_faults = faults \<rparr>"

definition toy_nonce :: string where
  "toy_nonce = replicate 24 CHR ''n''"

lemma toy_start: "in_sync toy_store_env (toy_disk fs) toy_store"
  by (simp add: in_sync_def bytes_hold_def toy_disk_def toy_store_def file_at_def)

text \<open>
  The sealed file opens to what was sealed: with the same key it gives the data back, and a
  key with another check value is told apart as a wrong key, not as damage.
\<close>

theorem seal_roundtrip:
  assumes "store_env_ok E" and "seal E key nonce data = Inr raw" and "length nonce = NONCE_LEN"
  shows "unseal E key raw = Inr (data, False) \<and>
     (key_check E other \<noteq> key_check E key \<longrightarrow> unseal E other raw = Inl WrongKey)"
  using unseal_sealed [OF assms] by blast

theorem seal_roundtrip_witness:
  "\<exists>raw. seal toy_store_env ''k'' toy_nonce toy_pending = Inr raw \<and>
     unseal toy_store_env ''k'' raw = Inr (toy_pending, False) \<and> unseal toy_store_env ''x'' raw = Inl WrongKey"
proof -
  have "is_ok (seal toy_store_env ''k'' toy_nonce toy_pending)"
    by (simp add: seal_def toy_store_env_def Let_def toy_pending_def StateData_default_def)
  then obtain raw where s: "seal toy_store_env ''k'' toy_nonce toy_pending = Inr raw" by (auto simp: is_ok_iff)
  have k: "key_check toy_store_env ''x'' \<noteq> key_check toy_store_env ''k''"
    by (simp add: key_check_def toy_store_env_def CHECK_LEN_def CHECK_DOMAIN_def toy_digest_def toy_url_clean_def ascii_defs)
  have n: "length toy_nonce = NONCE_LEN" by (simp add: toy_nonce_def NONCE_LEN_def)
  show ?thesis using s k seal_roundtrip [OF toy_store_env_ok s n, of "''x''"] by blast
qed

text \<open>
  Claim C23. The store is transactional. Whatever operations run and whatever calls of the file system
  fail, a failed operation changes neither the file nor the memory, a successful one does exactly its
  change, and at every moment a restart opens the file to the very data in memory.
\<close>

theorem store_is_transactional:
  assumes "store_env_ok E" and "in_sync E d s" and "\<forall>(nonce, x) \<in> set xs. length nonce = NONCE_LEN"
    and "store_run E (d, s) xs = (d', s')" and "length nonce = NONCE_LEN"
    and "store_step E d' nonce s' x = (d2, s2, r)"
  shows "(\<forall>e. r = Inl e \<longrightarrow> s2 = s' \<and> file_at d2 (st_path s) = file_at d' (st_path s)) \<and>
     (r = Inr () \<longrightarrow> st_data s2 =
        (case store_change E (st_key s) x (st_data s') of None \<Rightarrow> st_data s' | Some data \<Rightarrow> data)) \<and>
     open_store E (d2\<lparr>dk_faults := []\<rparr>) n2 (st_path s) LockTaken (Inr (st_key s)) = (d2\<lparr>dk_faults := []\<rparr>, Inr s2)"
proof -
  have run: "in_sync E d' s' \<and> st_path s' = st_path s \<and> st_key s' = st_key s"
    using store_run_sync [OF assms(1-4)] .
  note f = store_step_facts [OF assms(1,5) conjunct1 [OF run] assms(6)]
  have "in_sync E (d2\<lparr>dk_faults := []\<rparr>) s2" using f(1) by (simp add: in_sync_def file_at_def)
  from open_in_sync [OF this, of n2] show ?thesis using f run by auto
qed

theorem store_is_transactional_witness:
  "let r = store_step toy_store_env (toy_disk [NoFault, Fails]) toy_nonce toy_store
             (SetMigratedList \<lparr> sl_version = 1, sl_keys = [], sl_signature = [] \<rparr> True)
   in (\<forall>e. snd (snd r) = Inl e \<longrightarrow> fst (snd r) = toy_store) \<and>
      open_store toy_store_env (fst r\<lparr>dk_faults := []\<rparr>) [] (st_path toy_store) LockTaken (Inr (st_key toy_store))
        = (fst r\<lparr>dk_faults := []\<rparr>, Inr (fst (snd r)))"
proof -
  let ?x = "SetMigratedList \<lparr> sl_version = 1, sl_keys = [], sl_signature = [] \<rparr> True :: (string, string) StoreOp"
  let ?d = "toy_disk [NoFault, Fails]"
  let ?r = "store_step toy_store_env ?d toy_nonce toy_store ?x"
  have n: "length toy_nonce = NONCE_LEN" by (simp add: toy_nonce_def NONCE_LEN_def)
  have run: "store_run toy_store_env (?d, toy_store) [] = (?d, toy_store)" by simp
  have e: "?r = (fst ?r, fst (snd ?r), snd (snd ?r))" by simp
  show ?thesis
    using store_is_transactional [OF toy_store_env_ok toy_start [of "[NoFault, Fails]"] _ run n e, of "[]"]
    unfolding Let_def by simp
qed



text \<open>
  A finished reset removes every private key and pending state of the identity, and keeps
  what protects against the peers: all their revocations, the pinned masters of other nicknames and the
  replay state; only the own nickname may take a new master.
\<close>

theorem reset_keeps_protection:
  assumes "peer_key n k \<noteq> peer_key network own_nick"
  shows "let data' = change_finish_reset network own_nick data in
     sd_account data' = None \<and> sd_master data' = None \<and> sd_sessions data' = [] \<and> sd_pending_pairing data' = None \<and>
     sd_device_certificate data' = None \<and> sd_pending_revoke data' = None \<and> \<not> sd_reset_pending data' \<and>
     sd_replay data' = sd_replay data \<and> sd_dropped_rows data' = sd_dropped_rows data \<and>
     trust_master (sd_trust data') n k = trust_master (sd_trust data) n k \<and>
     trust_master (sd_trust data') network own_nick = None \<and>
     (is_revoked (sd_trust data) n2 k2 ed curve \<longrightarrow> is_revoked (sd_trust data') n2 k2 ed curve)"
proof -
  let ?t = "sd_trust data"
  have "is_revoked ?t n2 k2 ed curve \<longrightarrow> is_revoked (release_master ?t network own_nick) n2 k2 ed curve"
    using trust.keeps_revoked [of n2 k2 "TRelease network own_nick" ?t ed curve] by (simp add: forgets_peer_def)
  moreover have "trust_master (release_master ?t network own_nick) n k = trust_master ?t n k"
    using assms by (auto simp: release_master_def trust_master_def Let_def split: option.splits)
  moreover have "trust_master (release_master ?t network own_nick) network own_nick = None"
    by (auto simp: release_master_def trust_master_def Let_def released_def split: option.splits)
  ultimately show ?thesis by (simp add: change_finish_reset_def Let_def)
qed

theorem reset_keeps_protection_witness:
  "trust_master (sd_trust (change_finish_reset ''net'' ''me'' (StateData_default\<lparr>sd_trust := sample_trust\<rparr>))) ''net'' ''bob''
     = Some (toy_key CHR ''M'')"
proof -
  have p: "peer_key ''net'' ''bob'' \<noteq> peer_key ''net'' ''me''" by (simp add: peer_key_def)
  have m: "trust_master (sd_trust (StateData_default\<lparr>sd_trust := sample_trust\<rparr>)) ''net'' ''bob'' = Some (toy_key CHR ''M'')"
    by code_simp
  show ?thesis
    using m reset_keeps_protection [OF p, of "StateData_default\<lparr>sd_trust := sample_trust\<rparr>" "''net''" "''bob''" "[]" None]
    unfolding Let_def by metis
qed

end
