(* ===== verification/Pairing.thy ===== *)
theory Pairing
  imports Device Refusal
begin

text \<open>
  The data of the pairing relay and the pairing link (\<^verbatim>\<open>e2e_pairing.rs\<close>) and the short
  authentication code of two master keys (\<^verbatim>\<open>e2e_sas.rs\<close>). The calendar arithmetic of the end
  time of an offer is compared with a count of days.
\<close>

section \<open>The relay\<close>

datatype PairingRole = Creator | Joiner

record Rendezvous =
  rv_id :: string
  rv_role :: PairingRole
  rv_expires_at :: string

record RelayMessage =
  rm_seq :: nat
  rm_from :: PairingRole
  rm_payload :: string

datatype ClosedReason = Closed | Expired | Replaced

datatype PairingPush =
  PushMessage string nat PairingRole
| PushClosed string ClosedReason

text \<open>The derived reader of a role: one of the two lower case names.\<close>

definition role_from_value :: "'v json_api \<Rightarrow> 'v \<Rightarrow> PairingRole option" where
  "role_from_value J v =
     Option.bind (as_str J v) (\<lambda>s.
       if s = ''creator'' then Some Creator else if s = ''joiner'' then Some Joiner else None)"

definition PairingPush_from_value :: "'v json_api \<Rightarrow> 'v \<Rightarrow> PairingPush option" where
  "PairingPush_from_value J value =
     Option.bind (str_field J value ''rendezvous_id'') (\<lambda>rendezvous_id.
     Option.bind (str_field J value ''kind'') (\<lambda>kind.
     if kind = ''e2e_pairing_message'' then
       Option.bind (u64_field J value ''seq'') (\<lambda>seq.
       Option.bind (Option.bind (get_field J value ''from'') (role_from_value J)) (\<lambda>from.
         Some (PushMessage rendezvous_id seq from)))
     else if kind = ''e2e_pairing_closed'' then
       Option.bind (str_field J value ''reason'') (\<lambda>reason.
         if reason = ''closed'' then Some (PushClosed rendezvous_id Closed)
         else if reason = ''expired'' then Some (PushClosed rendezvous_id Expired)
         else if reason = ''replaced'' then Some (PushClosed rendezvous_id Replaced)
         else None)
     else None))"

datatype PairingError =
  P_BadLink | P_BadId | P_AlreadyJoined | P_OwnRendezvous | P_NotJoined | P_NotAParty | P_Forbidden
| P_NotFound | P_Rejected | P_RateLimited | P_Unexpected nat

definition relay_error :: "nat \<Rightarrow> string option \<Rightarrow> PairingError" where
  "relay_error status code =
     (if status = 409 \<and> code = Some ''pairing_already_joined'' then P_AlreadyJoined
      else if status = 409 \<and> code = Some ''pairing_own_rendezvous'' then P_OwnRendezvous
      else if status = 409 \<and> code = Some ''pairing_not_joined'' then P_NotJoined
      else if status = 403 \<and> code = Some ''pairing_not_a_party'' then P_NotAParty
      else if status = 403 then P_Forbidden
      else if status = 404 then P_NotFound
      else if status = 413 \<or> status = 422 then P_Rejected
      else if status = 429 then P_RateLimited
      else P_Unexpected status)"

datatype 'h PairingCallError =
  PC_Unavailable | PC_TooLarge | PC_Bad WireError | PC_Relay PairingError | PC_Client "'h GrappaClientError"

definition call_error_from_client :: "'h GrappaClientError \<Rightarrow> 'h PairingCallError" where
  "call_error_from_client err =
     (case err of
        Rejected status code _ \<Rightarrow> PC_Relay (relay_error status code)
      | other \<Rightarrow> PC_Client other)"

section \<open>The pairing link\<close>

definition is_rendezvous_id :: "string \<Rightarrow> bool" where
  "is_rendezvous_id text \<longleftrightarrow>
     length text = 22 \<and>
     list_all (\<lambda>b. is_ascii_alphanumeric b \<or> b = CHR ''-'' \<or> b = CHR ''_'') text"

record PairingLink =
  pl_rendezvous_id :: string
  pl_ephemeral_key :: string

definition PairingLink_new :: "crypto_api \<Rightarrow> string \<Rightarrow> string \<Rightarrow> PairingError + PairingLink" where
  "PairingLink_new C rendezvous_id ephemeral_key =
     (if \<not> is_rendezvous_id rendezvous_id then Inl P_BadId
      else rbind (map_err (\<lambda>_. P_BadLink) (decode_key C ephemeral_key)) (\<lambda>_.
             Inr \<lparr> pl_rendezvous_id = rendezvous_id, pl_ephemeral_key = ephemeral_key \<rparr>))"

fun find_map :: "('a \<Rightarrow> 'b option) \<Rightarrow> 'a list \<Rightarrow> 'b option" where
  "find_map f [] = None"
| "find_map f (x # xs) = (case f x of None \<Rightarrow> find_map f xs | Some y \<Rightarrow> Some y)"

definition PairingLink_parse :: "crypto_api \<Rightarrow> string \<Rightarrow> PairingError + PairingLink" where
  "PairingLink_parse C text =
     (let text = trim text;
          fragment = (case split_once CHR ''#'' text of Some (_, fragment) \<Rightarrow> fragment | None \<Rightarrow> text);
          code = (case find_map (strip_prefix ''pair='') (split_char CHR ''&'' fragment) of
                    Some code \<Rightarrow> code | None \<Rightarrow> fragment)
      in rbind (ok_or (split_once CHR ''.'' code) P_BadLink) (\<lambda>(i, key). PairingLink_new C i key))"

definition PairingLink_code :: "PairingLink \<Rightarrow> string" where
  "PairingLink_code l = pl_rendezvous_id l @ ''.'' @ pl_ephemeral_key l"

text \<open>The buffer is cleared whether or not the text is a link.\<close>

definition take_pairing_link :: "crypto_api \<Rightarrow> string \<Rightarrow> string \<times> (PairingError + PairingLink)" where
  "take_pairing_link C input = ([], PairingLink_parse C input)"

section \<open>Offers\<close>

definition number_at :: "string \<Rightarrow> nat \<Rightarrow> nat \<Rightarrow> int option" where
  "number_at whole from to =
     (let digits = take (to - from) (drop from whole)
      in if list_all is_ascii_digit digits then parse_i64 digits else None)"

text \<open>\<^verbatim>\<open>div_euclid\<close> by a positive number is \<^verbatim>\<open>div\<close> on integers; the other divisions are of numbers
  that are not negative.\<close>

definition civil_days :: "int \<Rightarrow> int \<Rightarrow> int \<Rightarrow> int" where
  "civil_days year month day =
     (let year = (if month \<le> 2 then year - 1 else year);
          era = year div 400;
          year_of_era = year - era * 400;
          month_from_march = (month + 9) mod 12;
          day_of_year = (153 * month_from_march + 2) div 5 + day - 1;
          day_of_era = year_of_era * 365 + year_of_era div 4 - year_of_era div 100 + day_of_year
      in era * 146097 + day_of_era - 719468)"

definition parse_utc_seconds :: "string \<Rightarrow> int option" where
  "parse_utc_seconds text =
     Option.bind (case strip_suffix ''Z'' text of Some t \<Rightarrow> Some t | None \<Rightarrow> strip_suffix ''+00:00'' text) (\<lambda>text.
     Option.bind (case split_once CHR ''.'' text of
                    Some (whole, fraction) \<Rightarrow>
                      (if fraction = [] \<or> \<not> list_all is_ascii_digit fraction then None else Some whole)
                  | None \<Rightarrow> Some text) (\<lambda>whole.
     if length whole \<noteq> 19 \<or> whole ! 4 \<noteq> CHR ''-'' \<or> whole ! 7 \<noteq> CHR ''-'' \<or> whole ! 10 \<noteq> CHR ''T''
        \<or> whole ! 13 \<noteq> CHR '':'' \<or> whole ! 16 \<noteq> CHR '':'' then None
     else
     Option.bind (number_at whole 0 4) (\<lambda>year.
     Option.bind (number_at whole 5 7) (\<lambda>month.
     Option.bind (number_at whole 8 10) (\<lambda>day.
     Option.bind (number_at whole 11 13) (\<lambda>hour.
     Option.bind (number_at whole 14 16) (\<lambda>minute.
     Option.bind (number_at whole 17 19) (\<lambda>second.
     if \<not> (1 \<le> month \<and> month \<le> 12) \<or> \<not> (1 \<le> day \<and> day \<le> 31) \<or> hour > 23 \<or> minute > 59 \<or> second > 59
     then None
     else Some (civil_days year month day * 86400 + hour * 3600 + minute * 60 + second)))))))))"

record PairingOffer =
  of_link :: PairingLink
  of_expires_at :: int

definition offer_from_fields :: "crypto_api \<Rightarrow> 'v json_api \<Rightarrow> 'v \<Rightarrow> PairingOffer option" where
  "offer_from_fields C J value =
     Option.bind (str_field J value ''rendezvous_id'') (\<lambda>i.
     Option.bind (str_field J value ''curve'') (\<lambda>curve.
     Option.bind (case PairingLink_new C i curve of Inl _ \<Rightarrow> None | Inr l \<Rightarrow> Some l) (\<lambda>l.
     Option.bind (str_field J value ''expires_at'') (\<lambda>text.
     Option.bind (parse_utc_seconds text) (\<lambda>secs.
       Some \<lparr> of_link = l, of_expires_at = secs \<rparr>)))))"

definition offer_from_value :: "crypto_api \<Rightarrow> 'v json_api \<Rightarrow> 'v \<Rightarrow> PairingOffer option" where
  "offer_from_value C J value =
     Option.bind (str_field J value ''kind'') (\<lambda>kind.
       if kind \<noteq> ''e2e_pairing_offered'' then None else offer_from_fields C J value)"

definition offer_from_answer :: "crypto_api \<Rightarrow> 'v json_api \<Rightarrow> 'v \<Rightarrow> PairingOffer option" where
  "offer_from_answer C J value = Option.bind (get_field J value ''offer'') (offer_from_fields C J)"

definition offer_is_current :: "PairingOffer \<Rightarrow> int \<Rightarrow> bool" where
  "offer_is_current offer now \<longleftrightarrow>
     now < of_expires_at offer \<and> of_expires_at offer - now \<le> int PAIRING_LIFETIME_SECS"

section \<open>The short authentication code\<close>

definition SAS_DOMAIN :: string where "SAS_DOMAIN = ''cordiale-sas-v1''"
definition SAS_GROUPS :: nat where "SAS_GROUPS = 3"
definition SAS_GROUP_DIGITS :: nat where "SAS_GROUP_DIGITS = 4"

definition be_value :: "string \<Rightarrow> nat" where
  "be_value bytes = foldl (\<lambda>acc c. 256 * acc + char_code c) 0 bytes"

text \<open>Decimal text padded with zeros on the left.\<close>

definition padded :: "nat \<Rightarrow> nat \<Rightarrow> string" where
  "padded width n = replicate (width - length (dec_string n)) CHR ''0'' @ dec_string n"

definition sas_group :: "string \<Rightarrow> nat \<Rightarrow> string" where
  "sas_group hash index =
     padded SAS_GROUP_DIGITS (be_value (take 8 (drop (index * 8) hash)) mod 10 ^ SAS_GROUP_DIGITS)"

definition sas_code :: "crypto_api \<Rightarrow> string \<Rightarrow> string \<Rightarrow> E2eError + string" where
  "sas_code C own_master peer_master =
     rbind (wire (decode_key C own_master)) (\<lambda>own.
     rbind (wire (decode_key C peer_master)) (\<lambda>peer.
       let (low, high) = (if own \<le> peer then (own, peer) else (peer, own));
           hash = sha256 C (SAS_DOMAIN @ low @ high)
       in Inr (join_with '' '' (map (sas_group hash) [0 ..< SAS_GROUPS]))))"

section \<open>Lemmas: the link\<close>

text \<open>A character that no trimming removes: the first and the last byte of every white space
  character are other bytes.\<close>

definition solid :: "char \<Rightarrow> bool" where
  "solid c \<longleftrightarrow> 33 \<le> char_code c \<and> char_code c < 127"

lemma whitespace_not_solid:
  assumes "w \<in> set whitespace_seqs"
  shows "w \<noteq> [] \<and> \<not> solid (hd w) \<and> \<not> solid (last w)"
proof -
  have "list_all (\<lambda>w. w \<noteq> [] \<and> \<not> solid (hd w) \<and> \<not> solid (last w)) whitespace_seqs" by code_simp
  then show ?thesis using assms by (simp add: list_all_iff)
qed

lemma trim_solid:
  assumes "s \<noteq> []" "solid (hd s)" "solid (last s)"
  shows "trim s = s"
proof -
  have "\<not> starts_with w s" if w: "w \<in> set whitespace_seqs" for w
  proof
    assume "starts_with w s"
    then have "hd s = hd w" using whitespace_not_solid [OF w] by (metis starts_with_def hd_take length_greater_0_conv)
    then show False using assms(2) whitespace_not_solid [OF w] by simp
  qed
  then have first: "List.find (\<lambda>w. starts_with w s) whitespace_seqs = None"
    by (auto simp: find_None_iff)
  have "strip_suffix w s = None" if w: "w \<in> set whitespace_seqs" for w
  proof (rule ccontr)
    assume "strip_suffix w s \<noteq> None"
    then obtain r where "strip_suffix w s = Some r" by blast
    then have "s = r @ w" by (rule strip_suffix_SomeD)
    then have "last s = last w" using whitespace_not_solid [OF w] by simp
    then show False using assms(3) whitespace_not_solid [OF w] by simp
  qed
  then have sfx: "List.find (\<lambda>w. strip_suffix w s \<noteq> None) whitespace_seqs = None"
    by (auto simp: find_None_iff)
  have "trim_start_fuel n s = s" for n using first by (cases n) simp_all
  moreover have "trim_end_fuel n s = s" for n using sfx by (cases n) simp_all
  ultimately show ?thesis by (simp add: trim_def Let_def)
qed

lemma PairingLink_new_Inr:
  "PairingLink_new C i key = Inr l \<longleftrightarrow>
     is_rendezvous_id i \<and> (\<exists>raw. decode_key C key = Inr raw) \<and>
     l = \<lparr> pl_rendezvous_id = i, pl_ephemeral_key = key \<rparr>"
  by (auto simp: PairingLink_new_def rbind_eq_Inr)

lemma rendezvous_id_chars:
  assumes "is_rendezvous_id i"
  shows "c \<in> set i \<Longrightarrow> solid c" "CHR ''#'' \<notin> set i" "CHR ''&'' \<notin> set i" "CHR ''.'' \<notin> set i" "CHR ''='' \<notin> set i"
proof -
  have a: "is_ascii_alphanumeric c \<or> c = CHR ''-'' \<or> c = CHR ''_''" if "c \<in> set i" for c
    using assms that by (auto simp: is_rendezvous_id_def list_all_iff)
  then show "c \<in> set i \<Longrightarrow> solid c" by (force simp: solid_def ascii_defs)
  show "CHR ''#'' \<notin> set i" "CHR ''&'' \<notin> set i" "CHR ''.'' \<notin> set i" "CHR ''='' \<notin> set i"
    by (auto dest!: a simp: ascii_defs)
qed

lemma key_text_chars:
  assumes "decode_key C key = Inr raw"
  shows "c \<in> set key \<Longrightarrow> solid c" "CHR ''#'' \<notin> set key" "CHR ''&'' \<notin> set key" "CHR ''='' \<notin> set key"
proof -
  have a: "is_ascii_alphanumeric c \<or> c = CHR ''+'' \<or> c = CHR ''/''" if "c \<in> set key" for c
    using decode_key_chars [OF assms that] by (simp add: is_std_b64_char_def)
  then show "c \<in> set key \<Longrightarrow> solid c" by (force simp: solid_def ascii_defs)
  show "CHR ''#'' \<notin> set key" "CHR ''&'' \<notin> set key" "CHR ''='' \<notin> set key"
    by (auto dest!: a simp: ascii_defs)
qed

lemma split_char_none: "c \<notin> set s \<Longrightarrow> split_char c s = [s]"
  by (induction s) auto

lemma link_body:
  assumes "PairingLink_new C i key = Inr l"
  shows "PairingLink_code l = i @ CHR ''.'' # key" "CHR ''#'' \<notin> set (PairingLink_code l)"
    "CHR ''&'' \<notin> set (PairingLink_code l)" "CHR ''='' \<notin> set (PairingLink_code l)"
    "PairingLink_code l \<noteq> []" "solid (hd (PairingLink_code l))" "solid (last (PairingLink_code l))"
proof -
  obtain raw where f: "is_rendezvous_id i" "decode_key C key = Inr raw"
    "l = \<lparr> pl_rendezvous_id = i, pl_ephemeral_key = key \<rparr>"
    using assms by (auto simp: PairingLink_new_Inr)
  then show e: "PairingLink_code l = i @ CHR ''.'' # key" by (simp add: PairingLink_code_def)
  note ic = rendezvous_id_chars [OF f(1)] and kc = key_text_chars [OF f(2)]
  show "CHR ''#'' \<notin> set (PairingLink_code l)" "CHR ''&'' \<notin> set (PairingLink_code l)"
    "CHR ''='' \<notin> set (PairingLink_code l)"
    unfolding e using ic(2,3,5) kc(2-4) by auto
  show "PairingLink_code l \<noteq> []" by (simp add: e)
  have "i \<noteq> []" using f(1) by (auto simp: is_rendezvous_id_def)
  then show "solid (hd (PairingLink_code l))" unfolding e using ic(1) by (simp add: hd_append)
  have "key \<noteq> []" using decode_key_no_separator(3) [OF f(2)] .
  then show "solid (last (PairingLink_code l))" unfolding e using kc(1) by simp
qed

lemma parse_fragment:
  assumes "PairingLink_new C i key = Inr l" and "trim text = text"
    and "(case split_once CHR ''#'' text of Some (_, f) \<Rightarrow> f | None \<Rightarrow> text) \<in> {PairingLink_code l, ''pair='' @ PairingLink_code l}"
  shows "PairingLink_parse C text = Inr l"
proof -
  let ?code = "PairingLink_code l"
  note b = link_body [OF assms(1)]
  have dot: "split_once CHR ''.'' ?code = Some (i, key)"
    using assms(1) rendezvous_id_chars(4) [of i] unfolding b(1) PairingLink_new_Inr
    by (intro split_once_append) blast
  have plain: "strip_prefix ''pair='' ?code = None"
  proof (rule ccontr)
    assume "strip_prefix ''pair='' ?code \<noteq> None"
    then obtain r where "?code = ''pair='' @ r" using strip_prefix_SomeD by blast
    then show False using b(4) by simp
  qed
  have "find_map (strip_prefix ''pair='') (split_char CHR ''&'' ?code) = None"
    using b(3) plain by (simp add: split_char_none)
  moreover have "find_map (strip_prefix ''pair='') (split_char CHR ''&'' (''pair='' @ ?code)) = Some ?code"
  proof -
    have "split_char CHR ''&'' (''pair='' @ ?code) = [''pair='' @ ?code]"
      using b(3) by (intro split_char_none) simp
    moreover have "strip_prefix ''pair='' (''pair='' @ ?code) = Some ?code" by (rule strip_prefix_append)
    ultimately show ?thesis by (simp only: find_map.simps option.case)
  qed
  ultimately show ?thesis
    using assms dot by (auto simp: PairingLink_parse_def Let_def)
qed

section \<open>Lemmas: the calendar\<close>

definition is_leap :: "int \<Rightarrow> bool" where
  "is_leap y \<longleftrightarrow> y mod 4 = 0 \<and> (y mod 100 \<noteq> 0 \<or> y mod 400 = 0)"

definition month_length :: "int \<Rightarrow> int \<Rightarrow> int" where
  "month_length y m = (if m = 2 then (if is_leap y then 29 else 28) else if m \<in> {4, 6, 9, 11} then 30 else 31)"

text \<open>The date after a date of the Gregorian calendar.\<close>

definition next_date :: "int \<times> int \<times> int \<Rightarrow> int \<times> int \<times> int" where
  "next_date t = (case t of (y, m, d) \<Rightarrow>
     if d < month_length y m then (y, m, d + 1) else if m < 12 then (y, m + 1, 1) else (y + 1, 1, 1))"

definition valid_date :: "int \<times> int \<times> int \<Rightarrow> bool" where
  "valid_date t = (case t of (y, m, d) \<Rightarrow> 1 \<le> m \<and> m \<le> 12 \<and> 1 \<le> d \<and> d \<le> month_length y m)"

definition civil_core :: "int \<Rightarrow> int \<Rightarrow> int \<Rightarrow> int" where
  "civil_core year month day =
     (let year_of_era = year - year div 400 * 400 in
      year div 400 * 146097
      + (year_of_era * 365 + year_of_era div 4 - year_of_era div 100 + ((153 * ((month + 9) mod 12) + 2) div 5 + day - 1))
      - 719468)"

lemma civil_days_core: "civil_days y m d = civil_core (if m \<le> 2 then y - 1 else y) m d"
  by (simp only: civil_days_def civil_core_def Let_def)

lemma civil_core_era: "civil_core (z + 400) m d = civil_core z m d + 146097"
proof -
  have e: "(z + 400) div 400 = z div 400 + 1" by simp
  have y: "z + 400 - (z div 400 + 1) * 400 = z - z div 400 * 400" by simp
  show ?thesis unfolding civil_core_def e y Let_def by simp
qed

lemma civil_days_era: "civil_days (y + 400) m d = civil_days y m d + 146097"
  using civil_core_era [of "y - 1" m d] civil_core_era [of y m d] by (simp add: civil_days_core)

lemma civil_days_eras: "civil_days (y + 400 * int k) m d = civil_days y m d + 146097 * int k"
proof (induction k)
  case (Suc k)
  have "y + 400 * int (Suc k) = (y + 400 * int k) + 400" by simp
  then show ?case by (simp only: civil_days_era Suc)
qed simp

lemma is_leap_era: "is_leap (y + 400 * k) = is_leap y"
proof -
  have "(y + 400 * k) mod 4 = y mod 4" "(y + 400 * k) mod 100 = y mod 100" "(y + 400 * k) mod 400 = y mod 400"
    using mod_mult_self2 [of y 4 "100 * k"] mod_mult_self2 [of y 100 "4 * k"] mod_mult_self2 [of y 400 k] by simp_all
  then show ?thesis by (simp only: is_leap_def)
qed

text \<open>Only the step from February to March depends on the year; it repeats every 400 years.\<close>

lemma civil_days_march_era:
  "list_all (\<lambda>r. civil_days r 3 1 = civil_days r 2 (if is_leap r then 29 else 28) + 1) (map int [0 ..< 400])"
  by code_simp

lemma civil_days_march:
  assumes "0 \<le> y"
  shows "civil_days y 3 1 = civil_days y 2 (if is_leap y then 29 else 28) + 1"
proof -
  define r where "r = y mod 400"
  define k where "k = nat (y div 400)"
  have y: "y = r + 400 * int k" and r: "0 \<le> r" "r < 400" using assms by (simp_all add: r_def k_def pos_imp_zdiv_nonneg_iff)
  have "r \<in> set (map int [0 ..< 400])" using r by (auto simp: image_iff intro!: bexI [of _ "nat r"])
  then have "civil_days r 3 1 = civil_days r 2 (if is_leap r then 29 else 28) + 1"
    using civil_days_march_era unfolding list_all_iff by blast
  then show ?thesis unfolding y by (simp add: civil_days_eras is_leap_era)
qed

lemma civil_days_next_day: "civil_days y m (d + 1) = civil_days y m d + 1"
  by (simp add: civil_days_def Let_def)

lemma month_cases: "1 \<le> (m::int) \<Longrightarrow> m < 12 \<Longrightarrow> m \<in> {1, 2, 3, 4, 5, 6, 7, 8, 9, 10, 11}"
  unfolding insert_iff empty_iff by presburger

lemma civil_days_next_month:
  assumes "0 \<le> y" "1 \<le> m" "m < 12"
  shows "civil_days y (m + 1) 1 = civil_days y m (month_length y m) + 1"
proof (cases "m = 2")
  case True
  then show ?thesis using civil_days_march [OF assms(1)] by (simp add: month_length_def)
next
  case False
  then have "m \<in> {1, 3, 4, 5, 6, 7, 8, 9, 10, 11}" using month_cases [OF assms(2,3)] by auto
  then show ?thesis by (auto simp: civil_days_def Let_def month_length_def)
qed

lemma civil_days_new_year: "civil_days (y + 1) 1 1 = civil_days y 12 31 + 1"
  by (simp add: civil_days_def Let_def)

lemma civil_days_next_date:
  assumes "valid_date (y, m, d)" "0 \<le> y"
  shows "(case next_date (y, m, d) of (y', m', d') \<Rightarrow> civil_days y' m' d') = civil_days y m d + 1"
proof -
  consider "d < month_length y m" | "d = month_length y m" "m < 12" | "d = month_length y m" "m = 12"
    using assms(1) unfolding valid_date_def prod.case by linarith
  then show ?thesis
  proof cases
    case 1
    then show ?thesis by (simp add: next_date_def civil_days_next_day)
  next
    case 2
    then show ?thesis using assms civil_days_next_month [of y m] by (simp add: next_date_def valid_date_def)
  next
    case 3
    then show ?thesis by (simp add: next_date_def civil_days_new_year month_length_def)
  qed
qed

section \<open>Lemmas: the date text\<close>

text \<open>The texts of a link that a user can paste: the code, \<^verbatim>\<open>pair=\<close> and the code, and a URL with
  either of them as its fragment.\<close>

definition link_texts :: "PairingLink \<Rightarrow> string \<Rightarrow> string list" where
  "link_texts l url =
     (let code = PairingLink_code l; pair = ''pair='' @ code in
      [code, pair, url @ CHR ''#'' # code, url @ CHR ''#'' # pair])"

lemma link_text_parses:
  assumes new: "PairingLink_new C i key = Inr l" and url: "CHR ''#'' \<notin> set url" "url \<noteq> [] \<Longrightarrow> solid (hd url)"
    and t: "text \<in> set (link_texts l url)"
  shows "PairingLink_parse C text = Inr l"
proof (rule parse_fragment [OF new])
  let ?code = "PairingLink_code l"
  note b = link_body [OF new]
  have ch: "solid CHR ''p''" "solid CHR ''#''" by (simp_all add: solid_def char_code_def)
  have u: "split_once CHR ''#'' (url @ CHR ''#'' # f) = Some (url, f)" for f using url(1) by (rule split_once_append)
  have n: "split_once CHR ''#'' ?code = None" "split_once CHR ''#'' (''pair='' @ ?code) = None"
    using b(2) by (simp_all add: split_once_None_iff)
  show "trim text = text"
    using t b(5-7) ch url(2) by (intro trim_solid) (auto simp: link_texts_def Let_def hd_append)
  show "(case split_once CHR ''#'' text of None \<Rightarrow> text | Some (x, f) \<Rightarrow> f) \<in> {?code, ''pair='' @ ?code}"
    using t n u by (auto simp: link_texts_def Let_def)
qed

lemma parse_gives_link:
  "PairingLink_parse C text = Inr l \<Longrightarrow> PairingLink_new C (pl_rendezvous_id l) (pl_ephemeral_key l) = Inr l"
  by (auto simp: PairingLink_parse_def Let_def rbind_eq_Inr PairingLink_new_Inr)

text \<open>Two and four digits of a number.\<close>

lemma digits_value_padded: "digits_value 0 (padded w n) = n"
proof -
  have "digits_value 0 (replicate k CHR ''0'') = 0" for k
    by (induction k) (simp_all add: digit_val_def char_code_def)
  then show ?thesis by (simp add: padded_def digits_value_append)
qed

lemma padded_digits: "list_all is_ascii_digit (padded w n)"
  by (auto simp: padded_def list_all_iff dest: dec_string_digit_set) (simp add: ascii_defs)

lemma length_padded: "n < 10 ^ w \<Longrightarrow> 0 < w \<Longrightarrow> length (padded w n) = w"
  using length_dec_string_le [of n w] by (simp add: padded_def)

lemma padded_no_dot: "c \<in> set (padded w n) \<Longrightarrow> c \<noteq> CHR ''.'' \<and> c \<noteq> CHR ''Z''"
  using padded_digits [of w n] by (auto simp: list_all_iff ascii_defs)

text \<open>The text of a time: date, time of day, fraction and offset.\<close>

definition utc_text :: "nat \<times> nat \<times> nat \<Rightarrow> nat \<times> nat \<times> nat \<Rightarrow> string \<Rightarrow> string \<Rightarrow> string" where
  "utc_text date clock fraction zone =
     (case (date, clock) of ((y, m, d), (h, mi, sec)) \<Rightarrow>
        padded 4 y @ ''-'' @ padded 2 m @ ''-'' @ padded 2 d @ ''T'' @ padded 2 h @ '':'' @ padded 2 mi
        @ '':'' @ padded 2 sec @ (if fraction = [] then [] else CHR ''.'' # fraction) @ zone)"

lemma parse_padded: "n < 10 ^ w \<Longrightarrow> 0 < w \<Longrightarrow> w \<le> 4 \<Longrightarrow> parse_i64 (padded w n) = Some (int n)"
proof -
  assume n: "n < 10 ^ w" "0 < w" "w \<le> 4"
  have ne: "padded w n \<noteq> []" by (simp add: padded_def)
  have d: "list_all is_ascii_digit (padded w n)" by (rule padded_digits)
  have "(10::nat) ^ w \<le> 10 ^ 4" using n(3) by (intro power_increasing) simp_all
  with n have "n \<le> i64_max" by (simp add: i64_max_def)
  then have "parse_uint i64_max (padded w n) = Some n" using parse_uint_digits [OF ne d] by (simp add: digits_value_padded)
  moreover have "hd (padded w n) \<noteq> CHR ''-''" using d ne digit_not_special(5) by (cases "padded w n") auto
  ultimately show ?thesis using ne by (cases "padded w n") (auto simp: parse_i64_def)
qed

lemma number_at_part: "length a = i \<Longrightarrow> length p = j - i \<Longrightarrow> list_all is_ascii_digit p \<Longrightarrow> number_at (a @ p @ r) i j = parse_i64 p"
  by (simp add: number_at_def)

lemma whole_fields:
  assumes "y < 10000" "m < 100" "d < 100" "h < 100" "mi < 100" "sec < 100"
    and w: "w = padded 4 y @ ''-'' @ padded 2 m @ ''-'' @ padded 2 d @ ''T'' @ padded 2 h @ '':'' @ padded 2 mi @ '':'' @ padded 2 sec"
  shows "length w = 19" "w ! 4 = CHR ''-''" "w ! 7 = CHR ''-''" "w ! 10 = CHR ''T''" "w ! 13 = CHR '':''" "w ! 16 = CHR '':''"
    "number_at w 0 4 = Some (int y)" "number_at w 5 7 = Some (int m)" "number_at w 8 10 = Some (int d)"
    "number_at w 11 13 = Some (int h)" "number_at w 14 16 = Some (int mi)" "number_at w 17 19 = Some (int sec)"
proof -
  have l: "length (padded 4 y) = 4" "length (padded 2 m) = 2" "length (padded 2 d) = 2" "length (padded 2 h) = 2"
    "length (padded 2 mi) = 2" "length (padded 2 sec) = 2"
    using assms(1-6) by (simp_all add: length_padded)
  have v: "parse_i64 (padded 4 y) = Some (int y)" "parse_i64 (padded 2 m) = Some (int m)" "parse_i64 (padded 2 d) = Some (int d)"
    "parse_i64 (padded 2 h) = Some (int h)" "parse_i64 (padded 2 mi) = Some (int mi)" "parse_i64 (padded 2 sec) = Some (int sec)"
    using assms(1-6) by (simp_all add: parse_padded)
  show "length w = 19" using l by (simp add: w)
  show "w ! 4 = CHR ''-''" "w ! 7 = CHR ''-''" "w ! 10 = CHR ''T''" "w ! 13 = CHR '':''" "w ! 16 = CHR '':''"
    using l by (simp_all add: w nth_append)
  show "number_at w 0 4 = Some (int y)" "number_at w 5 7 = Some (int m)" "number_at w 8 10 = Some (int d)"
    "number_at w 11 13 = Some (int h)" "number_at w 14 16 = Some (int mi)" "number_at w 17 19 = Some (int sec)"
    using l v padded_digits by (simp_all add: w number_at_def)
qed

lemma parse_utc_text:
  assumes "y < 10000" "1 \<le> m" "m \<le> 12" "1 \<le> d" "d \<le> 31" "h \<le> 23" "mi \<le> 59" "sec \<le> 59"
    and frac: "list_all is_ascii_digit fraction" and sfx: "zone \<in> {''Z'', ''+00:00''}"
  shows "parse_utc_seconds (utc_text (y, m, d) (h, mi, sec) fraction zone) =
     Some (civil_days (int y) (int m) (int d) * 86400 + int h * 3600 + int mi * 60 + int sec)"
proof -
  define w where "w = padded 4 y @ ''-'' @ padded 2 m @ ''-'' @ padded 2 d @ ''T'' @ padded 2 h @ '':'' @ padded 2 mi @ '':'' @ padded 2 sec"
  define f where "f = (if fraction = [] then [] else CHR ''.'' # fraction)"
  have whole: "utc_text (y, m, d) (h, mi, sec) fraction zone = (w @ f) @ zone"
    by (simp add: utc_text_def w_def f_def)
  have dot: "CHR ''.'' \<notin> set w" using padded_no_dot by (auto simp: w_def)
  have "(case strip_suffix ''Z'' ((w @ f) @ zone) of None \<Rightarrow> strip_suffix ''+00:00'' ((w @ f) @ zone) | Some t \<Rightarrow> Some t) = Some (w @ f)"
    using sfx by (auto simp: strip_suffix_def split: option.splits)
  moreover have "(case split_once CHR ''.'' (w @ f) of None \<Rightarrow> Some (w @ f)
      | Some (whole, fraction) \<Rightarrow> if fraction = [] \<or> \<not> list_all is_ascii_digit fraction then None else Some whole) = Some w"
  proof (cases "fraction = []")
    case True
    then show ?thesis using dot by (simp add: f_def split_once_None_iff [THEN iffD2])
  next
    case False
    then show ?thesis using dot frac by (simp add: f_def)
  qed
  moreover note whole_fields [OF _ _ _ _ _ _ w_def]
  ultimately show ?thesis
    using assms(1-8) unfolding whole parse_utc_seconds_def by simp
qed

text \<open>The date a number of days after the first of January 1970.\<close>

definition nth_date :: "nat \<Rightarrow> int \<times> int \<times> int" where
  "nth_date n = (next_date ^^ n) (1970, 1, 1)"

lemma next_date_valid: "valid_date (y, m, d) \<Longrightarrow> valid_date (next_date (y, m, d)) \<and> y \<le> fst (next_date (y, m, d))"
  by (auto simp: valid_date_def next_date_def month_length_def)

lemma nth_date_facts:
  obtains y m d where "nth_date n = (y, m, d)" "valid_date (y, m, d)" "1970 \<le> y" "civil_days y m d = int n"
proof -
  have "\<exists>y m d. nth_date n = (y, m, d) \<and> valid_date (y, m, d) \<and> 1970 \<le> y \<and> civil_days y m d = int n"
  proof (induction n)
    case 0
    have "valid_date (1970, 1, 1)" "civil_days 1970 1 1 = 0" by code_simp+
    then show ?case by (simp add: nth_date_def)
  next
    case (Suc n)
    then obtain y m d where t: "nth_date n = (y, m, d)" "valid_date (y, m, d)" "1970 \<le> y" "civil_days y m d = int n" by blast
    obtain y' m' d' where t': "next_date (y, m, d) = (y', m', d')" by (metis prod_cases3)
    have "civil_days y' m' d' = int (Suc n)" using civil_days_next_date [OF t(2)] t(3,4) t' by simp
    moreover have "nth_date (Suc n) = (y', m', d')" using t(1) t' by (simp add: nth_date_def)
    moreover have "valid_date (y', m', d')" "1970 \<le> y'" using next_date_valid [OF t(2)] t' t(3) by simp_all
    ultimately show ?case by blast
  qed
  then show thesis using that by blast
qed

lemma month_length_le: "month_length y m \<le> 31"
  by (simp add: month_length_def)

section \<open>Lemmas: the code of two masters\<close>

lemma sas_group_shape: "length (sas_group hash i) = 4" "list_all is_ascii_digit (sas_group hash i)"
  by (simp_all add: sas_group_def SAS_GROUP_DIGITS_def length_padded padded_digits)

lemma sas_code_Inr:
  "sas_code C own peer = Inr text \<longleftrightarrow>
     (\<exists>a b. decode_key C own = Inr a \<and> decode_key C peer = Inr b \<and>
        text = join_with '' '' (map (sas_group (sha256 C (SAS_DOMAIN @ min a b @ max a b))) [0 ..< SAS_GROUPS]))"
  by (cases "decode_key C own"; cases "decode_key C peer") (auto simp: sas_code_def Let_def min_def max_def)

section \<open>Properties\<close>

text \<open>
  A pairing link survives being pasted. For every link the code can build, the bare code,
  the code after \<^verbatim>\<open>pair=\<close>, and a URL with either of them as its fragment read back as that link, the
  text is wiped from the buffer, and whatever text is read as a link has a 22-character
  rendezvous id and a canonical key.
\<close>

theorem pairing_link_roundtrip:
  "(\<forall>i key l url text. PairingLink_new C i key = Inr l \<and> CHR ''#'' \<notin> set url \<and> (url = [] \<or> solid (hd url)) \<and>
      text \<in> set (link_texts l url) \<longrightarrow> take_pairing_link C text = ([], Inr l)) \<and>
   (\<forall>text l. snd (take_pairing_link C text) = Inr l \<longrightarrow>
      is_rendezvous_id (pl_rendezvous_id l) \<and> (\<exists>raw. decode_key C (pl_ephemeral_key l) = Inr raw))"
proof (intro conjI allI impI)
  fix i key l url pasted
  assume "PairingLink_new C i key = Inr l \<and> CHR ''#'' \<notin> set url \<and> (url = [] \<or> solid (hd url)) \<and> pasted \<in> set (link_texts l url)"
  then show "take_pairing_link C pasted = ([], Inr l)" using link_text_parses [of C i key l url pasted] by (auto simp: take_pairing_link_def)
next
  fix pasted l
  assume "snd (take_pairing_link C pasted) = Inr l"
  then have "PairingLink_new C (pl_rendezvous_id l) (pl_ephemeral_key l) = Inr l"
    by (intro parse_gives_link) (simp add: take_pairing_link_def)
  then show "is_rendezvous_id (pl_rendezvous_id l)" "\<exists>raw. decode_key C (pl_ephemeral_key l) = Inr raw"
    by (auto simp: PairingLink_new_Inr)
qed

theorem pairing_link_roundtrip_witness:
  "take_pairing_link toy_crypto (''https://chat.example/#pair='' @ replicate 22 CHR ''a'' @ ''.'' @ toy_key CHR ''k'')
     = ([], Inr \<lparr> pl_rendezvous_id = replicate 22 CHR ''a'', pl_ephemeral_key = toy_key CHR ''k'' \<rparr>)"
proof -
  let ?l = "\<lparr> pl_rendezvous_id = replicate 22 CHR ''a'', pl_ephemeral_key = toy_key CHR ''k'' \<rparr>"
  have "PairingLink_new toy_crypto (replicate 22 CHR ''a'') (toy_key CHR ''k'') = Inr ?l" by code_simp
  moreover have "solid (hd ''https://chat.example/'')" "CHR ''#'' \<notin> set ''https://chat.example/''" by (simp_all add: solid_def char_code_def)
  moreover have "''https://chat.example/'' @ CHR ''#'' # ''pair='' @ PairingLink_code ?l \<in> set (link_texts ?l ''https://chat.example/'')"
    by (simp add: link_texts_def Let_def)
  ultimately have "take_pairing_link toy_crypto (''https://chat.example/'' @ CHR ''#'' # ''pair='' @ PairingLink_code ?l) = ([], Inr ?l)"
    using pairing_link_roundtrip [of toy_crypto] by blast
  then show ?thesis by (simp add: PairingLink_code_def)
qed

text \<open>
  The end time of an offer is read as Unix seconds: for the date that is \<open>n\<close> days after
  the first of January 1970 in the Gregorian calendar (until the year 9999), any time of day, any
  fraction of digits and both UTC suffixes, the reading is \<open>86400 n\<close> plus the seconds of the day. The
  closed formula for the days agrees with counting day by day, leap years included.
\<close>

theorem utc_seconds_count_days:
  "nth_date n = (int y, int m, int d) \<and> y \<le> 9999 \<and> h \<le> 23 \<and> mi \<le> 59 \<and> sec \<le> 59 \<and>
     list_all is_ascii_digit fraction \<and> zone \<in> {''Z'', ''+00:00''} \<longrightarrow>
   parse_utc_seconds (utc_text (y, m, d) (h, mi, sec) fraction zone)
     = Some (86400 * int n + 3600 * int h + 60 * int mi + int sec)"
proof (intro impI, elim conjE)
  assume n: "nth_date n = (int y, int m, int d)" and b: "y \<le> 9999" "h \<le> 23" "mi \<le> 59" "sec \<le> 59"
    "list_all is_ascii_digit fraction" "zone \<in> {''Z'', ''+00:00''}"
  obtain y' m' d' where "nth_date n = (y', m', d')" "valid_date (y', m', d')" "civil_days y' m' d' = int n"
    by (rule nth_date_facts)
  then have v: "valid_date (int y, int m, int d)" "civil_days (int y) (int m) (int d) = int n" using n by simp_all
  then have "1 \<le> m" "m \<le> 12" "1 \<le> d" "d \<le> 31"
    using month_length_le [of "int y" "int m"] by (simp_all add: valid_date_def)
  with b v(2) show "parse_utc_seconds (utc_text (y, m, d) (h, mi, sec) fraction zone)
      = Some (86400 * int n + 3600 * int h + 60 * int mi + int sec)"
    by (subst parse_utc_text) simp_all
qed

theorem utc_seconds_count_days_witness:
  "parse_utc_seconds ''1970-03-01T01:02:03.5Z'' = Some (86400 * 59 + 3723)"
proof -
  have "nth_date 59 = (int 1970, int 3, int 1)" by code_simp
  moreover have "list_all is_ascii_digit ''5''" by code_simp
  ultimately have "parse_utc_seconds (utc_text (1970, 3, 1) (1, 2, 3) ''5'' ''Z'') = Some (86400 * int 59 + 3600 * int 1 + 60 * int 2 + int 3)"
    using utc_seconds_count_days [of 59 1970 3 1 1 2 3 "''5''" "''Z''"] by simp
  moreover have "utc_text (1970, 3, 1) (1, 2, 3) ''5'' ''Z'' = ''1970-03-01T01:02:03.5Z''" by code_simp
  ultimately show ?thesis by simp
qed

text \<open>
  The short authentication code is a function of the two master keys alone: both users
  see the same code, it is refused exactly when a key does not decode, and it is three groups of
  four digits separated by spaces.
\<close>

theorem sas_code_symmetric:
  "(\<forall>text. sas_code C own peer = Inr text \<longleftrightarrow> sas_code C peer own = Inr text) \<and>
   (is_ok (sas_code C own peer) \<longleftrightarrow> is_ok (decode_key C own) \<and> is_ok (decode_key C peer)) \<and>
   (\<forall>text. sas_code C own peer = Inr text \<longrightarrow>
      (\<exists>a b c. text = a @ '' '' @ b @ '' '' @ c \<and>
         list_all (\<lambda>g. length g = 4 \<and> list_all is_ascii_digit g) [a, b, c]))"
proof (intro conjI allI impI)
  fix shown
  show "sas_code C own peer = Inr shown \<longleftrightarrow> sas_code C peer own = Inr shown"
    unfolding sas_code_Inr by (metis min.commute max.commute)
  show "is_ok (sas_code C own peer) \<longleftrightarrow> is_ok (decode_key C own) \<and> is_ok (decode_key C peer)"
    by (auto simp: is_ok_iff sas_code_Inr)
  assume "sas_code C own peer = Inr shown"
  then obtain hash where "shown = join_with '' '' (map (sas_group hash) [0 ..< SAS_GROUPS])" by (auto simp: sas_code_Inr)
  then have "shown = sas_group hash 0 @ '' '' @ sas_group hash 1 @ '' '' @ sas_group hash 2"
    by (simp add: SAS_GROUPS_def upt_rec numeral_2_eq_2)
  then show "\<exists>a b c. shown = a @ '' '' @ b @ '' '' @ c \<and> list_all (\<lambda>g. length g = 4 \<and> list_all is_ascii_digit g) [a, b, c]"
    by (intro exI [of _ "sas_group hash 0"] exI [of _ "sas_group hash 1"] exI [of _ "sas_group hash 2"]) (simp add: sas_group_shape)
qed

theorem sas_code_symmetric_witness:
  "is_ok (sas_code toy_crypto (toy_key CHR ''a'') (toy_key CHR ''b'')) \<and>
   sas_code toy_crypto (toy_key CHR ''b'') (toy_key CHR ''a'') = sas_code toy_crypto (toy_key CHR ''a'') (toy_key CHR ''b'')"
proof -
  have "is_ok (decode_key toy_crypto (toy_key CHR ''a''))" "is_ok (decode_key toy_crypto (toy_key CHR ''b''))" by code_simp+
  then have ok: "is_ok (sas_code toy_crypto (toy_key CHR ''a'') (toy_key CHR ''b''))"
    using sas_code_symmetric [of toy_crypto] by blast
  then obtain shown where "sas_code toy_crypto (toy_key CHR ''a'') (toy_key CHR ''b'') = Inr shown" by (auto simp: is_ok_iff)
  moreover then have "sas_code toy_crypto (toy_key CHR ''b'') (toy_key CHR ''a'') = Inr shown"
    using sas_code_symmetric [of toy_crypto] by blast
  ultimately show ?thesis using ok by simp
qed

end
