(* ===== verification/Pairing_Session.thy ===== *)
theory Pairing_Session
  imports Pairing
begin

text \<open>
  One pairing as one device sees it: the pure state machine of \<^verbatim>\<open>e2e_pairing_flow.rs\<close>. The channel
  (\<^verbatim>\<open>vodozemac::ecies\<close>) and the derived JSON form of its messages are the parameter \<open>pair_api\<close>; a
  random key of the channel is an argument. A step returns the session and its result.
\<close>

section \<open>The libraries\<close>

text \<open>\<open>'k\<close> is an ephemeral key pair, \<open>'i\<close> an initial message, \<open>'c\<close> an open channel, \<open>'m\<close> a sealed
  message. An operation that changes a channel returns it.\<close>

record WireNetwork =
  wn_network :: string
  wn_master :: string

record WireId =
  wi_curve25519 :: string
  wi_ed25519 :: string
  wi_sig :: string

record WireJoined =
  wj_network :: string
  wj_id :: WireId

record WireReason =
  wr_network :: string
  wr_reason :: string

record WireList =
  wl_ver :: nat
  wl_devices :: "string list"
  wl_sig :: string

record WireSigned =
  ws_network :: string
  ws_cert :: string
  ws_list :: WireList

datatype Wire =
  W_Hello nat
| W_Offer nat "WireNetwork list" "string list"
| W_Join nat "WireJoined list" "WireReason list"
| W_Signed nat "WireSigned list" "WireReason list"
| W_Done nat "string list"

record ('k, 'i, 'c, 'm) pair_api =
  ecies_public :: "'k \<Rightarrow> string"
  curve_ok :: "string \<Rightarrow> bool"
  outbound :: "'k \<Rightarrow> string \<Rightarrow> string \<Rightarrow> (string \<times> 'c) option"
  initial_decode :: "string \<Rightarrow> 'i option"
  inbound :: "'k \<Rightarrow> 'i \<Rightarrow> ('c \<times> string) option"
  check_digit :: "'c \<Rightarrow> nat"
  sealed_decode :: "string \<Rightarrow> 'm option"
  ch_encrypt :: "'c \<Rightarrow> string \<Rightarrow> 'c \<times> string"
  ch_decrypt :: "'c \<Rightarrow> 'm \<Rightarrow> 'c \<times> string option"
  wire_to_vec :: "Wire \<Rightarrow> string option"
  wire_from_slice :: "string \<Rightarrow> Wire option"

section \<open>Data\<close>

definition WIRE_VERSION :: nat where "WIRE_VERSION = 1"
definition REFUSAL_REASONS :: "string list" where
  "REFUSAL_REASONS = [''full'', ''paired'', ''list-changed'', ''failed'']"
definition CHANNEL_OVERHEAD :: nat where "CHANNEL_OVERHEAD = 16"

datatype EndReason =
  Cancelled | Timeout | RelayClosed ClosedReason | EndWrongCode | EndBadChannel | EndBadMessage | EndFailed

datatype FlowError =
  F_Link PairingError | F_NotActive | F_WrongRole | F_NoChannel | F_WrongCode | F_NotConfirmed | F_TooLarge
| F_BadChannel | F_BadMessage | F_BadGrant | F_ListFull | F_NoIdentity | F_NotOffered | F_Refused | F_Store

record JoinerDevice =
  jd_ed25519 :: string
  jd_curve25519 :: string

record Grant =
  gr_master :: string
  gr_certificate :: VersionedDeviceCertificate
  gr_list :: SignedList

definition reasons_ok :: "WireReason list \<Rightarrow> bool" where
  "reasons_ok items = list_all (\<lambda>x. wr_network x \<noteq> [] \<and> wr_reason x \<in> set REFUSAL_REASONS) items"

definition Wire_checked :: "crypto_api \<Rightarrow> Wire \<Rightarrow> Wire option" where
  "Wire_checked C w =
     (let (v, ok) = (case w of
          W_Hello v \<Rightarrow> (v, True)
        | W_Offer v networks full \<Rightarrow>
            (v, list_all (\<lambda>x. wn_network x \<noteq> [] \<and> is_ok (decode_key C (wn_master x))) networks
                \<and> list_all (\<lambda>network. network \<noteq> []) full)
        | W_Join v devices skipped \<Rightarrow>
            (v, list_all (\<lambda>x. wj_network x \<noteq> [] \<and> is_ok (decode_key C (wi_ed25519 (wj_id x)))
                   \<and> is_ok (decode_key C (wi_curve25519 (wj_id x)))
                   \<and> is_ok (decode_signature C (wi_sig (wj_id x)))) devices
                \<and> reasons_ok skipped)
        | W_Signed v devices refused \<Rightarrow>
            (v, list_all (\<lambda>x. ws_network x \<noteq> [] \<and> is_ok (decode_signature C (ws_cert x))
                   \<and> is_ok (decode_signature C (wl_sig (ws_list x)))
                   \<and> list_all (\<lambda>key. is_ok (decode_key C key)) (wl_devices (ws_list x))) devices
                \<and> reasons_ok refused)
        | W_Done v paired \<Rightarrow> (v, list_all (\<lambda>network. network \<noteq> []) paired))
      in if v = WIRE_VERSION \<and> ok then Some w else None)"

definition read_wire :: "crypto_api \<Rightarrow> ('k, 'i, 'c, 'm) pair_api \<Rightarrow> string \<Rightarrow> Wire option" where
  "read_wire C A bytes = Option.bind (wire_from_slice A bytes) (Wire_checked C)"

record Outgoing =
  og_payload :: string
  og_count :: nat
  og_total_bytes :: nat

datatype FlowEvent = CodeReady | Offered | Joined | SignedAnswer Grant | Paired

datatype PairingStatus = Waiting | Code string | AwaitingPeer | StatusDone | StatusEnded EndReason

datatype Stage = Open | Keyed | Done | Ended EndReason

record ('k, 'c) PairingSession =
  ps_role :: PairingRole
  ps_rendezvous_id :: string
  ps_network :: string
  ps_eligible :: "string list"
  ps_started_at :: int
  ps_stage :: Stage
  ps_waiting :: "'k option"
  ps_channel :: "'c option"
  ps_own_device :: "JoinerDevice option"
  ps_peer_device :: "JoinerDevice option"
  ps_peer_id_sig :: "string option"
  ps_master :: "string option"
  ps_skipped :: "WireReason list"
  ps_offer_sent :: bool
  ps_join_sent :: bool
  ps_code :: "nat option"
  ps_own_confirmed :: bool
  ps_last_seq :: nat
  ps_relay_count :: nat
  ps_relay_bytes :: nat

definition PairingSession_new :: "PairingRole \<Rightarrow> string \<Rightarrow> string \<Rightarrow> int \<Rightarrow> ('k, 'c) PairingSession" where
  "PairingSession_new role i network now = \<lparr>
     ps_role = role, ps_rendezvous_id = i, ps_network = network, ps_eligible = [], ps_started_at = now,
     ps_stage = Open, ps_waiting = None, ps_channel = None, ps_own_device = None, ps_peer_device = None,
     ps_peer_id_sig = None, ps_master = None, ps_skipped = [], ps_offer_sent = False, ps_join_sent = False,
     ps_code = None, ps_own_confirmed = False, ps_last_seq = 0, ps_relay_count = 0, ps_relay_bytes = 0 \<rparr>"

text \<open>The byte counters are 64-bit numbers that saturate, as is the difference of two times.\<close>

definition saturating_add :: "nat \<Rightarrow> nat \<Rightarrow> nat" where
  "saturating_add a b = min u64_max (a + b)"

definition i64_saturating_sub :: "int \<Rightarrow> int \<Rightarrow> int" where
  "i64_saturating_sub a b = max (- int i64_max - 1) (min (int i64_max) (a - b))"

section \<open>UTF-8\<close>

text \<open>\<^verbatim>\<open>String::from_utf8\<close>: the width of the first character when it is well formed.\<close>

definition utf8_width :: "string \<Rightarrow> nat option" where
  "utf8_width s =
     (let at = (\<lambda>i lo hi. i < length s \<and> lo \<le> char_code (s ! i) \<and> char_code (s ! i) \<le> hi) in
      if at 0 0 127 then Some 1
      else if at 0 194 223 \<and> at 1 128 191 then Some 2
      else if (at 0 224 224 \<and> at 1 160 191 \<or> at 0 237 237 \<and> at 1 128 159
               \<or> (at 0 225 236 \<or> at 0 238 239) \<and> at 1 128 191) \<and> at 2 128 191 then Some 3
      else if (at 0 240 240 \<and> at 1 144 191 \<or> at 0 241 243 \<and> at 1 128 191 \<or> at 0 244 244 \<and> at 1 128 143)
              \<and> at 2 128 191 \<and> at 3 128 191 then Some 4
      else None)"

lemma utf8_width_pos: "utf8_width s = Some n \<Longrightarrow> 0 < n \<and> 0 < length s"
  by (auto simp: utf8_width_def Let_def split: if_splits)

function from_utf8 :: "string \<Rightarrow> string option" where
  "from_utf8 s =
     (if s = [] then Some []
      else case utf8_width s of
             None \<Rightarrow> None
           | Some n \<Rightarrow> map_option (\<lambda>rest. take n s @ rest) (from_utf8 (drop n s)))"
  by pat_completeness auto
termination
  by (relation "measure length") (auto dest: utf8_width_pos)

declare from_utf8.simps [simp del]

section \<open>Opening a session\<close>

definition create_with ::
    "crypto_api \<Rightarrow> ('k, 'i, 'c, 'm) pair_api \<Rightarrow> 'k \<Rightarrow> Rendezvous \<Rightarrow> string \<Rightarrow> int
     \<Rightarrow> FlowError + (('k, 'c) PairingSession \<times> PairingLink)" where
  "create_with C A ecies rendezvous network now =
     (if rv_role rendezvous \<noteq> Creator then Inl F_WrongRole
      else rbind (map_err F_Link (PairingLink_new C (rv_id rendezvous) (ecies_public A ecies))) (\<lambda>l.
             Inr ((PairingSession_new Creator (rv_id rendezvous) network now)\<lparr>ps_waiting := Some ecies\<rparr>, l)))"

definition join_any ::
    "crypto_api \<Rightarrow> ('k, 'i, 'c, 'm) pair_api \<Rightarrow> 'k \<Rightarrow> PairingLink \<Rightarrow> Rendezvous \<Rightarrow> string \<Rightarrow> string list
     \<Rightarrow> JoinerDevice \<Rightarrow> int \<Rightarrow> FlowError + (('k, 'c) PairingSession \<times> Outgoing)" where
  "join_any C A own l rendezvous network eligible device now =
     (if rv_role rendezvous \<noteq> Joiner then Inl F_WrongRole
      else if pl_rendezvous_id l \<noteq> rv_id rendezvous then Inl (F_Link P_BadId)
      else if \<not> curve_ok A (pl_ephemeral_key l) then Inl (F_Link P_BadLink)
      else
      rbind (ok_or (wire_to_vec A (W_Hello WIRE_VERSION)) F_BadMessage) (\<lambda>hello.
      rbind (ok_or (outbound A own (pl_ephemeral_key l) hello) F_BadChannel) (\<lambda>(message, channel).
        let payload = b64url_encode C message in
        if \<not> pairing_message_fits 0 0 (length payload) then Inl F_TooLarge
        else Inr ((PairingSession_new Joiner (rv_id rendezvous) network now)
                    \<lparr>ps_eligible := eligible, ps_code := Some (check_digit A channel), ps_channel := Some channel,
                     ps_own_device := Some device, ps_stage := Keyed, ps_relay_count := 1,
                     ps_relay_bytes := length payload\<rparr>,
                  \<lparr> og_payload = payload, og_count = 0, og_total_bytes = 0 \<rparr>))))"

definition join_one ::
    "crypto_api \<Rightarrow> ('k, 'i, 'c, 'm) pair_api \<Rightarrow> 'k \<Rightarrow> PairingLink \<Rightarrow> Rendezvous \<Rightarrow> string
     \<Rightarrow> JoinerDevice \<Rightarrow> int \<Rightarrow> FlowError + (('k, 'c) PairingSession \<times> Outgoing)" where
  "join_one C A own l rendezvous network device now = join_any C A own l rendezvous network [] device now"

definition bind_device :: "('k, 'c) PairingSession \<Rightarrow> JoinerDevice \<Rightarrow> ('k, 'c) PairingSession" where
  "bind_device s device = s\<lparr>ps_own_device := Some device\<rparr>"

section \<open>Ending a session\<close>

definition is_active :: "('k, 'c) PairingSession \<Rightarrow> bool" where
  "is_active s \<longleftrightarrow> ps_stage s = Open \<or> ps_stage s = Keyed"

definition padded_code :: "nat \<Rightarrow> string" where
  "padded_code code = padded 2 code"

definition session_status :: "('k, 'c) PairingSession \<Rightarrow> PairingStatus" where
  "session_status s =
     (case ps_stage s of
        Open \<Rightarrow> Waiting
      | Keyed \<Rightarrow> (case (ps_code s, ps_own_confirmed s) of
                   (Some code, False) \<Rightarrow> Code (padded_code code)
                 | _ \<Rightarrow> AwaitingPeer)
      | Done \<Rightarrow> StatusDone
      | Ended reason \<Rightarrow> StatusEnded reason)"

definition end_session :: "('k, 'c) PairingSession \<Rightarrow> EndReason \<Rightarrow> ('k, 'c) PairingSession" where
  "end_session s reason =
     (if is_active s then s\<lparr>ps_stage := Ended reason\<rparr> else s)\<lparr>ps_waiting := None, ps_channel := None\<rparr>"

definition fail ::
    "('k, 'c) PairingSession \<Rightarrow> EndReason \<Rightarrow> FlowError \<Rightarrow> ('k, 'c) PairingSession \<times> (FlowError + 'r)" where
  "fail s reason e = (end_session s reason, Inl e)"

definition cancel_session :: "('k, 'c) PairingSession \<Rightarrow> ('k, 'c) PairingSession" where
  "cancel_session s = end_session s Cancelled"

definition expire :: "('k, 'c) PairingSession \<Rightarrow> int \<Rightarrow> ('k, 'c) PairingSession \<times> bool" where
  "expire s now =
     (if is_active s \<and> int PAIRING_LIFETIME_SECS \<le> i64_saturating_sub now (ps_started_at s)
      then (end_session s Timeout, True) else (s, False))"

definition on_closed :: "('k, 'c) PairingSession \<Rightarrow> ClosedReason \<Rightarrow> ('k, 'c) PairingSession" where
  "on_closed s reason = end_session s (RelayClosed reason)"

definition finish :: "('k, 'c) PairingSession \<Rightarrow> ('k, 'c) PairingSession" where
  "finish s = (if is_active s then s\<lparr>ps_stage := Done\<rparr> else s)\<lparr>ps_waiting := None, ps_channel := None\<rparr>"

definition set_master ::
    "crypto_api \<Rightarrow> ('k, 'c) PairingSession \<Rightarrow> string \<Rightarrow> ('k, 'c) PairingSession \<times> (FlowError + unit)" where
  "set_master C s master =
     (case decode_key C master of
        Inl _ \<Rightarrow> (s, Inl F_NoIdentity)
      | Inr _ \<Rightarrow> (s\<lparr>ps_master := Some master\<rparr>, Inr ()))"

section \<open>Reading messages\<close>

definition take_hello ::
    "crypto_api \<Rightarrow> ('k, 'i, 'c, 'm) pair_api \<Rightarrow> ('k, 'c) PairingSession \<Rightarrow> string
     \<Rightarrow> ('k, 'c) PairingSession \<times> (FlowError + FlowEvent option)" where
  "take_hello C A s payload =
     (case ps_waiting s of
        None \<Rightarrow> fail s EndBadChannel F_BadChannel
      | Some ecies \<Rightarrow>
          let s = s\<lparr>ps_waiting := None\<rparr>;
              encoded = Option.bind (b64url_decode C payload) from_utf8
          in (case Option.bind encoded (initial_decode A) of
                None \<Rightarrow> fail s EndBadChannel F_BadChannel
              | Some initial \<Rightarrow>
                  (case inbound A ecies initial of
                     None \<Rightarrow> fail s EndBadChannel F_BadChannel
                   | Some (channel, message) \<Rightarrow>
                       (case read_wire C A message of
                          Some (W_Hello _) \<Rightarrow>
                            (s\<lparr>ps_code := Some (check_digit A channel), ps_channel := Some channel, ps_stage := Keyed\<rparr>,
                             Inr (Some CodeReady))
                        | _ \<Rightarrow> fail s EndBadChannel F_BadChannel))))"

definition chosen_network :: "('k, 'c) PairingSession \<Rightarrow> WireNetwork list \<Rightarrow> string option" where
  "chosen_network s networks =
     map_option wn_network
       (case List.find (\<lambda>x. wn_network x = ps_network s) networks of
          Some x \<Rightarrow> Some x
        | None \<Rightarrow> List.find (\<lambda>x. wn_network x \<in> set (ps_eligible s)) networks)"

text \<open>The loop over the offered networks: the last master of the chosen network, and the others.\<close>

fun offer_loop :: "string \<Rightarrow> string option \<Rightarrow> WireReason list \<Rightarrow> WireNetwork list \<Rightarrow> string option \<times> WireReason list" where
  "offer_loop network master skipped [] = (master, skipped)"
| "offer_loop network master skipped (x # xs) =
     (if wn_network x = network then offer_loop network (Some (wn_master x)) skipped xs
      else offer_loop network master (skipped @ [\<lparr> wr_network = wn_network x, wr_reason = ''failed'' \<rparr>]) xs)"

definition take_offer ::
    "('k, 'c) PairingSession \<Rightarrow> WireNetwork list \<Rightarrow> ('k, 'c) PairingSession \<times> (FlowError + FlowEvent option)" where
  "take_offer s networks =
     (if ps_master s \<noteq> None then fail s EndBadMessage F_BadMessage
      else
        let s = (case chosen_network s networks of None \<Rightarrow> s | Some chosen \<Rightarrow> s\<lparr>ps_network := chosen\<rparr>) in
        (case offer_loop (ps_network s) None [] networks of
           (None, _) \<Rightarrow> fail s EndFailed F_NotOffered
         | (Some master, skipped) \<Rightarrow> (s\<lparr>ps_master := Some master, ps_skipped := skipped\<rparr>, Inr (Some Offered))))"

definition take_join ::
    "('k, 'c) PairingSession \<Rightarrow> WireJoined list \<Rightarrow> ('k, 'c) PairingSession \<times> (FlowError + FlowEvent option)" where
  "take_join s devices =
     (case List.find (\<lambda>x. wj_network x = ps_network s) devices of
        None \<Rightarrow> fail s EndFailed F_Refused
      | Some item \<Rightarrow>
          if \<not> ps_offer_sent s \<or> ps_peer_device s \<noteq> None then fail s EndBadMessage F_BadMessage
          else (s\<lparr>ps_peer_device := Some \<lparr> jd_ed25519 = wi_ed25519 (wj_id item), jd_curve25519 = wi_curve25519 (wj_id item) \<rparr>,
                   ps_peer_id_sig := Some (wi_sig (wj_id item))\<rparr>, Inr (Some Joined)))"

definition take_signed ::
    "('k, 'c) PairingSession \<Rightarrow> WireSigned list \<Rightarrow> ('k, 'c) PairingSession \<times> (FlowError + FlowEvent option)" where
  "take_signed s devices =
     (case (List.find (\<lambda>x. ws_network x = ps_network s) devices, ps_master s, ps_own_device s) of
        (Some item, Some master, Some own) \<Rightarrow>
          (s, Inr (Some (SignedAnswer
             \<lparr> gr_master = master,
                gr_certificate = \<lparr> vc_first_list_version = wl_ver (ws_list item), vc_device_ed25519 = jd_ed25519 own,
                                    vc_master_ed25519 = master, vc_signature = ws_cert item \<rparr>,
                gr_list = \<lparr> sl_version = wl_ver (ws_list item), sl_keys = wl_devices (ws_list item),
                             sl_signature = wl_sig (ws_list item) \<rparr> \<rparr>)))
      | _ \<Rightarrow> fail s EndFailed F_Refused)"

definition take_sealed ::
    "crypto_api \<Rightarrow> ('k, 'i, 'c, 'm) pair_api \<Rightarrow> ('k, 'c) PairingSession \<Rightarrow> string
     \<Rightarrow> ('k, 'c) PairingSession \<times> (FlowError + FlowEvent option)" where
  "take_sealed C A s payload =
     (case sealed_decode A payload of
        None \<Rightarrow> fail s EndBadMessage F_BadMessage
      | Some message \<Rightarrow>
          (case ps_channel s of
             None \<Rightarrow> fail s EndBadChannel F_BadChannel
           | Some channel \<Rightarrow>
               (case ch_decrypt A channel message of
                  (channel, None) \<Rightarrow> fail (s\<lparr>ps_channel := Some channel\<rparr>) EndBadChannel F_BadChannel
                | (channel, Some plain) \<Rightarrow>
                    let s = s\<lparr>ps_channel := Some channel\<rparr> in
                    (case (ps_role s, read_wire C A plain) of
                       (Joiner, Some (W_Offer _ networks _)) \<Rightarrow> take_offer s networks
                     | (Creator, Some (W_Join _ devices _)) \<Rightarrow> take_join s devices
                     | (Joiner, Some (W_Signed _ devices _)) \<Rightarrow> take_signed s devices
                     | (Creator, Some (W_Done _ paired)) \<Rightarrow>
                         if ps_offer_sent s \<and> ps_network s \<in> set paired then (s, Inr (Some Paired))
                         else fail s EndFailed F_BadMessage
                     | _ \<Rightarrow> fail s EndBadMessage F_BadMessage))))"

definition take_in ::
    "crypto_api \<Rightarrow> ('k, 'i, 'c, 'm) pair_api \<Rightarrow> ('k, 'c) PairingSession \<Rightarrow> string
     \<Rightarrow> ('k, 'c) PairingSession \<times> (FlowError + FlowEvent option)" where
  "take_in C A s payload =
     (case ps_stage s of
        Open \<Rightarrow> take_hello C A s payload
      | Keyed \<Rightarrow> take_sealed C A s payload
      | _ \<Rightarrow> (s, Inr None))"

fun accept_loop ::
    "crypto_api \<Rightarrow> ('k, 'i, 'c, 'm) pair_api \<Rightarrow> ('k, 'c) PairingSession \<Rightarrow> FlowEvent list \<Rightarrow> RelayMessage list
     \<Rightarrow> ('k, 'c) PairingSession \<times> (FlowError + FlowEvent list)" where
  "accept_loop C A s events [] = (s, Inr events)"
| "accept_loop C A s events (m # ms) =
     (if rm_seq m \<le> ps_last_seq s then accept_loop C A s events ms
      else
        let s = s\<lparr>ps_last_seq := rm_seq m\<rparr> in
        if rm_from m = ps_role s then accept_loop C A s events ms
        else if length (rm_payload m) > PAIRING_MESSAGE_MAX_BYTES then fail s EndBadMessage F_BadMessage
        else
          let s = s\<lparr>ps_relay_count := ps_relay_count s + 1,
                    ps_relay_bytes := saturating_add (ps_relay_bytes s) (length (rm_payload m))\<rparr> in
          (case take_in C A s (rm_payload m) of
             (s, Inl e) \<Rightarrow> (s, Inl e)
           | (s, Inr None) \<Rightarrow> accept_loop C A s events ms
           | (s, Inr (Some event)) \<Rightarrow> accept_loop C A s (events @ [event]) ms))"

definition accept ::
    "crypto_api \<Rightarrow> ('k, 'i, 'c, 'm) pair_api \<Rightarrow> ('k, 'c) PairingSession \<Rightarrow> RelayMessage list
     \<Rightarrow> ('k, 'c) PairingSession \<times> (FlowError + FlowEvent list)" where
  "accept C A s messages =
     (if \<not> is_active s then (s, Inl F_NotActive)
      else accept_loop C A s [] (sort_key rm_seq messages))"

section \<open>Sealing messages\<close>

definition seal_message ::
    "('k, 'i, 'c, 'm) pair_api \<Rightarrow> ('k, 'c) PairingSession \<Rightarrow> Wire
     \<Rightarrow> ('k, 'c) PairingSession \<times> (FlowError + Outgoing)" where
  "seal_message A s w =
     (case wire_to_vec A w of
        None \<Rightarrow> (s, Inl F_BadMessage)
      | Some plain \<Rightarrow>
          let bound = (length plain + CHANNEL_OVERHEAD + 2) div 3 * 4 + 4 in
          if \<not> pairing_message_fits (ps_relay_count s) (ps_relay_bytes s) bound then (s, Inl F_TooLarge)
          else (case ps_channel s of
                  None \<Rightarrow> (s, Inl F_NoChannel)
                | Some channel \<Rightarrow>
                    (case ch_encrypt A channel plain of
                       (channel, payload) \<Rightarrow>
                         (s\<lparr>ps_channel := Some channel, ps_relay_count := ps_relay_count s + 1,
                            ps_relay_bytes := saturating_add (ps_relay_bytes s) (length payload)\<rparr>,
                          Inr \<lparr> og_payload = payload, og_count = ps_relay_count s,
                                og_total_bytes = ps_relay_bytes s \<rparr>))))"

definition confirm_code ::
    "('k, 'i, 'c, 'm) pair_api \<Rightarrow> ('k, 'c) PairingSession \<Rightarrow> string
     \<Rightarrow> ('k, 'c) PairingSession \<times> (FlowError + Outgoing option)" where
  "confirm_code A s typed =
     (if \<not> is_active s then (s, Inl F_NotActive)
      else
        (case ps_code s of
           None \<Rightarrow> (s, Inl F_NoChannel)
         | Some code \<Rightarrow>
             if parse_uint u8_max (trim typed) \<noteq> Some code then fail s EndWrongCode F_WrongCode
             else if ps_own_confirmed s then (s, Inr None)
             else if ps_role s = Joiner then (s\<lparr>ps_own_confirmed := True\<rparr>, Inr None)
             else (case ps_master s of
                     None \<Rightarrow> (s, Inl F_NoIdentity)
                   | Some master \<Rightarrow>
                       (case seal_message A s (W_Offer WIRE_VERSION [\<lparr> wn_network = ps_network s, wn_master = master \<rparr>] []) of
                          (s, Inl e) \<Rightarrow> (s, Inl e)
                        | (s, Inr outgoing) \<Rightarrow>
                            (s\<lparr>ps_own_confirmed := True, ps_offer_sent := True\<rparr>, Inr (Some outgoing))))))"

definition join_ready :: "('k, 'c) PairingSession \<Rightarrow> bool" where
  "join_ready s \<longleftrightarrow>
     ps_role s = Joiner \<and> ps_stage s = Keyed \<and> ps_own_confirmed s \<and> ps_master s \<noteq> None \<and> \<not> ps_join_sent s"

definition seal_join ::
    "('k, 'i, 'c, 'm) pair_api \<Rightarrow> ('k, 'c) PairingSession \<Rightarrow> string
     \<Rightarrow> ('k, 'c) PairingSession \<times> (FlowError + Outgoing)" where
  "seal_join A s id_signature =
     (if \<not> join_ready s then (s, Inl F_NotConfirmed)
      else
        (case ps_own_device s of
           None \<Rightarrow> (s, Inl F_NoIdentity)
         | Some device \<Rightarrow>
             let w = W_Join WIRE_VERSION
                       [\<lparr> wj_network = ps_network s,
                          wj_id = \<lparr> wi_curve25519 = jd_curve25519 device, wi_ed25519 = jd_ed25519 device,
                                     wi_sig = id_signature \<rparr> \<rparr>]
                       (ps_skipped s)
             in (case seal_message A (s\<lparr>ps_skipped := []\<rparr>) w of
                   (s, Inl e) \<Rightarrow> (s, Inl e)
                 | (s, Inr outgoing) \<Rightarrow> (s\<lparr>ps_join_sent := True\<rparr>, Inr outgoing))))"

definition confirmed_device :: "('k, 'c) PairingSession \<Rightarrow> JoinerDevice option" where
  "confirmed_device s =
     (if ps_role s = Creator \<and> ps_stage s = Keyed \<and> ps_own_confirmed s \<and> ps_offer_sent s
      then ps_peer_device s else None)"

definition peer_id_signature_valid :: "crypto_api \<Rightarrow> ('k, 'c) PairingSession \<Rightarrow> bool" where
  "peer_id_signature_valid C s =
     (case (ps_peer_device s, ps_peer_id_sig s, ps_master s) of
        (Some device, Some signature, Some master) \<Rightarrow>
          is_ok (verify_signature C (jd_ed25519 device) signature (device_id_signed_text (jd_curve25519 device) master))
      | _ \<Rightarrow> False)"

definition seal_signed ::
    "('k, 'i, 'c, 'm) pair_api \<Rightarrow> ('k, 'c) PairingSession \<Rightarrow> Grant
     \<Rightarrow> ('k, 'c) PairingSession \<times> (FlowError + Outgoing)" where
  "seal_signed A s grant =
     (if confirmed_device s = None then (s, Inl F_NotConfirmed)
      else seal_message A s
             (W_Signed WIRE_VERSION
                [\<lparr> ws_network = ps_network s, ws_cert = vc_signature (gr_certificate grant),
                   ws_list = \<lparr> wl_ver = sl_version (gr_list grant), wl_devices = sl_keys (gr_list grant),
                                wl_sig = sl_signature (gr_list grant) \<rparr> \<rparr>] []))"

definition seal_refusal ::
    "('k, 'i, 'c, 'm) pair_api \<Rightarrow> ('k, 'c) PairingSession \<Rightarrow> string
     \<Rightarrow> ('k, 'c) PairingSession \<times> (FlowError + Outgoing)" where
  "seal_refusal A s reason =
     (if confirmed_device s = None \<or> reason \<notin> set REFUSAL_REASONS then (s, Inl F_NotConfirmed)
      else (case seal_message A s (W_Signed WIRE_VERSION [] [\<lparr> wr_network = ps_network s, wr_reason = reason \<rparr>]) of
              (s, Inl e) \<Rightarrow> (s, Inl e)
            | (s, Inr outgoing) \<Rightarrow> (end_session s EndFailed, Inr outgoing)))"

definition seal_done ::
    "('k, 'i, 'c, 'm) pair_api \<Rightarrow> ('k, 'c) PairingSession \<Rightarrow> ('k, 'c) PairingSession \<times> (FlowError + Outgoing)" where
  "seal_done A s =
     (if ps_role s \<noteq> Joiner \<or> \<not> ps_join_sent s then (s, Inl F_NotConfirmed)
      else seal_message A s (W_Done WIRE_VERSION [ps_network s]))"

section \<open>Runs of a session\<close>

text \<open>Every public operation of a session, with what it sends.\<close>

datatype SessionOp =
  OpAccept "RelayMessage list" | OpConfirm string | OpSealJoin string | OpSealSigned Grant
| OpSealRefusal string | OpSealDone | OpCancel | OpEnd EndReason | OpExpire int | OpClosed ClosedReason | OpFinish
| OpSetMaster string | OpBindDevice JoinerDevice

definition sent :: "('e + 'o) \<Rightarrow> 'o list" where
  "sent r = (case r of Inl _ \<Rightarrow> [] | Inr x \<Rightarrow> [x])"

fun session_step ::
    "crypto_api \<Rightarrow> ('k, 'i, 'c, 'm) pair_api \<Rightarrow> ('k, 'c) PairingSession \<Rightarrow> SessionOp \<Rightarrow> ('k, 'c) PairingSession \<times> Outgoing list" where
  "session_step C A s (OpAccept ms) = (fst (accept C A s ms), [])"
| "session_step C A s (OpConfirm typed) =
     (case confirm_code A s typed of (s, Inr (Some out)) \<Rightarrow> (s, [out]) | (s, _) \<Rightarrow> (s, []))"
| "session_step C A s (OpSealJoin sig) = (case seal_join A s sig of (s, r) \<Rightarrow> (s, sent r))"
| "session_step C A s (OpSealSigned g) = (case seal_signed A s g of (s, r) \<Rightarrow> (s, sent r))"
| "session_step C A s (OpSealRefusal reason) = (case seal_refusal A s reason of (s, r) \<Rightarrow> (s, sent r))"
| "session_step C A s OpSealDone = (case seal_done A s of (s, r) \<Rightarrow> (s, sent r))"
| "session_step C A s OpCancel = (cancel_session s, [])"
| "session_step C A s (OpEnd reason) = (end_session s reason, [])"
| "session_step C A s (OpExpire now) = (fst (expire s now), [])"
| "session_step C A s (OpClosed reason) = (on_closed s reason, [])"
| "session_step C A s OpFinish = (finish s, [])"
| "session_step C A s (OpSetMaster master) = (fst (set_master C s master), [])"
| "session_step C A s (OpBindDevice device) = (bind_device s device, [])"

fun session_run ::
    "crypto_api \<Rightarrow> ('k, 'i, 'c, 'm) pair_api \<Rightarrow> ('k, 'c) PairingSession \<Rightarrow> SessionOp list \<Rightarrow> ('k, 'c) PairingSession \<times> Outgoing list" where
  "session_run C A s [] = (s, [])"
| "session_run C A s (x # xs) =
     (case session_step C A s x of (s, out) \<Rightarrow> (case session_run C A s xs of (s, outs) \<Rightarrow> (s, out @ outs)))"

section \<open>The invariant of a session\<close>

text \<open>What every reachable session satisfies, and what one operation can change of a session.\<close>

definition session_ok :: "('k, 'c) PairingSession \<Rightarrow> bool" where
  "session_ok s \<longleftrightarrow>
     (ps_stage s = Open \<longrightarrow> ps_role s = Creator \<and> ps_channel s = None \<and> ps_code s = None) \<and>
     (ps_stage s = Keyed \<longrightarrow> ps_code s \<noteq> None) \<and>
     (\<not> is_active s \<longrightarrow> ps_waiting s = None \<and> ps_channel s = None) \<and>
     (ps_own_confirmed s \<longrightarrow> ps_code s \<noteq> None) \<and>
     (ps_offer_sent s \<longrightarrow> ps_role s = Creator \<and> ps_own_confirmed s) \<and>
     (ps_join_sent s \<longrightarrow> ps_role s = Joiner \<and> ps_own_confirmed s) \<and>
     (ps_peer_device s \<noteq> None \<longrightarrow> ps_offer_sent s) \<and>
     ps_relay_bytes s \<le> u64_max"

definition evolves :: "('k, 'c) PairingSession \<Rightarrow> ('k, 'c) PairingSession \<Rightarrow> bool" where
  "evolves s s' \<longleftrightarrow>
     ps_role s' = ps_role s \<and> ps_rendezvous_id s' = ps_rendezvous_id s \<and> ps_started_at s' = ps_started_at s \<and>
     ps_last_seq s \<le> ps_last_seq s' \<and> ps_relay_count s \<le> ps_relay_count s' \<and> ps_relay_bytes s \<le> ps_relay_bytes s' \<and>
     (\<forall>c. ps_code s = Some c \<longrightarrow> ps_code s' = Some c) \<and>
     (\<forall>d. ps_peer_device s = Some d \<longrightarrow> ps_peer_device s' = Some d) \<and>
     (\<not> is_active s \<longrightarrow> ps_stage s' = ps_stage s) \<and>
     (ps_own_confirmed s \<longrightarrow> ps_own_confirmed s') \<and>
     (ps_offer_sent s \<longrightarrow> ps_offer_sent s') \<and> (ps_join_sent s \<longrightarrow> ps_join_sent s')"

definition steps_to :: "('k, 'c) PairingSession \<Rightarrow> ('k, 'c) PairingSession \<Rightarrow> bool" where
  "steps_to s s' \<longleftrightarrow> (session_ok s \<longrightarrow> session_ok s' \<and> evolves s s')"

lemmas session_simps = session_ok_def evolves_def is_active_def end_session_def fail_def

lemma evolves_refl [simp]: "evolves s s"
  by (simp add: evolves_def)

lemma steps_to_refl [simp]: "steps_to s s"
  by (simp add: steps_to_def)

lemma evolves_trans: "evolves s t \<Longrightarrow> evolves t u \<Longrightarrow> evolves s u"
  unfolding evolves_def is_active_def by (auto intro: order_trans)

lemma steps_to_trans: "steps_to s t \<Longrightarrow> steps_to t u \<Longrightarrow> steps_to s u"
  by (auto simp: steps_to_def intro: evolves_trans)

lemma steps_to_end: "steps_to s t \<Longrightarrow> steps_to s (end_session t reason)"
  by (erule steps_to_trans) (auto simp: steps_to_def session_simps)

lemma steps_to_finish: "steps_to s (finish s)"
  by (auto simp: steps_to_def session_simps finish_def)

lemma fst_fail [simp]: "fst (fail s reason e) = end_session s reason"
  by (simp add: fail_def)

lemma fail_eq [simp]: "fail s reason e = (s', r) \<longleftrightarrow> s' = end_session s reason \<and> r = Inl e"
  by (auto simp: fail_def)

lemma steps_to_waiting: "ps_stage s = Open \<Longrightarrow> steps_to s (s\<lparr>ps_waiting := None\<rparr>)"
  by (auto simp: steps_to_def session_simps)

lemma steps_to_keyed:
  "ps_stage s = Open \<Longrightarrow> steps_to s (s\<lparr>ps_waiting := None, ps_code := Some c, ps_channel := Some d, ps_stage := Keyed\<rparr>)"
  by (auto simp: steps_to_def session_simps)

lemma steps_to_channel: "ps_channel s = Some c \<Longrightarrow> steps_to s (s\<lparr>ps_channel := Some d\<rparr>)"
  by (auto simp: steps_to_def session_simps)

lemma steps_to_network: "steps_to s (s\<lparr>ps_network := n\<rparr>)" "steps_to s (s\<lparr>ps_master := m, ps_skipped := k\<rparr>)"
  "steps_to s (s\<lparr>ps_network := n, ps_master := m, ps_skipped := k\<rparr>)" "steps_to s (s\<lparr>ps_skipped := k\<rparr>)"
  "steps_to s (s\<lparr>ps_own_device := o1\<rparr>)" "steps_to s (s\<lparr>ps_master := m\<rparr>)"
  by (simp_all add: steps_to_def session_simps)

lemma take_hello_steps: "ps_stage s = Open \<Longrightarrow> steps_to s (fst (take_hello C A s payload))"
  by (auto simp: take_hello_def Let_def split: option.split prod.split Wire.split
      intro: steps_to_end steps_to_waiting steps_to_keyed)

lemma take_offer_steps: "steps_to s (fst (take_offer s networks))"
  by (auto simp: take_offer_def Let_def split: option.split prod.split intro: steps_to_end steps_to_network)

lemma take_join_steps: "ps_role s = Creator \<Longrightarrow> steps_to s (fst (take_join s devices))"
  by (cases "List.find (\<lambda>x. wj_network x = ps_network s) devices")
     (auto simp: take_join_def steps_to_end, auto simp: steps_to_def session_simps)

lemma take_signed_steps: "steps_to s (fst (take_signed s devices))"
  by (auto simp: take_signed_def split: option.split intro: steps_to_end)

lemma take_sealed_steps: "steps_to s (fst (take_sealed C A s payload))"
proof (cases "sealed_decode A payload")
  case None
  then show ?thesis by (simp add: take_sealed_def steps_to_end)
next
  case (Some m)
  show ?thesis
  proof (cases "ps_channel s")
    case None
    then show ?thesis using Some by (simp add: take_sealed_def steps_to_end)
  next
    case (Some c)
    have ch: "steps_to s (s\<lparr>ps_channel := Some d\<rparr>)" for d using Some by (rule steps_to_channel)
    note after = steps_to_trans [OF ch take_offer_steps] steps_to_trans [OF ch take_join_steps]
      steps_to_trans [OF ch take_signed_steps] steps_to_end [OF ch] ch
    show ?thesis
      using Some \<open>sealed_decode A payload = Some m\<close> after
      by (simp add: take_sealed_def Let_def split: option.split prod.split PairingRole.split Wire.split)
  qed
qed

lemma take_in_steps: "steps_to s (fst (take_in C A s payload))"
  by (simp add: take_in_def take_hello_steps take_sealed_steps split: Stage.split)

lemma steps_to_seq:
  assumes "ps_last_seq s < n"
  shows "steps_to s (s\<lparr>ps_last_seq := n\<rparr>)"
    "steps_to s (s\<lparr>ps_last_seq := n, ps_relay_count := ps_relay_count s + 1,
       ps_relay_bytes := saturating_add (ps_relay_bytes s) b\<rparr>)"
  using assms by (simp_all add: steps_to_def session_simps saturating_add_def)

lemma accept_loop_steps: "steps_to s (fst (accept_loop C A s events ms))"
proof (induction ms arbitrary: s events)
  case (Cons m ms)
  let ?t = "s\<lparr>ps_last_seq := rm_seq m, ps_relay_count := ps_relay_count s + 1,
             ps_relay_bytes := saturating_add (ps_relay_bytes s) (length (rm_payload m))\<rparr>"
  show ?case
  proof (cases "rm_seq m \<le> ps_last_seq s")
    case False
    note st = steps_to_seq [of s "rm_seq m"]
    have t: "steps_to s (fst (take_in C A ?t (rm_payload m)))"
      using steps_to_trans [OF st(2) take_in_steps] False by simp
    have go: "steps_to s (fst (accept_loop C A u events ms))" if "steps_to s u" for u events
      using steps_to_trans [OF that Cons.IH] .
    obtain u q where u: "take_in C A ?t (rm_payload m) = (u, q)" by fastforce
    with t have "steps_to s u" by simp
    then show ?thesis
      using False st(1) u by (cases q) (simp_all add: Let_def steps_to_end go split: option.split)
  qed (simp add: Cons.IH)
qed simp

lemma accept_steps: "steps_to s (fst (accept C A s ms))"
  by (simp add: accept_def accept_loop_steps)

lemma seal_message_cases:
  assumes "seal_message A s w = (s', r)"
  obtains e where "s' = s" "r = Inl e"
  | c d payload where "ps_channel s = Some c" "r = Inr \<lparr> og_payload = payload, og_count = ps_relay_count s, og_total_bytes = ps_relay_bytes s \<rparr>"
      "s' = s\<lparr>ps_channel := Some d, ps_relay_count := ps_relay_count s + 1,
              ps_relay_bytes := saturating_add (ps_relay_bytes s) (length payload)\<rparr>"
proof (cases "\<exists>e. s' = s \<and> r = Inl e")
  case True
  then show ?thesis using that(1) by blast
next
  case False
  then obtain c where c: "ps_channel s = Some c" using assms by (auto simp: seal_message_def Let_def split: option.splits if_splits)
  obtain plain where plain: "wire_to_vec A w = Some plain" using assms False by (auto simp: seal_message_def split: option.splits)
  let ?fits = "pairing_message_fits (ps_relay_count s) (ps_relay_bytes s) ((length plain + CHANNEL_OVERHEAD + 2) div 3 * 4 + 4)"
  have fits: ?fits
  proof (rule ccontr)
    assume "\<not> ?fits"
    then have "(s', r) = (s, Inl F_TooLarge)" using assms plain by (simp add: seal_message_def)
    then show False using False by simp
  qed
  obtain d payload where "ch_encrypt A c plain = (d, payload)" by fastforce
  then have "(s', r) = (s\<lparr>ps_channel := Some d, ps_relay_count := ps_relay_count s + 1,
              ps_relay_bytes := saturating_add (ps_relay_bytes s) (length payload)\<rparr>,
              Inr \<lparr> og_payload = payload, og_count = ps_relay_count s, og_total_bytes = ps_relay_bytes s \<rparr>)"
    using assms plain c fits by (simp add: seal_message_def)
  then show ?thesis using that(2) [OF c, of payload d] by simp
qed

lemma seal_message_steps: "seal_message A s w = (s', r) \<Longrightarrow> steps_to s s'"
  by (erule seal_message_cases) (auto simp: steps_to_def session_simps saturating_add_def)

lemma seal_message_keeps:
  "seal_message A s w = (s', r) \<Longrightarrow>
     ps_code s' = ps_code s \<and> ps_role s' = ps_role s \<and> ps_stage s' = ps_stage s \<and> ps_own_confirmed s' = ps_own_confirmed s
     \<and> ps_join_sent s' = ps_join_sent s \<and> ps_master s' = ps_master s \<and> ps_network s' = ps_network s"
  by (erule seal_message_cases) auto

lemma steps_to_confirmed:
  "ps_code s \<noteq> None \<Longrightarrow> steps_to s (s\<lparr>ps_own_confirmed := True\<rparr>)"
  "ps_code s \<noteq> None \<Longrightarrow> ps_role s \<noteq> Joiner \<Longrightarrow> steps_to s (s\<lparr>ps_own_confirmed := True, ps_offer_sent := True\<rparr>)"
  by (cases "ps_role s"; auto simp: steps_to_def session_simps)+

lemma confirm_steps: "steps_to s (fst (confirm_code A s typed))"
proof -
  have "steps_to s (t\<lparr>ps_own_confirmed := True, ps_offer_sent := True\<rparr>)"
    if "seal_message A s w = (t, q)" "ps_code s \<noteq> None" "ps_role s \<noteq> Joiner" for w t q
    using that seal_message_steps [OF that(1)] seal_message_keeps [OF that(1)] steps_to_confirmed(2) steps_to_trans by metis
  then show ?thesis
    by (auto simp: steps_to_confirmed(1) confirm_code_def steps_to_end split: option.split prod.split sum.split dest: seal_message_steps)
qed

lemma seal_join_steps: "steps_to s (fst (seal_join A s sig))"
proof -
  have "steps_to s (t\<lparr>ps_join_sent := True\<rparr>)"
    if "seal_message A (s\<lparr>ps_skipped := []\<rparr>) w = (t, q)" "join_ready s" for w t q
  proof -
    have "ps_role t = Joiner" "ps_own_confirmed t"
      using that seal_message_keeps [OF that(1)] by (auto simp: join_ready_def)
    then have "steps_to t (t\<lparr>ps_join_sent := True\<rparr>)" by (auto simp: steps_to_def session_simps)
    then show ?thesis
      using steps_to_trans [OF steps_to_network(4)] steps_to_trans [OF seal_message_steps [OF that(1)]] by blast
  qed
  moreover have "steps_to s t" if "seal_message A (s\<lparr>ps_skipped := []\<rparr>) w = (t, q)" for w t q
    using steps_to_trans [OF steps_to_network(4) seal_message_steps [OF that]] .
  ultimately show ?thesis
    by (auto simp: seal_join_def Let_def split: option.split prod.split sum.split)
qed

lemma seal_steps: "steps_to s (fst (seal_message A s w))" "steps_to s (fst (seal_signed A s g))"
  "steps_to s (fst (seal_refusal A s reason))" "steps_to s (fst (seal_done A s))"
  using seal_message_steps [of A s]
  by (auto simp: seal_signed_def seal_refusal_def seal_done_def steps_to_end prod_eq_iff
      split: prod.split sum.split intro: surjective_pairing)

lemma session_step_steps: "steps_to s (fst (session_step C A s x))"
proof (cases x)
  case (OpConfirm typed)
  then show ?thesis using confirm_steps [of s A typed] by (auto split: prod.split sum.split option.split)
next
  case (OpSealJoin sig)
  then show ?thesis using seal_join_steps [of s A sig] by (simp add: case_prod_unfold)
qed (simp_all add: accept_steps seal_steps steps_to_end steps_to_finish steps_to_network cancel_session_def on_closed_def
      expire_def set_master_def bind_device_def case_prod_unfold split: sum.split)

lemma session_run_steps: "steps_to s (fst (session_run C A s xs))"
proof (induction xs arbitrary: s)
  case (Cons x xs)
  show ?case
    using steps_to_trans [OF session_step_steps [of s C A x] Cons.IH] by (simp add: case_prod_unfold)
qed simp

section \<open>Lemmas: starting sessions\<close>

text \<open>The two ways to a session, at a start time.\<close>

definition starts :: "crypto_api \<Rightarrow> ('k, 'i, 'c, 'm) pair_api \<Rightarrow> int \<Rightarrow> ('k, 'c) PairingSession \<Rightarrow> bool" where
  "starts C A now s \<longleftrightarrow>
     (\<exists>k rv network l. create_with C A k rv network now = Inr (s, l)) \<or>
     (\<exists>k l rv network eligible device out. join_any C A k l rv network eligible device now = Inr (s, out))"

lemma create_with_Inr:
  "create_with C A k rv network now = Inr (s, l) \<longleftrightarrow>
     rv_role rv = Creator \<and> PairingLink_new C (rv_id rv) (ecies_public A k) = Inr l \<and>
     s = (PairingSession_new Creator (rv_id rv) network now)\<lparr>ps_waiting := Some k\<rparr>"
  by (auto simp: create_with_def rbind_eq_Inr)

lemma join_any_Inr:
  "join_any C A k l rv network eligible device now = Inr (s, out) \<longleftrightarrow>
     rv_role rv = Joiner \<and> pl_rendezvous_id l = rv_id rv \<and> curve_ok A (pl_ephemeral_key l) \<and>
     (\<exists>hello message channel.
        wire_to_vec A (W_Hello WIRE_VERSION) = Some hello \<and>
        outbound A k (pl_ephemeral_key l) hello = Some (message, channel) \<and>
        pairing_message_fits 0 0 (length (b64url_encode C message)) \<and>
        s = (PairingSession_new Joiner (rv_id rv) network now)
              \<lparr>ps_eligible := eligible, ps_code := Some (check_digit A channel), ps_channel := Some channel,
               ps_own_device := Some device, ps_stage := Keyed, ps_relay_count := 1,
               ps_relay_bytes := length (b64url_encode C message)\<rparr> \<and>
        out = \<lparr> og_payload = b64url_encode C message, og_count = 0, og_total_bytes = 0 \<rparr>)"
  by (auto simp: join_any_def rbind_eq_Inr Let_def)

lemma starts_facts:
  assumes "starts C A now s"
  shows "session_ok s" "ps_started_at s = now" "\<not> ps_own_confirmed s" "is_active s"
  using assms by (auto simp: starts_def create_with_Inr join_any_Inr PairingSession_new_def session_ok_def is_active_def
      pairing_message_fits_def)

lemma run_from_start:
  assumes "starts C A now s0"
  shows "session_ok (fst (session_run C A s0 xs))" "ps_started_at (fst (session_run C A s0 xs)) = now"
  using session_run_steps [of s0 C A xs] starts_facts [OF assms] by (simp_all add: steps_to_def evolves_def)

lemma session_run_append:
  "session_run C A s (xs @ ys) =
     (case session_run C A s xs of (s, out) \<Rightarrow> (case session_run C A s ys of (s, outs) \<Rightarrow> (s, out @ outs)))"
  by (induction xs arbitrary: s) (simp_all add: case_prod_unfold)

section \<open>Lemmas: an ended session\<close>

lemma seal_message_no_channel: "ps_channel s = None \<Longrightarrow> \<exists>e. seal_message A s w = (s, Inl e)"
  by (auto simp: seal_message_def Let_def split: option.split)

lemma session_step_ended:
  assumes "\<not> is_active s" "ps_channel s = None"
  shows "snd (session_step C A s x) = []"
proof -
  have no: "sent (snd (seal_message A t w)) = []" if "ps_channel t = None" for t w
    using seal_message_no_channel [OF that, of A w] by (auto simp: sent_def)
  have "ps_stage s \<noteq> Keyed" using assms(1) by (auto simp: is_active_def)
  then show ?thesis
    using assms no [OF assms(2)]
    by (cases x) (auto simp: confirm_code_def seal_join_def join_ready_def seal_signed_def seal_refusal_def
        confirmed_device_def seal_done_def sent_def case_prod_unfold split: sum.splits)
qed

lemma ended_run:
  assumes "session_ok s" "\<not> is_active s"
  shows "snd (session_run C A s xs) = [] \<and> ps_stage (fst (session_run C A s xs)) = ps_stage s
     \<and> ps_channel (fst (session_run C A s xs)) = None"
  using assms
proof (induction xs arbitrary: s)
  case Nil
  then show ?case by (simp add: session_ok_def)
next
  case (Cons x xs)
  let ?t = "fst (session_step C A s x)"
  have t: "session_ok ?t" "ps_stage ?t = ps_stage s"
    using session_step_steps [of s C A x] Cons.prems by (auto simp: steps_to_def evolves_def)
  then have "\<not> is_active ?t" using Cons.prems(2) by (simp add: is_active_def)
  note rest = Cons.IH [OF t(1) this]
  have "ps_channel s = None" using Cons.prems by (simp add: session_ok_def)
  then have "snd (session_step C A s x) = []" by (rule session_step_ended [OF Cons.prems(2)])
  with rest t(2) show ?case by (simp add: case_prod_unfold)
qed

section \<open>Lemmas: the confirmation\<close>

lemma own_confirmed_end: "ps_own_confirmed (end_session s reason) = ps_own_confirmed s"
  by (simp add: end_session_def)

lemma own_confirmed_takes:
  "ps_own_confirmed (fst (take_hello C A s payload)) = ps_own_confirmed s"
  "ps_own_confirmed (fst (take_offer s networks)) = ps_own_confirmed s"
  "ps_own_confirmed (fst (take_join s joined)) = ps_own_confirmed s"
  "ps_own_confirmed (fst (take_signed s answers)) = ps_own_confirmed s"
  by (simp_all add: take_hello_def take_offer_def take_join_def take_signed_def Let_def own_confirmed_end
      split: option.split prod.split Wire.split)

lemma own_confirmed_take_in: "ps_own_confirmed (fst (take_in C A s payload)) = ps_own_confirmed s"
proof -
  have "ps_own_confirmed (fst (take_sealed C A s payload)) = ps_own_confirmed s"
    by (simp add: take_sealed_def Let_def own_confirmed_end own_confirmed_takes
        split: option.split prod.split PairingRole.split Wire.split)
  then show ?thesis by (simp add: take_in_def own_confirmed_takes split: Stage.split)
qed

lemma accept_loop_confirmed: "ps_own_confirmed (fst (accept_loop C A s events ms)) = ps_own_confirmed s"
proof (induction ms arbitrary: s events)
  case (Cons m ms)
  let ?t = "s\<lparr>ps_last_seq := rm_seq m, ps_relay_count := ps_relay_count s + 1,
             ps_relay_bytes := saturating_add (ps_relay_bytes s) (length (rm_payload m))\<rparr>"
  obtain u q where u: "take_in C A ?t (rm_payload m) = (u, q)" by fastforce
  have "ps_own_confirmed u = ps_own_confirmed s" using own_confirmed_take_in [of C A ?t "rm_payload m"] u by simp
  then show ?case using u Cons.IH by (cases q) (simp_all add: Let_def own_confirmed_end split: option.split)
qed simp

lemma only_confirm_confirms:
  assumes "ps_own_confirmed (fst (session_step C A s x))" "\<not> ps_own_confirmed s"
  obtains typed c where "x = OpConfirm typed" "ps_code s = Some c" "parse_uint u8_max (trim typed) = Some c" "is_active s"
proof -
  have keep: "ps_own_confirmed (fst (seal_message A t w)) = ps_own_confirmed t" for t :: "('a, 'b) PairingSession" and w
    using seal_message_keeps [of A t w] by (metis surjective_pairing)
  show thesis
  proof (cases "\<exists>typed. x = OpConfirm typed")
    case False
    have "ps_own_confirmed (fst (seal_join A s sig)) = ps_own_confirmed s" for sig
      by (auto simp: seal_join_def Let_def split: option.splits prod.splits sum.splits dest: seal_message_keeps)
    moreover have "ps_own_confirmed (fst (seal_refusal A s r)) = ps_own_confirmed s" for r
      by (auto simp: seal_refusal_def own_confirmed_end split: prod.splits sum.splits dest: seal_message_keeps)
    ultimately have "ps_own_confirmed (fst (session_step C A s x)) = ps_own_confirmed s"
      using False keep
      by (cases x) (simp_all add: accept_def accept_loop_confirmed own_confirmed_end seal_signed_def seal_done_def
          cancel_session_def on_closed_def expire_def finish_def set_master_def bind_device_def case_prod_unfold split: sum.split)
    then show ?thesis using assms by simp
  next
    case True
    then obtain typed where x: "x = OpConfirm typed" by blast
    have "fst (session_step C A s x) = fst (confirm_code A s typed)"
      by (simp add: x case_prod_unfold split: sum.split option.split prod.split)
    with assms have c: "ps_own_confirmed (fst (confirm_code A s typed))" by simp
    then have a: "is_active s" "ps_code s \<noteq> None" using assms(2) by (auto simp: confirm_code_def split: if_splits option.splits)
    then obtain code where code: "ps_code s = Some code" by blast
    have "parse_uint u8_max (trim typed) = Some code"
      using c a code assms(2) by (auto simp: confirm_code_def own_confirmed_end split: if_splits)
    then show ?thesis using that x a(1) code by blast
  qed
qed

lemma first_confirmation:
  assumes "\<not> ps_own_confirmed s" "ps_own_confirmed (fst (session_run C A s xs))" "session_ok s"
  obtains pre typed post c where "xs = pre @ OpConfirm typed # post" "\<not> ps_own_confirmed (fst (session_run C A s pre))"
    "ps_code (fst (session_run C A s pre)) = Some c" "parse_uint u8_max (trim typed) = Some c"
proof -
  have "\<exists>pre typed post c. xs = pre @ OpConfirm typed # post \<and> \<not> ps_own_confirmed (fst (session_run C A s pre)) \<and>
     ps_code (fst (session_run C A s pre)) = Some c \<and> parse_uint u8_max (trim typed) = Some c"
    using assms(1,2)
  proof (induction xs arbitrary: s)
    case (Cons x xs)
    let ?t = "fst (session_step C A s x)"
    show ?case
    proof (cases "ps_own_confirmed ?t")
      case True
      obtain typed c where x: "x = OpConfirm typed" "ps_code s = Some c" "parse_uint u8_max (trim typed) = Some c"
        using only_confirm_confirms [OF True Cons.prems(1)] by metis
      then show ?thesis using Cons.prems(1)
        by (intro exI [of _ "[]"] exI [of _ typed] exI [of _ xs] exI [of _ c]) simp
    next
      case False
      have "ps_own_confirmed (fst (session_run C A ?t xs))" using Cons.prems(2) by (simp add: case_prod_unfold)
      then obtain pre typed post c where p: "xs = pre @ OpConfirm typed # post" "\<not> ps_own_confirmed (fst (session_run C A ?t pre))"
        "ps_code (fst (session_run C A ?t pre)) = Some c" "parse_uint u8_max (trim typed) = Some c"
        using Cons.IH [OF False] by blast
      then show ?thesis
        by (intro exI [of _ "x # pre"] exI [of _ typed] exI [of _ post] exI [of _ c]) (simp add: case_prod_unfold)
    qed
  qed simp
  then show thesis using that by blast
qed

lemma no_answer:
  assumes "confirmed_device s = None"
  shows "snd (session_step C A s (OpSealSigned g)) = []" "snd (session_step C A s (OpSealRefusal reason)) = []"
  using assms by (simp_all add: seal_signed_def seal_refusal_def sent_def)

section \<open>Lemmas: the limits of the relay\<close>

text \<open>A sealed message is at most the text of the plaintext and the tag of the channel.\<close>

definition sealed_size_ok :: "('k, 'i, 'c, 'm) pair_api \<Rightarrow> bool" where
  "sealed_size_ok A \<longleftrightarrow>
     (\<forall>c m. length (snd (ch_encrypt A c m)) \<le> (length m + CHANNEL_OVERHEAD + 2) div 3 * 4 + 4)"

definition posts :: "('k, 'c) PairingSession \<Rightarrow> ('k, 'c) PairingSession \<Rightarrow> Outgoing \<Rightarrow> bool" where
  "posts s s' out \<longleftrightarrow>
     og_count out = ps_relay_count s \<and> og_total_bytes out = ps_relay_bytes s \<and>
     pairing_message_fits (og_count out) (og_total_bytes out) (length (og_payload out)) \<and>
     ps_relay_count s' = ps_relay_count s + 1 \<and> ps_relay_bytes s' = ps_relay_bytes s + length (og_payload out)"

lemma fits_smaller: "pairing_message_fits n b k \<Longrightarrow> j \<le> k \<Longrightarrow> pairing_message_fits n b j"
  by (auto simp: pairing_message_fits_def)

lemma seal_message_posts:
  assumes "sealed_size_ok A" "seal_message A s w = (s', Inr out)"
  shows "posts s s' out"
proof -
  obtain plain where plain: "wire_to_vec A w = Some plain" using assms(2) by (auto simp: seal_message_def split: option.splits)
  have fits: "pairing_message_fits (ps_relay_count s) (ps_relay_bytes s) ((length plain + CHANNEL_OVERHEAD + 2) div 3 * 4 + 4)"
    using assms(2) plain by (auto simp: seal_message_def Let_def split: if_splits)
  obtain c where c: "ps_channel s = Some c" using assms(2) plain by (auto simp: seal_message_def Let_def split: if_splits option.splits)
  have "length (snd (ch_encrypt A c plain)) \<le> (length plain + CHANNEL_OVERHEAD + 2) div 3 * 4 + 4"
    using assms(1) by (simp add: sealed_size_ok_def)
  note small = fits_smaller [OF fits this]
  then have "saturating_add (ps_relay_bytes s) (length (snd (ch_encrypt A c plain))) = ps_relay_bytes s + length (snd (ch_encrypt A c plain))"
    by (simp add: saturating_add_def pairing_message_fits_def)
  then show ?thesis
    using assms(2) plain c fits small by (auto simp: seal_message_def Let_def case_prod_unfold posts_def)
qed

lemma session_step_posts:
  assumes "sealed_size_ok A" "session_step C A s x = (s', outs)"
  shows "outs = [] \<or> (\<exists>out. outs = [out] \<and> posts s s' out)"
proof (cases x)
  case (OpConfirm typed)
  have "posts s (t\<lparr>ps_own_confirmed := True, ps_offer_sent := True\<rparr>) out" if "seal_message A s w = (t, Inr out)" for w t out
    using seal_message_posts [OF assms(1) that] by (auto simp: posts_def)
  then show ?thesis
    using assms(2) OpConfirm
    by (auto simp: confirm_code_def split: if_splits option.splits prod.splits sum.splits)
next
  case (OpSealJoin sig)
  have "posts s (t\<lparr>ps_join_sent := True\<rparr>) out" if "seal_message A (s\<lparr>ps_skipped := []\<rparr>) w = (t, Inr out)" for w t out
    using seal_message_posts [OF assms(1) that] by (auto simp: posts_def)
  then show ?thesis
    using assms(2) OpSealJoin
    by (auto simp: seal_join_def Let_def sent_def split: if_splits option.splits prod.splits sum.splits)
next
  case (OpSealSigned g)
  then show ?thesis
    using assms(2) seal_message_posts [OF assms(1)]
    by (auto simp: seal_signed_def sent_def split: if_splits prod.splits sum.splits)
next
  case (OpSealRefusal reason)
  have "posts s (end_session t EndFailed) out" if "seal_message A s w = (t, Inr out)" for w t out
    using seal_message_posts [OF assms(1) that] by (auto simp: posts_def end_session_def)
  then show ?thesis
    using assms(2) OpSealRefusal
    by (auto simp: seal_refusal_def sent_def split: if_splits prod.splits sum.splits)
next
  case OpSealDone
  then show ?thesis
    using assms(2) seal_message_posts [OF assms(1)]
    by (auto simp: seal_done_def sent_def split: if_splits prod.splits sum.splits)
qed (use assms in simp_all)

abbreviation total_len :: "Outgoing list \<Rightarrow> nat" where
  "total_len outs \<equiv> sum_list (map (\<lambda>out. length (og_payload out)) outs)"

lemma session_run_limits:
  assumes "sealed_size_ok A" "session_ok s"
  shows "snd (session_run C A s xs) = [] \<or>
     (ps_relay_count s + length (snd (session_run C A s xs)) \<le> PAIRING_MAX_MESSAGES \<and>
      ps_relay_bytes s + total_len (snd (session_run C A s xs)) \<le> PAIRING_TOTAL_MAX_BYTES)"
  using assms(2)
proof (induction xs arbitrary: s)
  case (Cons x xs)
  obtain t outs where t: "session_step C A s x = (t, outs)" by fastforce
  have st: "session_ok t" "ps_relay_count s \<le> ps_relay_count t" "ps_relay_bytes s \<le> ps_relay_bytes t"
    using session_step_steps [of s C A x] Cons.prems t by (simp_all add: steps_to_def evolves_def)
  let ?rest = "snd (session_run C A t xs)"
  have r: "?rest = [] \<or> (ps_relay_count t + length ?rest \<le> PAIRING_MAX_MESSAGES \<and>
      ps_relay_bytes t + total_len ?rest \<le> PAIRING_TOTAL_MAX_BYTES)"
    by (rule Cons.IH [OF st(1)])
  have all: "snd (session_run C A s (x # xs)) = outs @ ?rest" by (simp add: t case_prod_unfold)
  show ?case
  proof (cases "outs = []")
    case True
    then show ?thesis using r st(2,3) unfolding all by auto
  next
    case False
    then obtain out where out: "outs = [out]" "posts s t out" using session_step_posts [OF assms(1) t] by blast
    then show ?thesis using r unfolding all by (auto simp: posts_def pairing_message_fits_def)
  qed
qed simp

section \<open>Lemmas: order and repeats of messages\<close>

lemma accept_loop_old:
  "list_all (\<lambda>m. rm_seq m \<le> ps_last_seq s) ms \<Longrightarrow> accept_loop C A s events ms = (s, Inr events)"
  by (induction ms) simp_all

lemma accept_loop_seqs:
  assumes "session_ok s" "accept_loop C A s events ms = (s', Inr evs)"
  shows "list_all (\<lambda>m. rm_seq m \<le> ps_last_seq s') ms"
  using assms
proof (induction ms arbitrary: s events)
  case (Cons m ms)
  let ?seq = "s\<lparr>ps_last_seq := rm_seq m\<rparr>"
  let ?t = "?seq\<lparr>ps_relay_count := ps_relay_count s + 1,
             ps_relay_bytes := saturating_add (ps_relay_bytes s) (length (rm_payload m))\<rparr>"
  have last: "ps_last_seq t \<le> ps_last_seq s'" if "session_ok t" "accept_loop C A t es ms = (s', Inr evs)" for t es
    using accept_loop_steps [of t C A es ms] that by (simp add: steps_to_def evolves_def)
  show ?case
  proof (cases "rm_seq m \<le> ps_last_seq s")
    case True
    then have "accept_loop C A s events ms = (s', Inr evs)" using Cons.prems(2) by simp
    then show ?thesis using Cons.IH [OF Cons.prems(1)] last [OF Cons.prems(1)] True by fastforce
  next
    case False
    have ok: "session_ok ?seq" "session_ok ?t"
      using steps_to_seq [of s "rm_seq m"] False Cons.prems(1) by (simp_all add: steps_to_def)
    obtain u q where u: "take_in C A ?t (rm_payload m) = (u, q)" by fastforce
    have uok: "session_ok u" "rm_seq m \<le> ps_last_seq u"
      using take_in_steps [of ?t C A "rm_payload m"] ok(2) u by (simp_all add: steps_to_def evolves_def)
    have "\<exists>t es. session_ok t \<and> rm_seq m \<le> ps_last_seq t \<and> accept_loop C A t es ms = (s', Inr evs)"
    proof (cases "rm_from m = ps_role s")
      case True
      then show ?thesis using False Cons.prems(2) ok(1) by (intro exI [of _ ?seq] exI [of _ events]) simp
    next
      case other: False
      then show ?thesis using False Cons.prems(2) u uok
        by (cases q) (auto simp: Let_def split: if_splits option.splits)
    qed
    then obtain t es where "session_ok t" "rm_seq m \<le> ps_last_seq t" "accept_loop C A t es ms = (s', Inr evs)" by blast
    then show ?thesis using Cons.IH last by fastforce
  qed
qed simp

section \<open>A concrete instance of the libraries\<close>

text \<open>A message is the list of its fields, each with its length in front; a text that does not read
  back is not written. The channel of the instance has the check code 7 and hides nothing.\<close>

definition toy_tokens :: "string list \<Rightarrow> string" where
  "toy_tokens ts = concat (map (\<lambda>t. dec_string (length t) @ '':'' @ t) ts)"

fun toy_split :: "nat \<Rightarrow> string \<Rightarrow> string list option" where
  "toy_split 0 s = None"
| "toy_split (Suc n) s =
     (if s = [] then Some []
      else Option.bind (split_once CHR '':'' s) (\<lambda>(len, rest).
           map_option (\<lambda>ts. take (digits_value 0 len) rest # ts) (toy_split n (drop (digits_value 0 len) rest))))"

fun toy_many :: "nat \<Rightarrow> (string list \<Rightarrow> ('a \<times> string list) option) \<Rightarrow> string list \<Rightarrow> ('a list \<times> string list) option" where
  "toy_many 0 f ts = Some ([], ts)"
| "toy_many (Suc n) f ts =
     Option.bind (f ts) (\<lambda>(x, ts). map_option (\<lambda>(xs, ts). (x # xs, ts)) (toy_many n f ts))"

definition toy_list :: "(string list \<Rightarrow> ('a \<times> string list) option) \<Rightarrow> string list \<Rightarrow> ('a list \<times> string list) option" where
  "toy_list f ts = (case ts of [] \<Rightarrow> None | n # ts \<Rightarrow> toy_many (digits_value 0 n) f ts)"

definition toy_one :: "string list \<Rightarrow> (string \<times> string list) option" where
  "toy_one ts = (case ts of t # ts \<Rightarrow> Some (t, ts) | _ \<Rightarrow> None)"

definition toy_reason :: "string list \<Rightarrow> (WireReason \<times> string list) option" where
  "toy_reason ts = (case ts of a # b # ts \<Rightarrow> Some (\<lparr> wr_network = a, wr_reason = b \<rparr>, ts) | _ \<Rightarrow> None)"

definition toy_network :: "string list \<Rightarrow> (WireNetwork \<times> string list) option" where
  "toy_network ts = (case ts of a # b # ts \<Rightarrow> Some (\<lparr> wn_network = a, wn_master = b \<rparr>, ts) | _ \<Rightarrow> None)"

definition toy_joined :: "string list \<Rightarrow> (WireJoined \<times> string list) option" where
  "toy_joined ts = (case ts of a # b # c # d # ts \<Rightarrow>
     Some (\<lparr> wj_network = a, wj_id = \<lparr> wi_curve25519 = b, wi_ed25519 = c, wi_sig = d \<rparr> \<rparr>, ts) | _ \<Rightarrow> None)"

definition toy_signed :: "string list \<Rightarrow> (WireSigned \<times> string list) option" where
  "toy_signed ts = (case ts of a # b # c # d # ts \<Rightarrow>
     map_option (\<lambda>(keys, ts). (\<lparr> ws_network = a, ws_cert = b,
        ws_list = \<lparr> wl_ver = digits_value 0 c, wl_devices = keys, wl_sig = d \<rparr> \<rparr>, ts)) (toy_list toy_one ts) | _ \<Rightarrow> None)"

fun toy_write :: "Wire \<Rightarrow> string list" where
  "toy_write (W_Hello v) = [''hello'', dec_string v]"
| "toy_write (W_Offer v ns full) =
     [''offer'', dec_string v, dec_string (length ns)] @ concat (map (\<lambda>x. [wn_network x, wn_master x]) ns)
     @ dec_string (length full) # full"
| "toy_write (W_Join v ds sk) =
     [''join'', dec_string v, dec_string (length ds)]
     @ concat (map (\<lambda>x. [wj_network x, wi_curve25519 (wj_id x), wi_ed25519 (wj_id x), wi_sig (wj_id x)]) ds)
     @ dec_string (length sk) # concat (map (\<lambda>x. [wr_network x, wr_reason x]) sk)"
| "toy_write (W_Signed v ds rs) =
     [''signed'', dec_string v, dec_string (length ds)]
     @ concat (map (\<lambda>x. [ws_network x, ws_cert x, dec_string (wl_ver (ws_list x)), wl_sig (ws_list x)]
         @ dec_string (length (wl_devices (ws_list x))) # wl_devices (ws_list x)) ds)
     @ dec_string (length rs) # concat (map (\<lambda>x. [wr_network x, wr_reason x]) rs)"
| "toy_write (W_Done v paired) = [''done'', dec_string v, dec_string (length paired)] @ paired"

definition toy_read :: "string list \<Rightarrow> Wire option" where
  "toy_read ts =
     (case ts of
        kind # version # ts \<Rightarrow>
          let v = digits_value 0 version in
          if kind = ''hello'' then Some (W_Hello v)
          else if kind = ''offer'' then
            Option.bind (toy_list toy_network ts) (\<lambda>(ns, ts). map_option (\<lambda>(full, _). W_Offer v ns full) (toy_list toy_one ts))
          else if kind = ''join'' then
            Option.bind (toy_list toy_joined ts) (\<lambda>(ds, ts). map_option (\<lambda>(sk, _). W_Join v ds sk) (toy_list toy_reason ts))
          else if kind = ''signed'' then
            Option.bind (toy_list toy_signed ts) (\<lambda>(ds, ts). map_option (\<lambda>(rs, _). W_Signed v ds rs) (toy_list toy_reason ts))
          else if kind = ''done'' then map_option (\<lambda>(paired, _). W_Done v paired) (toy_list toy_one ts)
          else None
      | _ \<Rightarrow> None)"

definition toy_from_slice :: "string \<Rightarrow> Wire option" where
  "toy_from_slice s = Option.bind (toy_split (Suc (length s)) s) toy_read"

definition toy_to_vec :: "Wire \<Rightarrow> string option" where
  "toy_to_vec w = (let t = toy_tokens (toy_write w) in if toy_from_slice t = Some w then Some t else None)"

definition toy_pair_api :: "(char, string, nat, string) pair_api" where
  "toy_pair_api = \<lparr>
     ecies_public = toy_key, curve_ok = (\<lambda>_. True), outbound = (\<lambda>_ _ hello. Some (hello, 7)),
     initial_decode = Some, inbound = (\<lambda>_ initial. Some (7, initial)), check_digit = id,
     sealed_decode = Some, ch_encrypt = (\<lambda>c m. (c, m)), ch_decrypt = (\<lambda>c m. (c, Some m)),
     wire_to_vec = toy_to_vec, wire_from_slice = toy_from_slice \<rparr>"

lemma toy_sealed_size_ok: "sealed_size_ok toy_pair_api"
proof -
  have "n \<le> (18 + n) div 3 * 4 + 4" for n :: nat by presburger
  then show ?thesis by (simp add: sealed_size_ok_def toy_pair_api_def CHANNEL_OVERHEAD_def)
qed

lemma toy_to_vec_reads: "wire_to_vec toy_pair_api w = Some t \<Longrightarrow> wire_from_slice toy_pair_api t = Some w"
  by (auto simp: toy_pair_api_def toy_to_vec_def Let_def split: if_splits)

definition toy_rendezvous :: "PairingRole \<Rightarrow> Rendezvous" where
  "toy_rendezvous role = \<lparr> rv_id = replicate 22 CHR ''r'', rv_role = role, rv_expires_at = [] \<rparr>"

definition toy_link :: PairingLink where
  "toy_link = \<lparr> pl_rendezvous_id = replicate 22 CHR ''r'', pl_ephemeral_key = toy_key CHR ''k'' \<rparr>"

definition toy_holder :: "(char, nat) PairingSession" where
  "toy_holder = (PairingSession_new Creator (replicate 22 CHR ''r'') ''net'' 1000)\<lparr>ps_waiting := Some CHR ''k''\<rparr>"

lemma toy_holder_starts: "starts toy_crypto toy_pair_api 1000 toy_holder"
proof -
  have "PairingLink_new toy_crypto (replicate 22 CHR ''r'') (toy_key CHR ''k'') = Inr toy_link" by code_simp
  then have "create_with toy_crypto toy_pair_api CHR ''k'' (toy_rendezvous Creator) ''net'' 1000 = Inr (toy_holder, toy_link)"
    by (simp add: create_with_Inr toy_rendezvous_def toy_holder_def toy_pair_api_def)
  then show ?thesis unfolding starts_def by blast
qed

section \<open>Properties\<close>

text \<open>
  Claim C30. Nothing is signed before both confirmations. In every run of a session, however its
  operations are interleaved, if the holder can seal an answer to the joiner (a grant or a refusal),
  then the user typed the check code of the channel on the holder in an earlier step of the run, and
  the device that is answered sent its keys after that step.
\<close>

theorem answer_needs_both_confirmations:
  assumes "starts C A now s0" and "x = OpSealSigned g \<or> x = OpSealRefusal reason"
    and "snd (session_step C A (fst (session_run C A s0 xs)) x) \<noteq> []"
  shows "\<exists>pre typed post code device.
     xs = pre @ OpConfirm typed # post \<and>
     ps_code (fst (session_run C A s0 pre)) = Some code \<and> parse_uint u8_max (trim typed) = Some code \<and>
     ps_peer_device (fst (session_run C A s0 pre)) = None \<and>
     ps_peer_device (fst (session_run C A s0 xs)) = Some device"
proof -
  let ?s = "fst (session_run C A s0 xs)"
  have "confirmed_device ?s \<noteq> None" using assms(2,3) no_answer by blast
  then obtain device where d: "ps_peer_device ?s = Some device" "ps_own_confirmed ?s"
    by (auto simp: confirmed_device_def split: if_splits)
  obtain pre typed post code where p: "xs = pre @ OpConfirm typed # post" "\<not> ps_own_confirmed (fst (session_run C A s0 pre))"
    "ps_code (fst (session_run C A s0 pre)) = Some code" "parse_uint u8_max (trim typed) = Some code"
    using first_confirmation [OF starts_facts(3) [OF assms(1)] d(2) starts_facts(1) [OF assms(1)]] by metis
  have "ps_peer_device (fst (session_run C A s0 pre)) = None"
    using run_from_start(1) [OF assms(1), of pre] p(2) by (auto simp: session_ok_def)
  with p d(1) show ?thesis by blast
qed

definition toy_id_sig :: string where
  "toy_id_sig = toy_sign CHR ''d'' (device_id_signed_text (toy_key CHR ''c'') (toy_key CHR ''m''))"

definition toy_join_payload :: string where
  "toy_join_payload = toy_tokens (toy_write (W_Join 1
     [\<lparr> wj_network = ''net'', wj_id = \<lparr> wi_curve25519 = toy_key CHR ''c'', wi_ed25519 = toy_key CHR ''d'', wi_sig = toy_id_sig \<rparr> \<rparr>] []))"

definition toy_holder_ops :: "SessionOp list" where
  "toy_holder_ops =
     [OpAccept [\<lparr> rm_seq = 1, rm_from = Joiner, rm_payload = toy_encode (toy_tokens [''hello'', ''1'']) \<rparr>],
      OpSetMaster (toy_key CHR ''m''), OpConfirm '' 07 '',
      OpAccept [\<lparr> rm_seq = 3, rm_from = Joiner, rm_payload = toy_join_payload \<rparr>]]"

theorem answer_needs_both_confirmations_witness:
  "\<exists>pre typed post code device.
     toy_holder_ops = pre @ OpConfirm typed # post \<and>
     ps_code (fst (session_run toy_crypto toy_pair_api toy_holder pre)) = Some code \<and> parse_uint u8_max (trim typed) = Some code \<and>
     ps_peer_device (fst (session_run toy_crypto toy_pair_api toy_holder pre)) = None \<and>
     ps_peer_device (fst (session_run toy_crypto toy_pair_api toy_holder toy_holder_ops)) = Some device"
proof (rule answer_needs_both_confirmations [OF toy_holder_starts])
  show "OpSealRefusal ''full'' = OpSealSigned g \<or> OpSealRefusal ''full'' = OpSealRefusal ''full''" for g by simp
  have "snd (session_step toy_crypto toy_pair_api (fst (session_run toy_crypto toy_pair_api toy_holder toy_holder_ops)) (OpSealRefusal ''full'')) = [] \<longleftrightarrow> False"
    by code_simp
  then show "snd (session_step toy_crypto toy_pair_api (fst (session_run toy_crypto toy_pair_api toy_holder toy_holder_ops)) (OpSealRefusal ''full'')) \<noteq> []"
    by simp
qed

text \<open>
  A session that has ended stays ended: once a run has ended it (a cancel, the lifetime, the
  relay, a wrong code, a bad message, a failure, or the success), no later operation sends a message
  or opens the channel again, and the reason it ended for stays.
\<close>

theorem ended_session_stays_ended:
  assumes "starts C A now s0" and "\<not> is_active (fst (session_run C A s0 xs))"
  shows "case session_run C A (fst (session_run C A s0 xs)) ys of (s, outs) \<Rightarrow>
     outs = [] \<and> ps_stage s = ps_stage (fst (session_run C A s0 xs)) \<and> ps_channel s = None \<and> ps_waiting s = None"
proof -
  let ?s = "fst (session_run C A s0 xs)"
  let ?t = "fst (session_run C A ?s ys)"
  have r: "snd (session_run C A ?s ys) = []" "ps_stage ?t = ps_stage ?s" "ps_channel ?t = None"
    using ended_run [OF run_from_start(1) [OF assms(1)] assms(2)] by blast+
  have "session_ok ?t"
    using session_run_steps [of ?s C A ys] run_from_start(1) [OF assms(1), of xs] by (simp add: steps_to_def)
  moreover have "\<not> is_active ?t" using r(2) assms(2) by (simp add: is_active_def)
  ultimately have "ps_waiting ?t = None" by (simp add: session_ok_def)
  with r show ?thesis by (simp add: case_prod_unfold)
qed

theorem ended_session_stays_ended_witness:
  "case session_run toy_crypto toy_pair_api
          (fst (session_run toy_crypto toy_pair_api toy_holder (take 2 toy_holder_ops @ [OpConfirm ''08'']))) toy_holder_ops of
     (s, outs) \<Rightarrow> outs = [] \<and> ps_stage s = Ended EndWrongCode"
proof -
  let ?xs = "take 2 toy_holder_ops @ [OpConfirm ''08'']"
  have e: "ps_stage (fst (session_run toy_crypto toy_pair_api toy_holder ?xs)) = Ended EndWrongCode" by code_simp
  then have "\<not> is_active (fst (session_run toy_crypto toy_pair_api toy_holder ?xs))" by (simp add: is_active_def)
  from ended_session_stays_ended [OF toy_holder_starts this] e show ?thesis by (simp add: case_prod_unfold)
qed

text \<open>
  The lifetime of a pairing. In every run of a session that started at \<open>t0\<close>, a check of the
  lifetime at \<open>now\<close> leaves it active only when fewer than 300 seconds have passed, ends an active
  session as timed out from then on, and changes nothing before.
\<close>

theorem lifetime_is_300_seconds:
  assumes "starts C A t0 s0"
  shows "case (fst (session_run C A s0 xs), expire (fst (session_run C A s0 xs)) now) of (s, (s', ended)) \<Rightarrow>
     ended = (is_active s \<and> t0 + 300 \<le> now) \<and> is_active s' = (is_active s \<and> now < t0 + 300) \<and>
     s' = (if ended then end_session s Timeout else s)"
proof -
  have t: "ps_started_at (fst (session_run C A s0 xs)) = t0" by (rule run_from_start(2) [OF assms])
  have "300 \<le> i64_saturating_sub now t0 \<longleftrightarrow> t0 + 300 \<le> now"
    by (auto simp: i64_saturating_sub_def i64_max_def)
  then show ?thesis using t by (auto simp: expire_def PAIRING_LIFETIME_SECS_def end_session_def is_active_def)
qed

theorem lifetime_is_300_seconds_witness:
  "snd (expire (fst (session_run toy_crypto toy_pair_api toy_holder toy_holder_ops)) 1300) \<and>
   (snd (expire (fst (session_run toy_crypto toy_pair_api toy_holder toy_holder_ops)) 1299) = False)"
proof -
  let ?s = "fst (session_run toy_crypto toy_pair_api toy_holder toy_holder_ops)"
  have a: "is_active ?s" by code_simp
  have "snd (expire ?s now) = (is_active ?s \<and> 1000 + 300 \<le> now)" for now
    using lifetime_is_300_seconds [OF toy_holder_starts, where xs = toy_holder_ops and now = now] by (simp add: case_prod_unfold)
  with a show ?thesis by simp
qed

text \<open>
  The check code. On an active session with the code \<open>c\<close>, a typed text that does not read as
  \<open>c\<close> ends the pairing at once and sends nothing, so there is no second guess; the text the session
  shows to the user is accepted; and a code typed again after the confirmation changes nothing.
\<close>

theorem check_code_is_typed_once:
  assumes "is_active s" "ps_code s = Some c" "c \<le> u8_max"
  shows "(parse_uint u8_max (trim typed) \<noteq> Some c \<longrightarrow>
            confirm_code A s typed = (end_session s EndWrongCode, Inl F_WrongCode) \<and>
            session_status (fst (confirm_code A s typed)) = StatusEnded EndWrongCode) \<and>
         (session_status s = Code shown \<longrightarrow> parse_uint u8_max (trim shown) = Some c \<and> is_active (fst (confirm_code A s shown))) \<and>
         (parse_uint u8_max (trim typed) = Some c \<and> ps_own_confirmed s \<longrightarrow> confirm_code A s typed = (s, Inr None))"
proof (intro conjI impI)
  assume "parse_uint u8_max (trim typed) \<noteq> Some c"
  then show c: "confirm_code A s typed = (end_session s EndWrongCode, Inl F_WrongCode)"
    using assms(1,2) by (simp add: confirm_code_def)
  show "session_status (fst (confirm_code A s typed)) = StatusEnded EndWrongCode"
    unfolding c using assms(1) by (simp add: session_status_def end_session_def)
next
  assume st: "session_status s = Code shown"
  then have shown: "shown = padded 2 c"
    using assms(2) by (auto simp: session_status_def padded_code_def split: Stage.splits bool.splits)
  have d: "list_all is_ascii_digit shown" "shown \<noteq> []" unfolding shown by (rule padded_digits) (simp add: padded_def)
  have "solid c" if "c \<in> set shown" for c
    using that d(1) by (auto simp: list_all_iff solid_def is_ascii_digit_def)
  then have "solid (hd shown)" "solid (last shown)" using d(2) by simp_all
  then have "trim shown = shown" using d(2) trim_solid by blast
  then show p: "parse_uint u8_max (trim shown) = Some c"
    using parse_uint_digits [OF d(2,1)] assms(3) by (simp add: shown digits_value_padded)
  show "is_active (fst (confirm_code A s shown))"
    using assms(1,2) p
    by (auto simp: confirm_code_def is_active_def split: option.split prod.split sum.split dest: seal_message_keeps)
next
  assume "parse_uint u8_max (trim typed) = Some c \<and> ps_own_confirmed s"
  then show "confirm_code A s typed = (s, Inr None)" using assms(1,2) by (simp add: confirm_code_def)
qed

theorem check_code_is_typed_once_witness:
  "let s = fst (session_run toy_crypto toy_pair_api toy_holder (take 2 toy_holder_ops)) in
   session_status s = Code ''07'' \<and> is_active (fst (confirm_code toy_pair_api s ''07'')) \<and>
   session_status (fst (confirm_code toy_pair_api s ''70'')) = StatusEnded EndWrongCode"
proof -
  let ?s = "fst (session_run toy_crypto toy_pair_api toy_holder (take 2 toy_holder_ops))"
  have s: "is_active ?s" "ps_code ?s = Some 7" "(7::nat) \<le> u8_max" "session_status ?s = Code ''07''" by code_simp+
  have w: "parse_uint u8_max (trim ''70'') = Some 70" by code_simp
  show ?thesis
    unfolding Let_def using s(4) w check_code_is_typed_once [OF s(1-3), of "''70''" toy_pair_api "''07''"] by force
qed

text \<open>
  The limits of the relay. Whatever a session is asked to do, all the messages it seals
  together stay within the 64 messages and 64 KiB of the relay: the totals it keeps count what it took
  in and what it sent, and a message that does not fit is not sealed.
\<close>

theorem session_stays_in_relay_limits:
  assumes "starts C A now s0" and "sealed_size_ok A"
  shows "case snd (session_run C A s0 xs) of outs \<Rightarrow>
     length outs \<le> 64 \<and> sum_list (map (\<lambda>out. length (og_payload out)) outs) \<le> 64 * 1024"
proof -
  note session_run_limits [OF assms(2) starts_facts(1) [OF assms(1)], of C xs]
  then show ?thesis by (auto simp: PAIRING_MAX_MESSAGES_def PAIRING_TOTAL_MAX_BYTES_def)
qed

theorem session_stays_in_relay_limits_witness:
  "length (snd (session_run toy_crypto toy_pair_api toy_holder toy_holder_ops)) = 1 \<and>
   sum_list (map (\<lambda>out. length (og_payload out)) (snd (session_run toy_crypto toy_pair_api toy_holder toy_holder_ops))) \<le> 64 * 1024"
proof -
  have "length (snd (session_run toy_crypto toy_pair_api toy_holder toy_holder_ops)) = 1" by code_simp
  with session_stays_in_relay_limits [OF toy_holder_starts toy_sealed_size_ok, of toy_holder_ops] show ?thesis by simp
qed

text \<open>
  Messages of the relay may come in any order and more than once. Two lists with the same
  messages (each sequence number once) have the same effect in any order, and a list that was taken in
  gives nothing and changes nothing when it comes again.
\<close>

theorem relay_messages_any_order_and_repeats:
  assumes "starts C A now s0" and "s = fst (session_run C A s0 xs)"
  shows "(mset ms = mset ns \<and> inj_on rm_seq (set ms) \<longrightarrow> accept C A s ms = accept C A s ns) \<and>
         (accept C A s ms = (s', Inr events) \<and> is_active s' \<longrightarrow> accept C A s' ms = (s', Inr []))"
proof (intro conjI impI; elim conjE)
  assume m: "mset ms = mset ns" "inj_on rm_seq (set ms)"
  have "sort_key rm_seq ms = sort_key rm_seq ns"
    using m by (intro sort_key_inj_key_eq) simp_all
  then show "accept C A s ms = accept C A s ns" by (simp add: accept_def)
next
  assume a: "accept C A s ms = (s', Inr events)" "is_active s'"
  have ok: "session_ok s" using run_from_start(1) [OF assms(1)] assms(2) by simp
  have "accept_loop C A s [] (sort_key rm_seq ms) = (s', Inr events)" using a(1) by (auto simp: accept_def split: if_splits)
  from accept_loop_seqs [OF ok this] show "accept C A s' ms = (s', Inr [])"
    using a(2) by (simp add: accept_def accept_loop_old)
qed

theorem relay_messages_any_order_and_repeats_witness:
  "let ms = [\<lparr> rm_seq = 2, rm_from = Creator, rm_payload = [] \<rparr>,
             \<lparr> rm_seq = 1, rm_from = Joiner, rm_payload = toy_encode (toy_tokens [''hello'', ''1'']) \<rparr>];
       r = accept toy_crypto toy_pair_api toy_holder ms
   in snd r = Inr [CodeReady] \<and> accept toy_crypto toy_pair_api toy_holder (rev ms) = r \<and>
      accept toy_crypto toy_pair_api (fst r) ms = (fst r, Inr [])"
proof -
  let ?ms = "[\<lparr> rm_seq = 2, rm_from = Creator, rm_payload = [] \<rparr>,
             \<lparr> rm_seq = 1, rm_from = Joiner, rm_payload = toy_encode (toy_tokens [''hello'', ''1'']) \<rparr>]"
  let ?r = "accept toy_crypto toy_pair_api toy_holder ?ms"
  have r: "snd ?r = Inr [CodeReady]" "is_active (fst ?r)" by code_simp+
  have start: "toy_holder = fst (session_run toy_crypto toy_pair_api toy_holder [])" by simp
  note any = relay_messages_any_order_and_repeats [OF toy_holder_starts start, of ?ms]
  have "?r = (fst ?r, Inr [CodeReady])" using r(1) by (metis prod.collapse)
  then have "accept toy_crypto toy_pair_api (fst ?r) ?ms = (fst ?r, Inr [])" using any r(2) by simp
  moreover have "accept toy_crypto toy_pair_api toy_holder (rev ?ms) = ?r" using any [of "rev ?ms"] by simp
  ultimately show ?thesis using r(1) unfolding Let_def by blast
qed

end
