(* ===== verification/Protocol.thy ===== *)
theory Protocol
  imports Pairing Pacing
begin

text \<open>
  The E2E operations, their routes and the protocol version that has them, from
  \<^verbatim>\<open>e2e_protocol.rs\<close>.
\<close>

section \<open>Text\<close>

text \<open>\<^verbatim>\<open>str::contains\<close> and \<^verbatim>\<open>str::replace\<close> with a pattern that is not empty.\<close>

fun contains :: "string \<Rightarrow> string \<Rightarrow> bool" where
  "contains pat [] \<longleftrightarrow> pat = []"
| "contains pat (c # cs) \<longleftrightarrow> starts_with pat (c # cs) \<or> contains pat cs"

function replace :: "string \<Rightarrow> string \<Rightarrow> string \<Rightarrow> string" where
  "replace pat new [] = []"
| "replace pat new (c # cs) =
     (if pat \<noteq> [] \<and> starts_with pat (c # cs) then new @ replace pat new (drop (length pat) (c # cs))
      else c # replace pat new cs)"
  by pat_completeness auto
termination
  by (relation "measure (\<lambda>(pat, new, s). length s)") auto

section \<open>Device operations\<close>

datatype E2eOperation =
  SendMessage | KeysAnswer | DeviceRegister | DeviceList | DeviceDrop | ListPut | ListFetch | IdentityDelete
| InboxFetch | InboxAck | KeysPublish | KeysFetch | Claim | Copy

datatype E2eMethod = Get | Post | Put | Delete

definition OWN_FLAG_MIN_PROTOCOL :: nat where "OWN_FLAG_MIN_PROTOCOL = 50"
definition CONSENT_MIN_PROTOCOL :: nat where "CONSENT_MIN_PROTOCOL = 53"
definition NO_SUCH_NICK_MIN_PROTOCOL :: nat where "NO_SUCH_NICK_MIN_PROTOCOL = 54"

definition version_at_least :: "nat \<Rightarrow> nat option \<Rightarrow> bool" where
  "version_at_least least server_protocol = (case server_protocol of None \<Rightarrow> False | Some version \<Rightarrow> version \<ge> least)"

definition own_flag_allowed :: "nat option \<Rightarrow> bool" where
  "own_flag_allowed server_protocol = version_at_least OWN_FLAG_MIN_PROTOCOL server_protocol"

datatype E2eRequestOperation = RequestList | RequestCreate | RequestAccept | RequestRefuse | RequestDismiss

definition request_available :: "E2eRequestOperation \<Rightarrow> nat option \<Rightarrow> bool" where
  "request_available x server_protocol = version_at_least CONSENT_MIN_PROTOCOL server_protocol"

fun request_method :: "E2eRequestOperation \<Rightarrow> E2eMethod" where
  "request_method RequestList = Get"
| "request_method RequestCreate = Post"
| "request_method RequestAccept = Post"
| "request_method RequestRefuse = Post"
| "request_method RequestDismiss = Delete"

fun request_suffix :: "E2eRequestOperation \<Rightarrow> string" where
  "request_suffix RequestAccept = ''accept''"
| "request_suffix RequestRefuse = ''refuse''"
| "request_suffix _ = []"

fun request_needs_id :: "E2eRequestOperation \<Rightarrow> bool" where
  "request_needs_id RequestAccept = True"
| "request_needs_id RequestRefuse = True"
| "request_needs_id RequestDismiss = True"
| "request_needs_id _ = False"

definition DID :: string where "DID = '':did''"

definition E2eOperation_ALL :: "E2eOperation list" where
  "E2eOperation_ALL =
     [SendMessage, KeysAnswer, DeviceRegister, DeviceList, DeviceDrop, ListPut, ListFetch, IdentityDelete,
      InboxFetch, InboxAck, KeysPublish, KeysFetch, Claim, Copy]"

fun min_protocol :: "E2eOperation \<Rightarrow> nat" where
  "min_protocol Claim = 50"
| "min_protocol Copy = 50"
| "min_protocol _ = 49"

fun E2eOperation_route :: "E2eOperation \<Rightarrow> E2eMethod \<times> string" where
  "E2eOperation_route SendMessage = (Post, ''/e2e/messages'')"
| "E2eOperation_route KeysAnswer = (Post, ''/e2e/messages'')"
| "E2eOperation_route DeviceRegister = (Post, ''/e2e/devices'')"
| "E2eOperation_route DeviceList = (Get, ''/e2e/devices'')"
| "E2eOperation_route DeviceDrop = (Delete, ''/e2e/devices/:did'')"
| "E2eOperation_route ListPut = (Put, ''/e2e/list'')"
| "E2eOperation_route ListFetch = (Get, ''/e2e/list'')"
| "E2eOperation_route IdentityDelete = (Delete, ''/e2e/keys'')"
| "E2eOperation_route InboxFetch = (Get, ''/e2e/devices/:did/inbox'')"
| "E2eOperation_route InboxAck = (Post, ''/e2e/devices/:did/inbox/ack'')"
| "E2eOperation_route KeysPublish = (Post, ''/e2e/devices/:did/keys'')"
| "E2eOperation_route KeysFetch = (Get, ''/e2e/devices/:did/keys'')"
| "E2eOperation_route Claim = (Post, ''/e2e/devices/:did/claim'')"
| "E2eOperation_route Copy = (Post, ''/e2e/devices/:did/copies'')"

definition needs_did :: "E2eOperation \<Rightarrow> bool" where
  "needs_did x = contains DID (snd (E2eOperation_route x))"

definition E2eOperation_path :: "crypto_api \<Rightarrow> E2eOperation \<Rightarrow> string option \<Rightarrow> WireError + string" where
  "E2eOperation_path C x did =
     (let template = snd (E2eOperation_route x) in
      if \<not> needs_did x then Inr template
      else (case did of
              Some did \<Rightarrow> if is_did_shape C did then Inr (replace DID did template) else Inl BadDid
            | None \<Rightarrow> Inl BadDid))"

definition E2eOperation_available :: "E2eOperation \<Rightarrow> nat option \<Rightarrow> bool" where
  "E2eOperation_available x server_protocol = version_at_least (min_protocol x) server_protocol"

definition client_interval :: "E2eOperation \<Rightarrow> nat option" where
  "client_interval x = (case x of KeysAnswer \<Rightarrow> Some KEYS_ANSWER_INTERVAL | _ \<Rightarrow> None)"

section \<open>Pairing operations\<close>

definition PAIRING_MIN_PROTOCOL :: nat where "PAIRING_MIN_PROTOCOL = 48"
definition PAIRING_OFFER_MIN_PROTOCOL :: nat where "PAIRING_OFFER_MIN_PROTOCOL = 55"

definition pairing_offer_available :: "nat option \<Rightarrow> bool" where
  "pairing_offer_available server_protocol = version_at_least PAIRING_OFFER_MIN_PROTOCOL server_protocol"

datatype PairingOperation =
  PairingCreate | PairingJoin | PairingPost | PairingFetch | PairingClose | PairingOfferOp

definition PairingOperation_ALL :: "PairingOperation list" where
  "PairingOperation_ALL = [PairingCreate, PairingJoin, PairingPost, PairingFetch, PairingClose, PairingOfferOp]"

fun PairingOperation_route :: "PairingOperation \<Rightarrow> E2eMethod \<times> string" where
  "PairingOperation_route PairingCreate = (Post, ''/e2e/pairings'')"
| "PairingOperation_route PairingJoin = (Post, ''/e2e/pairings/:id/join'')"
| "PairingOperation_route PairingPost = (Post, ''/e2e/pairings/:id/messages'')"
| "PairingOperation_route PairingFetch = (Get, ''/e2e/pairings/:id/messages'')"
| "PairingOperation_route PairingClose = (Delete, ''/e2e/pairings/:id'')"
| "PairingOperation_route PairingOfferOp = (Get, ''/e2e/pairings/offer'')"

definition PairingOperation_path :: "PairingOperation \<Rightarrow> string option \<Rightarrow> WireError + string" where
  "PairingOperation_path x rendezvous_id =
     (let template = snd (PairingOperation_route x) in
      if \<not> contains '':id'' template then Inr template
      else (case rendezvous_id of
              Some i \<Rightarrow> if is_rendezvous_id i then Inr (replace '':id'' i template) else Inl BadId
            | None \<Rightarrow> Inl BadId))"

definition PairingOperation_available :: "PairingOperation \<Rightarrow> nat option \<Rightarrow> bool" where
  "PairingOperation_available x server_protocol =
     (case x of
        PairingOfferOp \<Rightarrow> pairing_offer_available server_protocol
      | _ \<Rightarrow> version_at_least PAIRING_MIN_PROTOCOL server_protocol)"

section \<open>Lemmas\<close>

lemma split_char_append: "c \<notin> set a \<Longrightarrow> split_char c (a @ c # b) = a # split_char c b"
  by (induction a) auto

text \<open>The segments of a path, as the client hands them to the URL.\<close>

definition segments :: "string \<Rightarrow> string list" where
  "segments path = filter (\<lambda>seg. seg \<noteq> []) (split_char CHR ''/'' path)"

text \<open>A segment that no reader of a URL takes for anything but one plain path segment.\<close>

definition plain_segment :: "string \<Rightarrow> bool" where
  "plain_segment seg \<longleftrightarrow>
     seg \<noteq> [] \<and> list_all (\<lambda>c. is_ascii_alphanumeric c \<or> c = CHR ''-'' \<or> c = CHR ''_'') seg"

definition fill :: "string \<Rightarrow> string \<Rightarrow> string list \<Rightarrow> string list" where
  "fill place value parts = map (\<lambda>seg. if seg = place then value else seg) parts"

lemma did_plain: "is_did_shape C did \<Longrightarrow> plain_segment did"
  by (auto simp: is_did_shape_def plain_segment_def list_all_iff is_url_b64_char_def DID_LEN_def)

lemma rendezvous_plain: "is_rendezvous_id i \<Longrightarrow> plain_segment i"
  by (auto simp: is_rendezvous_id_def plain_segment_def)

lemma plain_no_slash: "plain_segment x \<Longrightarrow> CHR ''/'' \<notin> set x"
  by (auto simp: plain_segment_def list_all_iff ascii_defs)

lemma operation_segments:
  "E2eOperation_path C x did = Inr path \<Longrightarrow>
   segments path = fill DID (the did) (segments (snd (E2eOperation_route x))) \<and>
   (needs_did x \<longrightarrow> is_did_shape C (the did))"
proof -
  assume p: "E2eOperation_path C x did = Inr path"
  show ?thesis
  proof (cases "needs_did x")
    case False
    then have "path = snd (E2eOperation_route x)" using p by (simp add: E2eOperation_path_def Let_def)
    moreover have "DID \<notin> set (segments (snd (E2eOperation_route x)))"
      using False by (cases x) (simp_all add: needs_did_def DID_def segments_def starts_with_def)
    then have "fill DID d (segments (snd (E2eOperation_route x))) = segments (snd (E2eOperation_route x))" for d
      by (auto simp: fill_def intro: map_idI)
    ultimately show ?thesis using False by simp
  next
    case True
    then obtain d where d: "did = Some d" "is_did_shape C d" "path = replace DID d (snd (E2eOperation_route x))"
      using p by (auto simp: E2eOperation_path_def Let_def split: option.splits if_splits)
    have slash: "CHR ''/'' \<notin> set d" "d \<noteq> []" using did_plain [OF d(2)] plain_no_slash by (auto simp: plain_segment_def)
    have "segments path = fill DID d (segments (snd (E2eOperation_route x)))"
      using True slash d(3)
      by (cases x) (simp_all add: needs_did_def DID_def segments_def fill_def starts_with_def split_char_append split_char_none)
    then show ?thesis using d by simp
  qed
qed

lemma pairing_segments:
  "PairingOperation_path x rid = Inr path \<Longrightarrow>
   segments path = fill '':id'' (the rid) (segments (snd (PairingOperation_route x))) \<and>
   ('':id'' \<in> set (segments (snd (PairingOperation_route x))) \<longrightarrow> is_rendezvous_id (the rid))"
proof -
  assume p: "PairingOperation_path x rid = Inr path"
  show ?thesis
  proof (cases "contains '':id'' (snd (PairingOperation_route x))")
    case False
    then have "path = snd (PairingOperation_route x)" using p by (simp add: PairingOperation_path_def Let_def)
    with False show ?thesis by (cases x) (simp_all add: segments_def fill_def starts_with_def)
  next
    case True
    then obtain d where d: "rid = Some d" "is_rendezvous_id d" "path = replace '':id'' d (snd (PairingOperation_route x))"
      using p by (auto simp: PairingOperation_path_def Let_def split: option.splits if_splits)
    have slash: "CHR ''/'' \<notin> set d" "d \<noteq> []" using rendezvous_plain [OF d(2)] plain_no_slash by (auto simp: plain_segment_def)
    have "segments path = fill '':id'' d (segments (snd (PairingOperation_route x)))"
      using True slash d(3)
      by (cases x) (simp_all add: segments_def fill_def starts_with_def split_char_append split_char_none)
    then show ?thesis using d by simp
  qed
qed

section \<open>Properties\<close>

text \<open>
  An id in a route never changes the shape of the path. Whatever device id or rendezvous id
  the caller passes, the path that is built has the segments of the template with the id in its
  place, and every segment is plain: no slash, dot, percent, question or number sign. An id that is
  missing or has another shape gives no path.
\<close>

theorem route_paths_keep_their_shape:
  "(\<forall>path. E2eOperation_path C x did = Inr path \<longrightarrow>
      segments path = fill DID (the did) (segments (snd (E2eOperation_route x))) \<and> list_all plain_segment (segments path)) \<and>
   (\<forall>path. PairingOperation_path y rid = Inr path \<longrightarrow>
      segments path = fill '':id'' (the rid) (segments (snd (PairingOperation_route y))) \<and> list_all plain_segment (segments path)) \<and>
   (needs_did x \<and> (did = None \<or> \<not> is_did_shape C (the did)) \<longrightarrow> E2eOperation_path C x did = Inl BadDid)"
proof (intro conjI allI impI)
  fix path
  assume p: "E2eOperation_path C x did = Inr path"
  note s = operation_segments [OF p]
  show "segments path = fill DID (the did) (segments (snd (E2eOperation_route x)))" using s ..
  have "list_all plain_segment (fill DID (the did) (segments (snd (E2eOperation_route x))))"
  proof (cases "needs_did x")
    case True
    then have "plain_segment (the did)" using s did_plain by blast
    then show ?thesis
      by (cases x) (simp_all add: segments_def fill_def DID_def plain_segment_def ascii_defs)
  next
    case False
    then show ?thesis
      by (cases x) (simp_all add: segments_def fill_def DID_def plain_segment_def ascii_defs needs_did_def starts_with_def)
  qed
  with s show "list_all plain_segment (segments path)" by simp
next
  fix path
  assume p: "PairingOperation_path y rid = Inr path"
  note s = pairing_segments [OF p]
  show "segments path = fill '':id'' (the rid) (segments (snd (PairingOperation_route y)))" using s ..
  have "'':id'' \<in> set (segments (snd (PairingOperation_route y))) \<longrightarrow> plain_segment (the rid)"
    using s rendezvous_plain by blast
  then have "list_all plain_segment (fill '':id'' (the rid) (segments (snd (PairingOperation_route y))))"
    by (cases y) (simp_all add: segments_def fill_def plain_segment_def ascii_defs)
  with s show "list_all plain_segment (segments path)" by simp
next
  assume "needs_did x \<and> (did = None \<or> \<not> is_did_shape C (the did))"
  then show "E2eOperation_path C x did = Inl BadDid"
    by (auto simp: E2eOperation_path_def Let_def split: option.splits)
qed

theorem route_paths_keep_their_shape_witness:
  "E2eOperation_path toy_crypto InboxAck (Some ''..'') = Inl BadDid \<and>
   segments ''/e2e/pairings/rrrrrrrrrrrrrrrrrrrrrr/join'' = [''e2e'', ''pairings'', replicate 22 CHR ''r'', ''join'']"
proof
  have n: "needs_did InboxAck" "is_did_shape toy_crypto ''..'' \<longleftrightarrow> False" by code_simp+
  then show "E2eOperation_path toy_crypto InboxAck (Some ''..'') = Inl BadDid"
    using route_paths_keep_their_shape [of toy_crypto InboxAck "Some ''..''"] by simp
  have "PairingOperation_path PairingJoin (Some (replicate 22 CHR ''r'')) = Inr ''/e2e/pairings/rrrrrrrrrrrrrrrrrrrrrr/join''"
    by code_simp
  then have "segments ''/e2e/pairings/rrrrrrrrrrrrrrrrrrrrrr/join''
      = fill '':id'' (replicate 22 CHR ''r'') (segments (snd (PairingOperation_route PairingJoin)))"
    using route_paths_keep_their_shape by fastforce
  moreover have "segments (snd (PairingOperation_route PairingJoin)) = [''e2e'', ''pairings'', '':id'', ''join'']" by code_simp
  ultimately show "segments ''/e2e/pairings/rrrrrrrrrrrrrrrrrrrrrr/join'' = [''e2e'', ''pairings'', replicate 22 CHR ''r'', ''join'']"
    by (simp add: fill_def)
qed

text \<open>
  The route table: two operations with the same method and path are the same, but for the answer to
  a key request, which goes through the send door; and every operation needs protocol 49 at least.
\<close>

theorem routes_are_distinct:
  "list_all (\<lambda>x. list_all (\<lambda>y. (E2eOperation_route x = E2eOperation_route y) = (x = y \<or> set [x, y] = {SendMessage, KeysAnswer}))
      E2eOperation_ALL) E2eOperation_ALL \<and>
   list_all (\<lambda>x. 49 \<le> min_protocol x \<and> (needs_did x = (DID \<in> set (segments (snd (E2eOperation_route x)))))) E2eOperation_ALL \<and>
   distinct (map PairingOperation_route PairingOperation_ALL)"
  by code_simp

end
