(* ===== verification/Backoff.thy ===== *)
theory Backoff
  imports Protocol
begin

text \<open>
  The waits a server asks for and the growth of the reconnect delay, from \<^verbatim>\<open>backoff.rs\<close>. A
  duration is a number of nanoseconds, a point in time the nanoseconds since the epoch. The jitter
  of a delay is floating point arithmetic and is not modelled.
\<close>

section \<open>Values\<close>

definition NANOS :: nat where "NANOS = 1000000000"
definition BASE_DELAY :: nat where "BASE_DELAY = NANOS"
definition MAX_DELAY :: nat where "MAX_DELAY = 60 * NANOS"
definition MAX_DOUBLINGS :: nat where "MAX_DOUBLINGS = 6"
definition DURATION_MAX :: nat where "DURATION_MAX = u64_max * NANOS + (NANOS - 1)"

text \<open>\<^verbatim>\<open>saturating_mul\<close> on a duration, and the shift of the delay.\<close>

definition nominal_delay :: "nat \<Rightarrow> nat" where
  "nominal_delay failures = min MAX_DELAY (min DURATION_MAX (BASE_DELAY * 2 ^ min failures MAX_DOUBLINGS))"

text \<open>A step that can panic.\<close>

datatype 'a outcome = Panic | Value 'a

text \<open>Adding to a point in time panics past the last time of the platform.\<close>

definition system_time_add :: "nat \<Rightarrow> nat \<Rightarrow> nat outcome" where
  "system_time_add limit t = (if t \<le> limit then Value t else Panic)"

text \<open>\<^verbatim>\<open>i64\<close> arithmetic of a release build wraps around.\<close>

definition wrap64 :: "int \<Rightarrow> int" where
  "wrap64 x = (x + 9223372036854775808) mod 18446744073709551616 - 9223372036854775808"

section \<open>Dates\<close>

text \<open>\<^verbatim>\<open>split_whitespace\<close>.\<close>

function ws_split :: "string \<Rightarrow> string list" where
  "ws_split [] = [[]]"
| "ws_split (c # cs) =
     (case List.find (\<lambda>w. starts_with w (c # cs)) whitespace_seqs of
        Some w \<Rightarrow> [] # ws_split (drop (length w) (c # cs))
      | None \<Rightarrow> (case ws_split cs of [] \<Rightarrow> [[c]] | y # ys \<Rightarrow> (c # y) # ys))"
  by pat_completeness auto
termination
proof (relation "measure length")
  fix c :: char and cs w
  assume "List.find (\<lambda>w. starts_with w (c # cs)) whitespace_seqs = Some w"
  then have "w \<in> set whitespace_seqs" by (auto simp: find_Some_iff)
  then have "w \<noteq> []" using whitespace_not_solid by blast
  then show "(drop (length w) (c # cs), c # cs) \<in> measure length" by (cases w) auto
qed simp_all

definition split_whitespace :: "string \<Rightarrow> string list" where
  "split_whitespace s = filter (\<lambda>w. w \<noteq> []) (ws_split s)"

definition MONTHS :: "string list" where
  "MONTHS = [''Jan'', ''Feb'', ''Mar'', ''Apr'', ''May'', ''Jun'', ''Jul'', ''Aug'', ''Sep'', ''Oct'', ''Nov'', ''Dec'']"

fun position :: "'a \<Rightarrow> 'a list \<Rightarrow> nat option" where
  "position x [] = None"
| "position x (y # ys) = (if y = x then Some 0 else map_option Suc (position x ys))"

definition days_from_civil :: "int \<Rightarrow> nat \<Rightarrow> nat \<Rightarrow> int" where
  "days_from_civil year month day =
     (let year = (if month \<le> 2 then wrap64 (year - 1) else year);
          era = year div 400;
          year_of_era = year mod 400;
          shifted_month = (int month + 9) mod 12;
          day_of_year = (153 * shifted_month + 2) div 5 + int day - 1;
          day_of_era = year_of_era * 365 + year_of_era div 4 - year_of_era div 100 + day_of_year
      in wrap64 (era * 146097 + day_of_era - 719468))"

definition clock_seconds :: "string \<Rightarrow> int option" where
  "clock_seconds clock =
     (case split_char CHR '':'' clock of
        [h, m, s] \<Rightarrow>
          Option.bind (parse_i64 h) (\<lambda>hour. Option.bind (parse_i64 m) (\<lambda>minute. Option.bind (parse_i64 s) (\<lambda>second.
            if \<not> (0 \<le> hour \<and> hour < 24) \<or> \<not> (0 \<le> minute \<and> minute < 60) \<or> \<not> (0 \<le> second \<and> second \<le> 60) then None
            else Some (hour * 3600 + minute * 60 + second))))
      | _ \<Rightarrow> None)"

text \<open>The seconds of the date; then the point in time, which can be past the last one.\<close>

definition http_date_seconds :: "string \<Rightarrow> nat option" where
  "http_date_seconds value =
     (case split_whitespace value of
        [_, day, month, year, clock, zone] \<Rightarrow>
          Option.bind (parse_uint u32_max day) (\<lambda>day.
          Option.bind (position month MONTHS) (\<lambda>m.
          Option.bind (parse_i64 year) (\<lambda>year.
          Option.bind (clock_seconds clock) (\<lambda>secs.
          if zone \<noteq> ''GMT'' \<or> \<not> (1 \<le> day \<and> day \<le> 31) then None
          else let seconds = wrap64 (days_from_civil year (m + 1) day * 86400 + secs)
               in if 0 \<le> seconds then Some (nat seconds) else None))))
      | _ \<Rightarrow> None)"

definition parse_http_date :: "nat \<Rightarrow> string \<Rightarrow> nat option outcome" where
  "parse_http_date limit value =
     (case http_date_seconds value of
        None \<Rightarrow> Value None
      | Some seconds \<Rightarrow> (case system_time_add limit (seconds * NANOS) of Panic \<Rightarrow> Panic | Value t \<Rightarrow> Value (Some t)))"

definition parse_retry_after :: "nat \<Rightarrow> string \<Rightarrow> nat \<Rightarrow> nat option outcome" where
  "parse_retry_after limit value now =
     (let value = trim value in
      if value \<noteq> [] \<and> list_all is_ascii_digit value
      then Value (map_option (\<lambda>secs. secs * NANOS) (parse_uint u64_max value))
      else (case parse_http_date limit value of
              Panic \<Rightarrow> Panic
            | Value None \<Rightarrow> Value None
            | Value (Some when) \<Rightarrow> Value (Some (when - now))))"

definition rate_limit_wait ::
    "nat \<Rightarrow> 'v json_api \<Rightarrow> string option \<Rightarrow> 'v option \<Rightarrow> nat \<Rightarrow> nat option outcome" where
  "rate_limit_wait limit J header body now =
     (let from_body = Option.bind body (\<lambda>b. map_option (\<lambda>ms. ms * 1000000) (u64_field J b ''retry_after_ms'')) in
      case header of
        None \<Rightarrow> Value from_body
      | Some value \<Rightarrow>
          (case parse_retry_after limit value now of
             Panic \<Rightarrow> Panic
           | Value None \<Rightarrow> Value from_body
           | Value (Some wait) \<Rightarrow> Value (Some wait)))"

definition display_seconds :: "nat \<Rightarrow> nat" where
  "display_seconds wait = max 1 ((wait div 1000000 + 999) div 1000)"

section \<open>Lemmas\<close>

lemma wrap64_small: "- 9223372036854775808 \<le> x \<Longrightarrow> x < 9223372036854775808 \<Longrightarrow> wrap64 x = x"
  by (simp add: wrap64_def)

text \<open>For the years in which the arithmetic does not wrap, both copies of the calendar agree.\<close>

lemma days_from_civil_eq:
  assumes "1 \<le> y" "y < 1000000000" "1 \<le> m" "m \<le> 12" "1 \<le> d" "d \<le> 31"
  shows "days_from_civil y m d = civil_days y (int m) (int d)"
    "- 1000000 \<le> civil_days y (int m) (int d)" "civil_days y (int m) (int d) < 1000000000000"
proof -
  let ?y = "if int m \<le> 2 then y - 1 else y"
  have y: "0 \<le> ?y" "?y < 1000000000" using assms by auto
  define e where "e = ?y div 400"
  define r where "r = ?y mod 400"
  have er: "?y = e * 400 + r" "0 \<le> r" "r < 400" "0 \<le> e" "e < 2500001" using y by (auto simp: e_def r_def)
  define q where "q = (153 * ((int m + 9) mod 12) + 2) div 5"
  have "0 \<le> (int m + 9) mod 12" "(int m + 9) mod 12 \<le> 11" by simp_all
  then have q: "0 \<le> q" "q \<le> 337" unfolding q_def by (simp, linarith)
  have core: "civil_days y (int m) (int d) = e * 146097 + (r * 365 + r div 4 - r div 100 + (q + int d - 1)) - 719468"
    unfolding civil_days_core civil_core_def Let_def q_def e_def r_def minus_div_mult_eq_mod ..
  have rr: "0 \<le> r div 4" "r div 4 < 100" "0 \<le> r div 100" "r div 100 < 4" using er by auto
  show lo: "- 1000000 \<le> civil_days y (int m) (int d)" and hi: "civil_days y (int m) (int d) < 1000000000000"
    unfolding core using er q rr assms(5,6) by linarith+
  have w: "(if m \<le> 2 then wrap64 (y - 1) else y) = ?y" using assms by (simp add: wrap64_small)
  have "days_from_civil y m d = wrap64 (civil_days y (int m) (int d))"
    unfolding days_from_civil_def Let_def w core e_def r_def q_def ..
  then show "days_from_civil y m d = civil_days y (int m) (int d)" using lo hi by (simp add: wrap64_small)
qed

text \<open>The preferred form of an HTTP date.\<close>

definition http_text :: "string \<Rightarrow> nat \<times> nat \<times> nat \<Rightarrow> nat \<times> nat \<times> nat \<Rightarrow> string" where
  "http_text weekday date clock =
     (case (date, clock) of ((y, m, d), (h, mi, s)) \<Rightarrow>
        weekday @ '' '' @ padded 2 d @ '' '' @ MONTHS ! (m - 1) @ '' '' @ padded 4 y @ '' ''
        @ (padded 2 h @ '':'' @ padded 2 mi @ '':'' @ padded 2 s) @ '' '' @ ''GMT'')"

lemma solid_not_space: "solid c \<Longrightarrow> List.find (\<lambda>w. starts_with w (c # cs)) whitespace_seqs = None"
proof -
  assume c: "solid c"
  have "\<not> starts_with w (c # cs)" if "w \<in> set whitespace_seqs" for w
    using whitespace_not_solid [OF that] c by (cases w) (auto simp: starts_with_def)
  then show ?thesis by (auto simp: find_None_iff)
qed

lemma find_space: "List.find (\<lambda>w. starts_with w (CHR '' '' # cs)) whitespace_seqs = Some '' ''"
proof -
  let ?P = "\<lambda>w. starts_with w (CHR '' '' # cs)"
  have "list_all (\<lambda>w. w \<noteq> [] \<and> (hd w = CHR '' '' \<longrightarrow> w = '' '')) whitespace_seqs" by code_simp
  then have only: "w \<in> set whitespace_seqs \<Longrightarrow> ?P w \<Longrightarrow> w = '' ''" for w
    by (cases w) (auto simp: list_all_iff starts_with_def)
  have "list_ex (\<lambda>w. w = '' '') whitespace_seqs" by code_simp
  then have "'' '' \<in> set whitespace_seqs" by (auto simp: list_ex_iff)
  moreover have "?P '' ''" by (simp add: starts_with_def)
  ultimately have "List.find ?P whitespace_seqs \<noteq> None" by (metis find_None_iff)
  then obtain w where "List.find ?P whitespace_seqs = Some w" by blast
  moreover then have "w \<in> set whitespace_seqs" "?P w" by (auto simp: find_Some_iff)
  ultimately show ?thesis using only by blast
qed

lemma ws_split_word: "\<forall>c \<in> set a. solid c \<Longrightarrow> ws_split (a @ CHR '' '' # b) = a # ws_split b"
  by (induction a) (simp_all add: solid_not_space find_space)

lemma ws_split_last: "\<forall>c \<in> set a. solid c \<Longrightarrow> ws_split a = [a]"
  by (induction a) (simp_all add: solid_not_space)

lemma padded_solid: "c \<in> set (padded w n) \<Longrightarrow> solid c"
  using padded_digits [of w n] by (auto simp: list_all_iff solid_def ascii_defs)

lemma month_names: "1 \<le> m \<Longrightarrow> m \<le> 12 \<Longrightarrow> MONTHS ! (m - 1) \<noteq> [] \<and> (\<forall>c \<in> set (MONTHS ! (m - 1)). solid c) \<and> position (MONTHS ! (m - 1)) MONTHS = Some (m - 1)"
proof -
  assume m: "1 \<le> m" "m \<le> 12"
  have "list_all (\<lambda>i. MONTHS ! i \<noteq> [] \<and> list_all solid (MONTHS ! i) \<and> position (MONTHS ! i) MONTHS = Some i) [0 ..< 12]"
    by code_simp
  moreover have "m - 1 \<in> set [0 ..< 12]" using m by auto
  ultimately show ?thesis unfolding list_all_iff by blast
qed

lemma parse_uint_padded: "n < 10 ^ w \<Longrightarrow> n \<le> k \<Longrightarrow> parse_uint k (padded w n) = Some n"
  using parse_uint_digits [OF _ padded_digits, of w n k] by (simp add: digits_value_padded) (simp add: padded_def)

lemma clock_seconds_text:
  assumes "h < 24" "mi < 60" "s < 60"
  shows "clock_seconds (padded 2 h @ '':'' @ padded 2 mi @ '':'' @ padded 2 s) = Some (int (h * 3600 + mi * 60 + s))"
proof -
  have colon: "CHR '':'' \<notin> set (padded 2 n)" for n
    using padded_digits [of 2 n] by (auto simp: list_all_iff ascii_defs)
  have "split_char CHR '':'' (padded 2 h @ '':'' @ padded 2 mi @ '':'' @ padded 2 s) = [padded 2 h, padded 2 mi, padded 2 s]"
    using split_char_append [OF colon] split_char_none [OF colon] by simp
  then show ?thesis using assms by (simp add: clock_seconds_def parse_padded)
qed

lemma http_date_seconds_text:
  assumes "weekday \<noteq> []" "\<forall>c \<in> set weekday. solid c" "y < 10000" "1 \<le> y" "1 \<le> m" "m \<le> 12" "1 \<le> d" "d \<le> 31"
    "h < 24" "mi < 60" "s < 60" and n: "civil_days (int y) (int m) (int d) = int n"
  shows "http_date_seconds (http_text weekday (y, m, d) (h, mi, s)) = Some (n * 86400 + h * 3600 + mi * 60 + s)"
proof -
  let ?clock = "padded 2 h @ '':'' @ padded 2 mi @ '':'' @ padded 2 s"
  note mon = month_names [OF assms(5,6)]
  have solids: "\<forall>c \<in> set (padded 2 d). solid c" "\<forall>c \<in> set (padded 4 y). solid c" "\<forall>c \<in> set ?clock. solid c" "\<forall>c \<in> set ''GMT''. solid c"
    by (auto dest: padded_solid simp: solid_def char_code_def)
  have nonempty: "padded w k \<noteq> []" for w k by (simp add: padded_def)
  have parts: "split_whitespace (http_text weekday (y, m, d) (h, mi, s)) = [weekday, padded 2 d, MONTHS ! (m - 1), padded 4 y, ?clock, ''GMT'']"
    using ws_split_word [OF assms(2)] ws_split_word [OF solids(1)] ws_split_word [of "MONTHS ! (m - 1)"] ws_split_word [OF solids(2)]
      ws_split_word [OF solids(3)] ws_split_last [OF solids(4)] mon assms(1) nonempty
    by (simp add: split_whitespace_def http_text_def)
  have days: "days_from_civil (int y) m d = int n"
    using days_from_civil_eq(1) [of "int y" m d] assms(3-8) n by simp
  have "int n < 1000000000000" using days_from_civil_eq(3) [of "int y" m d] assms(3-8) n by simp
  then have "wrap64 (int n * 86400 + int (h * 3600 + mi * 60 + s)) = int n * 86400 + int (h * 3600 + mi * 60 + s)"
    using assms(9-11) by (intro wrap64_small) linarith+
  then show ?thesis
    using assms days mon clock_seconds_text [OF assms(9-11)]
    by (simp add: http_date_seconds_def parts parse_uint_padded u32_max_def parse_padded nat_add_distrib nat_mult_distrib)
qed

section \<open>Properties\<close>

text \<open>
  A \<^verbatim>\<open>Retry-After\<close> date is read exactly: for the date \<open>n\<close> days after the first of January 1970
  (until the year 9999), the wait is the time of that date minus the clock, and zero when it is past,
  if the platform can hold the time. The header goes before the body; a header that does not read
  leaves the wait to the body.
\<close>

theorem retry_after_date_exact:
  assumes "nth_date n = (int y, int m, int d)" "y \<le> 9999" "h < 24" "mi < 60" "s < 60"
    and "weekday \<noteq> []" "\<forall>c \<in> set weekday. solid c"
    and "(n * 86400 + h * 3600 + mi * 60 + s) * NANOS \<le> limit"
  shows "rate_limit_wait limit J (Some (http_text weekday (y, m, d) (h, mi, s))) body now
       = Value (Some ((n * 86400 + h * 3600 + mi * 60 + s) * NANOS - now)) \<and>
     (parse_retry_after limit header now = Value None \<longrightarrow>
        rate_limit_wait limit J (Some header) body now = rate_limit_wait limit J None body now)"
proof
  obtain y' m' d' where "nth_date n = (y', m', d')" "valid_date (y', m', d')" "1970 \<le> y'" "civil_days y' m' d' = int n"
    by (rule nth_date_facts)
  then have v: "valid_date (int y, int m, int d)" "1970 \<le> y" "civil_days (int y) (int m) (int d) = int n" using assms(1) by simp_all
  then have b: "1 \<le> m" "m \<le> 12" "1 \<le> d" "d \<le> 31" "1 \<le> y" "y < 10000"
    using month_length_le [of "int y" "int m"] assms(2) by (simp_all add: valid_date_def)
  let ?t = "http_text weekday (y, m, d) (h, mi, s)"
  note secs = http_date_seconds_text [OF assms(6,7) b(6,5,1-4) assms(3-5) v(3)]
  have ne: "?t \<noteq> []" "hd ?t = hd weekday" "last ?t = CHR ''T''" using assms(6) by (simp_all add: http_text_def)
  have "solid (hd weekday)" "solid CHR ''T''" using assms(6,7) by (simp_all add: solid_def char_code_def)
  then have tr: "trim ?t = ?t" using ne by (intro trim_solid) simp_all
  have "CHR ''G'' \<in> set ?t" by (simp add: http_text_def)
  moreover have "\<not> is_ascii_digit CHR ''G''" by (simp add: ascii_defs)
  ultimately have "\<not> list_all is_ascii_digit ?t" unfolding list_all_iff by blast
  then show "rate_limit_wait limit J (Some ?t) body now = Value (Some ((n * 86400 + h * 3600 + mi * 60 + s) * NANOS - now))"
    using secs assms(8) tr by (simp add: rate_limit_wait_def parse_retry_after_def parse_http_date_def system_time_add_def Let_def)
  show "parse_retry_after limit header now = Value None \<longrightarrow>
        rate_limit_wait limit J (Some header) body now = rate_limit_wait limit J None body now"
    by (simp add: rate_limit_wait_def)
qed

theorem retry_after_date_exact_witness:
  "rate_limit_wait (u64_max * NANOS) json_instance (Some ''Thu, 01 Jan 1970 00:01:30 GMT'') None (30 * NANOS) = Value (Some (60 * NANOS))"
proof -
  have d: "nth_date 0 = (int 1970, int 1, int 1)" by (simp add: nth_date_def)
  have w: "\<forall>c \<in> set ''Thu,''. solid c" by (simp add: solid_def char_code_def)
  have "http_text ''Thu,'' (1970, 1, 1) (0, 1, 30) = ''Thu, 01 Jan 1970 00:01:30 GMT''" by code_simp
  with retry_after_date_exact [OF d _ _ _ _ _ w, of 0 1 30 "u64_max * NANOS" json_instance None "30 * NANOS" "[]"]
  show ?thesis by (simp add: NANOS_def u64_max_def)
qed

text \<open>
  Claim C37. A \<^verbatim>\<open>Retry-After\<close> date can stop the client. On a platform whose last point in time is the one
  of Windows (100 nanoseconds counted in 63 bits, about the year 30828), there is a header with a well
  formed date whose reading panics: the point in time is added without a check. A reader that refuses
  what it cannot represent would give no wait.
\<close>

theorem retry_after_far_date_panics:
  assumes "limit < 910692730086 * NANOS"
  shows "\<exists>header. parse_retry_after limit header now = Panic \<and> rate_limit_wait limit J (Some header) body now = Panic"
proof (intro exI conjI)
  let ?t = "''Sun, 06 Nov 99999 08:49:37 GMT''"
  have t: "trim ?t = ?t" by code_simp
  have d: "list_all is_ascii_digit ?t \<longleftrightarrow> False" by code_simp
  have s: "http_date_seconds ?t = Some 3093523174177" by code_simp
  show p: "parse_retry_after limit ?t now = Panic"
    using assms t d s by (simp add: parse_retry_after_def parse_http_date_def system_time_add_def Let_def NANOS_def)
  show "rate_limit_wait limit J (Some ?t) body now = Panic"
    using p by (simp add: rate_limit_wait_def)
qed

theorem retry_after_far_date_panics_witness:
  "\<exists>header. parse_retry_after (910692730085 * NANOS) header 0 = Panic \<and>
     rate_limit_wait (910692730085 * NANOS) json_instance (Some header) None 0 = Panic"
  by (rule retry_after_far_date_panics) (simp add: NANOS_def)

end
