(* ===== verification/Identity.thy ===== *)
theory Identity
  imports Pairing
begin

text \<open>
  The requests and answers of the identity routes, from \<^verbatim>\<open>e2e_identity_routes.rs\<close>: the id block of a
  device, the signed list, the public keys of a bundle. A request is checked when it is built.
\<close>

section \<open>Fields\<close>

definition ONE_TIME_KEYS_MAX :: nat where "ONE_TIME_KEYS_MAX = 50"

definition key_text :: "crypto_api \<Rightarrow> 'v json_api \<Rightarrow> (string \<times> 'v) list \<Rightarrow> string \<Rightarrow> WireError + string" where
  "key_text C J m name =
     rbind (required_str J m name) (\<lambda>t. rbind (decode_key C t) (\<lambda>_. Inr t))"

definition signature_text :: "crypto_api \<Rightarrow> 'v json_api \<Rightarrow> (string \<times> 'v) list \<Rightarrow> string \<Rightarrow> WireError + string" where
  "signature_text C J m name =
     rbind (required_str J m name) (\<lambda>t. rbind (decode_signature C t) (\<lambda>_. Inr t))"

definition e2e_error :: "E2eError \<Rightarrow> WireError" where
  "e2e_error err = (case err of E2e_Wire w \<Rightarrow> w | _ \<Rightarrow> BadSignature)"

section \<open>Devices\<close>

record DeviceIdRequest =
  dr_ed25519 :: string
  dr_curve25519 :: string
  dr_sig :: string

definition DeviceIdRequest_new :: "crypto_api \<Rightarrow> string \<Rightarrow> string \<Rightarrow> string \<Rightarrow> WireError + DeviceIdRequest" where
  "DeviceIdRequest_new C ed25519 curve25519 sig =
     rbind (decode_key C ed25519) (\<lambda>_. rbind (decode_key C curve25519) (\<lambda>_. rbind (decode_signature C sig) (\<lambda>_.
       Inr \<lparr> dr_ed25519 = ed25519, dr_curve25519 = curve25519, dr_sig = sig \<rparr>)))"

datatype LastSeen = NotSent | Never | SeenAt string | Unreadable

record DeviceRecord =
  rec_did :: string
  rec_ed25519 :: string
  rec_curve25519 :: string
  rec_sig :: string
  rec_last_seen :: LastSeen
  rec_inserted_at :: "string option"

text \<open>\<^verbatim>\<open>bytes.get(index) == Some(&wanted)\<close> and the number in a run of digits.\<close>

definition byte_at :: "string \<Rightarrow> nat \<Rightarrow> char \<Rightarrow> bool" where
  "byte_at s index wanted \<longleftrightarrow> index < length s \<and> s ! index = wanted"

definition digits_at :: "string \<Rightarrow> nat \<Rightarrow> nat \<Rightarrow> nat option" where
  "digits_at s from len =
     (if from + len \<le> length s \<and> list_all is_ascii_digit (take len (drop from s))
      then parse_uint u32_max (take len (drop from s)) else None)"

definition iso_month_days :: "nat \<Rightarrow> nat \<Rightarrow> nat option" where
  "iso_month_days year month =
     (if month \<in> set [1, 3, 5, 7, 8, 10, 12] then Some 31
      else if month \<in> set [4, 6, 9, 11] then Some 30
      else if month = 2 then
        (if year mod 4 = 0 \<and> (year mod 100 \<noteq> 0 \<or> year mod 400 = 0) then Some 29 else Some 28)
      else None)"

definition iso_zone :: "string \<Rightarrow> nat \<Rightarrow> bool" where
  "iso_zone s index \<longleftrightarrow>
     (if byte_at s index CHR ''Z'' \<or> byte_at s index CHR ''z'' then index + 1 = length s
      else if byte_at s index CHR ''+'' \<or> byte_at s index CHR ''-'' then
        (case (digits_at s (index + 1) 2, digits_at s (index + 4) 2) of
           (Some zone_hour, Some zone_minute) \<Rightarrow>
             byte_at s (index + 3) CHR '':'' \<and> zone_hour \<le> 23 \<and> zone_minute \<le> 59 \<and> index + 6 = length s
         | _ \<Rightarrow> False)
      else False)"

definition iso_tail :: "string \<Rightarrow> bool" where
  "iso_tail s \<longleftrightarrow>
     (if byte_at s 19 CHR ''.'' then
        let run = length (takeWhile is_ascii_digit (drop 20 s))
        in run \<noteq> 0 \<and> iso_zone s (20 + run)
      else iso_zone s 19)"

definition is_iso_timestamp :: "string \<Rightarrow> bool" where
  "is_iso_timestamp s \<longleftrightarrow>
     (case (digits_at s 0 4, digits_at s 5 2, digits_at s 8 2, digits_at s 11 2, digits_at s 14 2, digits_at s 17 2) of
        (Some year, Some month, Some day, Some hour, Some minute, Some second) \<Rightarrow>
          byte_at s 4 CHR ''-'' \<and> byte_at s 7 CHR ''-'' \<and> (byte_at s 10 CHR ''T'' \<or> byte_at s 10 CHR ''t'')
          \<and> byte_at s 13 CHR '':'' \<and> byte_at s 16 CHR '':''
          \<and> (case iso_month_days year month of
               None \<Rightarrow> False
             | Some month_days \<Rightarrow>
                 \<not> (day = 0 \<or> day > month_days \<or> hour > 23 \<or> minute > 59 \<or> second > 60) \<and> iso_tail s)
      | _ \<Rightarrow> False)"

definition LastSeen_from_field :: "'v json_api \<Rightarrow> 'v option \<Rightarrow> LastSeen" where
  "LastSeen_from_field J value =
     (case value of
        None \<Rightarrow> NotSent
      | Some v \<Rightarrow>
          if is_null J v then Never
          else (case as_str J v of
                  Some t \<Rightarrow> if is_iso_timestamp t then SeenAt t else Unreadable
                | None \<Rightarrow> Unreadable))"

definition DeviceRecord_from_value :: "crypto_api \<Rightarrow> 'v json_api \<Rightarrow> 'v \<Rightarrow> WireError + DeviceRecord" where
  "DeviceRecord_from_value C J value =
     rbind (as_object J value) (\<lambda>m.
     rbind (key_text C J m ''ed25519'') (\<lambda>ed25519.
     rbind (required_str J m ''did'') (\<lambda>did.
     rbind (if \<not> is_did_shape C did then Inl BadDid
            else rbind (did_from_key_text C ed25519) (\<lambda>own. if own \<noteq> did then Inl BadDid else Inr ())) (\<lambda>_.
     rbind (key_text C J m ''curve25519'') (\<lambda>curve25519.
     rbind (signature_text C J m ''sig'') (\<lambda>sig.
       Inr \<lparr> rec_did = did, rec_ed25519 = ed25519, rec_curve25519 = curve25519, rec_sig = sig,
              rec_last_seen = LastSeen_from_field J (map_of m ''last_seen_at''),
              rec_inserted_at =
                Option.bind (map_of m ''inserted_at'') (\<lambda>v. Option.bind (as_str J v)
                  (\<lambda>t. if is_iso_timestamp t then Some t else None)) \<rparr>))))))"

fun collect_results :: "('a \<Rightarrow> 'e + 'b) \<Rightarrow> 'a list \<Rightarrow> 'e + 'b list" where
  "collect_results f [] = Inr []"
| "collect_results f (x # xs) = rbind (f x) (\<lambda>y. rbind (collect_results f xs) (\<lambda>ys. Inr (y # ys)))"

definition device_list_from_value :: "crypto_api \<Rightarrow> 'v json_api \<Rightarrow> 'v \<Rightarrow> WireError + DeviceRecord list" where
  "device_list_from_value C J value =
     rbind (as_object J value) (\<lambda>m.
     rbind (ok_or (map_of m ''devices'') MissingField) (\<lambda>v.
     rbind (ok_or (as_array J v) BadFieldType) (\<lambda>items.
       collect_results (DeviceRecord_from_value C J) items)))"

definition device_matches :: "DeviceRecord \<Rightarrow> DeviceIdRequest \<Rightarrow> bool" where
  "device_matches r request \<longleftrightarrow>
     rec_ed25519 r = dr_ed25519 request \<and> rec_curve25519 r = dr_curve25519 request \<and> rec_sig r = dr_sig request"

section \<open>The list\<close>

record ListRequest =
  lr_master :: string
  lr_ver :: nat
  lr_devices :: "string list"
  lr_sig :: string

definition ListRequest_new :: "crypto_api \<Rightarrow> string \<Rightarrow> SignedList \<Rightarrow> WireError + ListRequest" where
  "ListRequest_new C master l =
     rbind (decode_key C master) (\<lambda>_.
     if \<not> successively (\<lambda>a b. a < b) (sl_keys l) then Inl BadDeviceCount
     else
     rbind (check_list_devices C (sl_keys l)) (\<lambda>_.
     rbind (map_err e2e_error (verify_signed_list C (sl_version l) (sl_keys l) master (sl_signature l))) (\<lambda>_.
       Inr \<lparr> lr_master = master, lr_ver = sl_version l, lr_devices = sl_keys l, lr_sig = sl_signature l \<rparr>)))"

record HeldList =
  hl_master :: string
  hl_list :: SignedList

definition HeldList_from_value :: "crypto_api \<Rightarrow> 'v json_api \<Rightarrow> 'v \<Rightarrow> WireError + HeldList" where
  "HeldList_from_value C J value =
     rbind (as_object J value) (\<lambda>m.
     rbind (ok_or (map_of m ''ver'') MissingField) (\<lambda>v.
     rbind (ok_or (as_u64 J v) BadFieldType) (\<lambda>ver.
     rbind (if ver \<le> u32_max \<and> 1 \<le> ver \<and> ver \<le> MAX_VERSION then Inr ver else Inl BadVersion) (\<lambda>version.
     rbind (ok_or (map_of m ''devices'') MissingField) (\<lambda>d.
     rbind (ok_or (as_array J d) BadFieldType) (\<lambda>items.
     rbind (collect_results (\<lambda>key. rbind (ok_or (as_str J key) BadFieldType) (\<lambda>t.
              rbind (decode_key C t) (\<lambda>_. Inr t))) items) (\<lambda>keys.
     rbind (check_list_devices C keys) (\<lambda>_.
     rbind (key_text C J m ''master'') (\<lambda>master.
     rbind (signature_text C J m ''sig'') (\<lambda>sig.
       Inr \<lparr> hl_master = master, hl_list = \<lparr> sl_version = version, sl_keys = keys, sl_signature = sig \<rparr> \<rparr>))))))))))"

section \<open>The keys of a bundle\<close>

record SignedKey =
  sk_key :: string
  sk_sig :: string

definition SignedKey_new :: "crypto_api \<Rightarrow> string \<Rightarrow> string \<Rightarrow> WireError + SignedKey" where
  "SignedKey_new C key sig =
     rbind (decode_key C key) (\<lambda>_. rbind (decode_signature C sig) (\<lambda>_. Inr \<lparr> sk_key = key, sk_sig = sig \<rparr>))"

record KeysUploadRequest =
  ku_one_time_keys :: "SignedKey list option"
  ku_fallback :: "SignedKey option"

definition KeysUploadRequest_new :: "SignedKey list \<Rightarrow> SignedKey option \<Rightarrow> WireError + KeysUploadRequest" where
  "KeysUploadRequest_new one_time_keys fallback =
     (if length one_time_keys > ONE_TIME_KEYS_MAX then Inl TooManyKeys
      else if one_time_keys = [] \<and> fallback = None then Inl BadPayload
      else Inr \<lparr> ku_one_time_keys = (if one_time_keys = [] then None else Some one_time_keys), ku_fallback = fallback \<rparr>)"

record KeysHeld =
  kh_one_time_keys :: nat
  kh_fallback :: bool

definition KeysHeld_from_value :: "'v json_api \<Rightarrow> 'v \<Rightarrow> WireError + KeysHeld" where
  "KeysHeld_from_value J value =
     rbind (as_object J value) (\<lambda>m.
     rbind (ok_or (map_of m ''one_time_keys'') MissingField) (\<lambda>v.
     rbind (ok_or (as_u64 J v) BadFieldType) (\<lambda>count.
     rbind (ok_or (map_of m ''fallback'') MissingField) (\<lambda>f.
     rbind (ok_or (as_bool J f) BadFieldType) (\<lambda>fallback.
     rbind (if count \<le> u64_max then Inr count else Inl BadFieldType) (\<lambda>count.
       Inr \<lparr> kh_one_time_keys = count, kh_fallback = fallback \<rparr>))))))"

section \<open>Lemmas\<close>

lemma collect_results_Inr: "collect_results f xs = Inr ys \<longleftrightarrow> list_all2 (\<lambda>x y. f x = Inr y) xs ys"
  by (induction xs arbitrary: ys) (auto simp: rbind_eq_Inr list_all2_Cons1)

lemma key_text_Inr: "key_text C J m name = Inr t \<Longrightarrow> \<exists>raw. decode_key C t = Inr raw"
  by (auto simp: key_text_def rbind_eq_Inr)

lemma signature_text_Inr: "signature_text C J m name = Inr t \<Longrightarrow> \<exists>raw. decode_signature C t = Inr raw"
  by (auto simp: signature_text_def rbind_eq_Inr)

lemma strict_sorted_iff: "successively (\<lambda>a b. a < b) xs \<longleftrightarrow> sorted xs \<and> distinct (xs :: string list)"
proof -
  have "successively (\<lambda>a b. a < b) xs = sorted_wrt (\<lambda>a b. a < b) xs"
    by (rule successively_conv_sorted_wrt) (auto intro: transpI)
  then show ?thesis by (simp add: strict_sorted_iff)
qed

lemma ListRequest_new_Inr:
  "ListRequest_new C master l = Inr r \<longleftrightarrow>
     r = \<lparr> lr_master = master, lr_ver = sl_version l, lr_devices = sl_keys l, lr_sig = sl_signature l \<rparr> \<and>
     is_ok (decode_key C master) \<and> sorted (sl_keys l) \<and> distinct (sl_keys l) \<and>
     verify_signed_list C (sl_version l) (sl_keys l) master (sl_signature l) = Inr ()"
  by (auto simp: ListRequest_new_def rbind_eq_Inr strict_sorted_iff is_ok_iff verify_signed_list_Inr
      check_list_devices_ok)

lemma digits_at_value: "digits_at s from len = Some n \<Longrightarrow> number_at s from (from + len) = Some (int n)"
proof -
  assume d: "digits_at s from len = Some n"
  let ?t = "take len (drop from s)"
  have t: "list_all is_ascii_digit ?t" "parse_uint u32_max ?t = Some n" using d by (auto simp: digits_at_def split: if_splits)
  have ne: "?t \<noteq> []" using t(2) by (cases ?t) (auto simp: parse_uint_def)
  have "digits_value 0 ?t = n" "n \<le> u32_max"
    using t parse_uint_digits [OF ne t(1)] by (auto split: if_splits)
  then have "parse_uint i64_max ?t = Some n"
    using parse_uint_digits [OF ne t(1), of i64_max] by (simp add: u32_max_def i64_max_def)
  moreover have "hd ?t \<noteq> CHR ''-''" using t(1) ne digit_not_special(5) by (cases ?t) auto
  ultimately have "parse_i64 ?t = Some (int n)" using ne by (cases ?t) (auto simp: parse_i64_def)
  then show ?thesis using t(1) by (simp add: number_at_def)
qed

lemma iso_month_days_length:
  "iso_month_days y m = Some k \<Longrightarrow> 1 \<le> m \<and> m \<le> 12 \<and> int k = month_length (int y) (int m)"
proof -
  assume k: "iso_month_days y m = Some k"
  have leap: "is_leap (int y) \<longleftrightarrow> y mod 4 = 0 \<and> (y mod 100 \<noteq> 0 \<or> y mod 400 = 0)"
    unfolding is_leap_def by presburger
  show ?thesis using k leap by (auto simp: iso_month_days_def month_length_def split: if_splits)
qed

section \<open>Properties\<close>

text \<open>
  A list leaves the client only when it is valid: the request of the list route is built
  exactly for one to four distinct keys in ascending order whose signature verifies under the given
  master, and it carries them unchanged.
\<close>

theorem list_request_is_verified:
  "ListRequest_new C master l = Inr r \<longleftrightarrow>
     r = \<lparr> lr_master = master, lr_ver = sl_version l, lr_devices = sl_keys l, lr_sig = sl_signature l \<rparr> \<and>
     is_ok (decode_key C master) \<and> sorted (sl_keys l) \<and> distinct (sl_keys l) \<and>
     is_ok (verify_signed_list C (sl_version l) (sl_keys l) master (sl_signature l))"
  unfolding ListRequest_new_Inr is_ok_unit ..

text \<open>
  A device record of the server is bound to its key: a record is read only when its device id
  is the one of its signing key and its keys and signature are well formed, whatever the other fields
  hold; and every time it keeps is a date of the Gregorian calendar with a time of day.
\<close>

theorem device_record_is_bound_to_key:
  assumes "DeviceRecord_from_value C J value = Inr r"
  shows "did_from_key_text C (rec_ed25519 r) = Inr (rec_did r) \<and> is_did_shape C (rec_did r) \<and>
     is_ok (decode_key C (rec_curve25519 r)) \<and> is_ok (decode_signature C (rec_sig r)) \<and>
     (\<forall>t. rec_inserted_at r = Some t \<or> rec_last_seen r = SeenAt t \<longrightarrow>
        (\<exists>y m d h mi s. number_at t 0 4 = Some y \<and> number_at t 5 7 = Some m \<and> number_at t 8 10 = Some d \<and>
           valid_date (y, m, d) \<and> number_at t 11 13 = Some h \<and> h \<le> 23 \<and> number_at t 14 16 = Some mi \<and> mi \<le> 59 \<and>
           number_at t 17 19 = Some s \<and> s \<le> 60))"
proof (intro conjI allI impI)
  show "did_from_key_text C (rec_ed25519 r) = Inr (rec_did r)" "is_did_shape C (rec_did r)"
    "is_ok (decode_key C (rec_curve25519 r))" "is_ok (decode_signature C (rec_sig r))"
    using assms key_text_Inr signature_text_Inr
    by (auto simp: DeviceRecord_from_value_def rbind_eq_Inr is_ok_iff split: if_splits)
  fix t
  assume "rec_inserted_at r = Some t \<or> rec_last_seen r = SeenAt t"
  then have "is_iso_timestamp t"
    using assms
    by (auto simp: DeviceRecord_from_value_def rbind_eq_Inr LastSeen_from_field_def bind_eq_Some_conv split: if_splits option.splits)
  then obtain y m d h mi s k where f: "digits_at t 0 4 = Some y" "digits_at t 5 2 = Some m" "digits_at t 8 2 = Some d"
    "digits_at t 11 2 = Some h" "digits_at t 14 2 = Some mi" "digits_at t 17 2 = Some s"
    "iso_month_days y m = Some k" "0 < d" "d \<le> k" "h \<le> 23" "mi \<le> 59" "s \<le> 60"
    by (auto simp: is_iso_timestamp_def split: option.splits)
  have "valid_date (int y, int m, int d)"
    using iso_month_days_length [OF f(7)] f(8,9) by (simp add: valid_date_def)
  then show "\<exists>y m d h mi s. number_at t 0 4 = Some y \<and> number_at t 5 7 = Some m \<and> number_at t 8 10 = Some d \<and>
           valid_date (y, m, d) \<and> number_at t 11 13 = Some h \<and> h \<le> 23 \<and> number_at t 14 16 = Some mi \<and> mi \<le> 59 \<and>
           number_at t 17 19 = Some s \<and> s \<le> 60"
    using digits_at_value [OF f(1)] digits_at_value [OF f(2)] digits_at_value [OF f(3)] digits_at_value [OF f(4)]
      digits_at_value [OF f(5)] digits_at_value [OF f(6)] f(10-12)
    by (intro exI [of _ "int y"] exI [of _ "int m"] exI [of _ "int d"] exI [of _ "int h"] exI [of _ "int mi"] exI [of _ "int s"]) simp
qed

definition toy_did :: string where
  "toy_did = b64url_encode toy_crypto (take 8 (toy_digest (replicate 32 CHR ''d'')))"

definition toy_record_value :: json where
  "toy_record_value = JObject
     [(''did'', JString toy_did), (''ed25519'', JString (toy_key CHR ''d'')), (''curve25519'', JString (toy_key CHR ''c'')),
      (''sig'', JString (toy_sign CHR ''d'' [])), (''last_seen_at'', JString ''2026-02-31T00:00:00Z''),
      (''inserted_at'', JString ''2028-02-29T23:59:60.5+02:00'')]"

theorem device_record_is_bound_to_key_witness:
  "\<exists>r. DeviceRecord_from_value toy_crypto json_instance toy_record_value = Inr r \<and>
     did_from_key_text toy_crypto (rec_ed25519 r) = Inr (rec_did r) \<and> is_did_shape toy_crypto (rec_did r) \<and>
     rec_last_seen r = Unreadable \<and> rec_inserted_at r = Some ''2028-02-29T23:59:60.5+02:00''"
proof -
  let ?r = "DeviceRecord_from_value toy_crypto json_instance toy_record_value"
  have "(case ?r of Inr r \<Rightarrow> rec_last_seen r = Unreadable \<and> rec_inserted_at r = Some ''2028-02-29T23:59:60.5+02:00'' | _ \<Rightarrow> False)"
    by code_simp
  then obtain r where r: "?r = Inr r" "rec_last_seen r = Unreadable" "rec_inserted_at r = Some ''2028-02-29T23:59:60.5+02:00''"
    by (auto split: sum.splits)
  with device_record_is_bound_to_key [OF r(1)] show ?thesis by blast
qed

text \<open>The two readers of a server time disagree: the end time of an offer takes a date that does not
  exist, which the time of a device refuses, for a date of the next month.\<close>

lemma offer_time_takes_missing_dates:
  "parse_utc_seconds ''2026-02-31T00:00:00Z'' = parse_utc_seconds ''2026-03-03T00:00:00Z'' \<and>
   parse_utc_seconds ''2026-03-03T00:00:00Z'' = Some 1772496000 \<and> (is_iso_timestamp ''2026-02-31T00:00:00Z'' = False)"
  by (intro conjI) code_simp+

end
