(* ===== verification/Inbox.thy ===== *)
theory Inbox
  imports Protocol Pacing Identity
begin

text \<open>
  The requests and rows of the per-device routes, from \<^verbatim>\<open>e2e_device_routes.rs\<close>: claims of a key, copies
  to the other devices of the account, the inbox and its acknowledgement, and the events of a message
  that arrives in several lines. The reader of JSON text is the parameter \<open>parse\<close>.
\<close>

section \<open>Fields\<close>

definition INBOX_PAGE_MAX :: nat where "INBOX_PAGE_MAX = 100"
definition SEND_PAYLOAD_MAX_BYTES :: nat where "SEND_PAYLOAD_MAX_BYTES = 32 * 1024"
definition COPY_PAYLOAD_MAX_BYTES :: nat where "COPY_PAYLOAD_MAX_BYTES = SEND_PAYLOAD_MAX_BYTES"

definition check_compact_json :: "'v json_api \<Rightarrow> (string \<Rightarrow> 'v option) \<Rightarrow> string \<Rightarrow> WireError + unit" where
  "check_compact_json J parse t =
     (if t = [] \<or> CHR '' '' \<in> set t then Inl BadPayload
      else rbind (parse_payload parse t) (\<lambda>v. if as_map J v \<noteq> None then Inr () else Inl BadPayload))"

definition read_id :: "'v json_api \<Rightarrow> 'v \<Rightarrow> WireError + nat" where
  "read_id J value =
     (case as_u64 J value of
        Some i \<Rightarrow> if i > 0 then Inr i else Inl BadId
      | None \<Rightarrow> Inl BadFieldType)"

definition required_id :: "'v json_api \<Rightarrow> (string \<times> 'v) list \<Rightarrow> string \<Rightarrow> WireError + nat" where
  "required_id J m key = rbind (ok_or (map_of m key) MissingField) (read_id J)"

section \<open>Claims and copies\<close>

record ClaimRequest =
  cl_from_did :: string

definition ClaimRequest_new :: "crypto_api \<Rightarrow> string \<Rightarrow> WireError + ClaimRequest" where
  "ClaimRequest_new C from_did =
     (if \<not> is_did_shape C from_did then Inl BadDid else Inr \<lparr> cl_from_did = from_did \<rparr>)"

definition ClaimResponse_from_value ::
    "'v json_api \<Rightarrow> (string \<Rightarrow> 'v option) \<Rightarrow> 'v \<Rightarrow> WireError + string" where
  "ClaimResponse_from_value J parse value =
     rbind (as_object J value) (\<lambda>m.
     rbind (required_str J m ''keys'') (\<lambda>keys.
     rbind (check_compact_json J parse keys) (\<lambda>_. Inr keys)))"

datatype CopyVerb = CopyPkMsg | CopyMsg

record CopyRequest =
  cp_from_did :: string
  cp_verb :: CopyVerb
  cp_payload :: string

definition CopyRequest_new ::
    "crypto_api \<Rightarrow> 'v json_api \<Rightarrow> (string \<Rightarrow> 'v option) \<Rightarrow> string \<Rightarrow> CopyVerb \<Rightarrow> string \<Rightarrow> WireError + CopyRequest" where
  "CopyRequest_new C J parse from_did verb payload =
     (if \<not> is_did_shape C from_did then Inl BadDid
      else if length payload > COPY_PAYLOAD_MAX_BYTES then Inl BadPayload
      else rbind (check_compact_json J parse payload) (\<lambda>_.
             Inr \<lparr> cp_from_did = from_did, cp_verb = verb, cp_payload = payload \<rparr>))"

record CopyAccepted =
  ca_id :: nat
  ca_msgid :: string

definition CopyAccepted_from_value :: "'v json_api \<Rightarrow> 'v \<Rightarrow> WireError + CopyAccepted" where
  "CopyAccepted_from_value J value =
     rbind (as_object J value) (\<lambda>m.
     rbind (required_id J m ''id'') (\<lambda>i.
     rbind (required_msgid J m) (\<lambda>msgid. Inr \<lparr> ca_id = i, ca_msgid = msgid \<rparr>)))"

definition InboxAckRequest_new :: "nat list \<Rightarrow> WireError + nat list" where
  "InboxAckRequest_new ids =
     (if ids = [] \<or> length ids > INBOX_PAGE_MAX then Inl BadIdCount
      else if 0 \<in> set ids then Inl BadId else Inr ids)"

section \<open>Rows of the inbox\<close>

datatype InboxVerb = IV_Keys | IV_PkMsg | IV_Msg | IV_Nack

definition InboxVerb_parse :: "string \<Rightarrow> WireError + InboxVerb" where
  "InboxVerb_parse t =
     (if t = ''keys'' then Inr IV_Keys else if t = ''pkmsg'' then Inr IV_PkMsg
      else if t = ''msg'' then Inr IV_Msg else if t = ''nack'' then Inr IV_Nack else Inl BadVerb)"

record InboxRow =
  row_id :: nat
  row_network :: string
  row_from :: string
  row_from_did :: string
  row_to_did :: string
  row_verb :: InboxVerb
  row_msgid :: string
  row_payload :: string
  row_own :: bool

definition row_own_flag :: "'v json_api \<Rightarrow> 'v option \<Rightarrow> nat option \<Rightarrow> WireError + bool" where
  "row_own_flag J value server_protocol =
     (case value of
        None \<Rightarrow> Inr False
      | Some v \<Rightarrow> if \<not> own_flag_allowed server_protocol then Inl UnknownField else ok_or (as_bool J v) BadFieldType)"

definition InboxRow_from_value ::
    "crypto_api \<Rightarrow> 'v json_api \<Rightarrow> (string \<Rightarrow> 'v option) \<Rightarrow> 'v \<Rightarrow> nat option \<Rightarrow> WireError + InboxRow" where
  "InboxRow_from_value C J parse value server_protocol =
     rbind (as_object J value) (\<lambda>m.
     rbind (required_str J m ''kind'') (\<lambda>kind.
     rbind (if kind \<noteq> ''e2e_message'' then Inl BadFieldType else Inr ()) (\<lambda>_.
     rbind (row_own_flag J (map_of m ''own'') server_protocol) (\<lambda>own.
     rbind (required_str J m ''verb'') (\<lambda>verb.
     rbind (InboxVerb_parse verb) (\<lambda>verb.
     rbind (required_str J m ''from_did'') (\<lambda>from_did.
     rbind (let wildcard_sender = (from_did = WILDCARD \<and>
                   (verb = IV_Keys \<or> verb = IV_Nack \<and> version_at_least 52 server_protocol))
            in if \<not> is_did_shape C from_did \<and> \<not> wildcard_sender then Inl BadDid else Inr ()) (\<lambda>_.
     rbind (required_str J m ''to_did'') (\<lambda>to_did.
     rbind (if \<not> is_did_shape C to_did then Inl BadDid else Inr ()) (\<lambda>_.
     rbind (required_str J m ''payload'') (\<lambda>payload.
     rbind (check_compact_json J parse payload) (\<lambda>_.
     rbind (required_id J m ''id'') (\<lambda>i.
     rbind (required_str J m ''network'') (\<lambda>network.
     rbind (required_str J m ''from'') (\<lambda>from_nick.
     rbind (required_msgid J m) (\<lambda>msgid.
       Inr \<lparr> row_id = i, row_network = network, row_from = from_nick, row_from_did = from_did, row_to_did = to_did,
              row_verb = verb, row_msgid = msgid, row_payload = payload, row_own = own \<rparr>))))))))))))))))"

definition page_from_value ::
    "crypto_api \<Rightarrow> 'v json_api \<Rightarrow> (string \<Rightarrow> 'v option) \<Rightarrow> 'v \<Rightarrow> nat option \<Rightarrow> WireError + InboxRow list" where
  "page_from_value C J parse value server_protocol =
     rbind (as_object J value) (\<lambda>m.
     rbind (ok_or (map_of m ''messages'') MissingField) (\<lambda>v.
     rbind (ok_or (as_array J v) BadFieldType) (\<lambda>rows.
       collect_results (\<lambda>row. InboxRow_from_value C J parse row server_protocol) rows)))"

section \<open>Messages that arrive in several lines\<close>

record IncomingEvent =
  in_network :: string
  in_from :: string
  in_from_did :: string
  in_to :: string
  in_msgid :: string

record IncomingLostEvent =
  lost_network :: string
  lost_from_did :: string
  lost_to :: string
  lost_msgid :: string

definition incoming_to :: "crypto_api \<Rightarrow> 'v json_api \<Rightarrow> (string \<times> 'v) list \<Rightarrow> WireError + string" where
  "incoming_to C J m =
     rbind (required_str J m ''to'') (\<lambda>t. if t \<noteq> WILDCARD \<and> \<not> is_did_shape C t then Inl BadDid else Inr t)"

definition incoming_from_did :: "crypto_api \<Rightarrow> 'v json_api \<Rightarrow> (string \<times> 'v) list \<Rightarrow> WireError + string" where
  "incoming_from_did C J m =
     rbind (required_str J m ''from_did'') (\<lambda>t. if \<not> is_did_shape C t then Inl BadDid else Inr t)"

definition IncomingEvent_from_value :: "crypto_api \<Rightarrow> 'v json_api \<Rightarrow> 'v \<Rightarrow> WireError + IncomingEvent" where
  "IncomingEvent_from_value C J value =
     rbind (as_object J value) (\<lambda>m.
     rbind (required_str J m ''kind'') (\<lambda>kind.
     if kind \<noteq> ''e2e_incoming'' then Inl BadFieldType
     else
     rbind (required_str J m ''from'') (\<lambda>from_nick.
     if from_nick = [] then Inl MissingField
     else
     rbind (required_str J m ''network'') (\<lambda>network.
     rbind (incoming_from_did C J m) (\<lambda>from_did.
     rbind (incoming_to C J m) (\<lambda>t.
     rbind (required_msgid J m) (\<lambda>msgid.
       Inr \<lparr> in_network = network, in_from = from_nick, in_from_did = from_did, in_to = t, in_msgid = msgid \<rparr>)))))))"

definition IncomingEvent_is_for :: "IncomingEvent \<Rightarrow> string \<Rightarrow> bool" where
  "IncomingEvent_is_for e own_did \<longleftrightarrow> in_to e = WILDCARD \<or> in_to e = own_did"

definition IncomingLostEvent_from_value :: "crypto_api \<Rightarrow> 'v json_api \<Rightarrow> 'v \<Rightarrow> WireError + IncomingLostEvent" where
  "IncomingLostEvent_from_value C J value =
     rbind (as_object J value) (\<lambda>m.
     rbind (required_str J m ''kind'') (\<lambda>kind.
     if kind \<noteq> ''e2e_incoming_lost'' then Inl BadFieldType
     else
     rbind (required_str J m ''network'') (\<lambda>network.
     rbind (incoming_from_did C J m) (\<lambda>from_did.
     rbind (incoming_to C J m) (\<lambda>t.
     rbind (required_msgid J m) (\<lambda>msgid.
       Inr \<lparr> lost_network = network, lost_from_did = from_did, lost_to = t, lost_msgid = msgid \<rparr>))))))"

definition IncomingLostEvent_is_for :: "IncomingLostEvent \<Rightarrow> string \<Rightarrow> bool" where
  "IncomingLostEvent_is_for e own_did \<longleftrightarrow> lost_to e = WILDCARD \<or> lost_to e = own_did"

section \<open>Lemmas\<close>

lemma check_compact_json_Inr:
  "check_compact_json J parse t = Inr () \<longleftrightarrow>
     t \<noteq> [] \<and> list_all (\<lambda>c. is_ascii_char c \<and> \<not> is_ascii_control c \<and> c \<noteq> CHR '' '') t \<and>
     (\<exists>v. parse t = Some v \<and> as_map J v \<noteq> None)"
  by (auto simp: check_compact_json_def parse_payload_def rbind_eq_Inr list_all_iff list_ex_iff)

lemma if_unit_Inr [simp]: "(if b then Inl e else Inr ()) = Inr u \<longleftrightarrow> \<not> b"
  by simp

lemma read_id_Inr: "read_id J v = Inr i \<longleftrightarrow> as_u64 J v = Some i \<and> i > 0"
  by (auto simp: read_id_def split: option.splits)

text \<open>What every row that is read satisfies.\<close>

lemma InboxRow_from_value_facts:
  assumes "InboxRow_from_value C J parse value server_protocol = Inr row"
  shows "is_did_shape C (row_to_did row)"
    "is_did_shape C (row_from_did row) \<or>
      row_from_did row = WILDCARD \<and> (row_verb row = IV_Keys \<or> row_verb row = IV_Nack \<and> version_at_least 52 server_protocol)"
    "row_own row \<Longrightarrow> own_flag_allowed server_protocol"
    "row_id row > 0" "check_compact_json J parse (row_payload row) = Inr ()" "row_msgid row \<noteq> []"
proof -
  have "is_did_shape C (row_to_did row) \<and>
    (is_did_shape C (row_from_did row) \<or>
      row_from_did row = WILDCARD \<and> (row_verb row = IV_Keys \<or> row_verb row = IV_Nack \<and> version_at_least 52 server_protocol)) \<and>
    (row_own row \<longrightarrow> own_flag_allowed server_protocol) \<and> row_id row > 0 \<and>
    check_compact_json J parse (row_payload row) = Inr () \<and> row_msgid row \<noteq> []"
    using assms unfolding InboxRow_from_value_def rbind_eq_Inr Let_def row_own_flag_def required_id_def
    by (auto simp: rbind_eq_Inr read_id_Inr required_msgid_def split: option.splits if_splits)
  then show "is_did_shape C (row_to_did row)"
    "is_did_shape C (row_from_did row) \<or>
      row_from_did row = WILDCARD \<and> (row_verb row = IV_Keys \<or> row_verb row = IV_Nack \<and> version_at_least 52 server_protocol)"
    "row_own row \<Longrightarrow> own_flag_allowed server_protocol"
    "row_id row > 0" "check_compact_json J parse (row_payload row) = Inr ()" "row_msgid row \<noteq> []"
    by blast+
qed

end
