(* ===== verification/Send_Request.thy ===== *)
theory Send_Request
  imports Inbox Pacing
begin

text \<open>
  The requests of the send door and of the consent to an encrypted chat, from \<^verbatim>\<open>rest.rs\<close>, with the two
  tests of a target from \<^verbatim>\<open>slash.rs\<close>. A request exists only when every field passed its check.
\<close>

section \<open>Targets\<close>

definition QUERY_LOCK_LABEL :: string where "QUERY_LOCK_LABEL = [CHR 0xF0, CHR 0x9F, CHR 0x94, CHR 0x92]"

definition is_channel :: "string \<Rightarrow> bool" where
  "is_channel name \<longleftrightarrow> name \<noteq> [] \<and> hd name \<in> {CHR ''#'', CHR ''&'', CHR ''!'', CHR ''+''}"

fun is_statusmsg_target :: "string \<Rightarrow> bool" where
  "is_statusmsg_target [] = False"
| "is_statusmsg_target (c # rest) =
     (c \<in> {CHR ''~'', CHR ''&'', CHR ''@'', CHR ''%'', CHR ''+''} \<and> (is_channel rest \<or> is_statusmsg_target rest))"

definition valid_e2e_peer_target :: "string \<Rightarrow> bool" where
  "valid_e2e_peer_target target \<longleftrightarrow>
     target \<noteq> [] \<and> \<not> contains QUERY_LOCK_LABEL target \<and> \<not> is_channel target \<and> \<not> is_statusmsg_target target \<and>
     \<not> list_ex (\<lambda>c. c \<in> {CHR 0x0D, CHR 0x0A, CHR 0x00, CHR '' ''}) target"

section \<open>The send door\<close>

datatype E2eSendVerb = SvKeyReq | SvPkMsg | SvMsg | SvNack

definition E2eSendVerb_parse :: "string \<Rightarrow> WireError + E2eSendVerb" where
  "E2eSendVerb_parse t =
     (if t = ''keyreq'' then Inr SvKeyReq else if t = ''pkmsg'' then Inr SvPkMsg
      else if t = ''msg'' then Inr SvMsg else if t = ''nack'' then Inr SvNack else Inl BadVerb)"

fun frame_verb :: "E2eSendVerb \<Rightarrow> Verb" where
  "frame_verb SvKeyReq = KeyReq"
| "frame_verb SvPkMsg = PkMsg"
| "frame_verb SvMsg = Msg"
| "frame_verb SvNack = Nack"

datatype E2eSendPriority = Control | Text | Reactive

definition SEND_PAYLOAD_MAX_LINES :: nat where "SEND_PAYLOAD_MAX_LINES = 64"

text \<open>\<^verbatim>\<open>text.lines().count()\<close>: the lines end with a line feed, which the last one may lack.\<close>

definition line_count :: "string \<Rightarrow> nat" where
  "line_count t =
     count_list t (CHR 0x0A) + (if t = [] \<or> List.last t = CHR 0x0A then 0 else 1)"

record E2eSendRequest =
  sq_target :: string
  sq_verb :: E2eSendVerb
  sq_from :: string
  sq_to :: string
  sq_payload :: string
  sq_priority :: "E2eSendPriority option"
  sq_expires_at :: "nat option"

definition expiry_ok :: "E2eSendVerb \<Rightarrow> E2eSendPriority option \<Rightarrow> nat option \<Rightarrow> bool" where
  "expiry_ok verb priority expires_at \<longleftrightarrow>
     (case expires_at of
        None \<Rightarrow> True
      | Some deadline \<Rightarrow>
          priority = Some Control \<and> (verb = SvMsg \<or> verb = SvPkMsg) \<and> deadline \<noteq> 0 \<and> deadline \<le> i64_max)"

definition E2eSendRequest_new ::
    "crypto_api \<Rightarrow> 'v json_api \<Rightarrow> (string \<Rightarrow> 'v option) \<Rightarrow> string \<Rightarrow> E2eSendVerb \<Rightarrow> string \<Rightarrow> string \<Rightarrow> string
     \<Rightarrow> E2eSendPriority option \<Rightarrow> nat option \<Rightarrow> WireError + E2eSendRequest" where
  "E2eSendRequest_new C J parse target verb sender recipient payload priority expires_at =
     (if \<not> valid_e2e_peer_target target then Inl BadTarget
      else
        rbind (check_addresses C (frame_verb verb) sender recipient) (\<lambda>_.
          if length payload > SEND_PAYLOAD_MAX_BYTES then Inl PayloadTooLarge
          else if line_count payload > SEND_PAYLOAD_MAX_LINES then Inl TooManyLines
          else
            rbind (check_compact_json J parse payload) (\<lambda>_.
              if \<not> expiry_ok verb priority expires_at then Inl BadExpiry
              else Inr \<lparr> sq_target = target, sq_verb = verb, sq_from = sender, sq_to = recipient, sq_payload = payload,
                         sq_priority = priority, sq_expires_at = expires_at \<rparr>)))"

definition SEND_FIELDS :: "string list" where
  "SEND_FIELDS = [''target'', ''verb'', ''from'', ''to'', ''payload'', ''priority'', ''expires_at'']"

text \<open>\<open>is_number\<close> tells a JSON number from the other kinds, which give another error.\<close>

definition read_priority :: "'v json_api \<Rightarrow> 'v option \<Rightarrow> WireError + E2eSendPriority option" where
  "read_priority J value =
     (case value of
        None \<Rightarrow> Inr None
      | Some v \<Rightarrow>
          (case as_str J v of
             None \<Rightarrow> Inl BadFieldType
           | Some t \<Rightarrow>
               if t = ''control'' then Inr (Some Control) else if t = ''text'' then Inr (Some Text)
               else if t = ''reactive'' then Inr (Some Reactive) else Inl BadPriority))"

definition read_expiry :: "'v json_api \<Rightarrow> ('v \<Rightarrow> bool) \<Rightarrow> 'v option \<Rightarrow> WireError + nat option" where
  "read_expiry J is_number value =
     (case value of
        None \<Rightarrow> Inr None
      | Some v \<Rightarrow> if \<not> is_number v then Inl BadFieldType else map_sum id Some (ok_or (as_u64 J v) BadExpiry))"

definition E2eSendRequest_from_value ::
    "crypto_api \<Rightarrow> 'v json_api \<Rightarrow> (string \<Rightarrow> 'v option) \<Rightarrow> ('v \<Rightarrow> bool) \<Rightarrow> 'v \<Rightarrow> WireError + E2eSendRequest" where
  "E2eSendRequest_from_value C J parse is_number value =
     rbind (as_object J value) (\<lambda>m.
     rbind (reject_unknown_fields m SEND_FIELDS) (\<lambda>_.
     rbind (rbind (required_str J m ''verb'') E2eSendVerb_parse) (\<lambda>verb.
     rbind (read_priority J (map_of m ''priority'')) (\<lambda>priority.
     rbind (read_expiry J is_number (map_of m ''expires_at'')) (\<lambda>expires_at.
     rbind (required_str J m ''target'') (\<lambda>target.
     rbind (required_str J m ''from'') (\<lambda>sender.
     rbind (required_str J m ''to'') (\<lambda>recipient.
     rbind (required_str J m ''payload'') (\<lambda>payload.
       E2eSendRequest_new C J parse target verb sender recipient payload priority expires_at)))))))))"

definition deadline_passed :: "E2eSendRequest \<Rightarrow> nat \<Rightarrow> bool" where
  "deadline_passed request now_unix_secs \<longleftrightarrow>
     (case sq_expires_at request of None \<Rightarrow> False | Some deadline \<Rightarrow> deadline \<le> now_unix_secs)"

section \<open>Consent to an encrypted chat\<close>

definition E2E_CONSENT_PAYLOAD_MAX_BYTES :: nat where "E2E_CONSENT_PAYLOAD_MAX_BYTES = 1024"

datatype E2eRequestState = RqIncoming | RqOutgoing | RqAccepted | RqRefused | RqExpired

fun E2eRequestState_as_str :: "E2eRequestState \<Rightarrow> string" where
  "E2eRequestState_as_str RqIncoming = ''incoming''"
| "E2eRequestState_as_str RqOutgoing = ''outgoing''"
| "E2eRequestState_as_str RqAccepted = ''accepted''"
| "E2eRequestState_as_str RqRefused = ''refused''"
| "E2eRequestState_as_str RqExpired = ''expired''"

definition E2eRequestState_parse :: "string \<Rightarrow> WireError + E2eRequestState" where
  "E2eRequestState_parse t =
     (if t = ''incoming'' then Inr RqIncoming else if t = ''outgoing'' then Inr RqOutgoing
      else if t = ''accepted'' then Inr RqAccepted else if t = ''refused'' then Inr RqRefused
      else if t = ''expired'' then Inr RqExpired else Inl BadFieldType)"

record E2eRequest =
  er_id :: nat
  er_peer :: string
  er_state :: E2eRequestState
  er_payload :: "string option"
  er_at :: string
  er_expires_at :: "string option"

definition optional_string :: "'v json_api \<Rightarrow> (string \<times> 'v) list \<Rightarrow> string \<Rightarrow> WireError + string option" where
  "optional_string J m field =
     (case map_of m field of
        None \<Rightarrow> Inr None
      | Some v \<Rightarrow>
          if is_null J v then Inr None
          else (case as_str J v of Some t \<Rightarrow> Inr (Some t) | None \<Rightarrow> Inl BadFieldType))"

definition optional_payload :: "'v json_api \<Rightarrow> (string \<times> 'v) list \<Rightarrow> string \<Rightarrow> WireError + string option" where
  "optional_payload J m field =
     (case map_of m field of
        None \<Rightarrow> Inr None
      | Some v \<Rightarrow>
          if is_null J v then Inr None
          else (case as_str J v of
                  Some t \<Rightarrow> if length t \<le> E2E_CONSENT_PAYLOAD_MAX_BYTES then Inr (Some t) else Inl PayloadTooLarge
                | None \<Rightarrow> Inl BadFieldType))"

definition REQUEST_FIELDS :: "string list" where
  "REQUEST_FIELDS = [''id'', ''peer'', ''state'', ''payload'', ''at'', ''expires_at'']"

definition E2eRequest_from_value :: "'v json_api \<Rightarrow> 'v \<Rightarrow> WireError + E2eRequest" where
  "E2eRequest_from_value J value =
     rbind (as_object J value) (\<lambda>m.
     rbind (reject_unknown_fields m REQUEST_FIELDS) (\<lambda>_.
     rbind (ok_or (Option.bind (Option.bind (map_of m ''id'') (as_u64 J)) (\<lambda>i. if 0 < i then Some i else None)) MissingField) (\<lambda>i.
     rbind (required_str J m ''peer'') (\<lambda>peer.
     rbind (if valid_e2e_peer_target peer then Inr () else Inl BadTarget) (\<lambda>_.
     rbind (rbind (required_str J m ''state'') E2eRequestState_parse) (\<lambda>state.
     rbind (optional_payload J m ''payload'') (\<lambda>payload.
     rbind (required_str J m ''at'') (\<lambda>at.
     rbind (if at = [] then Inl MissingField else Inr ()) (\<lambda>_.
     rbind (optional_string J m ''expires_at'') (\<lambda>expires_at.
       Inr \<lparr> er_id = i, er_peer = peer, er_state = state, er_payload = payload, er_at = at, er_expires_at = expires_at \<rparr>))))))))))"

definition E2eRequestList_from_value :: "'v json_api \<Rightarrow> 'v \<Rightarrow> WireError + E2eRequest list" where
  "E2eRequestList_from_value J value =
     rbind (as_object J value) (\<lambda>m.
     rbind (reject_unknown_fields m [''requests'']) (\<lambda>_.
     rbind (ok_or (Option.bind (map_of m ''requests'') (as_array J)) MissingField) (\<lambda>rows.
       collect_results (E2eRequest_from_value J) rows)))"

record E2eConsentLine =
  co_from :: string
  co_payload :: string

definition E2eConsentLine_new ::
    "crypto_api \<Rightarrow> 'v json_api \<Rightarrow> (string \<Rightarrow> 'v option) \<Rightarrow> string \<Rightarrow> string \<Rightarrow> WireError + E2eConsentLine" where
  "E2eConsentLine_new C J parse sender payload =
     (if \<not> is_did_shape C sender then Inl BadDid
      else if length payload > E2E_CONSENT_PAYLOAD_MAX_BYTES then Inl PayloadTooLarge
      else rbind (check_compact_json J parse payload) (\<lambda>_. Inr \<lparr> co_from = sender, co_payload = payload \<rparr>))"

record E2eRequestCreate =
  cr_target :: string
  cr_from :: string
  cr_payload :: string

definition E2eRequestCreate_new :: "string \<Rightarrow> E2eConsentLine \<Rightarrow> WireError + E2eRequestCreate" where
  "E2eRequestCreate_new target line =
     (if \<not> valid_e2e_peer_target target then Inl BadTarget
      else Inr \<lparr> cr_target = target, cr_from = co_from line, cr_payload = co_payload line \<rparr>)"

section \<open>Lemmas\<close>

lemma send_request_checked:
  assumes "E2eSendRequest_new C J parse target verb sender recipient payload priority expires_at = Inr request"
  shows "valid_e2e_peer_target (sq_target request)" "check_addresses C (frame_verb verb) sender recipient = Inr ()"
    "length (sq_payload request) \<le> SEND_PAYLOAD_MAX_BYTES" "line_count (sq_payload request) \<le> SEND_PAYLOAD_MAX_LINES"
    "sq_payload request = payload" "sq_target request = target" "sq_verb request = verb" "sq_to request = recipient"
    "sq_from request = sender" "sq_priority request = priority" "sq_expires_at request = expires_at"
  using assms by (auto simp: E2eSendRequest_new_def rbind_eq_Inr split: if_splits)

lemma request_state_roundtrip: "E2eRequestState_parse (E2eRequestState_as_str x) = Inr x"
  by (cases x) (simp_all add: E2eRequestState_parse_def)

end
