(* ===== verification/Client.thy ===== *)
theory Client
  imports Identity Protocol Backoff Inbox Send_Request Refusal
begin

text \<open>
  The calls of the pairing relay, of the identity routes and of the device inbox, from \<^verbatim>\<open>client.rs\<close>. The HTTP library and
  the server behind it are the parameter \<open>http\<close>: it takes a request and gives an answer or its own
  error, and changes the state of the other side. What leaves the client is the log of requests.
\<close>

section \<open>Requests and answers\<close>

text \<open>The bodies are the request types; their JSON text is the work of the derived writers.\<close>

datatype Body =
  NoBody | EmptyBody | CreateBody string | PayloadBody string | DeviceIdBody DeviceIdRequest
| ListBody ListRequest | KeysBody KeysUploadRequest | ClaimBody ClaimRequest | CopyBody CopyRequest
| AckBody "nat list" | SendBody E2eSendRequest | ConsentBody E2eRequestCreate | LineBody E2eConsentLine

record Request =
  rq_method :: E2eMethod
  rq_segments :: "string list"
  rq_query :: "(string \<times> string) list"
  rq_token :: string
  rq_body :: Body

record 'v Response =
  rs_status :: nat
  rs_retry_after :: "string option"
  rs_json :: "'v option"

text \<open>The state of the other side, the error of the library for an answer with no JSON body, the
  reader of the relay answers (a derived reader), the base URL and the clock.\<close>

record ('n, 'h, 'v) http_env =
  http :: "'n \<Rightarrow> Request \<Rightarrow> 'n \<times> ('h + 'v Response)"
  no_json :: 'h
  base_url_ok :: "(string, unit) sum"
  http_json :: "'v json_api"
  read_rendezvous :: "'v \<Rightarrow> Rendezvous option"
  read_message :: "'v \<Rightarrow> RelayMessage option"
  read_messages :: "'v \<Rightarrow> RelayMessage list option"
  http_now :: nat
  time_limit :: nat

text \<open>What a call does: the other side, and what it gives. A panic of the wait hint is a result of
  its own.\<close>

definition is_success :: "nat \<Rightarrow> bool" where
  "is_success status \<longleftrightarrow> 200 \<le> status \<and> status \<le> 299"

definition NO_CONTENT :: nat where "NO_CONTENT = 204"

definition reject_with_code ::
    "('n, 'h, 'v) http_env \<Rightarrow> 'v Response \<Rightarrow> ('h GrappaClientError + 'v Response) outcome" where
  "reject_with_code H response =
     (if is_success (rs_status response) then Value (Inr response)
      else
        let body = rs_json response;
            code = Option.bind body (\<lambda>b. str_field (http_json H) b ''error'')
        in (case rate_limit_wait (time_limit H) (http_json H) (rs_retry_after response) body (http_now H) of
              Panic \<Rightarrow> Panic
            | Value retry_after \<Rightarrow> Value (Inl (Rejected (rs_status response) code retry_after))))"

text \<open>Both senders: one request, the refusal, no body for 204, else the JSON body.\<close>

definition send_request ::
    "('n, 'h, 'v) http_env \<Rightarrow> 'n \<Rightarrow> Request \<Rightarrow> 'n \<times> ('h GrappaClientError + 'v option) outcome" where
  "send_request H n request =
     (case http H n request of
        (n, Inl err) \<Rightarrow> (n, Value (Inl (Http err)))
      | (n, Inr response) \<Rightarrow>
          (n, (case reject_with_code H response of
                 Panic \<Rightarrow> Panic
               | Value (Inl e) \<Rightarrow> Value (Inl e)
               | Value (Inr response) \<Rightarrow>
                   if rs_status response = NO_CONTENT then Value (Inr None)
                   else (case rs_json response of
                           None \<Rightarrow> Value (Inl (Http (no_json H)))
                         | Some body \<Rightarrow> Value (Inr (Some body))))))"

text \<open>The rest of a call after its answer.\<close>

definition answer :: "('e \<Rightarrow> 'f) \<Rightarrow> ('b \<Rightarrow> 'f + 'a) \<Rightarrow> 'n \<times> ('e + 'b) outcome \<Rightarrow> 'n \<times> ('f + 'a) outcome" where
  "answer g f r =
     (case r of
        (n, Panic) \<Rightarrow> (n, Panic)
      | (n, Value (Inl e)) \<Rightarrow> (n, Value (Inl (g e)))
      | (n, Value (Inr x)) \<Rightarrow> (n, Value (f x)))"

text \<open>\<^verbatim>\<open>path.split('/').filter(|part| !part.is_empty())\<close> is \<open>segments\<close>.\<close>

definition checked_base :: "('n, 'h, 'v) http_env \<Rightarrow> 'h GrappaClientError + unit" where
  "checked_base H = (case base_url_ok H of Inl e \<Rightarrow> Inl (InvalidUrl e) | Inr _ \<Rightarrow> Inr ())"

section \<open>The pairing relay\<close>

definition pairing_url ::
    "('n, 'h, 'v) http_env \<Rightarrow> PairingOperation \<Rightarrow> string option \<Rightarrow> nat option \<Rightarrow> nat option
     \<Rightarrow> 'h PairingCallError + (string list \<times> (string \<times> string) list)" where
  "pairing_url H x rendezvous_id server_protocol after =
     (if \<not> PairingOperation_available x server_protocol then Inl PC_Unavailable
      else
      rbind (map_err PC_Bad (PairingOperation_path x rendezvous_id)) (\<lambda>path.
      rbind (map_err call_error_from_client (checked_base H)) (\<lambda>_.
        Inr (segments path, (case after of None \<Rightarrow> [] | Some a \<Rightarrow> [(''after'', dec_string a)])))))"

definition parse_pairing_answer :: "('v \<Rightarrow> 'a option) \<Rightarrow> 'v option \<Rightarrow> 'h PairingCallError + 'a" where
  "parse_pairing_answer f body =
     rbind (ok_or body (PC_Bad BadJson)) (\<lambda>b. ok_or (f b) (PC_Bad BadJson))"

definition pairing_call ::
    "('n, 'h, 'v) http_env \<Rightarrow> 'n \<Rightarrow> E2eMethod \<Rightarrow> PairingOperation \<Rightarrow> string option \<Rightarrow> nat option \<Rightarrow> nat option \<Rightarrow> string \<Rightarrow> Body
     \<Rightarrow> ('v option \<Rightarrow> 'h PairingCallError + 'a) \<Rightarrow> 'n \<times> ('h PairingCallError + 'a) outcome" where
  "pairing_call H n verb x rendezvous_id server_protocol after token body f =
     (case pairing_url H x rendezvous_id server_protocol after of
        Inl e \<Rightarrow> (n, Value (Inl e))
      | Inr (segs, query) \<Rightarrow>
          answer call_error_from_client f
            (send_request H n \<lparr> rq_method = verb, rq_segments = segs, rq_query = query,
                                 rq_token = token, rq_body = body \<rparr>))"

definition create_pairing ::
    "('n, 'h, 'v) http_env \<Rightarrow> 'n \<Rightarrow> string \<Rightarrow> string option \<Rightarrow> nat option \<Rightarrow> 'n \<times> ('h PairingCallError + Rendezvous) outcome" where
  "create_pairing H n token curve server_protocol =
     pairing_call H n Post PairingCreate None server_protocol None token
       (case curve of
          Some c \<Rightarrow> if pairing_offer_available server_protocol then CreateBody c else EmptyBody
        | None \<Rightarrow> EmptyBody)
       (parse_pairing_answer (read_rendezvous H))"

definition join_pairing ::
    "('n, 'h, 'v) http_env \<Rightarrow> 'n \<Rightarrow> string \<Rightarrow> string \<Rightarrow> nat option \<Rightarrow> 'n \<times> ('h PairingCallError + Rendezvous) outcome" where
  "join_pairing H n token rendezvous_id server_protocol =
     pairing_call H n Post PairingJoin (Some rendezvous_id) server_protocol None token EmptyBody
       (parse_pairing_answer (read_rendezvous H))"

definition post_pairing_message ::
    "('n, 'h, 'v) http_env \<Rightarrow> 'n \<Rightarrow> string \<Rightarrow> string \<Rightarrow> string \<Rightarrow> nat \<Rightarrow> nat \<Rightarrow> nat option
     \<Rightarrow> 'n \<times> ('h PairingCallError + RelayMessage) outcome" where
  "post_pairing_message H n token rendezvous_id payload sent_count total_bytes server_protocol =
     (if \<not> pairing_message_fits sent_count total_bytes (length payload) then (n, Value (Inl PC_TooLarge))
      else pairing_call H n Post PairingPost (Some rendezvous_id) server_protocol None token (PayloadBody payload)
             (parse_pairing_answer (read_message H)))"

definition fetch_pairing_messages ::
    "('n, 'h, 'v) http_env \<Rightarrow> 'n \<Rightarrow> string \<Rightarrow> string \<Rightarrow> nat \<Rightarrow> nat option
     \<Rightarrow> 'n \<times> ('h PairingCallError + RelayMessage list) outcome" where
  "fetch_pairing_messages H n token rendezvous_id after server_protocol =
     pairing_call H n Get PairingFetch (Some rendezvous_id) server_protocol (Some after) token NoBody
       (parse_pairing_answer (read_messages H))"

definition close_pairing ::
    "('n, 'h, 'v) http_env \<Rightarrow> 'n \<Rightarrow> string \<Rightarrow> string \<Rightarrow> nat option \<Rightarrow> 'n \<times> ('h PairingCallError + unit) outcome" where
  "close_pairing H n token rendezvous_id server_protocol =
     pairing_call H n Delete PairingClose (Some rendezvous_id) server_protocol None token NoBody (\<lambda>_. Inr ())"

definition fetch_pairing_offer ::
    "crypto_api \<Rightarrow> ('n, 'h, 'v) http_env \<Rightarrow> 'n \<Rightarrow> string \<Rightarrow> nat option
     \<Rightarrow> 'n \<times> ('h PairingCallError + PairingOffer option) outcome" where
  "fetch_pairing_offer C H n token server_protocol =
     pairing_call H n Get PairingOfferOp None server_protocol None token NoBody
       (\<lambda>body. Inr (Option.bind body (offer_from_answer C (http_json H))))"

section \<open>The identity routes\<close>

definition e2e_url ::
    "crypto_api \<Rightarrow> ('n, 'h, 'v) http_env \<Rightarrow> E2eOperation \<Rightarrow> string \<Rightarrow> string option \<Rightarrow> nat option
     \<Rightarrow> 'h E2eRouteError + string list" where
  "e2e_url C H x network_id did server_protocol =
     (if \<not> E2eOperation_available x server_protocol then Inl Unavailable
      else
      rbind (map_err route_error_from_wire (E2eOperation_path C x did)) (\<lambda>path.
      rbind (map_err route_error_from_client (checked_base H)) (\<lambda>_.
        Inr ([''networks'', network_id] @ segments path))))"

definition e2e_call_with ::
    "(string \<times> string) list \<Rightarrow> crypto_api \<Rightarrow> ('n, 'h, 'v) http_env \<Rightarrow> 'n \<Rightarrow> E2eMethod \<Rightarrow> E2eOperation \<Rightarrow> string
     \<Rightarrow> string option \<Rightarrow> nat option \<Rightarrow> string \<Rightarrow> Body \<Rightarrow> ('v option \<Rightarrow> WireError + 'a)
     \<Rightarrow> 'n \<times> ('h E2eRouteError + 'a) outcome" where
  "e2e_call_with query C H n verb x network_id did server_protocol token body f =
     (case e2e_url C H x network_id did server_protocol of
        Inl e \<Rightarrow> (n, Value (Inl e))
      | Inr segs \<Rightarrow>
          answer route_error_from_client (\<lambda>b. map_err route_error_from_wire (f b))
            (send_request H n \<lparr> rq_method = verb, rq_segments = segs, rq_query = query,
                                 rq_token = token, rq_body = body \<rparr>))"

definition e2e_call ::
    "crypto_api \<Rightarrow> ('n, 'h, 'v) http_env \<Rightarrow> 'n \<Rightarrow> E2eMethod \<Rightarrow> E2eOperation \<Rightarrow> string \<Rightarrow> string option \<Rightarrow> nat option \<Rightarrow> string \<Rightarrow> Body
     \<Rightarrow> ('v option \<Rightarrow> WireError + 'a) \<Rightarrow> 'n \<times> ('h E2eRouteError + 'a) outcome" where
  "e2e_call = e2e_call_with []"

definition with_body :: "('v \<Rightarrow> WireError + 'a) \<Rightarrow> 'v option \<Rightarrow> WireError + 'a" where
  "with_body f body = rbind (ok_or body MissingField) f"

definition register_e2e_device ::
    "crypto_api \<Rightarrow> ('n, 'h, 'v) http_env \<Rightarrow> 'n \<Rightarrow> string \<Rightarrow> string \<Rightarrow> nat option \<Rightarrow> DeviceIdRequest
     \<Rightarrow> 'n \<times> ('h E2eRouteError + DeviceRecord) outcome" where
  "register_e2e_device C H n token network_id server_protocol request =
     e2e_call C H n Post DeviceRegister network_id None server_protocol token (DeviceIdBody request)
       (with_body (DeviceRecord_from_value C (http_json H)))"

definition list_e2e_devices ::
    "crypto_api \<Rightarrow> ('n, 'h, 'v) http_env \<Rightarrow> 'n \<Rightarrow> string \<Rightarrow> string \<Rightarrow> nat option
     \<Rightarrow> 'n \<times> ('h E2eRouteError + DeviceRecord list) outcome" where
  "list_e2e_devices C H n token network_id server_protocol =
     e2e_call C H n Get DeviceList network_id None server_protocol token NoBody
       (with_body (device_list_from_value C (http_json H)))"

definition drop_e2e_device ::
    "crypto_api \<Rightarrow> ('n, 'h, 'v) http_env \<Rightarrow> 'n \<Rightarrow> string \<Rightarrow> string \<Rightarrow> string \<Rightarrow> nat option
     \<Rightarrow> 'n \<times> ('h E2eRouteError + unit) outcome" where
  "drop_e2e_device C H n token network_id did server_protocol =
     e2e_call C H n Delete DeviceDrop network_id (Some did) server_protocol token NoBody (\<lambda>_. Inr ())"

definition put_e2e_list ::
    "crypto_api \<Rightarrow> ('n, 'h, 'v) http_env \<Rightarrow> 'n \<Rightarrow> string \<Rightarrow> string \<Rightarrow> nat option \<Rightarrow> ListRequest
     \<Rightarrow> 'n \<times> ('h E2eRouteError + HeldList) outcome" where
  "put_e2e_list C H n token network_id server_protocol request =
     e2e_call C H n Put ListPut network_id None server_protocol token (ListBody request)
       (with_body (HeldList_from_value C (http_json H)))"

definition fetch_e2e_list ::
    "crypto_api \<Rightarrow> ('n, 'h, 'v) http_env \<Rightarrow> 'n \<Rightarrow> string \<Rightarrow> string \<Rightarrow> nat option
     \<Rightarrow> 'n \<times> ('h E2eRouteError + HeldList) outcome" where
  "fetch_e2e_list C H n token network_id server_protocol =
     e2e_call C H n Get ListFetch network_id None server_protocol token NoBody
       (with_body (HeldList_from_value C (http_json H)))"

definition delete_e2e_identity ::
    "crypto_api \<Rightarrow> ('n, 'h, 'v) http_env \<Rightarrow> 'n \<Rightarrow> string \<Rightarrow> string \<Rightarrow> nat option
     \<Rightarrow> 'n \<times> ('h E2eRouteError + unit) outcome" where
  "delete_e2e_identity C H n token network_id server_protocol =
     e2e_call C H n Delete IdentityDelete network_id None server_protocol token NoBody (\<lambda>_. Inr ())"

definition publish_e2e_keys ::
    "crypto_api \<Rightarrow> ('n, 'h, 'v) http_env \<Rightarrow> 'n \<Rightarrow> string \<Rightarrow> string \<Rightarrow> string \<Rightarrow> nat option \<Rightarrow> KeysUploadRequest
     \<Rightarrow> 'n \<times> ('h E2eRouteError + KeysHeld) outcome" where
  "publish_e2e_keys C H n token network_id did server_protocol request =
     e2e_call C H n Post KeysPublish network_id (Some did) server_protocol token (KeysBody request)
       (with_body (KeysHeld_from_value (http_json H)))"

definition fetch_e2e_keys ::
    "crypto_api \<Rightarrow> ('n, 'h, 'v) http_env \<Rightarrow> 'n \<Rightarrow> string \<Rightarrow> string \<Rightarrow> string \<Rightarrow> nat option
     \<Rightarrow> 'n \<times> ('h E2eRouteError + KeysHeld) outcome" where
  "fetch_e2e_keys C H n token network_id did server_protocol =
     e2e_call C H n Get KeysFetch network_id (Some did) server_protocol token NoBody
       (with_body (KeysHeld_from_value (http_json H)))"

section \<open>The device inbox\<close>

text \<open>\<open>parse\<close> reads the JSON text of a payload or of the keys.\<close>

definition claim_e2e_device_key ::
    "crypto_api \<Rightarrow> ('n, 'h, 'v) http_env \<Rightarrow> (string \<Rightarrow> 'v option) \<Rightarrow> 'n \<Rightarrow> string \<Rightarrow> string \<Rightarrow> string \<Rightarrow> nat option \<Rightarrow> ClaimRequest
     \<Rightarrow> 'n \<times> ('h E2eRouteError + string) outcome" where
  "claim_e2e_device_key C H parse n token network_id did server_protocol request =
     e2e_call C H n Post Claim network_id (Some did) server_protocol token (ClaimBody request)
       (with_body (ClaimResponse_from_value (http_json H) parse))"

definition send_e2e_copy ::
    "crypto_api \<Rightarrow> ('n, 'h, 'v) http_env \<Rightarrow> 'n \<Rightarrow> string \<Rightarrow> string \<Rightarrow> string \<Rightarrow> nat option \<Rightarrow> CopyRequest
     \<Rightarrow> 'n \<times> ('h E2eRouteError + CopyAccepted) outcome" where
  "send_e2e_copy C H n token network_id did server_protocol request =
     e2e_call C H n Post Copy network_id (Some did) server_protocol token (CopyBody request)
       (with_body (CopyAccepted_from_value (http_json H)))"

definition fetch_e2e_inbox ::
    "crypto_api \<Rightarrow> ('n, 'h, 'v) http_env \<Rightarrow> (string \<Rightarrow> 'v option) \<Rightarrow> 'n \<Rightarrow> string \<Rightarrow> string \<Rightarrow> string \<Rightarrow> nat option \<Rightarrow> nat option
     \<Rightarrow> 'n \<times> ('h E2eRouteError + InboxRow list) outcome" where
  "fetch_e2e_inbox C H parse n token network_id did after server_protocol =
     e2e_call_with (case after of None \<Rightarrow> [] | Some i \<Rightarrow> [(''after'', dec_string i)])
       C H n Get InboxFetch network_id (Some did) server_protocol token NoBody
       (with_body (\<lambda>value. page_from_value C (http_json H) parse value server_protocol))"

definition ack_e2e_inbox ::
    "crypto_api \<Rightarrow> ('n, 'h, 'v) http_env \<Rightarrow> 'n \<Rightarrow> string \<Rightarrow> string \<Rightarrow> string \<Rightarrow> nat option \<Rightarrow> nat list
     \<Rightarrow> 'n \<times> ('h E2eRouteError + unit) outcome" where
  "ack_e2e_inbox C H n token network_id did server_protocol request =
     e2e_call C H n Post InboxAck network_id (Some did) server_protocol token (AckBody request) (\<lambda>_. Inr ())"

section \<open>The send door\<close>

record SendAnswer =
  an_response :: SendResponse
  an_msgid :: "string option"

definition send_e2e_message ::
    "('n, 'h, 'v) http_env \<Rightarrow> 'n \<Rightarrow> string \<Rightarrow> string \<Rightarrow> E2eSendRequest \<Rightarrow> 'n \<times> ('h GrappaClientError + SendAnswer) outcome" where
  "send_e2e_message H n token network_id request =
     (case checked_base H of
        Inl err \<Rightarrow> (n, Value (Inl err))
      | Inr _ \<Rightarrow>
          (case http H n \<lparr> rq_method = Post, rq_segments = [''networks'', network_id, ''e2e'', ''messages''], rq_query = [],
                           rq_token = token, rq_body = SendBody request \<rparr> of
             (n, Inl err) \<Rightarrow> (n, Value (Inl (Http err)))
           | (n, Inr response) \<Rightarrow>
               (n, (case reject_with_code H response of
                      Panic \<Rightarrow> Panic
                    | Value (Inr response) \<Rightarrow>
                        let class = classify_send_response (rs_status response) None in
                        Value (Inr \<lparr> an_response = class,
                                     an_msgid = (if class = RespAccepted
                                                 then Option.bind (rs_json response) (\<lambda>body.
                                                        case parse_send_accepted (http_json H) body of
                                                          Inl _ \<Rightarrow> None | Inr msgid \<Rightarrow> Some msgid)
                                                 else None) \<rparr>)
                    | Value (Inl (Rejected status code retry_after)) \<Rightarrow>
                        Value (Inr \<lparr> an_response = classify_send_response status code, an_msgid = None \<rparr>)
                    | Value (Inl err) \<Rightarrow> Value (Inl err)))))"

section \<open>Consent requests\<close>

definition e2e_request_url ::
    "('n, 'h, 'v) http_env \<Rightarrow> E2eRequestOperation \<Rightarrow> string \<Rightarrow> nat option \<Rightarrow> nat option \<Rightarrow> 'h E2eRouteError + string list" where
  "e2e_request_url H x network_id request_id server_protocol =
     (if \<not> request_available x server_protocol \<or> request_needs_id x \<noteq> (request_id \<noteq> None) \<or> request_id = Some 0
      then Inl Unavailable
      else
        (case checked_base H of
           Inl err \<Rightarrow> Inl (route_error_from_client err)
         | Inr _ \<Rightarrow>
             Inr ([''networks'', network_id, ''e2e'', ''requests'']
                  @ (case request_id of None \<Rightarrow> [] | Some i \<Rightarrow> [dec_string i])
                  @ (if request_suffix x = [] then [] else [request_suffix x]))))"

definition request_call ::
    "('n, 'h, 'v) http_env \<Rightarrow> 'n \<Rightarrow> E2eMethod \<Rightarrow> E2eRequestOperation \<Rightarrow> string \<Rightarrow> nat option \<Rightarrow> nat option \<Rightarrow> string \<Rightarrow> Body
     \<Rightarrow> ('v option \<Rightarrow> WireError + 'a) \<Rightarrow> 'n \<times> ('h E2eRouteError + 'a) outcome" where
  "request_call H n verb x network_id request_id server_protocol token body f =
     (case e2e_request_url H x network_id request_id server_protocol of
        Inl e \<Rightarrow> (n, Value (Inl e))
      | Inr segs \<Rightarrow>
          answer route_error_from_client (\<lambda>b. map_err route_error_from_wire (f b))
            (send_request H n \<lparr> rq_method = verb, rq_segments = segs, rq_query = [], rq_token = token, rq_body = body \<rparr>))"

definition fetch_e2e_requests ::
    "('n, 'h, 'v) http_env \<Rightarrow> 'n \<Rightarrow> string \<Rightarrow> string \<Rightarrow> nat option \<Rightarrow> 'n \<times> ('h E2eRouteError + E2eRequest list) outcome" where
  "fetch_e2e_requests H n token network_id server_protocol =
     request_call H n Get RequestList network_id None server_protocol token NoBody
       (with_body (E2eRequestList_from_value (http_json H)))"

definition create_e2e_request ::
    "('n, 'h, 'v) http_env \<Rightarrow> 'n \<Rightarrow> string \<Rightarrow> string \<Rightarrow> nat option \<Rightarrow> E2eRequestCreate
     \<Rightarrow> 'n \<times> ('h E2eRouteError + E2eRequest) outcome" where
  "create_e2e_request H n token network_id server_protocol request =
     request_call H n Post RequestCreate network_id None server_protocol token (ConsentBody request)
       (with_body (\<lambda>value. rbind (ok_or (get_field (http_json H) value ''request'') MissingField)
                             (E2eRequest_from_value (http_json H))))"

definition accept_e2e_request ::
    "('n, 'h, 'v) http_env \<Rightarrow> 'n \<Rightarrow> string \<Rightarrow> string \<Rightarrow> nat \<Rightarrow> nat option \<Rightarrow> E2eConsentLine
     \<Rightarrow> 'n \<times> ('h E2eRouteError + unit) outcome" where
  "accept_e2e_request H n token network_id request_id server_protocol line =
     request_call H n Post RequestAccept network_id (Some request_id) server_protocol token (LineBody line) (\<lambda>_. Inr ())"

definition refuse_e2e_request ::
    "('n, 'h, 'v) http_env \<Rightarrow> 'n \<Rightarrow> string \<Rightarrow> string \<Rightarrow> nat \<Rightarrow> nat option \<Rightarrow> 'n \<times> ('h E2eRouteError + unit) outcome" where
  "refuse_e2e_request H n token network_id request_id server_protocol =
     request_call H n Post RequestRefuse network_id (Some request_id) server_protocol token NoBody (\<lambda>_. Inr ())"

definition dismiss_e2e_request ::
    "('n, 'h, 'v) http_env \<Rightarrow> 'n \<Rightarrow> string \<Rightarrow> string \<Rightarrow> nat \<Rightarrow> nat option \<Rightarrow> E2eConsentLine option
     \<Rightarrow> 'n \<times> ('h E2eRouteError + unit) outcome" where
  "dismiss_e2e_request H n token network_id request_id server_protocol line =
     request_call H n Delete RequestDismiss network_id (Some request_id) server_protocol token
       (case line of None \<Rightarrow> NoBody | Some line \<Rightarrow> LineBody line) (\<lambda>_. Inr ())"

section \<open>Lemmas\<close>

lemma answer_fst [simp]: "fst (answer g f r) = fst r"
  by (auto simp: answer_def split: prod.split outcome.split sum.split)

lemma send_request_fst [simp]: "fst (send_request H n request) = fst (http H n request)"
  by (auto simp: send_request_def split: prod.split sum.split)

text \<open>What one call does to the other side: nothing, or one request on the route of its operation.\<close>

definition one_request :: "('n, 'h, 'v) http_env \<Rightarrow> 'n \<Rightarrow> E2eMethod \<Rightarrow> string list \<Rightarrow> 'n \<Rightarrow> bool" where
  "one_request H n verb segs n' \<longleftrightarrow>
     (\<exists>request. rq_method request = verb \<and> rq_segments request = segs \<and> n' = fst (http H n request))"

lemma e2e_call_request:
  "fst (e2e_call_with query C H n verb x network_id did protocol token body f) = n \<or>
   E2eOperation_available x protocol \<and>
   (\<exists>path. E2eOperation_path C x did = Inr path \<and>
      one_request H n verb ([''networks'', network_id] @ segments path)
        (fst (e2e_call_with query C H n verb x network_id did protocol token body f)))"
  by (auto simp: e2e_call_with_def e2e_url_def one_request_def rbind_eq_Inr split: sum.split)
     (metis Request.select_convs(1,2))

lemma pairing_call_request:
  "fst (pairing_call H n verb x rid protocol after token body f) = n \<or>
   PairingOperation_available x protocol \<and>
   (\<exists>path. PairingOperation_path x rid = Inr path \<and>
      one_request H n verb (segments path) (fst (pairing_call H n verb x rid protocol after token body f)))"
  by (auto simp: pairing_call_def pairing_url_def one_request_def rbind_eq_Inr split: sum.split)
     (metis Request.select_convs(1,2))

section \<open>Properties\<close>

text \<open>The calls, what each does to the other side, and the operation and id each is about.\<close>

datatype ClientCall =
  CallRegister DeviceIdRequest | CallDevices | CallDrop string | CallPutList ListRequest | CallFetchList
| CallDeleteIdentity | CallPublish string KeysUploadRequest | CallFetchKeys string
| CallCreate "string option" | CallJoin string | CallPost string string nat nat | CallFetch string nat
| CallClose string | CallOffer | CallClaim string ClaimRequest | CallCopy string CopyRequest
| CallInbox string "nat option" | CallAck string "nat list"

fun after_call ::
    "crypto_api \<Rightarrow> ('n, 'h, 'v) http_env \<Rightarrow> (string \<Rightarrow> 'v option) \<Rightarrow> 'n \<Rightarrow> string \<Rightarrow> string \<Rightarrow> nat option \<Rightarrow> ClientCall \<Rightarrow> 'n" where
  "after_call C H parse n token net protocol (CallRegister r) = fst (register_e2e_device C H n token net protocol r)"
| "after_call C H parse n token net protocol CallDevices = fst (list_e2e_devices C H n token net protocol)"
| "after_call C H parse n token net protocol (CallDrop did) = fst (drop_e2e_device C H n token net did protocol)"
| "after_call C H parse n token net protocol (CallPutList r) = fst (put_e2e_list C H n token net protocol r)"
| "after_call C H parse n token net protocol CallFetchList = fst (fetch_e2e_list C H n token net protocol)"
| "after_call C H parse n token net protocol CallDeleteIdentity = fst (delete_e2e_identity C H n token net protocol)"
| "after_call C H parse n token net protocol (CallPublish did r) = fst (publish_e2e_keys C H n token net did protocol r)"
| "after_call C H parse n token net protocol (CallFetchKeys did) = fst (fetch_e2e_keys C H n token net did protocol)"
| "after_call C H parse n token net protocol (CallCreate curve) = fst (create_pairing H n token curve protocol)"
| "after_call C H parse n token net protocol (CallJoin rid) = fst (join_pairing H n token rid protocol)"
| "after_call C H parse n token net protocol (CallPost rid payload k b) = fst (post_pairing_message H n token rid payload k b protocol)"
| "after_call C H parse n token net protocol (CallFetch rid after) = fst (fetch_pairing_messages H n token rid after protocol)"
| "after_call C H parse n token net protocol (CallClose rid) = fst (close_pairing H n token rid protocol)"
| "after_call C H parse n token net protocol CallOffer = fst (fetch_pairing_offer C H n token protocol)"
| "after_call C H parse n token net protocol (CallClaim did r) = fst (claim_e2e_device_key C H parse n token net did protocol r)"
| "after_call C H parse n token net protocol (CallCopy did r) = fst (send_e2e_copy C H n token net did protocol r)"
| "after_call C H parse n token net protocol (CallInbox did after) =
     fst (fetch_e2e_inbox C H parse n token net did after protocol)"
| "after_call C H parse n token net protocol (CallAck did ids) = fst (ack_e2e_inbox C H n token net did protocol ids)"

fun call_route :: "ClientCall \<Rightarrow> E2eOperation + PairingOperation" where
  "call_route (CallRegister r) = Inl DeviceRegister"
| "call_route CallDevices = Inl DeviceList"
| "call_route (CallDrop did) = Inl DeviceDrop"
| "call_route (CallPutList r) = Inl ListPut"
| "call_route CallFetchList = Inl ListFetch"
| "call_route CallDeleteIdentity = Inl IdentityDelete"
| "call_route (CallPublish did r) = Inl KeysPublish"
| "call_route (CallFetchKeys did) = Inl KeysFetch"
| "call_route (CallCreate curve) = Inr PairingCreate"
| "call_route (CallJoin rid) = Inr PairingJoin"
| "call_route (CallPost rid payload k b) = Inr PairingPost"
| "call_route (CallFetch rid after) = Inr PairingFetch"
| "call_route (CallClose rid) = Inr PairingClose"
| "call_route CallOffer = Inr PairingOfferOp"
| "call_route (CallClaim did r) = Inl Claim"
| "call_route (CallCopy did r) = Inl Copy"
| "call_route (CallInbox did after) = Inl InboxFetch"
| "call_route (CallAck did ids) = Inl InboxAck"


text \<open>An other side that keeps the requests and answers none.\<close>

definition toy_http :: "(Request list, unit, json) http_env" where
  "toy_http = \<lparr>
     http = (\<lambda>n request. (n @ [request], Inl ())), no_json = (), base_url_ok = Inr (), http_json = json_instance,
     read_rendezvous = (\<lambda>_. None), read_message = (\<lambda>_. None), read_messages = (\<lambda>_. None),
     http_now = 0, time_limit = 0 \<rparr>"


end
