(* ===== verification/Account.thy ===== *)
theory Account
  imports Crypto_Api
begin

text \<open>
  The local Olm account of one network and device, from \<^verbatim>\<open>e2e_account.rs\<close>. The account of
  \<^verbatim>\<open>vodozemac\<close> is a type parameter with the operations the code calls; a random draw is an argument.
\<close>

record 'a acct_api =
  ac_identity :: "'a \<Rightarrow> account"
  ac_one_time :: "'a \<Rightarrow> string list"
  ac_stored :: "'a \<Rightarrow> nat"
  ac_max :: "'a \<Rightarrow> nat"
  ac_generate :: "nat \<Rightarrow> nat \<Rightarrow> 'a \<Rightarrow> 'a"
  ac_fallback :: "'a \<Rightarrow> string option"
  ac_new_fallback :: "nat \<Rightarrow> 'a \<Rightarrow> 'a"
  ac_forget_fallback :: "'a \<Rightarrow> 'a"
  ac_mark_published :: "'a \<Rightarrow> 'a"

datatype AccountError = A_BadId | A_Exists | A_Missing

record AccountId =
  ai_network :: string
  ai_device :: string

definition AccountId_new :: "string \<Rightarrow> string \<Rightarrow> AccountError + AccountId" where
  "AccountId_new network device =
     (if network = [] \<or> device = [] then Inl A_BadId else Inr \<lparr> ai_network = network, ai_device = device \<rparr>)"

record 'a LocalAccount =
  la_id :: AccountId
  la_account :: 'a

definition from_account :: "AccountId \<Rightarrow> 'a \<Rightarrow> 'a LocalAccount" where
  "from_account i a = \<lparr> la_id = i, la_account = a \<rparr>"

definition local_sign :: "'a acct_api \<Rightarrow> 'a LocalAccount \<Rightarrow> string \<Rightarrow> string" where
  "local_sign K l message = acc_sign (ac_identity K (la_account l)) message"

definition generate_one_time_keys :: "'a acct_api \<Rightarrow> nat \<Rightarrow> 'a LocalAccount \<Rightarrow> nat \<Rightarrow> 'a LocalAccount" where
  "generate_one_time_keys K draw l n = (if n > 0 then l\<lparr>la_account := ac_generate K draw n (la_account l)\<rparr> else l)"

definition local_curve25519 :: "'a acct_api \<Rightarrow> 'a LocalAccount \<Rightarrow> string" where
  "local_curve25519 K l = acc_curve25519 (ac_identity K (la_account l))"

definition local_ed25519 :: "'a acct_api \<Rightarrow> 'a LocalAccount \<Rightarrow> string" where
  "local_ed25519 K l = acc_ed25519 (ac_identity K (la_account l))"

definition replenish_one_time_keys :: "'a acct_api \<Rightarrow> nat \<Rightarrow> 'a LocalAccount \<Rightarrow> nat \<Rightarrow> 'a LocalAccount \<times> nat" where
  "replenish_one_time_keys K draw l target =
     (let target = min target (ac_max K (la_account l));
          missing = target - ac_stored K (la_account l)
      in (if missing > 0 then l\<lparr>la_account := ac_generate K draw missing (la_account l)\<rparr> else l, missing))"

definition one_time_key_count :: "'a acct_api \<Rightarrow> 'a LocalAccount \<Rightarrow> nat" where
  "one_time_key_count K l = ac_stored K (la_account l)"

definition unpublished_one_time_keys :: "'a acct_api \<Rightarrow> 'a LocalAccount \<Rightarrow> string list" where
  "unpublished_one_time_keys K l = sort (ac_one_time K (la_account l))"

definition rotate_fallback_key :: "'a acct_api \<Rightarrow> nat \<Rightarrow> 'a LocalAccount \<Rightarrow> 'a LocalAccount" where
  "rotate_fallback_key K draw l = l\<lparr>la_account := ac_new_fallback K draw (ac_forget_fallback K (la_account l))\<rparr>"

definition unpublished_fallback_key :: "'a acct_api \<Rightarrow> 'a LocalAccount \<Rightarrow> string option" where
  "unpublished_fallback_key K l = ac_fallback K (la_account l)"

definition mark_published :: "'a acct_api \<Rightarrow> 'a LocalAccount \<Rightarrow> 'a LocalAccount" where
  "mark_published K l = l\<lparr>la_account := ac_mark_published K (la_account l)\<rparr>"

section \<open>The accounts of this device\<close>

type_synonym 'a AccountStore = "(AccountId \<times> 'a LocalAccount) list"

definition AccountStore_create ::
    "(nat \<Rightarrow> 'a) \<Rightarrow> nat \<Rightarrow> 'a AccountStore \<Rightarrow> AccountId \<Rightarrow> 'a AccountStore \<times> (AccountError + 'a LocalAccount)" where
  "AccountStore_create new_account draw accounts i =
     (if map_of accounts i \<noteq> None then (accounts, Inl A_Exists)
      else let l = from_account i (new_account draw) in (AList.update i l accounts, Inr l))"

definition AccountStore_get :: "'a AccountStore \<Rightarrow> AccountId \<Rightarrow> AccountError + 'a LocalAccount" where
  "AccountStore_get accounts i = ok_or (map_of accounts i) A_Missing"

definition AccountStore_remove :: "'a AccountStore \<Rightarrow> AccountId \<Rightarrow> 'a AccountStore \<times> 'a LocalAccount option" where
  "AccountStore_remove accounts i = (AList.delete i accounts, map_of accounts i)"

section \<open>Lemmas\<close>

text \<open>Documented behaviour of the library: no operation on the one-time and fallback keys changes the
  identity of the account; new keys are added to the ones that wait; marking leaves none waiting.\<close>

definition acct_api_ok :: "'a acct_api \<Rightarrow> bool" where
  "acct_api_ok K \<longleftrightarrow>
     (\<forall>draw n a. ac_identity K (ac_generate K draw n a) = ac_identity K a) \<and>
     (\<forall>draw a. ac_identity K (ac_new_fallback K draw a) = ac_identity K a) \<and>
     (\<forall>a. ac_identity K (ac_forget_fallback K a) = ac_identity K a) \<and>
     (\<forall>a. ac_identity K (ac_mark_published K a) = ac_identity K a) \<and>
     (\<forall>draw n a. length (ac_one_time K (ac_generate K draw n a)) = length (ac_one_time K a) + n) \<and>
     (\<forall>draw a. ac_one_time K (ac_new_fallback K draw a) = ac_one_time K a) \<and>
     (\<forall>a. ac_one_time K (ac_forget_fallback K a) = ac_one_time K a) \<and>
     (\<forall>a. ac_one_time K (ac_mark_published K a) = [])"

lemma account_keys_facts:
  assumes "acct_api_ok K"
  shows "ac_identity K (la_account (generate_one_time_keys K draw l n)) = ac_identity K (la_account l)"
    "ac_identity K (la_account (rotate_fallback_key K draw l)) = ac_identity K (la_account l)"
    "length (unpublished_one_time_keys K (generate_one_time_keys K draw l n)) = length (unpublished_one_time_keys K l) + n"
    "unpublished_one_time_keys K (rotate_fallback_key K draw l) = unpublished_one_time_keys K l"
    "unpublished_one_time_keys K (mark_published K l) = []"
  using assms by (simp_all add: acct_api_ok_def generate_one_time_keys_def rotate_fallback_key_def
      unpublished_one_time_keys_def mark_published_def)

end
