(* ===== verification/Effects.thy ===== *)
theory Effects
  imports Client State_Store Account
begin

text \<open>
  The effects of the asynchronous steps: a step takes the world (the other side of the network, the
  disk, the open store, the random draws so far) and returns it with a result. A result is a value, an
  error the caller can handle, or a panic, which ends the task and is handled by nobody.
\<close>

section \<open>Steps\<close>

type_synonym ('w, 'e, 'a) act = "'w \<Rightarrow> 'w \<times> ('e + 'a) outcome"

definition ret :: "'a \<Rightarrow> ('w, 'e, 'a) act" where
  "ret x w = (w, Value (Inr x))"

definition throw :: "'e \<Rightarrow> ('w, 'e, 'a) act" where
  "throw e w = (w, Value (Inl e))"

definition andThen :: "('w, 'e, 'a) act \<Rightarrow> ('a \<Rightarrow> ('w, 'e, 'b) act) \<Rightarrow> ('w, 'e, 'b) act" where
  "andThen m f w =
     (case m w of
        (w, Panic) \<Rightarrow> (w, Panic)
      | (w, Value (Inl e)) \<Rightarrow> (w, Value (Inl e))
      | (w, Value (Inr x)) \<Rightarrow> f x w)"

text \<open>\<^verbatim>\<open>match\<close> on a result: the handler runs on an error, in the world the step left.\<close>

definition orElse :: "('w, 'e, 'a) act \<Rightarrow> ('e \<Rightarrow> ('w, 'f, 'a) act) \<Rightarrow> ('w, 'f, 'a) act" where
  "orElse m h w =
     (case m w of
        (w, Panic) \<Rightarrow> (w, Panic)
      | (w, Value (Inl e)) \<Rightarrow> h e w
      | (w, Value (Inr x)) \<Rightarrow> (w, Value (Inr x)))"

text \<open>\<^verbatim>\<open>map_err\<close>, and \<^verbatim>\<open>let _ =\<close> in front of a call whose result is not read.\<close>

definition mapError :: "('e \<Rightarrow> 'f) \<Rightarrow> ('w, 'e, 'a) act \<Rightarrow> ('w, 'f, 'a) act" where
  "mapError g m = orElse m (\<lambda>e. throw (g e))"

definition ignored :: "('w, 'e, 'a) act \<Rightarrow> ('w, 'f, unit) act" where
  "ignored m w =
     (case m w of (w, Panic) \<Rightarrow> (w, Panic) | (w, Value _) \<Rightarrow> (w, Value (Inr ())))"

definition fromResult :: "'e + 'a \<Rightarrow> ('w, 'e, 'a) act" where
  "fromResult r w = (w, Value r)"

definition asking :: "('w \<Rightarrow> 'a) \<Rightarrow> ('w, 'e, 'a) act" where
  "asking f w = (w, Value (Inr (f w)))"

definition whenever :: "bool \<Rightarrow> ('w, 'e, unit) act \<Rightarrow> ('w, 'e, unit) act" where
  "whenever b m = (if b then m else ret ())"

fun forEach :: "('a \<Rightarrow> ('w, 'e, unit) act) \<Rightarrow> 'a list \<Rightarrow> ('w, 'e, unit) act" where
  "forEach f [] = ret ()"
| "forEach f (x # xs) = andThen (f x) (\<lambda>_. forEach f xs)"

section \<open>The world\<close>

record 'n world =
  wo_net :: 'n
  wo_disk :: disk
  wo_store :: Store
  wo_draws :: nat

text \<open>What a step needs: the libraries, the random values (a nonce, an account and an ephemeral key
  for each draw), the server calls and who is asking.\<close>

record ('a, 's, 'n, 'h, 'v) step_env =
  se_crypto :: crypto_api
  se_store :: "('a, 's) store_env"
  se_keys :: "'a acct_api"
  se_nonce :: "nat \<Rightarrow> string"
  se_account :: "nat \<Rightarrow> 'a"
  se_http :: "('n, 'h, 'v) http_env"
  se_token :: string
  se_protocol :: "nat option"
  se_network_id :: string

definition storeDo ::
    "('a, 's, 'n, 'h, 'v, 'x) step_env_scheme \<Rightarrow> ('a, 's) StoreOp \<Rightarrow> (('n, 'y) world_scheme, E2eStoreError, unit) act" where
  "storeDo E x w =
     (case store_step (se_store E) (wo_disk w) (se_nonce E (wo_draws w)) (wo_store w) x of
        (d, s, r) \<Rightarrow> (w\<lparr>wo_disk := d, wo_store := s, wo_draws := wo_draws w + 1\<rparr>, Value r))"

definition netDo :: "('n \<Rightarrow> 'n \<times> ('e + 'a) outcome) \<Rightarrow> (('n, 'y) world_scheme, 'e, 'a) act" where
  "netDo f w = (case f (wo_net w) of (n, r) \<Rightarrow> (w\<lparr>wo_net := n\<rparr>, r))"

definition newAccount :: "('a, 's, 'n, 'h, 'v, 'x) step_env_scheme \<Rightarrow> (('n, 'y) world_scheme, 'e, 'a) act" where
  "newAccount E w = (w\<lparr>wo_draws := wo_draws w + 1\<rparr>, Value (Inr (se_account E (wo_draws w))))"

text \<open>One random draw for a change of an account that is held in memory.\<close>

definition drawing :: "(nat \<Rightarrow> 'a) \<Rightarrow> (('n, 'y) world_scheme, 'e, 'a) act" where
  "drawing f w = (w\<lparr>wo_draws := wo_draws w + 1\<rparr>, Value (Inr (f (wo_draws w))))"

definition stored :: "(StateData \<Rightarrow> 'a) \<Rightarrow> (('n, 'y) world_scheme, 'e, 'a) act" where
  "stored f = asking (\<lambda>w. f (st_data (wo_store w)))"

definition storeRead :: "(Store \<Rightarrow> 'e + 'a) \<Rightarrow> (('n, 'y) world_scheme, 'e, 'a) act" where
  "storeRead f = andThen (asking (\<lambda>w. f (wo_store w))) fromResult"

section \<open>Lemmas\<close>

lemma act_simps [simp]:
  "andThen (ret x) f = f x" "andThen (throw e) g = throw e" "orElse (ret x) h = ret x" "orElse (throw e) h = h e"
  "fromResult (Inr x) = ret x" "fromResult (Inl e) = throw e" "mapError g (ret x) = ret x" "mapError g (throw e) = throw (g e)"
  by (auto simp: andThen_def ret_def throw_def orElse_def fromResult_def mapError_def)

lemma andThen_assoc: "andThen (andThen m f) g = andThen m (\<lambda>x. andThen (f x) g)"
  by (rule ext) (simp add: andThen_def split: prod.split outcome.split sum.split)

lemma asking_apply [simp]: "asking f w = (w, Value (Inr (f w)))" "stored k v = (v, Value (Inr (k (st_data (wo_store v)))))"
  by (simp_all add: asking_def stored_def)

lemma ret_apply [simp]: "ret x w = (w, Value (Inr x))" "throw e w = (w, Value (Inl e))" "fromResult r w = (w, Value r)"
  by (simp_all add: ret_def throw_def fromResult_def)

lemma andThen_apply: "m w = (w', Value (Inr x)) \<Longrightarrow> andThen m f w = f x w'"
  by (simp add: andThen_def)

lemma andThen_fail: "m w = (w', Value (Inl e)) \<Longrightarrow> andThen m f w = (w', Value (Inl e))"
  by (simp add: andThen_def)

text \<open>A relation on worlds that every part of a step keeps is kept by the step.\<close>

definition keeps :: "('w \<Rightarrow> 'w \<Rightarrow> bool) \<Rightarrow> ('w, 'e, 'a) act \<Rightarrow> bool" where
  "keeps R m \<longleftrightarrow> (\<forall>w. R w (fst (m w)))"

locale world_order =
  fixes R :: "'w \<Rightarrow> 'w \<Rightarrow> bool"
  assumes refl: "R w w"
    and trans: "R w v \<Longrightarrow> R v u \<Longrightarrow> R w u"
begin

lemma keeps_ret: "keeps R (ret x)" "keeps R (throw e)" "keeps R (asking f)" "keeps R (fromResult r)"
  by (simp_all add: keeps_def refl asking_def)

lemma keeps_andThen:
  assumes "keeps R m" "\<And>x. keeps R (f x)"
  shows "keeps R (andThen m f)"
  unfolding keeps_def
proof
  fix w
  obtain v r where m: "m w = (v, r)" by fastforce
  have v: "R w v" using assms(1) m unfolding keeps_def by (metis fst_conv)
  have "R v (fst (f x v))" for x using assms(2) unfolding keeps_def by blast
  then show "R w (fst (andThen m f w))"
    using m v trans by (auto simp: andThen_def split: outcome.split sum.split)
qed

lemma keeps_orElse:
  assumes "keeps R m" "\<And>e. keeps R (h e)"
  shows "keeps R (orElse m h)"
  unfolding keeps_def
proof
  fix w
  obtain v r where m: "m w = (v, r)" by fastforce
  have v: "R w v" using assms(1) m unfolding keeps_def by (metis fst_conv)
  have "R v (fst (h e v))" for e using assms(2) unfolding keeps_def by blast
  then show "R w (fst (orElse m h w))"
    using m v trans by (auto simp: orElse_def split: outcome.split sum.split)
qed

lemma keeps_mapError: "keeps R m \<Longrightarrow> keeps R (mapError g m)"
  unfolding mapError_def by (rule keeps_orElse) (simp_all add: keeps_ret)

lemma keeps_ignored: "keeps R m \<Longrightarrow> keeps R (ignored m)"
  unfolding keeps_def ignored_def by (auto split: prod.split outcome.split) (metis fst_conv)+

lemma keeps_whenever: "keeps R m \<Longrightarrow> keeps R (whenever b m)"
  by (simp add: whenever_def keeps_ret)

lemma keeps_forEach: "(\<And>x. keeps R (f x)) \<Longrightarrow> keeps R (forEach f xs)"
  by (induction xs) (simp_all add: keeps_ret keeps_andThen)

end

lemma keeps_reads:
  assumes "world_order R"
  shows "keeps R (stored k)" "keeps R (storeRead f)"
proof -
  show "keeps R (stored k)"
    unfolding stored_def by (rule world_order.keeps_ret(3) [OF assms])
  show "keeps R (storeRead f)"
    unfolding storeRead_def
    by (rule world_order.keeps_andThen [OF assms world_order.keeps_ret(3) [OF assms] world_order.keeps_ret(4) [OF assms]])
qed

text \<open>The branches of a step.\<close>

lemma keeps_branches:
  "(b \<Longrightarrow> keeps R m) \<Longrightarrow> (\<not> b \<Longrightarrow> keeps R n) \<Longrightarrow> keeps R (if b then m else n)"
  "(x = None \<Longrightarrow> keeps R m) \<Longrightarrow> (\<And>y. x = Some y \<Longrightarrow> keeps R (f y)) \<Longrightarrow> keeps R (case x of None \<Rightarrow> m | Some y \<Rightarrow> f y)"
  "(\<And>a b. p = (a, b) \<Longrightarrow> keeps R (g a b)) \<Longrightarrow> keeps R (case p of (a, b) \<Rightarrow> g a b)"
  "(\<And>e. r = Inl e \<Longrightarrow> keeps R (h e)) \<Longrightarrow> (\<And>z. r = Inr z \<Longrightarrow> keeps R (k z)) \<Longrightarrow> keeps R (case r of Inl e \<Rightarrow> h e | Inr z \<Rightarrow> k z)"
  by (cases b; cases x; cases p; cases r; simp)+

section \<open>The disk and the open store\<close>

text \<open>A world in which file and memory agree goes to one in which they agree, for the same file and key.\<close>

definition stays_in_sync :: "('a, 's) store_env \<Rightarrow> ('n, 'y) world_scheme \<Rightarrow> ('n, 'y) world_scheme \<Rightarrow> bool" where
  "stays_in_sync E w v \<longleftrightarrow>
     (in_sync E (wo_disk w) (wo_store w) \<longrightarrow>
        in_sync E (wo_disk v) (wo_store v) \<and> st_path (wo_store v) = st_path (wo_store w) \<and> st_key (wo_store v) = st_key (wo_store w))"

interpretation synced: world_order "stays_in_sync E" for E
  by unfold_locales (auto simp: stays_in_sync_def)

definition step_env_ok :: "('a, 's, 'n, 'h, 'v, 'x) step_env_scheme \<Rightarrow> bool" where
  "step_env_ok E \<longleftrightarrow> store_env_ok (se_store E) \<and> (\<forall>i. length (se_nonce E i) = NONCE_LEN)"

lemma storeDo_sync:
  fixes E :: "('a, 's, 'n, 'h, 'v, 'x) step_env_scheme"
  assumes "step_env_ok E"
  shows "keeps (stays_in_sync (se_store E)) (storeDo E x :: (('n, 'y) world_scheme, E2eStoreError, unit) act)"
proof -
  have ok: "store_env_ok (se_store E)" "length (se_nonce E i) = NONCE_LEN" for i
    using assms by (auto simp: step_env_ok_def)
  show ?thesis
    unfolding keeps_def
  proof
    fix w :: "('n, 'y) world_scheme"
    obtain d s r where st: "store_step (se_store E) (wo_disk w) (se_nonce E (wo_draws w)) (wo_store w) x = (d, s, r)"
      by (metis prod_cases3)
    show "stays_in_sync (se_store E) w (fst (storeDo E x w))"
      using store_step_facts(1-3) [OF ok _ st] by (simp add: stays_in_sync_def storeDo_def st)
  qed
qed

lemma other_steps_sync:
  "keeps (stays_in_sync E) (netDo f)" "keeps (stays_in_sync E) (newAccount E')" "keeps (stays_in_sync E) (drawing g)"
  by (auto simp: keeps_def stays_in_sync_def netDo_def newAccount_def drawing_def split: prod.split)

lemmas keeps_reads_sync = keeps_reads [OF synced.world_order_axioms]

lemmas sync_rules = synced.keeps_ret synced.keeps_andThen synced.keeps_orElse synced.keeps_mapError synced.keeps_ignored
  synced.keeps_whenever synced.keeps_forEach keeps_reads_sync storeDo_sync other_steps_sync

section \<open>Weakest preconditions\<close>

text \<open>\<open>runs m w Q Z\<close>: the step ends with a value and a world that satisfy \<open>Q\<close>, or with an error or
  a panic in a world that satisfies \<open>Z\<close>.\<close>

definition runs :: "('w, 'e, 'a) act \<Rightarrow> 'w \<Rightarrow> ('a \<Rightarrow> 'w \<Rightarrow> bool) \<Rightarrow> ('w \<Rightarrow> bool) \<Rightarrow> bool" where
  "runs m w Q Z \<longleftrightarrow> (case m w of (v, Value (Inr x)) \<Rightarrow> Q x v | (v, _) \<Rightarrow> Z v)"

lemma runs_simps [simp]:
  "runs (ret x) w Q Z = Q x w" "runs (throw e) w Q Z = Z w"
  "runs (fromResult r) w Q3 Z = (case r of Inl _ \<Rightarrow> Z w | Inr x \<Rightarrow> Q3 x w)"
  "runs (asking k) w Q4 Z = Q4 (k w) w"
  "runs (andThen m f) w Q1 Z = runs m w (\<lambda>x v. runs (f x) v Q1 Z) Z"
  "runs (mapError g m) w Q2 Z = runs m w Q2 Z"
  "runs (whenever b u) w Q' Z = (if b then runs u w Q' Z else Q' () w)"
  by (auto simp: runs_def andThen_def mapError_def orElse_def whenever_def split: prod.splits outcome.splits sum.splits)

lemma runs_world_simps [simp]:
  "runs (stored k) w Q Z = Q (k (st_data (wo_store w))) w"
  "runs (storeRead g) w Q3 Z = (case g (wo_store w) of Inl _ \<Rightarrow> Z w | Inr x \<Rightarrow> Q3 x w)"
  "runs (newAccount E) w Q' Z = Q' (se_account E (wo_draws w)) (w\<lparr>wo_draws := wo_draws w + 1\<rparr>)"
  "runs (drawing h) w Q'' Z = Q'' (h (wo_draws w)) (w\<lparr>wo_draws := wo_draws w + 1\<rparr>)"
  by (simp_all add: stored_def storeRead_def) (simp_all add: runs_def newAccount_def drawing_def)

lemma runs_mono:
  assumes "runs m w Q Z" "\<And>x v. Q x v \<Longrightarrow> Q' x v" "\<And>v. Z v \<Longrightarrow> Z' v"
  shows "runs m w Q' Z'"
  using assms by (auto simp: runs_def split: prod.splits outcome.splits sum.splits)

lemma keeps_iff_runs: "keeps R m \<longleftrightarrow> (\<forall>w. runs m w (\<lambda>_. R w) (R w))"
proof -
  have "R w (fst (m w)) \<longleftrightarrow> runs m w (\<lambda>_. R w) (R w)" for w
    by (cases "m w") (auto simp: runs_def split: outcome.split sum.split)
  then show ?thesis by (simp add: keeps_def)
qed

lemma runs_orElse:
  assumes "runs m w Q (\<lambda>v. Z v \<and> (\<forall>e. runs (h e) v Q Z))"
  shows "runs (orElse m h) w Q Z"
proof -
  obtain v r where m: "m w = (v, r)" by fastforce
  consider "r = Panic" | e where "r = Value (Inl e)" | x where "r = Value (Inr x)"
    by (metis outcome.exhaust sum.exhaust)
  then show ?thesis
  proof cases
    case (2 e)
    have "runs (h e) v Q Z" using assms by (simp add: runs_def m 2)
    then show ?thesis by (simp add: runs_def orElse_def m 2)
  qed (use assms in \<open>simp_all add: runs_def orElse_def m\<close>)
qed

lemma runs_netDo:
  assumes "\<And>n r. f (wo_net w) = (n, r) \<Longrightarrow> (case r of Value (Inr x) \<Rightarrow> Q x (w\<lparr>wo_net := n\<rparr>) | _ \<Rightarrow> Z (w\<lparr>wo_net := n\<rparr>))"
  shows "runs (netDo f) w Q Z"
  using assms [of "fst (f (wo_net w))" "snd (f (wo_net w))"]
  by (auto simp: runs_def netDo_def split: prod.splits outcome.splits sum.splits)

text \<open>The data after a change that succeeds.\<close>

definition changed :: "('a, 's) store_env \<Rightarrow> Store \<Rightarrow> ('a, 's) StoreOp \<Rightarrow> Store" where
  "changed E s x = (case store_change E (st_key s) x (st_data s) of None \<Rightarrow> s | Some data \<Rightarrow> s\<lparr>st_data := data\<rparr>)"

lemma store_step_memory:
  assumes "store_step E d nonce s x = (d', s', r)"
  shows "r = Inr () \<and> s' = changed E s x \<or> (\<exists>e. r = Inl e) \<and> s' = s"
  using assms
  by (auto simp: store_step_def commit_def commit_with_def changed_def Let_def split: option.splits sum.splits prod.splits)

lemma runs_storeDo:
  assumes "\<And>d n. Q () (w\<lparr>wo_disk := d, wo_store := changed (se_store E) (wo_store w) x, wo_draws := n\<rparr>)"
    and "\<And>d n. Z (w\<lparr>wo_disk := d, wo_draws := n\<rparr>)"
  shows "runs (storeDo E x) w Q Z"
proof -
  obtain d s r where st: "store_step (se_store E) (wo_disk w) (se_nonce E (wo_draws w)) (wo_store w) x = (d, s, r)"
    by (metis prod_cases3)
  have w: "w\<lparr>wo_disk := d, wo_store := wo_store w, wo_draws := n\<rparr> = w\<lparr>wo_disk := d, wo_draws := n\<rparr>" for n by (cases w) simp
  from store_step_memory [OF st] show ?thesis
    using assms by (auto simp: runs_def storeDo_def st w)
qed

end
