(* ===== verification/Provision.thy ===== *)
theory Provision
  imports Effects
begin

text \<open>
  The identity and the public bundle of this device, from \<^verbatim>\<open>e2e_provision.rs\<close>. The stages of
  \<^verbatim>\<open>provision_device\<close> are definitions in the order the code has them. The lemmas state what a run
  keeps, whatever the server answers and wherever it stops.
\<close>

section \<open>Results\<close>

definition REQUIRED :: "E2eOperation list" where
  "REQUIRED = [DeviceRegister, DeviceList, ListPut, ListFetch, KeysPublish, KeysFetch]"

datatype 'h ProvisionError =
  PV_Store E2eStoreError | PV_Route "'h E2eRouteError" | PV_Wire WireError | PV_Crypto E2eError
| PV_Account AccountError | PV_NeedsPairing | PV_MasterMismatch | PV_ResetPending

record Provisioned =
  pv_did :: string
  pv_identity_created :: bool
  pv_device_registered :: bool
  pv_list_published :: bool
  pv_one_time_keys_published :: nat
  pv_fallback_published :: bool

section \<open>Helpers\<close>

definition keys_above :: "string list \<Rightarrow> string list \<Rightarrow> string \<Rightarrow> string list" where
  "keys_above held revoked ed25519 =
     (let keys = filter (\<lambda>key. key \<notin> set revoked) held
      in if ed25519 \<in> set keys then keys else keys @ [ed25519])"

definition is_paired_under :: "StateData \<Rightarrow> string \<Rightarrow> string \<Rightarrow> bool" where
  "is_paired_under data master device_ed25519 =
     (case sd_device_certificate data of
        None \<Rightarrow> False
      | Some cert \<Rightarrow> vc_master_ed25519 cert = master \<and> vc_device_ed25519 cert = device_ed25519)"

definition sign_list :: "crypto_api \<Rightarrow> account \<Rightarrow> nat \<Rightarrow> string list \<Rightarrow> E2eError + SignedList" where
  "sign_list C master version keys =
     rbind (build_signed_list_signature C version keys (acc_sign master)) (\<lambda>signature.
       Inr \<lparr> sl_version = version, sl_keys = sort keys, sl_signature = signature \<rparr>)"

definition signed_key :: "crypto_api \<Rightarrow> 'a acct_api \<Rightarrow> 'a LocalAccount \<Rightarrow> string \<Rightarrow> WireError + SignedKey" where
  "signed_key C K local_account key =
     rbind (bundle_key_signed_text C key) (\<lambda>signed. SignedKey_new C key (local_sign K local_account signed))"

text \<open>A store operation and a server call of a run, with the conversion of the error.\<close>

definition pvStore ::
    "('a, 's, 'n, 'h, 'v, 'x) step_env_scheme \<Rightarrow> ('a, 's) StoreOp \<Rightarrow> (('n, 'y) world_scheme, 'h ProvisionError, unit) act" where
  "pvStore E x = mapError PV_Store (storeDo E x)"

definition pvNet ::
    "('n \<Rightarrow> 'n \<times> ('h E2eRouteError + 'r) outcome) \<Rightarrow> (('n, 'y) world_scheme, 'h ProvisionError, 'r) act" where
  "pvNet f = mapError PV_Route (netDo f)"

definition pvCrypto :: "E2eError + 'r \<Rightarrow> (('n, 'y) world_scheme, 'h ProvisionError, 'r) act" where
  "pvCrypto r = fromResult (map_err PV_Crypto r)"

definition pvWire :: "WireError + 'r \<Rightarrow> (('n, 'y) world_scheme, 'h ProvisionError, 'r) act" where
  "pvWire r = fromResult (map_err PV_Wire r)"

section \<open>The stages\<close>

definition provision_identity ::
    "('a, 's, 'n, 'h, 'v, 'x) step_env_scheme \<Rightarrow> (('n, 'y) world_scheme, 'h ProvisionError, 'a \<times> bool) act" where
  "provision_identity E =
     andThen (mapError PV_Store (storeRead (olm_identity (se_store E)))) (\<lambda>found.
       case found of
         Some account \<Rightarrow> ret (account, False)
       | None \<Rightarrow>
           andThen (newAccount E) (\<lambda>account.
           andThen (pvStore E (SetAccount account)) (\<lambda>_. ret (account, True))))"

definition provision_held ::
    "('a, 's, 'n, 'h, 'v, 'x) step_env_scheme \<Rightarrow> (('n, 'y) world_scheme, 'h ProvisionError, HeldList option) act" where
  "provision_held E =
     orElse
       (andThen (netDo (\<lambda>n. fetch_e2e_list (se_crypto E) (se_http E) n (se_token E) (se_network_id E) (se_protocol E)))
          (\<lambda>held. ret (Some held)))
       (\<lambda>err. case err of Refused R_NotFound _ \<Rightarrow> ret None | _ \<Rightarrow> throw (PV_Route err))"

definition provision_master ::
    "('a, 's, 'n, 'h, 'v, 'x) step_env_scheme \<Rightarrow> string \<Rightarrow> HeldList option
     \<Rightarrow> (('n, 'y) world_scheme, 'h ProvisionError, 'a option \<times> string) act" where
  "provision_master E ed25519 held =
     andThen (mapError PV_Store (storeRead (master_key (se_store E)))) (\<lambda>found.
     andThen
       (case found of
          Some master \<Rightarrow> ret (Some master, acc_ed25519 (ac_identity (se_keys E) master))
        | None \<Rightarrow>
            (case held of
               Some held \<Rightarrow>
                 andThen (stored (\<lambda>data. is_paired_under data (hl_master held) ed25519)) (\<lambda>paired.
                   if paired then ret (None, hl_master held) else throw PV_NeedsPairing)
             | None \<Rightarrow>
                 andThen (newAccount E) (\<lambda>master.
                 andThen (pvStore E (SetMasterKey master)) (\<lambda>_.
                   ret (Some master, acc_ed25519 (ac_identity (se_keys E) master))))))
       (\<lambda>(master, mkey).
          if (case held of None \<Rightarrow> False | Some held \<Rightarrow> hl_master held \<noteq> mkey) then throw PV_MasterMismatch
          else ret (master, mkey)))"

text \<open>The own list: once over in the current order, above a list of the server in the old order, and
  above any list of the server that a pending list is not above.\<close>

definition provision_migrate ::
    "('a, 's, 'n, 'h, 'v, 'x) step_env_scheme \<Rightarrow> 'a option \<Rightarrow> HeldList option \<Rightarrow> SignedList option
     \<Rightarrow> (('n, 'y) world_scheme, 'h ProvisionError, SignedList option) act" where
  "provision_migrate E master held l =
     andThen (stored sd_list_migrated) (\<lambda>migrated.
       if migrated then ret l
       else (case (l, master) of
               (Some own, Some master) \<Rightarrow>
                 andThen (pvCrypto (migrate_own_list (se_crypto E) (ac_identity (se_keys E) master) own)) (\<lambda>next.
                   case next of
                     Some next \<Rightarrow>
                       andThen (pvStore E (SetMigratedList next
                                  (case held of None \<Rightarrow> True | Some held \<Rightarrow> sl_version (hl_list held) < sl_version next)))
                         (\<lambda>_. ret (Some next))
                   | None \<Rightarrow> andThen (pvStore E SetListMigrated) (\<lambda>_. ret l))
             | _ \<Rightarrow> ret l))"

definition sign_pending ::
    "('a, 's, 'n, 'h, 'v, 'x) step_env_scheme \<Rightarrow> 'a \<Rightarrow> nat \<Rightarrow> string list
     \<Rightarrow> (('n, 'y) world_scheme, 'h ProvisionError, SignedList) act" where
  "sign_pending E master version keys =
     andThen (pvCrypto (sign_list (se_crypto E) (ac_identity (se_keys E) master) version keys)) (\<lambda>next.
     andThen (pvStore E (SetSignedListPending next)) (\<lambda>_. ret next))"

definition provision_legacy ::
    "('a, 's, 'n, 'h, 'v, 'x) step_env_scheme \<Rightarrow> string \<Rightarrow> 'a option \<Rightarrow> string \<Rightarrow> HeldList option \<Rightarrow> SignedList option
     \<Rightarrow> (('n, 'y) world_scheme, 'h ProvisionError, SignedList option) act" where
  "provision_legacy E ed25519 master mkey held l =
     (case (map_option hl_list held, master) of
        (Some held, Some master) \<Rightarrow>
          if (case l of None \<Rightarrow> True | Some own \<Rightarrow> sl_version own \<le> sl_version held)
             \<and> has_legacy_order (se_crypto E) (sl_version held) (sl_keys held) mkey (sl_signature held)
          then
            andThen (stored sd_own_revoked) (\<lambda>revoked.
            andThen (sign_pending E master (sl_version held + 1) (keys_above (sl_keys held) revoked ed25519)) (\<lambda>next.
              ret (Some next)))
          else ret l
      | _ \<Rightarrow> ret l)"

definition provision_stale ::
    "('a, 's, 'n, 'h, 'v, 'x) step_env_scheme \<Rightarrow> string \<Rightarrow> 'a option \<Rightarrow> string \<Rightarrow> HeldList option \<Rightarrow> SignedList option
     \<Rightarrow> (('n, 'y) world_scheme, 'h ProvisionError, SignedList option) act" where
  "provision_stale E ed25519 master mkey held l =
     (case map_option hl_list held of
        None \<Rightarrow> ret l
      | Some held \<Rightarrow>
          andThen (stored sd_list_pending) (\<lambda>pending.
            if pending \<and> (case l of None \<Rightarrow> False | Some own \<Rightarrow> sl_version own \<le> sl_version held) then
              andThen (pvCrypto (verify_signed_list (se_crypto E) (sl_version held) (sl_keys held) mkey (sl_signature held))) (\<lambda>_.
              andThen (stored sd_own_revoked) (\<lambda>revoked.
                let keys = keys_above (sl_keys held) revoked ed25519 in
                if sort keys = sort (sl_keys held) then
                  andThen (pvStore E (SetPublishedList held)) (\<lambda>_. ret (Some held))
                else
                  andThen (fromResult (ok_or master PV_NeedsPairing)) (\<lambda>master.
                  andThen (sign_pending E master (sl_version held + 1) keys) (\<lambda>next. ret (Some next)))))
            else ret l))"

definition provision_own_list ::
    "('a, 's, 'n, 'h, 'v, 'x) step_env_scheme \<Rightarrow> string \<Rightarrow> 'a option \<Rightarrow> string \<Rightarrow> HeldList option \<Rightarrow> SignedList option
     \<Rightarrow> (('n, 'y) world_scheme, 'h ProvisionError, SignedList) act" where
  "provision_own_list E ed25519 master mkey held l =
     (case (l, map_option hl_list held) of
        (Some l, _) \<Rightarrow> ret l
      | (None, Some held) \<Rightarrow>
          andThen (pvCrypto (verify_signed_list (se_crypto E) (sl_version held) (sl_keys held) mkey (sl_signature held))) (\<lambda>_.
            if ed25519 \<in> set (sl_keys held) then
              andThen (pvStore E (SetSignedList held)) (\<lambda>_. ret held)
            else
              andThen (fromResult (ok_or master PV_NeedsPairing)) (\<lambda>master.
                sign_pending E master (sl_version held + 1) (sl_keys held @ [ed25519])))
      | (None, None) \<Rightarrow>
          andThen (fromResult (ok_or master PV_NeedsPairing)) (\<lambda>master. sign_pending E master 1 [ed25519]))"

definition provision_list ::
    "('a, 's, 'n, 'h, 'v, 'x) step_env_scheme \<Rightarrow> string \<Rightarrow> 'a option \<Rightarrow> string \<Rightarrow> HeldList option
     \<Rightarrow> (('n, 'y) world_scheme, 'h ProvisionError, SignedList) act" where
  "provision_list E ed25519 master mkey held =
     andThen (stored sd_signed_list) (\<lambda>l.
     andThen (provision_migrate E master held l) (\<lambda>l.
     andThen (provision_legacy E ed25519 master mkey held l) (\<lambda>l.
     andThen (provision_stale E ed25519 master mkey held l) (\<lambda>l.
       provision_own_list E ed25519 master mkey held l))))"

definition provision_certificate ::
    "('a, 's, 'n, 'h, 'v, 'x) step_env_scheme \<Rightarrow> string \<Rightarrow> 'a option \<Rightarrow> string \<Rightarrow> SignedList
     \<Rightarrow> (('n, 'y) world_scheme, 'h ProvisionError, unit) act" where
  "provision_certificate E ed25519 master mkey l =
     andThen (stored sd_device_certificate) (\<lambda>certificate.
       if certificate \<noteq> None then ret ()
       else
         andThen (fromResult (ok_or master PV_NeedsPairing)) (\<lambda>master.
         andThen (pvCrypto (build_device_certificate (se_crypto E) (sl_version l) ed25519 mkey
                              (acc_sign (ac_identity (se_keys E) master)))) (\<lambda>certificate.
           pvStore E (SetDeviceCertificate certificate))))"

definition provision_register ::
    "('a, 's, 'n, 'h, 'v, 'x) step_env_scheme \<Rightarrow> 'a LocalAccount \<Rightarrow> string \<Rightarrow> string \<Rightarrow> string \<Rightarrow> string
     \<Rightarrow> (('n, 'y) world_scheme, 'h ProvisionError, bool) act" where
  "provision_register E local_account did ed25519 curve25519 mkey =
     (let id_signature = local_sign (se_keys E) local_account (device_id_signed_text curve25519 mkey) in
      andThen (pvWire (DeviceIdRequest_new (se_crypto E) ed25519 curve25519 id_signature)) (\<lambda>id_request.
      andThen (pvNet (\<lambda>n. list_e2e_devices (se_crypto E) (se_http E) n (se_token E) (se_network_id E) (se_protocol E))) (\<lambda>devices.
        if list_ex (\<lambda>device. rec_did device = did \<and> device_matches device id_request) devices then ret False
        else
          andThen (pvNet (\<lambda>n. register_e2e_device (se_crypto E) (se_http E) n (se_token E) (se_network_id E)
                                (se_protocol E) id_request)) (\<lambda>record.
            if rec_did record \<noteq> did then throw (PV_Wire BadDid) else ret True))))"

definition provision_publish_list ::
    "('a, 's, 'n, 'h, 'v, 'x) step_env_scheme \<Rightarrow> string \<Rightarrow> HeldList option \<Rightarrow> SignedList
     \<Rightarrow> (('n, 'y) world_scheme, 'h ProvisionError, bool) act" where
  "provision_publish_list E mkey held l =
     andThen (stored sd_list_pending) (\<lambda>pending.
       if pending \<or> held = None then
         andThen (pvWire (ListRequest_new (se_crypto E) mkey l)) (\<lambda>request.
         andThen (pvNet (\<lambda>n. put_e2e_list (se_crypto E) (se_http E) n (se_token E) (se_network_id E)
                               (se_protocol E) request)) (\<lambda>_.
         andThen (pvStore E ClearListPending) (\<lambda>_. ret True)))
       else ret False)"

text \<open>The keys: what the server lacks is made and saved before the upload, and marked as published
  after it.\<close>

definition prepare_keys ::
    "('a, 's, 'n, 'h, 'v, 'x) step_env_scheme \<Rightarrow> 'a LocalAccount \<Rightarrow> KeysHeld
     \<Rightarrow> (('n, 'y) world_scheme, 'h ProvisionError, 'a LocalAccount) act" where
  "prepare_keys E local_account server_keys =
     (let wanted = ONE_TIME_KEYS_MAX - kh_one_time_keys server_keys;
          waiting = length (unpublished_one_time_keys (se_keys E) local_account);
          missing = wanted - waiting;
          needs_fallback = \<not> kh_fallback server_keys \<and> unpublished_fallback_key (se_keys E) local_account = None
      in
      andThen (drawing (\<lambda>draw. generate_one_time_keys (se_keys E) draw local_account missing)) (\<lambda>local_account.
      andThen (if needs_fallback then drawing (\<lambda>draw. rotate_fallback_key (se_keys E) draw local_account)
               else ret local_account) (\<lambda>local_account.
      andThen (whenever (missing > 0 \<or> needs_fallback) (pvStore E (SetAccount (la_account local_account)))) (\<lambda>_.
        ret local_account))))"

definition upload_request ::
    "crypto_api \<Rightarrow> 'a acct_api \<Rightarrow> 'a LocalAccount \<Rightarrow> WireError + KeysUploadRequest" where
  "upload_request C K local_account =
     rbind (collect_results (signed_key C K local_account) (unpublished_one_time_keys K local_account)) (\<lambda>one_time_signed.
     rbind (case unpublished_fallback_key K local_account of
              None \<Rightarrow> Inr None
            | Some key \<Rightarrow> rbind (signed_key C K local_account key) (\<lambda>k. Inr (Some k))) (\<lambda>fallback_signed.
       KeysUploadRequest_new one_time_signed fallback_signed))"

definition provision_keys ::
    "('a, 's, 'n, 'h, 'v, 'x) step_env_scheme \<Rightarrow> 'a LocalAccount \<Rightarrow> string \<Rightarrow> Provisioned
     \<Rightarrow> (('n, 'y) world_scheme, 'h ProvisionError, Provisioned) act" where
  "provision_keys E local_account did done_so_far =
     andThen (pvNet (\<lambda>n. fetch_e2e_keys (se_crypto E) (se_http E) n (se_token E) (se_network_id E) did (se_protocol E))) (\<lambda>server_keys.
     andThen (prepare_keys E local_account server_keys) (\<lambda>local_account.
       if unpublished_one_time_keys (se_keys E) local_account = [] \<and> unpublished_fallback_key (se_keys E) local_account = None
       then ret done_so_far
       else
         andThen (pvWire (upload_request (se_crypto E) (se_keys E) local_account)) (\<lambda>request.
         andThen (pvNet (\<lambda>n. publish_e2e_keys (se_crypto E) (se_http E) n (se_token E) (se_network_id E) did
                               (se_protocol E) request)) (\<lambda>_.
         andThen (pvStore E (SetAccount (la_account (mark_published (se_keys E) local_account)))) (\<lambda>_.
           ret (done_so_far\<lparr>
             pv_one_time_keys_published := length (unpublished_one_time_keys (se_keys E) local_account),
             pv_fallback_published := unpublished_fallback_key (se_keys E) local_account \<noteq> None\<rparr>))))))"

text \<open>The part behind the identity.\<close>

definition provision_with ::
    "('a, 's, 'n, 'h, 'v, 'x) step_env_scheme \<Rightarrow> 'a \<Rightarrow> bool \<Rightarrow> (('n, 'y) world_scheme, 'h ProvisionError, Provisioned) act" where
  "provision_with E account identity_created =
     (let ed25519 = acc_ed25519 (ac_identity (se_keys E) account);
          curve25519 = acc_curve25519 (ac_identity (se_keys E) account)
      in
      andThen (pvWire (did_from_key_text (se_crypto E) ed25519)) (\<lambda>did.
      andThen (fromResult (map_err PV_Account (AccountId_new (se_network_id E) did))) (\<lambda>account_id.
      let local_account = from_account account_id account in
      andThen (provision_held E) (\<lambda>held.
      andThen (provision_master E ed25519 held) (\<lambda>(master, mkey).
      andThen (provision_list E ed25519 master mkey held) (\<lambda>l.
      andThen (provision_certificate E ed25519 master mkey l) (\<lambda>_.
      andThen (provision_register E local_account did ed25519 curve25519 mkey) (\<lambda>device_registered.
      andThen (provision_publish_list E mkey held l) (\<lambda>list_published.
        provision_keys E local_account did
          \<lparr> pv_did = did, pv_identity_created = identity_created, pv_device_registered = device_registered,
             pv_list_published = list_published, pv_one_time_keys_published = 0, pv_fallback_published = False \<rparr>)))))))))"

definition provision_device ::
    "('a, 's, 'n, 'h, 'v, 'x) step_env_scheme \<Rightarrow> (('n, 'y) world_scheme, 'h ProvisionError, Provisioned) act" where
  "provision_device E =
     (if list_ex (\<lambda>x. \<not> E2eOperation_available x (se_protocol E)) REQUIRED then throw (PV_Route Unavailable)
      else
      andThen (stored sd_reset_pending) (\<lambda>reset.
      if reset then throw PV_ResetPending
      else
      andThen (provision_identity E) (\<lambda>(account, identity_created). provision_with E account identity_created)))"

text \<open>\<^verbatim>\<open>provision_device_at\<close>: a store that does not open ends the run before any request.\<close>

definition provision_device_at ::
    "('a, 's, 'n, 'h, 'v, 'x) step_env_scheme \<Rightarrow> disk \<Rightarrow> 'n \<Rightarrow> nat \<Rightarrow> path \<Rightarrow> lock_outcome \<Rightarrow> E2eStoreError + string
     \<Rightarrow> disk \<times> 'n \<times> ('h ProvisionError + Provisioned) outcome" where
  "provision_device_at E d n draws p lock provided_key =
     (case open_store (se_store E) d (se_nonce E draws) p lock provided_key of
        (d, Inl e) \<Rightarrow> (d, n, Value (Inl (PV_Store e)))
      | (d, Inr store) \<Rightarrow>
          (case provision_device E \<lparr> wo_net = n, wo_disk = d, wo_store = store, wo_draws = draws + 1 \<rparr> of
             (w, r) \<Rightarrow> (wo_disk w, wo_net w, r)))"

section \<open>Lemmas: file and memory\<close>

lemmas provision_stages = provision_identity_def provision_held_def provision_master_def provision_migrate_def
  sign_pending_def provision_legacy_def provision_stale_def provision_own_list_def provision_list_def
  provision_certificate_def provision_register_def provision_publish_list_def prepare_keys_def provision_keys_def
  provision_with_def pvStore_def pvNet_def pvCrypto_def pvWire_def

lemma refused_handler_sync:
  "keeps (stays_in_sync S) (case err of Refused R_NotFound _ \<Rightarrow> ret None | _ \<Rightarrow> throw (PV_Route err))"
  by (auto intro: sync_rules split: E2eRouteError.split E2eRefusal.split)

lemma provision_sync:
  assumes "step_env_ok E"
  shows "keeps (stays_in_sync (se_store E)) (provision_device E)"
  unfolding provision_device_def provision_stages Let_def
  by (intro sync_rules keeps_branches refused_handler_sync assms)

section \<open>Lemmas: what a run keeps\<close>

text \<open>A pickle reads back as the account it was made of.\<close>

definition pickles_ok :: "('a, 's) store_env \<Rightarrow> bool" where
  "pickles_ok S \<longleftrightarrow> (\<forall>a key. account_unpickle S (account_pickle S a key) key = Some a)"

definition holds_identity :: "('a, 's) store_env \<Rightarrow> 'a acct_api \<Rightarrow> account \<Rightarrow> Store \<Rightarrow> bool" where
  "holds_identity S K i s \<longleftrightarrow> (\<exists>a. olm_identity S s = Inr (Some a) \<and> ac_identity K a = i)"

text \<open>The identity \<open>i\<close> of the device, its master, and what protects it from the peers.\<close>

definition own_kept :: "('a, 's) store_env \<Rightarrow> 'a acct_api \<Rightarrow> account \<Rightarrow> Store \<Rightarrow> Store \<Rightarrow> bool" where
  "own_kept S K i s t \<longleftrightarrow>
     st_key t = st_key s \<and>
     (holds_identity S K i s \<longrightarrow> holds_identity S K i t) \<and>
     (sd_master (st_data s) \<noteq> None \<longrightarrow> sd_master (st_data t) = sd_master (st_data s)) \<and>
     sd_sessions (st_data t) = sd_sessions (st_data s) \<and> sd_trust (st_data t) = sd_trust (st_data s) \<and>
     sd_replay (st_data t) = sd_replay (st_data s) \<and> sd_own_revoked (st_data t) = sd_own_revoked (st_data s) \<and>
     sd_pending_revoke (st_data t) = sd_pending_revoke (st_data s) \<and>
     sd_reset_pending (st_data t) = sd_reset_pending (st_data s)"

interpretation own: world_order "\<lambda>w v. own_kept S K i (wo_store w) (wo_store v)" for S K i
  by unfold_locales (auto simp: own_kept_def)

lemmas change_defs = change_account_def change_master_def change_signed_list_def change_signed_list_pending_def
  change_published_list_def change_list_migrated_def change_migrated_list_def change_clear_list_pending_def
  change_device_certificate_def

lemma same_account_own:
  "st_key t = st_key s \<Longrightarrow> sd_account (st_data t) = sd_account (st_data s) \<Longrightarrow> holds_identity S K i t = holds_identity S K i s"
  by (cases "sd_account (st_data s)") (simp_all add: holds_identity_def olm_identity_def)

lemma own_kept_same:
  assumes "st_key t = st_key s" "sd_account (st_data t) = sd_account (st_data s)"
  shows "own_kept S K i s t \<longleftrightarrow>
     (sd_master (st_data s) \<noteq> None \<longrightarrow> sd_master (st_data t) = sd_master (st_data s)) \<and>
     sd_sessions (st_data t) = sd_sessions (st_data s) \<and> sd_trust (st_data t) = sd_trust (st_data s) \<and>
     sd_replay (st_data t) = sd_replay (st_data s) \<and> sd_own_revoked (st_data t) = sd_own_revoked (st_data s) \<and>
     sd_pending_revoke (st_data t) = sd_pending_revoke (st_data s) \<and>
     sd_reset_pending (st_data t) = sd_reset_pending (st_data s)"
  by (simp add: own_kept_def assms same_account_own [OF assms])

lemma list_operations_own:
  "own_kept S K i s (changed S s (SetSignedList l))" "own_kept S K i s (changed S s (SetSignedListPending l))"
  "own_kept S K i s (changed S s (SetPublishedList l))" "own_kept S K i s (changed S s SetListMigrated)"
  "own_kept S K i s (changed S s (SetMigratedList l b))" "own_kept S K i s (changed S s ClearListPending)"
  "own_kept S K i s (changed S s (SetDeviceCertificate c))"
  by (auto simp: changed_def own_kept_same change_defs)

lemma set_account_own:
  assumes "pickles_ok S" "ac_identity K a = i"
  shows "own_kept S K i s (changed S s (SetAccount a))"
  using assms by (simp add: changed_def own_kept_def holds_identity_def olm_identity_def change_defs pickles_ok_def)

lemma own_kept_refl [simp]: "own_kept S K i s s"
  by (simp add: own_kept_def)

lemma storeDo_own:
  assumes "\<And>s. own_kept (se_store E) K i s (changed (se_store E) s x)"
  shows "keeps (\<lambda>w v. own_kept (se_store E) K i (wo_store w) (wo_store v)) (storeDo E x)"
  unfolding keeps_iff_runs by (auto intro!: runs_storeDo simp: assms)

lemma other_steps_own:
  "keeps (\<lambda>w v. own_kept S K i (wo_store w) (wo_store v)) (netDo f)"
  "keeps (\<lambda>w v. own_kept S K i (wo_store w) (wo_store v)) (newAccount E')"
  "keeps (\<lambda>w v. own_kept S K i (wo_store w) (wo_store v)) (drawing g)"
  by (auto simp: keeps_def netDo_def newAccount_def drawing_def split: prod.split)

lemmas own_rules = own.keeps_ret own.keeps_andThen own.keeps_orElse own.keeps_mapError
  own.keeps_whenever keeps_reads [OF own.world_order_axioms] storeDo_own list_operations_own other_steps_own

lemma master_key_None: "master_key S s = Inr None \<longleftrightarrow> sd_master (st_data s) = None"
  by (auto simp: master_key_def rbind_eq_Inr split: option.splits)

lemma provision_master_own:
  "keeps (\<lambda>w v. own_kept (se_store E) K i (wo_store w) (wo_store v)) (provision_master E ed25519 held)"
proof -
  have set_master: "own_kept (se_store E) K i s (changed (se_store E) s (SetMasterKey m))" if "sd_master (st_data s) = None" for s m
    using that by (auto simp: changed_def own_kept_same change_defs)
  show ?thesis
    unfolding keeps_iff_runs provision_master_def pvStore_def
    by (auto intro!: runs_storeDo set_master simp: master_key_None split: sum.split option.split)
qed

lemma refused_handler_own:
  "keeps (\<lambda>w v. own_kept S K i (wo_store w) (wo_store v))
     (case err of Refused R_NotFound _ \<Rightarrow> ret None | _ \<Rightarrow> throw (PV_Route err))"
  by (auto intro: own_rules split: E2eRouteError.split E2eRefusal.split)

text \<open>The stages between the identity and the keys.\<close>

lemma middle_stages_own:
  "keeps (\<lambda>w v. own_kept (se_store E) K i (wo_store w) (wo_store v)) (provision_held E)"
  "keeps (\<lambda>w v. own_kept (se_store E) K i (wo_store w) (wo_store v)) (provision_list E ed25519 master mkey held)"
  "keeps (\<lambda>w v. own_kept (se_store E) K i (wo_store w) (wo_store v)) (provision_certificate E ed25519 master mkey l)"
  "keeps (\<lambda>w v. own_kept (se_store E) K i (wo_store w) (wo_store v)) (provision_register E la did ed25519 curve25519 mkey)"
  "keeps (\<lambda>w v. own_kept (se_store E) K i (wo_store w) (wo_store v)) (provision_publish_list E mkey held l)"
  unfolding provision_stages Let_def
  by (intro own_rules keeps_branches refused_handler_own)+

lemma provision_identity_own:
  assumes "pickles_ok (se_store E)"
  shows "runs (provision_identity E) w
     (\<lambda>(a, created) v. own_kept (se_store E) K i (wo_store w) (wo_store v) \<and>
        holds_identity (se_store E) K (ac_identity K a) (wo_store v))
     (\<lambda>v. own_kept (se_store E) K i (wo_store w) (wo_store v))"
proof -
  have new: "own_kept S K i s (changed S s (SetAccount a))" if "olm_identity S s = Inr None" for S s a
    using that by (simp add: changed_def own_kept_def holds_identity_def change_defs)
  have holds: "holds_identity (se_store E) K (ac_identity K a) (changed (se_store E) s (SetAccount a))" for s a
    using assms by (auto simp: changed_def holds_identity_def olm_identity_def change_defs pickles_ok_def)
  show ?thesis
    unfolding provision_identity_def pvStore_def
    by (auto intro!: runs_storeDo new holds simp: holds_identity_def [of _ _ _ "wo_store w"] split: sum.split option.split)
qed

lemma prepare_keys_own:
  assumes "acct_api_ok (se_keys E)" "pickles_ok (se_store E)" "ac_identity (se_keys E) (la_account l) = i"
  shows "runs (prepare_keys E l server_keys) w
     (\<lambda>l' v. own_kept (se_store E) (se_keys E) i (wo_store w) (wo_store v) \<and> ac_identity (se_keys E) (la_account l') = i)
     (\<lambda>v. own_kept (se_store E) (se_keys E) i (wo_store w) (wo_store v))"
  unfolding prepare_keys_def Let_def pvStore_def
  using account_keys_facts(1,2) [OF assms(1)] assms(3)
  by (auto intro!: runs_storeDo set_account_own [OF assms(2)])

lemma own_kept_chain:
  assumes "own_kept S K i s t" "holds_identity S K j t" "own_kept S K j t u"
  shows "own_kept S K i s u"
proof -
  have "holds_identity S K i s \<Longrightarrow> i = j" using assms(1,2) by (auto simp: own_kept_def holds_identity_def)
  then show ?thesis using assms by (auto simp: own_kept_def)
qed

end
