(* ===== verification/Provision_Facts.thy ===== *)
theory Provision_Facts
  imports Provision
begin

text \<open>
  What a run of the provision guarantees: the identity it keeps, the list it leaves, the identity a
  finished run has, and the writes it reports.
\<close>

section \<open>The own list\<close>

lemma keys_above_set: "set (keys_above held revoked ed25519) = insert ed25519 (set held - set revoked)"
  by (auto simp: keys_above_def Let_def)

lemma sign_list_facts:
  assumes "account_ok C m" "sign_list C m version keys = Inr l"
  shows "sl_version l = version" "set (sl_keys l) = set keys"
    "verify_signed_list C (sl_version l) (sl_keys l) (acc_ed25519 m) (sl_signature l) = Inr ()"
proof -
  obtain sig where sig: "build_signed_list_signature C version keys (acc_sign m) = Inr sig"
    and l: "l = \<lparr> sl_version = version, sl_keys = sort keys, sl_signature = sig \<rparr>"
    using assms(2) by (auto simp: sign_list_def rbind_eq_Inr)
  from sig have ok: "1 \<le> version" "version \<le> MAX_VERSION" "list_devices_ok C keys"
    and s: "sig = acc_sign m (list_text version (sort keys))"
    by (auto simp: build_signed_list_signature_def rbind_eq_Inr signed_list_signed_text_Inr)
  show "sl_version l = version" "set (sl_keys l) = set keys" by (simp_all add: l)
  show "verify_signed_list C (sl_version l) (sl_keys l) (acc_ed25519 m) (sl_signature l) = Inr ()"
    using ok account_signs(1) [OF assms(1)] list_devices_ok_mset [of "sort keys" keys C]
    by (simp add: verify_signed_list_Inr l s sorted_sort_id)
qed

text \<open>A list that may follow the list \<open>own0\<close> the run started with: not older, of the master, and it
  lists no revoked key that \<open>own0\<close> did not list, this device apart.\<close>

definition list_from ::
    "crypto_api \<Rightarrow> string \<Rightarrow> string \<Rightarrow> string list \<Rightarrow> SignedList option \<Rightarrow> SignedList \<Rightarrow> bool" where
  "list_from C mkey ed25519 revoked own0 l \<longleftrightarrow>
     (case own0 of None \<Rightarrow> True | Some own \<Rightarrow> sl_version own \<le> sl_version l) \<and>
     (own0 = Some l \<or> verify_signed_list C (sl_version l) (sl_keys l) mkey (sl_signature l) = Inr ()) \<and>
     set revoked \<inter> set (sl_keys l) \<subseteq> insert ed25519 (case own0 of None \<Rightarrow> {} | Some own \<Rightarrow> set (sl_keys own))"

definition list_inv ::
    "crypto_api \<Rightarrow> string \<Rightarrow> string \<Rightarrow> string list \<Rightarrow> SignedList option \<Rightarrow> SignedList option \<Rightarrow> StateData \<Rightarrow> bool" where
  "list_inv C mkey ed25519 revoked own0 l data \<longleftrightarrow>
     sd_signed_list data = l \<and> sd_own_revoked data = revoked \<and>
     (sd_list_pending data \<or> revoked \<noteq> [] \<longrightarrow> l \<noteq> None) \<and>
     (case l of None \<Rightarrow> own0 = None | Some l \<Rightarrow> list_from C mkey ed25519 revoked own0 l)"

text \<open>A pending list is above the list the server holds.\<close>

definition above_held :: "HeldList option \<Rightarrow> SignedList option \<Rightarrow> StateData \<Rightarrow> bool" where
  "above_held held l data \<longleftrightarrow>
     (case (held, l) of
        (Some held, Some l) \<Rightarrow> sd_list_pending data \<longrightarrow> sl_version (hl_list held) < sl_version l
      | _ \<Rightarrow> True)"

definition master_ok :: "crypto_api \<Rightarrow> 'a acct_api \<Rightarrow> 'a option \<Rightarrow> string \<Rightarrow> bool" where
  "master_ok C K master mkey \<longleftrightarrow>
     (case master of None \<Rightarrow> True | Some m \<Rightarrow> account_ok C (ac_identity K m) \<and> acc_ed25519 (ac_identity K m) = mkey)"

lemma migrate_inv:
  assumes "list_inv C mkey ed25519 revoked own0 l (st_data (wo_store w))" "master_ok C (se_keys E) master mkey" "se_crypto E = C"
  shows "runs (provision_migrate E master held l) w
     (\<lambda>l' v. list_inv C mkey ed25519 revoked own0 l' (st_data (wo_store v))) (\<lambda>_. True)"
proof -
  have next_ok: "list_from C mkey ed25519 revoked own0 l'"
    if "l = Some own" "master = Some m" "migrate_own_list C (ac_identity (se_keys E) m) own = Inr (Some l')" for own m l'
  proof -
    have m: "account_ok C (ac_identity (se_keys E) m)" "acc_ed25519 (ac_identity (se_keys E) m) = mkey"
      using assms(2) that(2) by (simp_all add: master_ok_def)
    note f = migrate_own_list_facts [OF m(1) that(3)]
    have "set (sl_keys l') = set (sl_keys own)" using f by (metis set_mset_mset)
    then show ?thesis using f m(2) assms(1) that(1) by (auto simp: list_inv_def list_from_def split: option.splits)
  qed
  show ?thesis
    unfolding provision_migrate_def pvCrypto_def pvStore_def
    using assms(1,3) next_ok
    by (auto intro!: runs_storeDo simp: changed_def change_defs list_inv_def split: option.split sum.split)
qed

lemma sign_pending_inv:
  assumes "list_inv C mkey ed25519 revoked own0 l (st_data (wo_store w))" "master_ok C (se_keys E) (Some m) mkey" "se_crypto E = C"
    and "case l of None \<Rightarrow> True | Some own \<Rightarrow> sl_version own \<le> version"
    and "set revoked \<inter> set keys \<subseteq> {ed25519}" "\<And>h. held = Some h \<Longrightarrow> sl_version (hl_list h) < version"
  shows "runs (sign_pending E m version keys) w
     (\<lambda>l' v. list_inv C mkey ed25519 revoked own0 (Some l') (st_data (wo_store v)) \<and> above_held held (Some l') (st_data (wo_store v)))
     (\<lambda>_. True)"
proof -
  have m: "account_ok C (ac_identity (se_keys E) m)" "acc_ed25519 (ac_identity (se_keys E) m) = mkey"
    using assms(2) by (simp_all add: master_ok_def)
  have next_ok: "list_from C mkey ed25519 revoked own0 l' \<and> sl_version l' = version"
    if "sign_list C (ac_identity (se_keys E) m) version keys = Inr l'" for l'
    using sign_list_facts [OF m(1) that] m(2) assms(1,4,5)
    by (auto simp: list_inv_def list_from_def split: option.splits)
  show ?thesis
    unfolding sign_pending_def pvCrypto_def pvStore_def
    using assms(1,3,6) next_ok
    by (auto intro!: runs_storeDo simp: changed_def change_defs list_inv_def above_held_def split: option.split sum.split)
qed

lemma revoked_above: "set revoked \<inter> set (keys_above held revoked ed25519) \<subseteq> {ed25519}"
  by (auto simp: keys_above_set)

lemma legacy_inv:
  assumes "list_inv C mkey ed25519 revoked own0 l (st_data (wo_store w))" "master_ok C (se_keys E) master mkey" "se_crypto E = C"
  shows "runs (provision_legacy E ed25519 master mkey held l) w
     (\<lambda>l' v. list_inv C mkey ed25519 revoked own0 l' (st_data (wo_store v))) (\<lambda>_. True)"
proof (cases "(held, master)")
  case (Pair h m)
  show ?thesis
  proof (cases "\<exists>h' m'. h = Some h' \<and> m = Some m'")
    case True
    then obtain h' m' where hm: "h = Some h'" "m = Some m'" by blast
    have rev: "sd_own_revoked (st_data (wo_store w)) = revoked" using assms(1) by (simp add: list_inv_def)
    have "runs (sign_pending E m' (sl_version (hl_list h') + 1) (keys_above (sl_keys (hl_list h')) revoked ed25519)) w
       (\<lambda>l' v. list_inv C mkey ed25519 revoked own0 (Some l') (st_data (wo_store v)) \<and> above_held None (Some l') (st_data (wo_store v)))
       (\<lambda>_. True)"
      if "case l of None \<Rightarrow> True | Some own \<Rightarrow> sl_version own \<le> sl_version (hl_list h')"
      by (rule sign_pending_inv [OF assms(1)]) (use assms(2,3) Pair hm that revoked_above in \<open>auto split: option.splits\<close>)
    then show ?thesis
      using Pair hm assms(1)
      by (auto simp: provision_legacy_def rev intro: runs_mono)
  next
    case False
    then show ?thesis using Pair assms(1) by (auto simp: provision_legacy_def split: option.split)
  qed
qed

lemma stale_inv:
  assumes "list_inv C mkey ed25519 revoked own0 l (st_data (wo_store w))" "master_ok C (se_keys E) master mkey" "se_crypto E = C"
  shows "runs (provision_stale E ed25519 master mkey held l) w
     (\<lambda>l' v. list_inv C mkey ed25519 revoked own0 l' (st_data (wo_store v)) \<and> above_held held l' (st_data (wo_store v)))
     (\<lambda>_. True)"
proof (cases held)
  case None
  then show ?thesis using assms(1) by (simp add: provision_stale_def above_held_def)
next
  case (Some h)
  let ?h = "hl_list h"
  let ?keys = "keys_above (sl_keys ?h) revoked ed25519"
  have rev: "sd_own_revoked (st_data (wo_store w)) = revoked" using assms(1) by (simp add: list_inv_def)
  show ?thesis
  proof (cases "sd_list_pending (st_data (wo_store w)) \<and> (case l of None \<Rightarrow> False | Some own \<Rightarrow> sl_version own \<le> sl_version ?h)")
    case False
    then have "above_held held l (st_data (wo_store w))"
      using Some by (auto simp: above_held_def split: option.split)
    then show ?thesis using False Some assms(1) by (auto simp: provision_stale_def)
  next
    case True
    then obtain own where own: "l = Some own" "sl_version own \<le> sl_version ?h" by (auto split: option.splits)
    have sign: "runs (sign_pending E m (sl_version ?h + 1) ?keys) w
       (\<lambda>l' v. list_inv C mkey ed25519 revoked own0 (Some l') (st_data (wo_store v)) \<and> above_held held (Some l') (st_data (wo_store v)))
       (\<lambda>_. True)" if "master = Some m" for m
      by (rule sign_pending_inv [OF assms(1)]) (use assms(2,3) own Some that revoked_above in auto)
    have published: "list_from C mkey ed25519 revoked own0 ?h"
      if "verify_signed_list C (sl_version ?h) (sl_keys ?h) mkey (sl_signature ?h) = Inr ()" "sort ?keys = sort (sl_keys ?h)"
    proof -
      have "set (sl_keys ?h) = set ?keys" using that(2) by (metis set_sort)
      then have "set revoked \<inter> set (sl_keys ?h) \<subseteq> {ed25519}" using revoked_above by blast
      then show ?thesis using that(1) own assms(1) by (auto simp: list_inv_def list_from_def split: option.splits)
    qed
    show ?thesis
      unfolding provision_stale_def pvCrypto_def pvStore_def
      using True Some own sign published assms(1,3)
      by (auto intro!: runs_storeDo simp: rev Let_def changed_def change_defs list_inv_def above_held_def
          split: option.split sum.split)
  qed
qed

lemma own_list_inv:
  assumes "list_inv C mkey ed25519 revoked own0 l (st_data (wo_store w))" "above_held held l (st_data (wo_store w))"
    and "master_ok C (se_keys E) master mkey" "se_crypto E = C"
  shows "runs (provision_own_list E ed25519 master mkey held l) w
     (\<lambda>l' v. list_inv C mkey ed25519 revoked own0 (Some l') (st_data (wo_store v)) \<and> above_held held (Some l') (st_data (wo_store v)))
     (\<lambda>_. True)"
proof (cases l)
  case (Some own)
  then show ?thesis using assms(1,2) by (simp add: provision_own_list_def)
next
  case None
  have none: "own0 = None" "revoked = []" "\<not> sd_list_pending (st_data (wo_store w))"
    using assms(1) None by (auto simp: list_inv_def)
  have sign: "runs (sign_pending E m version keys) w
     (\<lambda>l' v. list_inv C mkey ed25519 revoked own0 (Some l') (st_data (wo_store v)) \<and> above_held held (Some l') (st_data (wo_store v)))
     (\<lambda>_. True)" if "master = Some m" "\<And>h. held = Some h \<Longrightarrow> sl_version (hl_list h) < version" for m version keys
    by (rule sign_pending_inv [OF assms(1)]) (use assms(3,4) None none that in auto)
  show ?thesis
    unfolding provision_own_list_def pvCrypto_def pvStore_def
    using None none sign assms(1,4)
    by (auto intro!: runs_storeDo simp: changed_def change_defs list_inv_def list_from_def above_held_def
        split: option.split sum.split)
qed

lemma provision_list_inv:
  assumes "list_inv C mkey ed25519 revoked own0 own0 (st_data (wo_store w))" "master_ok C (se_keys E) master mkey" "se_crypto E = C"
  shows "runs (provision_list E ed25519 master mkey held) w
     (\<lambda>l v. list_inv C mkey ed25519 revoked own0 (Some l) (st_data (wo_store v)) \<and> above_held held (Some l) (st_data (wo_store v)))
     (\<lambda>_. True)"
proof -
  have own: "sd_signed_list (st_data (wo_store w)) = own0" using assms(1) by (simp add: list_inv_def)
  show ?thesis
    unfolding provision_list_def
    using assms own
    by (auto intro!: runs_mono [OF migrate_inv] runs_mono [OF legacy_inv] runs_mono [OF stale_inv] runs_mono [OF own_list_inv])
qed

section \<open>The identity\<close>

lemma runs_keeps: "keeps R m \<Longrightarrow> runs m w (\<lambda>_. R w) (R w)"
  by (simp add: keeps_iff_runs)

lemma provision_keys_own:
  assumes "acct_api_ok (se_keys E)" "pickles_ok (se_store E)" "ac_identity (se_keys E) (la_account l) = i"
  shows "runs (provision_keys E (l :: 'a LocalAccount) did p) w
     (\<lambda>_ v. own_kept (se_store E) (se_keys E) i (wo_store w) (wo_store v))
     (\<lambda>v. own_kept (se_store E) (se_keys E) i (wo_store w) (wo_store v))"
proof -
  have mark: "ac_identity (se_keys E) (la_account (mark_published (se_keys E) l')) = ac_identity (se_keys E) (la_account l')" for l'
    using assms(1) by (simp add: acct_api_ok_def mark_published_def)
  have trans: "own_kept (se_store E) (se_keys E) i s t \<Longrightarrow> own_kept (se_store E) (se_keys E) i t u
     \<Longrightarrow> own_kept (se_store E) (se_keys E) i s u" for s t u
    by (auto simp: own_kept_def)
  define same where "same = (\<lambda>l' :: 'a LocalAccount. ac_identity (se_keys E) (la_account l') = i)"
  have last: "own_kept (se_store E) (se_keys E) i t (changed (se_store E) t (SetAccount (la_account (mark_published (se_keys E) l'))))"
    if "same l'" for t l'
    by (rule set_account_own [OF assms(2)]) (use that in \<open>simp add: mark same_def\<close>)
  have prepared: "runs (prepare_keys E l server_keys) v
     (\<lambda>l' u. own_kept (se_store E) (se_keys E) i (wo_store v) (wo_store u) \<and> same l')
     (\<lambda>u. own_kept (se_store E) (se_keys E) i (wo_store v) (wo_store u))" for v server_keys
    unfolding same_def by (rule prepare_keys_own [OF assms])
  show ?thesis
    unfolding provision_keys_def pvNet_def pvStore_def pvWire_def
    by (auto intro!: runs_netDo runs_storeDo runs_mono [OF prepared] trans [OF _ last]
        split: outcome.split sum.split)
qed

lemma provision_with_own:
  assumes "acct_api_ok (se_keys E)" "pickles_ok (se_store E)" "ac_identity (se_keys E) a = i"
  shows "keeps (\<lambda>w v. own_kept (se_store E) (se_keys E) i (wo_store w) (wo_store v)) (provision_with E a created)"
proof -
  have keys: "keeps (\<lambda>w v. own_kept (se_store E) (se_keys E) i (wo_store w) (wo_store v)) (provision_keys E l did p)"
    if "la_account l = a" for l did p
    unfolding keeps_iff_runs using provision_keys_own [OF assms(1,2)] assms(3) that by blast
  show ?thesis
    unfolding provision_with_def pvWire_def Let_def
    by (intro own_rules keeps_branches middle_stages_own provision_master_own keys) (simp add: from_account_def)
qed

lemma provision_device_own:
  fixes E :: "('a, 's, 'n, 'h, 'v, 'x) step_env_scheme"
  assumes "acct_api_ok (se_keys E)" "pickles_ok (se_store E)"
  shows "keeps (\<lambda>(w :: ('n, 'y) world_scheme) v. own_kept (se_store E) (se_keys E) i (wo_store w) (wo_store v)) (provision_device E)"
  unfolding keeps_iff_runs
proof
  fix w :: "('n, 'y) world_scheme"
  let ?R = "\<lambda>j w v. own_kept (se_store E) (se_keys E) j (wo_store w) (wo_store v)"
  have rest: "runs (provision_with E a b) v (\<lambda>_. ?R i w) (?R i w)"
    if "?R i w v" "holds_identity (se_store E) (se_keys E) (ac_identity (se_keys E) a) (wo_store v)" for a b and v :: "('n, 'y) world_scheme"
    by (rule runs_mono [OF provision_with_own [OF assms refl, unfolded keeps_iff_runs, rule_format]])
      (use own_kept_chain [OF that] in blast)+
  show "runs (provision_device E) w (\<lambda>_. ?R i w) (?R i w)"
    unfolding provision_device_def
    by (auto intro!: runs_mono [OF provision_identity_own [OF assms(2), where K = "se_keys E" and i = i]] rest)
qed

section \<open>Properties\<close>

text \<open>
  Claim C35. A run of the provision never loses the identity of the device. However the run ends, with an
  error of the server, of the disk or none, the file still opens to the state in memory, the account it
  started with is still there under the same keys, a master key stays, and nothing of the sessions, the
  trust in the peers, the replay window, the revoked keys or a pending revoke or reset changes.
\<close>

theorem run_keeps_identity:
  assumes "step_env_ok E" and "acct_api_ok (se_keys E)" and "pickles_ok (se_store E)"
    and "in_sync (se_store E) (wo_disk w) (wo_store w)" and "provision_device E w = (v, r)"
  shows "in_sync (se_store E) (wo_disk v) (wo_store v) \<and>
     (\<forall>a. olm_identity (se_store E) (wo_store w) = Inr (Some a) \<longrightarrow>
        (\<exists>b. olm_identity (se_store E) (wo_store v) = Inr (Some b) \<and> ac_identity (se_keys E) b = ac_identity (se_keys E) a)) \<and>
     (\<forall>m. sd_master (st_data (wo_store w)) = Some m \<longrightarrow> sd_master (st_data (wo_store v)) = Some m) \<and>
     sd_own_revoked (st_data (wo_store v)) = sd_own_revoked (st_data (wo_store w)) \<and>
     sd_sessions (st_data (wo_store v)) = sd_sessions (st_data (wo_store w)) \<and>
     sd_trust (st_data (wo_store v)) = sd_trust (st_data (wo_store w)) \<and>
     sd_replay (st_data (wo_store v)) = sd_replay (st_data (wo_store w)) \<and>
     sd_pending_revoke (st_data (wo_store v)) = sd_pending_revoke (st_data (wo_store w)) \<and>
     sd_reset_pending (st_data (wo_store v)) = sd_reset_pending (st_data (wo_store w))"
proof -
  have v: "v = fst (provision_device E w)" using assms(5) by simp
  have own: "own_kept (se_store E) (se_keys E) i (wo_store w) (wo_store v)" for i
    unfolding v by (rule provision_device_own [OF assms(2,3), unfolded keeps_def, rule_format])
  have "stays_in_sync (se_store E) w v" unfolding v by (rule provision_sync [OF assms(1), unfolded keeps_def, rule_format])
  then show ?thesis using assms(4) own by (auto simp: stays_in_sync_def own_kept_def holds_identity_def)
qed

text \<open>An environment whose accounts are a character with the one-time keys behind it, whose server
  answers nothing, and a device with the account \<open>D\<close> and its file.\<close>

definition toy_acct_api :: "string acct_api" where
  "toy_acct_api = \<lparr>
     ac_identity = (\<lambda>a. toy_account (if a = [] then CHR ''D'' else hd a)),
     ac_one_time = (\<lambda>a. replicate (length (tl a)) (toy_key CHR ''o'')), ac_stored = (\<lambda>a. length (tl a)), ac_max = (\<lambda>_. 100),
     ac_generate = (\<lambda>draw n a. (if a = [] then ''D'' else a) @ replicate n CHR ''o''),
     ac_fallback = (\<lambda>_. None), ac_new_fallback = (\<lambda>_ a. a), ac_forget_fallback = (\<lambda>a. a),
     ac_mark_published = (\<lambda>a. take 1 a) \<rparr>"

lemma toy_acct_api_ok: "acct_api_ok toy_acct_api"
  by (auto simp: acct_api_ok_def toy_acct_api_def neq_Nil_conv)

definition toy_owned :: StateData where
  "toy_owned = StateData_default\<lparr>sd_account := Some ''kD''\<rparr>"

definition toy_owned_env :: "(string, string) store_env" where
  "toy_owned_env = toy_store_env\<lparr>
     json_of := (\<lambda>data. if data = toy_owned then Some ''owned'' else None),
     of_json := (\<lambda>text. if text = ''owned'' then Some toy_owned else None)\<rparr>"

lemma toy_owned_env_ok: "store_env_ok toy_owned_env" "pickles_ok toy_owned_env"
  using toy_store_env_ok
  by (auto simp: store_env_ok_def pickles_ok_def toy_owned_env_def toy_store_env_def split: if_splits)

definition toy_step_env :: "(string, string, Request list, unit, json) step_env" where
  "toy_step_env = \<lparr> se_crypto = toy_crypto, se_store = toy_owned_env, se_keys = toy_acct_api, se_nonce = (\<lambda>_. toy_nonce),
     se_account = (\<lambda>draw. [char_of (65 + draw)]), se_http = toy_http, se_token = ''t'', se_protocol = Some 55,
     se_network_id = ''net'' \<rparr>"

definition toy_owned_world :: "Request list world" where
  "toy_owned_world = \<lparr> wo_net = [], wo_disk = (toy_disk [])\<lparr>dk_files :=
       [((''dir'', ''state''), (case seal toy_owned_env ''k'' toy_nonce toy_owned of Inr raw \<Rightarrow> raw | Inl _ \<Rightarrow> []))]\<rparr>,
     wo_store = toy_store\<lparr>st_data := toy_owned\<rparr>, wo_draws = 0 \<rparr>"

theorem run_keeps_identity_witness:
  "case provision_device toy_step_env toy_owned_world of
     (v, r) \<Rightarrow> in_sync toy_owned_env (wo_disk v) (wo_store v) \<and>
       (\<exists>b. olm_identity toy_owned_env (wo_store v) = Inr (Some b) \<and> ac_identity toy_acct_api b = toy_account CHR ''D'')"
proof -
  obtain v r where run: "provision_device toy_step_env toy_owned_world = (v, r)" by fastforce
  have key: "st_key (wo_store toy_owned_world) = ''k''" "st_path (wo_store toy_owned_world) = (''dir'', ''state'')"
    "st_data (wo_store toy_owned_world) = toy_owned"
    by (simp_all add: toy_owned_world_def toy_store_def)
  have n: "length toy_nonce = NONCE_LEN" by (simp add: toy_nonce_def NONCE_LEN_def)
  have env: "step_env_ok toy_step_env" "acct_api_ok (se_keys toy_step_env)" "pickles_ok (se_store toy_step_env)"
    using toy_owned_env_ok toy_acct_api_ok n by (simp_all add: step_env_ok_def toy_step_env_def)
  have "is_ok (seal toy_owned_env ''k'' toy_nonce toy_owned)"
    by (simp add: seal_def toy_owned_env_def toy_store_env_def)
  then obtain raw where s: "seal toy_owned_env ''k'' toy_nonce toy_owned = Inr raw" by (auto simp: is_ok_iff)
  have "unseal toy_owned_env ''k'' raw = Inr (toy_owned, False)" by (rule unseal_sealed(1) [OF toy_owned_env_ok(1) s n])
  then have start: "in_sync (se_store toy_step_env) (wo_disk toy_owned_world) (wo_store toy_owned_world)"
    unfolding in_sync_def bytes_hold_def key by (simp add: toy_step_env_def toy_owned_world_def file_at_def s)
  have held: "olm_identity (se_store toy_step_env) (wo_store toy_owned_world) = Inr (Some ''D'')"
    by (simp add: olm_identity_def key toy_owned_def toy_step_env_def toy_owned_env_def toy_store_env_def strip_prefix_def)
  show ?thesis
    using run_keeps_identity [OF env start run] held run by (auto simp: toy_step_env_def toy_acct_api_def)
qed

text \<open>
  Claim C36. What the provision does to the signed list of the device. The list it leaves is the one in
  the store; its version is not below that of the list it found; a list that still has to be published
  is above the list the server holds; a list other than the one found verifies under the master; and no
  revoked key is listed again, this device apart.
\<close>

theorem pending_list_is_above_server:
  assumes "master_ok (se_crypto E) (se_keys E) master mkey"
    and "sd_list_pending (st_data (wo_store w)) \<or> sd_own_revoked (st_data (wo_store w)) \<noteq> [] \<Longrightarrow>
         sd_signed_list (st_data (wo_store w)) \<noteq> None"
    and "provision_list E ed25519 master mkey held w = (v, Value (Inr l))"
  shows "sd_signed_list (st_data (wo_store v)) = Some l \<and>
     (\<forall>own. sd_signed_list (st_data (wo_store w)) = Some own \<longrightarrow> sl_version own \<le> sl_version l) \<and>
     (\<forall>h. held = Some h \<and> sd_list_pending (st_data (wo_store v)) \<longrightarrow> sl_version (hl_list h) < sl_version l) \<and>
     (sd_signed_list (st_data (wo_store w)) = Some l \<or>
      verify_signed_list (se_crypto E) (sl_version l) (sl_keys l) mkey (sl_signature l) = Inr ()) \<and>
     set (sd_own_revoked (st_data (wo_store w))) \<inter> set (sl_keys l) \<subseteq>
       insert ed25519 (case sd_signed_list (st_data (wo_store w)) of None \<Rightarrow> {} | Some own \<Rightarrow> set (sl_keys own))"
proof -
  let ?d = "st_data (wo_store w)"
  have "list_inv (se_crypto E) mkey ed25519 (sd_own_revoked ?d) (sd_signed_list ?d) (sd_signed_list ?d) ?d"
    using assms(2) by (auto simp: list_inv_def list_from_def split: option.split)
  from provision_list_inv [OF this assms(1) refl, where held = held]
  show ?thesis
    using assms(3) by (auto simp: runs_def list_inv_def list_from_def above_held_def split: option.splits)
qed

text \<open>A revoke of \<open>E\<close> on a device that has not published yet, while the server holds a newer list with it.\<close>

definition toy_revoke_world :: "Request list world" where
  "toy_revoke_world = \<lparr> wo_net = [], wo_disk = toy_disk [],
     wo_store = toy_store\<lparr>st_data := StateData_default\<lparr>sd_signed_list := Some (sample_list CHR ''M'' 3 [toy_key CHR ''D'']),
       sd_list_pending := True, sd_list_migrated := True, sd_own_revoked := [toy_key CHR ''E'']\<rparr>\<rparr>, wo_draws = 0 \<rparr>"

definition toy_revoke_env :: "(string, string, Request list, unit, json) step_env" where
  "toy_revoke_env = toy_step_env\<lparr>se_store := toy_owned_env\<lparr>json_of := (\<lambda>_. Some ''{}'')\<rparr>\<rparr>"

definition toy_held :: HeldList where
  "toy_held = \<lparr> hl_master = toy_key CHR ''M'', hl_list = sample_list CHR ''M'' 5 [toy_key CHR ''D'', toy_key CHR ''E''] \<rparr>"

theorem pending_list_is_above_server_witness:
  "\<exists>v l. provision_list toy_revoke_env (toy_key CHR ''D'') (Some ''M'') (toy_key CHR ''M'') (Some toy_held) toy_revoke_world
       = (v, Value (Inr l)) \<and> sd_list_pending (st_data (wo_store v)) \<and> 5 < sl_version l \<and> toy_key CHR ''E'' \<notin> set (sl_keys l)"
proof -
  let ?run = "provision_list toy_revoke_env (toy_key CHR ''D'') (Some ''M'') (toy_key CHR ''M'') (Some toy_held) toy_revoke_world"
  have "case ?run of (v, Value (Inr l)) \<Rightarrow> sd_list_pending (st_data (wo_store v)) | _ \<Rightarrow> False" by code_simp
  then obtain v l where run: "?run = (v, Value (Inr l))" "sd_list_pending (st_data (wo_store v))"
    by (auto split: prod.splits outcome.splits sum.splits)
  have m: "master_ok (se_crypto toy_revoke_env) (se_keys toy_revoke_env) (Some ''M'') (toy_key CHR ''M'')"
    using toy_account_ok [of "CHR ''M''"]
    by (simp add: master_ok_def toy_revoke_env_def toy_step_env_def toy_acct_api_def toy_account_def is_std_b64_char_def ascii_defs)
  have found: "sd_signed_list (st_data (wo_store toy_revoke_world)) = Some (sample_list CHR ''M'' 3 [toy_key CHR ''D''])"
    "sd_own_revoked (st_data (wo_store toy_revoke_world)) = [toy_key CHR ''E'']" "sl_version (hl_list toy_held) = 5"
    by (simp_all add: toy_revoke_world_def toy_store_def toy_held_def sample_list_def)
  have "toy_key CHR ''E'' \<noteq> toy_key CHR ''D''" by code_simp
  then show ?thesis
    using pending_list_is_above_server [OF m _ run(1)] run found by (auto simp: sample_list_def)
qed

end
