(* ===== verification/History.thy ===== *)
theory History
  imports State_Store Protocol
begin

text \<open>
  The sealed history of the encrypted conversations, from \<^verbatim>\<open>e2e_store.rs\<close>: a file of records, one for
  each row, that grows by appending, and the rows in memory in the order of their time. The cipher, the
  JSON text of a row and the case folding are parameters; the calls of the file system can fail as in
  the theory of files. The key of the history is a secret of the keyring.
\<close>

section \<open>The key\<close>

definition KEY_LEN :: nat where "KEY_LEN = 32"
definition KEY_SERVICE :: string where "KEY_SERVICE = ''cordiale-e2e''"
definition KEY_USERNAME :: string where "KEY_USERNAME = ''history-key''"

definition hex_digit :: "nat \<Rightarrow> char" where
  "hex_digit n = (if n < 10 then char_of (48 + n) else char_of (87 + n))"

definition hex_byte :: "char \<Rightarrow> string" where
  "hex_byte c = [hex_digit (char_code c div 16), hex_digit (char_code c mod 16)]"

definition key_username :: "(string \<Rightarrow> string) \<Rightarrow> string \<Rightarrow> string" where
  "key_username hash dir = KEY_USERNAME @ ''-'' @ concat (map hex_byte (take 16 (hash dir)))"

definition decode_history_key :: "crypto_api \<Rightarrow> string \<Rightarrow> E2eStoreError + string" where
  "decode_history_key C t =
     rbind (ok_or (b64_decode C t) Corrupted) (\<lambda>raw. if length raw = KEY_LEN then Inr raw else Inl Corrupted)"

text \<open>The keyring: its state, reading and writing a secret of a service and user name.\<close>

record 'k keyring =
  get_secret :: "'k \<Rightarrow> string \<Rightarrow> string \<Rightarrow> string + string option"
  set_secret :: "'k \<Rightarrow> string \<Rightarrow> string \<Rightarrow> string \<Rightarrow> 'k \<times> (string + unit)"

text \<open>\<open>lock_error\<close> is a failure of the lock file; \<open>fresh\<close> is the generated key.\<close>

definition load_or_create_locked ::
    "crypto_api \<Rightarrow> 'k keyring \<Rightarrow> string option \<Rightarrow> string \<Rightarrow> 'k \<Rightarrow> string \<Rightarrow> 'k \<times> (E2eStoreError + string)" where
  "load_or_create_locked C R lock_error fresh k username =
     (case lock_error of
        Some e \<Rightarrow> (k, Inl (StoreIo e))
      | None \<Rightarrow>
          (case get_secret R k KEY_SERVICE username of
             Inl e \<Rightarrow> (k, Inl (StoreKey e))
           | Inr (Some t) \<Rightarrow> (k, decode_history_key C t)
           | Inr None \<Rightarrow>
               if length fresh \<noteq> KEY_LEN then (k, Inl Corrupted)
               else (case set_secret R k KEY_SERVICE username (b64_encode C fresh) of
                       (k, Inl e) \<Rightarrow> (k, Inl (StoreKey e))
                     | (k, Inr _) \<Rightarrow> (k, Inr fresh))))"

section \<open>Rows\<close>

datatype CaptureDirection = CaptureIn | CaptureOut

record E2eCapture =
  cap_verb :: string
  cap_msgid :: "string option"
  cap_payload :: string
  cap_direction :: CaptureDirection

record E2eMessage =
  em_id :: string
  em_conversation_id :: string
  em_sender_device :: string
  em_sent_at :: int
  em_text :: string
  em_encrypted :: bool
  em_captures :: "E2eCapture list"

record history_env =
  hist_encrypt :: "string \<Rightarrow> string \<Rightarrow> string \<Rightarrow> string \<Rightarrow> string option"
  hist_decrypt :: "string \<Rightarrow> string \<Rightarrow> string \<Rightarrow> string \<Rightarrow> string option"
  row_json :: "E2eMessage \<Rightarrow> string option"
  row_of_json :: "string \<Rightarrow> E2eMessage option"
  fold_case :: "string \<Rightarrow> string"

record HistoryStore =
  hs_path :: path
  hs_key :: string
  hs_messages :: "E2eMessage list"
  hs_records :: nat

section \<open>Records\<close>

definition HISTORY_MAGIC :: string where "HISTORY_MAGIC = ''CORDIALE-E2E-HISTORY-1''"
definition LEN_FIELD :: nat where "LEN_FIELD = 4"

text \<open>\<^verbatim>\<open>to_le_bytes\<close> and \<^verbatim>\<open>from_le_bytes\<close>.\<close>

fun le_bytes :: "nat \<Rightarrow> nat \<Rightarrow> string" where
  "le_bytes 0 n = []"
| "le_bytes (Suc k) n = char_of (n mod 256) # le_bytes k (n div 256)"

fun le_value :: "string \<Rightarrow> nat" where
  "le_value [] = 0"
| "le_value (c # cs) = char_code c + 256 * le_value cs"

definition record_aad :: "nat \<Rightarrow> string" where
  "record_aad index = HISTORY_MAGIC @ le_bytes 8 index"

definition seal_record :: "history_env \<Rightarrow> string \<Rightarrow> string \<Rightarrow> E2eMessage \<Rightarrow> nat \<Rightarrow> E2eStoreError + string" where
  "seal_record H key nonce message index =
     rbind (ok_or (row_json H message) (StoreIo ''json'')) (\<lambda>plain.
     rbind (ok_or (hist_encrypt H key nonce plain (record_aad index)) Corrupted) (\<lambda>sealed.
       if length sealed > u32_max then Inl Corrupted
       else Inr (le_bytes LEN_FIELD (length sealed) @ nonce @ sealed)))"

text \<open>The loop of \<^verbatim>\<open>read_records\<close>; every record takes at least the bytes of its length and nonce.\<close>

function read_loop :: "history_env \<Rightarrow> string \<Rightarrow> E2eMessage list \<Rightarrow> string \<Rightarrow> E2eStoreError + E2eMessage list" where
  "read_loop H key rows rest =
     (if rest = [] then Inr rows
      else if length rest < LEN_FIELD + NONCE_LEN then Inl Corrupted
      else
        let len = le_value (take LEN_FIELD rest); body = drop LEN_FIELD rest in
        if length body - NONCE_LEN < len then Inl Corrupted
        else
          (case Option.bind
                  (hist_decrypt H key (take NONCE_LEN body) (take len (drop NONCE_LEN body)) (record_aad (length rows)))
                  (row_of_json H) of
             None \<Rightarrow> Inl Corrupted
           | Some row \<Rightarrow> read_loop H key (rows @ [row]) (drop (NONCE_LEN + len) body)))"
  by pat_completeness auto
termination
  by (relation "measure (\<lambda>(H, key, rows, rest). length rest)") (auto simp: LEN_FIELD_def NONCE_LEN_def)

declare read_loop.simps [simp del]

definition read_records :: "history_env \<Rightarrow> string \<Rightarrow> string \<Rightarrow> E2eStoreError + E2eMessage list" where
  "read_records H key data =
     (if \<not> starts_with HISTORY_MAGIC data then Inl Corrupted
      else read_loop H key [] (drop (length HISTORY_MAGIC) data))"

definition read_history_file :: "history_env \<Rightarrow> disk \<Rightarrow> path \<Rightarrow> string \<Rightarrow> disk \<times> (E2eStoreError + (E2eMessage list \<times> nat))" where
  "read_history_file H d p key =
     (case fs_read d p of
        (d, Inl e) \<Rightarrow> (d, Inl (StoreIo e))
      | (d, Inr data) \<Rightarrow>
          (d, rbind (read_records H key data) (\<lambda>rows. Inr (sort_key em_sent_at rows, length rows))))"

fun sealed_rows :: "history_env \<Rightarrow> string \<Rightarrow> (nat \<Rightarrow> string) \<Rightarrow> nat \<Rightarrow> E2eMessage list \<Rightarrow> E2eStoreError + string" where
  "sealed_rows H key nonces index [] = Inr []"
| "sealed_rows H key nonces index (row # rows) =
     rbind (seal_record H key (nonces index) row index) (\<lambda>r.
     rbind (sealed_rows H key nonces (index + 1) rows) (\<lambda>rs. Inr (r @ rs)))"

definition rewrite_file ::
    "history_env \<Rightarrow> disk \<Rightarrow> (nat \<Rightarrow> string) \<Rightarrow> path \<Rightarrow> string \<Rightarrow> E2eMessage list \<Rightarrow> disk \<times> (E2eStoreError + unit)" where
  "rewrite_file H d nonces p key rows =
     (case sealed_rows H key nonces 0 rows of
        Inl e \<Rightarrow> (d, Inl e)
      | Inr out \<Rightarrow>
          (case write_atomic d p (HISTORY_MAGIC @ out) of
             (d, Inl e) \<Rightarrow> (d, Inl (StoreIo e))
           | (d, Inr _) \<Rightarrow> (d, Inr ())))"

text \<open>Opening and seeking take one entry of the plan of faults, the write with its sync one, and
  cutting the file back after a failure one extra.\<close>

definition append_bytes :: "disk \<Rightarrow> path \<Rightarrow> string \<Rightarrow> disk \<times> (E2eStoreError + unit)" where
  "append_bytes d p bytes =
     (case next_fault d of (opening, d) \<Rightarrow>
        if opening \<noteq> NoFault then (d, Inl (StoreIo ''open''))
        else
          (case file_at d p of
             None \<Rightarrow> (d, Inl (StoreIo ''not found''))
           | Some old \<Rightarrow>
               let put = (\<lambda>d contents. d\<lparr>dk_files := AList.update p contents (dk_files d)\<rparr>) in
               (case next_fault d of (writing, d) \<Rightarrow>
                  if writing = NoFault then (put d (old @ bytes), Inr ())
                  else
                    let written = (case writing of FailsAfter n \<Rightarrow> take n bytes | _ \<Rightarrow> []) in
                    (case next_fault (put d (old @ written)) of (cutting, d) \<Rightarrow>
                       (if cutting = NoFault then put d old else d, Inl (StoreIo ''write''))))))"

definition append_record :: "disk \<Rightarrow> path \<Rightarrow> string \<Rightarrow> disk \<times> (E2eStoreError + unit)" where
  "append_record d p bytes =
     (case (if file_at d p = None then write_atomic d p HISTORY_MAGIC else (d, Inr ())) of
        (d, Inl e) \<Rightarrow> (d, Inl (StoreIo e))
      | (d, Inr _) \<Rightarrow> append_bytes d p bytes)"

section \<open>The store\<close>

definition history_open ::
    "history_env \<Rightarrow> disk \<Rightarrow> path \<Rightarrow> lock_outcome \<Rightarrow> E2eStoreError + string \<Rightarrow> disk \<times> (E2eStoreError + HistoryStore)" where
  "history_open H d p lock provided_key =
     (case lock of
        LockHeld \<Rightarrow> (d, Inl InUse)
      | LockError e \<Rightarrow> (d, Inl (StoreIo e))
      | LockTaken \<Rightarrow>
          (case provided_key of
             Inl e \<Rightarrow> (d, Inl e)
           | Inr key \<Rightarrow>
               if file_at d p = None then
                 (d, Inr \<lparr> hs_path = p, hs_key = key, hs_messages = [], hs_records = 0 \<rparr>)
               else
                 (case read_history_file H d p key of
                    (d, Inl e) \<Rightarrow> (d, Inl e)
                  | (d, Inr (rows, records)) \<Rightarrow>
                      (d, Inr \<lparr> hs_path = p, hs_key = key, hs_messages = rows, hs_records = records \<rparr>))))"

text \<open>\<^verbatim>\<open>partition_point\<close> and \<^verbatim>\<open>insert\<close>: behind the rows that are not later.\<close>

definition insert_row :: "E2eMessage \<Rightarrow> E2eMessage list \<Rightarrow> E2eMessage list" where
  "insert_row m rows =
     takeWhile (\<lambda>row. em_sent_at row \<le> em_sent_at m) rows @ m # dropWhile (\<lambda>row. em_sent_at row \<le> em_sent_at m) rows"

definition history_append ::
    "history_env \<Rightarrow> disk \<Rightarrow> string \<Rightarrow> HistoryStore \<Rightarrow> E2eMessage \<Rightarrow> disk \<times> HistoryStore \<times> (E2eStoreError + unit)" where
  "history_append H d nonce h m =
     (case seal_record H (hs_key h) nonce m (hs_records h) of
        Inl e \<Rightarrow> (d, h, Inl e)
      | Inr bytes \<Rightarrow>
          (case append_record d (hs_path h) bytes of
             (d, Inl e) \<Rightarrow> (d, h, Inl e)
           | (d, Inr _) \<Rightarrow>
               (d, h\<lparr>hs_records := hs_records h + 1, hs_messages := insert_row m (hs_messages h)\<rparr>, Inr ())))"

fun position_from :: "('a \<Rightarrow> bool) \<Rightarrow> nat \<Rightarrow> 'a list \<Rightarrow> nat option" where
  "position_from P i [] = None"
| "position_from P i (x # xs) = (if P x then Some i else position_from P (i + 1) xs)"

definition add_capture ::
    "history_env \<Rightarrow> disk \<Rightarrow> (nat \<Rightarrow> string) \<Rightarrow> HistoryStore \<Rightarrow> string \<Rightarrow> E2eCapture
     \<Rightarrow> disk \<times> HistoryStore \<times> (E2eStoreError + bool)" where
  "add_capture H d nonces h i capture =
     (case position_from (\<lambda>row. em_id row = i) 0 (hs_messages h) of
        None \<Rightarrow> (d, h, Inr False)
      | Some k \<Rightarrow>
          let row = hs_messages h ! k;
              rows = (hs_messages h)[k := row\<lparr>em_captures := em_captures row @ [capture]\<rparr>]
          in (case rewrite_file H d nonces (hs_path h) (hs_key h) rows of
                (d, Inl e) \<Rightarrow> (d, h, Inl e)
              | (d, Inr _) \<Rightarrow> (d, h\<lparr>hs_messages := rows\<rparr>, Inr True)))"

definition delete_conversation ::
    "history_env \<Rightarrow> disk \<Rightarrow> (nat \<Rightarrow> string) \<Rightarrow> HistoryStore \<Rightarrow> string \<Rightarrow> disk \<times> HistoryStore \<times> (E2eStoreError + unit)" where
  "delete_conversation H d nonces h conversation_id =
     (let kept = filter (\<lambda>m. em_conversation_id m \<noteq> conversation_id) (hs_messages h)
      in (case rewrite_file H d nonces (hs_path h) (hs_key h) kept of
            (d, Inl e) \<Rightarrow> (d, h, Inl e)
          | (d, Inr _) \<Rightarrow> (d, h\<lparr>hs_records := length kept, hs_messages := kept\<rparr>, Inr ())))"

definition delete_all :: "disk \<Rightarrow> HistoryStore \<Rightarrow> disk \<times> HistoryStore \<times> (E2eStoreError + unit)" where
  "delete_all d h =
     (case next_fault d of (f, d) \<Rightarrow>
        if f \<noteq> NoFault then (d, h, Inl (StoreIo ''remove''))
        else (d\<lparr>dk_files := AList.delete (hs_path h) (dk_files d)\<rparr>, h\<lparr>hs_records := 0, hs_messages := []\<rparr>, Inr ()))"

section \<open>Reading\<close>

definition in_conversation :: "string option \<Rightarrow> E2eMessage \<Rightarrow> bool" where
  "in_conversation conversation_id m \<longleftrightarrow>
     (case conversation_id of None \<Rightarrow> True | Some i \<Rightarrow> em_conversation_id m = i)"

definition history_messages :: "HistoryStore \<Rightarrow> string \<Rightarrow> E2eMessage list" where
  "history_messages h conversation_id = filter (\<lambda>m. em_conversation_id m = conversation_id) (hs_messages h)"

definition history_search :: "history_env \<Rightarrow> HistoryStore \<Rightarrow> string option \<Rightarrow> string \<Rightarrow> E2eMessage list" where
  "history_search H h conversation_id needle =
     (let needle = fold_case H needle in
      if needle = [] then []
      else filter (\<lambda>m. contains needle (fold_case H (em_text m)))
             (filter (in_conversation conversation_id) (hs_messages h)))"

definition search_captures :: "history_env \<Rightarrow> HistoryStore \<Rightarrow> string option \<Rightarrow> string \<Rightarrow> E2eMessage list" where
  "search_captures H h conversation_id needle =
     (let needle = fold_case H needle in
      if needle = [] then []
      else filter (\<lambda>m. list_ex (\<lambda>c. contains needle (fold_case H (cap_payload c)) \<or>
                                    (case cap_msgid c of None \<Rightarrow> False
                                     | Some msgid \<Rightarrow> contains needle (fold_case H msgid))) (em_captures m))
             (filter (in_conversation conversation_id) (hs_messages h)))"

fun conversation_loop :: "string list \<Rightarrow> E2eMessage list \<Rightarrow> string list" where
  "conversation_loop ids [] = ids"
| "conversation_loop ids (m # ms) =
     conversation_loop (if em_conversation_id m \<in> set ids then ids else ids @ [em_conversation_id m]) ms"

definition conversation_ids :: "HistoryStore \<Rightarrow> string list" where
  "conversation_ids h = conversation_loop [] (hs_messages h)"

section \<open>Lemmas: records\<close>

text \<open>Documented behaviour of the libraries: decryption undoes encryption under the same key, nonce and
  associated data, and the JSON text of a row reads back as the row.\<close>

definition history_env_ok :: "history_env \<Rightarrow> bool" where
  "history_env_ok H \<longleftrightarrow>
     (\<forall>key nonce msg aad c. hist_encrypt H key nonce msg aad = Some c \<longrightarrow> hist_decrypt H key nonce c aad = Some msg) \<and>
     (\<forall>m t. row_json H m = Some t \<longrightarrow> row_of_json H t = Some m)"

lemma length_le_bytes [simp]: "length (le_bytes k n) = k"
  by (induction k arbitrary: n) simp_all

lemma le_value_bytes: "n < 256 ^ k \<Longrightarrow> le_value (le_bytes k n) = n"
proof (induction k arbitrary: n)
  case (Suc k)
  have "n div 256 < 256 ^ k" using Suc.prems by (simp add: div_less_iff_less_mult mult.commute)
  then show ?case using Suc.IH by (simp add: char_code_def)
qed simp

lemma seal_record_Inr:
  assumes "history_env_ok H" "seal_record H key nonce m index = Inr bytes"
  obtains c plain where "bytes = le_bytes LEN_FIELD (length c) @ nonce @ c" "le_value (le_bytes LEN_FIELD (length c)) = length c"
    "Option.bind (hist_decrypt H key nonce c (record_aad index)) (row_of_json H) = Some m"
proof -
  obtain plain c where pc: "row_json H m = Some plain" "hist_encrypt H key nonce plain (record_aad index) = Some c"
    "length c \<le> u32_max" "bytes = le_bytes LEN_FIELD (length c) @ nonce @ c"
    using assms(2) by (auto simp: seal_record_def rbind_eq_Inr split: if_splits)
  have "le_value (le_bytes LEN_FIELD (length c)) = length c"
    by (rule le_value_bytes) (use pc(3) in \<open>simp add: LEN_FIELD_def u32_max_def\<close>)
  moreover have "Option.bind (hist_decrypt H key nonce c (record_aad index)) (row_of_json H) = Some m"
    using assms(1) pc(1,2) by (simp add: history_env_ok_def)
  ultimately show ?thesis using that pc(4) by blast
qed

lemma read_loop_step:
  assumes "length field = LEN_FIELD" "length nonce = NONCE_LEN" "le_value field = length c"
    and "Option.bind (hist_decrypt H key nonce c (record_aad (length rows))) (row_of_json H) = Some row"
  shows "read_loop H key rows (field @ nonce @ c @ rest) = read_loop H key (rows @ [row]) rest"
proof -
  let ?data = "field @ nonce @ c @ rest"
  have "?data \<noteq> []" "\<not> length ?data < LEN_FIELD + NONCE_LEN" using assms(1,2) by (auto simp: LEN_FIELD_def)
  moreover have "take LEN_FIELD ?data = field" "drop LEN_FIELD ?data = nonce @ c @ rest" using assms(1) by simp_all
  moreover have "take NONCE_LEN (nonce @ c @ rest) = nonce" "drop NONCE_LEN (nonce @ c @ rest) = c @ rest"
    "drop (NONCE_LEN + length c) (nonce @ c @ rest) = rest" using assms(2) by simp_all
  moreover have "\<not> length (nonce @ c @ rest) - NONCE_LEN < length c" using assms(2) by simp
  ultimately show ?thesis
    by (subst read_loop.simps) (simp only: assms Let_def if_False option.case take_append take_all append_Nil2 order_refl diff_self_eq_0 take_0)
qed

lemma read_loop_parts:
  assumes "read_loop H key rows data = Inr rows'" "data \<noteq> []"
  obtains field nonce c rest row where "data = field @ nonce @ c @ rest" "length field = LEN_FIELD" "length nonce = NONCE_LEN"
    "le_value field = length c" "Option.bind (hist_decrypt H key nonce c (record_aad (length rows))) (row_of_json H) = Some row"
    "read_loop H key (rows @ [row]) rest = Inr rows'"
proof -
  let ?len = "le_value (take LEN_FIELD data)" and ?body = "drop LEN_FIELD data"
  have long: "\<not> length data < LEN_FIELD + NONCE_LEN" "\<not> length ?body - NONCE_LEN < ?len"
    using assms by (auto simp: read_loop.simps [of H key rows data] Let_def split: if_splits)
  obtain row where row: "Option.bind (hist_decrypt H key (take NONCE_LEN ?body) (take ?len (drop NONCE_LEN ?body))
      (record_aad (length rows))) (row_of_json H) = Some row"
    "read_loop H key (rows @ [row]) (drop (NONCE_LEN + ?len) ?body) = Inr rows'"
    using assms long by (auto simp: read_loop.simps [of H key rows data] Let_def split: option.splits)
  have rest: "drop (NONCE_LEN + ?len) ?body = drop ?len (drop NONCE_LEN ?body)"
    by (simp add: ac_simps)
  have "data = take LEN_FIELD data @ take NONCE_LEN ?body @ take ?len (drop NONCE_LEN ?body) @ drop ?len (drop NONCE_LEN ?body)"
    by (simp only: append_take_drop_id)
  moreover have "length (take LEN_FIELD data) = LEN_FIELD" "length (take NONCE_LEN ?body) = NONCE_LEN"
    "?len = length (take ?len (drop NONCE_LEN ?body))" using long by (auto simp: min_def)
  ultimately show ?thesis using that row unfolding rest by blast
qed

lemma read_loop_record:
  assumes "history_env_ok H" "seal_record H key nonce m (length rows) = Inr bytes" "length nonce = NONCE_LEN"
  shows "read_loop H key rows (bytes @ rest) = read_loop H key (rows @ [m]) rest"
proof -
  obtain c where b: "bytes = le_bytes LEN_FIELD (length c) @ nonce @ c" "le_value (le_bytes LEN_FIELD (length c)) = length c"
    "Option.bind (hist_decrypt H key nonce c (record_aad (length rows))) (row_of_json H) = Some m"
    using seal_record_Inr [OF assms(1,2)] by blast
  show ?thesis using read_loop_step [OF _ assms(3) b(2,3), of rest] by (simp add: b(1))
qed

lemma read_loop_append:
  "read_loop H key rows data = Inr rows' \<Longrightarrow> read_loop H key rows (data @ extra) = read_loop H key rows' extra"
proof (induction "length data" arbitrary: data rows rule: less_induct)
  case less
  show ?case
  proof (cases "data = []")
    case True
    then show ?thesis using less.prems by (simp add: read_loop.simps [of H key rows "[]"])
  next
    case False
    obtain field nonce c rest row where p: "data = field @ nonce @ c @ rest" "length field = LEN_FIELD" "length nonce = NONCE_LEN"
      "le_value field = length c" "Option.bind (hist_decrypt H key nonce c (record_aad (length rows))) (row_of_json H) = Some row"
      "read_loop H key (rows @ [row]) rest = Inr rows'"
      by (rule read_loop_parts [OF less.prems False])
    have "length rest < length data" using p(1,2) by (simp add: LEN_FIELD_def)
    from less.hyps [OF this p(6)] show ?thesis
      using read_loop_step [OF p(2-5), of "rest @ extra"] by (simp add: p(1))
  qed
qed

lemma read_sealed_rows:
  assumes "history_env_ok H" "\<And>i. length (nonces i) = NONCE_LEN"
  shows "sealed_rows H key nonces (length rows) xs = Inr out \<Longrightarrow> read_loop H key rows out = Inr (rows @ xs)"
proof (induction xs arbitrary: rows out)
  case Nil
  then show ?case by (simp add: read_loop.simps)
next
  case (Cons x xs)
  obtain r rs where r: "seal_record H key (nonces (length rows)) x (length rows) = Inr r"
    "sealed_rows H key nonces (length (rows @ [x])) xs = Inr rs" "out = r @ rs"
    using Cons.prems by (auto simp: rbind_eq_Inr)
  then show ?case
    using read_loop_record [OF assms(1) r(1) assms(2), of rs] Cons.IH [OF r(2)] by simp
qed

section \<open>Lemmas: the order of the rows\<close>

lemma sorted_insert_between:
  fixes f :: "'a \<Rightarrow> int"
  assumes "sorted (map f xs)" "sorted (map f ys)" "\<And>x. x \<in> set xs \<Longrightarrow> f x \<le> f m" "\<And>y. y \<in> set ys \<Longrightarrow> f m \<le> f y"
  shows "sorted (map f (xs @ m # ys))"
  using assms by (fastforce simp: sorted_append)

lemma insert_row_sort: "sort_key em_sent_at (rows @ [m]) = insert_row m (sort_key em_sent_at rows)"
proof (rule properties_for_sort_key)
  let ?s = "sort_key em_sent_at rows"
  let ?P = "\<lambda>row. em_sent_at row \<le> em_sent_at m"
  let ?T = "takeWhile ?P ?s" and ?D = "dropWhile ?P ?s"
  have split: "?T @ ?D = ?s" by simp
  have "sorted (map em_sent_at (?T @ ?D))" unfolding split by simp
  then have sorted: "sorted (map em_sent_at ?T)" "sorted (map em_sent_at ?D)"
    "\<And>x y. x \<in> set ?T \<Longrightarrow> y \<in> set ?D \<Longrightarrow> em_sent_at x \<le> em_sent_at y"
    by (auto simp only: map_append sorted_append set_map)
  have early: "em_sent_at x \<le> em_sent_at m" if "x \<in> set ?T" for x using set_takeWhileD [OF that] by simp
  have later: "em_sent_at m < em_sent_at x" if "x \<in> set ?D" for x
  proof -
    have "?D \<noteq> []" using that by (cases ?D) simp_all
    then have "\<not> ?P (hd ?D)" by (rule hd_dropWhile [of ?P])
    moreover have "em_sent_at (hd ?D) \<le> em_sent_at x"
      using sorted(2) that by (cases ?D) auto
    ultimately show ?thesis by simp
  qed
  have count: "mset ?T + mset ?D = mset rows" by (metis split mset_append mset_sort)
  show "mset (insert_row m ?s) = mset (rows @ [m])"
    unfolding insert_row_def using count by (simp add: ac_simps)
  show "filter (\<lambda>x. em_sent_at k = em_sent_at x) (insert_row m ?s) = filter (\<lambda>x. em_sent_at k = em_sent_at x) (rows @ [m])"
    if "k \<in> set (insert_row m ?s)" for k
  proof -
    let ?Q = "\<lambda>x. em_sent_at k = em_sent_at x"
    have stable: "filter ?Q ?T @ filter ?Q ?D = filter ?Q rows"
      using sort_key_stable [of em_sent_at "em_sent_at k" rows] split filter_append [of ?Q ?T ?D] by (simp add: eq_commute)
    show ?thesis
    proof (cases "?Q m")
      case True
      have "filter ?Q ?D = []" using True by (auto simp: filter_empty_conv dest!: later)
      then show ?thesis using stable True by (simp add: insert_row_def)
    next
      case False
      then show ?thesis using stable by (simp add: insert_row_def)
    qed
  qed
  show "sorted (map em_sent_at (insert_row m ?s))"
    unfolding insert_row_def
    by (rule sorted_insert_between [OF sorted(1,2)]) (use early later in \<open>blast intro: less_imp_le\<close>)+
qed

section \<open>Lemmas: memory and file\<close>

text \<open>The file, when there is one, opens to the rows in memory, and no file stands for no row.\<close>

definition history_good :: "history_env \<Rightarrow> string option \<Rightarrow> HistoryStore \<Rightarrow> bool" where
  "history_good H file h \<longleftrightarrow>
     (case file of
        None \<Rightarrow> hs_messages h = [] \<and> hs_records h = 0
      | Some data \<Rightarrow> \<exists>rows. read_records H (hs_key h) data = Inr rows \<and> sort_key em_sent_at rows = hs_messages h
                     \<and> length rows = hs_records h)"

lemma history_good_sorted:
  "history_good H file h \<Longrightarrow> sorted (map em_sent_at (hs_messages h)) \<and> length (hs_messages h) = hs_records h"
  by (auto simp: history_good_def split: option.splits) (metis sorted_sort_key, metis length_sort)

lemma read_records_empty: "read_records H key HISTORY_MAGIC = Inr []"
  by (simp add: read_records_def starts_with_def read_loop.simps)

lemma read_records_append:
  assumes "history_env_ok H" "read_records H key data = Inr rows" "length nonce = NONCE_LEN"
    and "seal_record H key nonce m (length rows) = Inr bytes"
  shows "read_records H key (data @ bytes) = Inr (rows @ [m])"
proof -
  have d: "starts_with HISTORY_MAGIC data" "read_loop H key [] (drop (length HISTORY_MAGIC) data) = Inr rows"
    using assms(2) by (auto simp: read_records_def split: if_splits)
  then have len: "length HISTORY_MAGIC \<le> length data" "take (length HISTORY_MAGIC) data = HISTORY_MAGIC"
    by (auto simp: starts_with_def) (metis length_take min.absorb_iff2 min.commute)
  have "starts_with HISTORY_MAGIC (data @ bytes)" using len by (simp add: starts_with_def)
  moreover have "read_loop H key [] (drop (length HISTORY_MAGIC) data @ bytes) = read_loop H key rows (bytes @ [])"
    using read_loop_append [OF d(2)] by simp
  moreover have "read_loop H key rows (bytes @ []) = Inr (rows @ [m])"
    by (subst read_loop_record [OF assms(1,4,3)]) (simp add: read_loop.simps)
  ultimately show ?thesis using len by (simp add: read_records_def)
qed

text \<open>A plan of faults in which no two calls in a row fail, and the calls that use it up.\<close>

definition spaced_faults :: "fault list \<Rightarrow> bool" where
  "spaced_faults fs \<longleftrightarrow> successively (\<lambda>f g. f = NoFault \<or> g = NoFault) fs"

lemma spaced_suffix: "spaced_faults fs \<Longrightarrow> suffix gs fs \<Longrightarrow> spaced_faults gs"
  by (auto simp: spaced_faults_def suffix_def successively_append_iff)

lemma next_fault_suffix: "next_fault d = (f, d') \<Longrightarrow> suffix (dk_faults d') (dk_faults d)"
  by (cases "dk_faults d") (auto simp: next_fault_def suffix_Cons)

lemma next_fault_cons: "next_fault d = (f, d') \<Longrightarrow> f \<noteq> NoFault \<Longrightarrow> dk_faults d = f # dk_faults d'"
  by (cases "dk_faults d") (auto simp: next_fault_def)

lemma write_atomic_suffix:
  assumes "write_atomic d p contents = (d', r)"
  shows "suffix (dk_faults d') (dk_faults d)"
proof -
  have synced: "suffix (dk_faults e') (dk_faults e)" if "write_synced e q c = (e', x)" for e e' q c x
    using that by (auto simp: write_synced_def dest!: next_fault_suffix split: prod.splits if_splits fault.splits)
  have renamed: "suffix (dk_faults e') (dk_faults e)" if "rename_file e q q' = (e', x)" for e e' q q' x
    using that by (auto simp: rename_file_def dest!: next_fault_suffix split: prod.splits if_splits option.splits)
  have removed: "suffix (dk_faults (remove_file e q)) (dk_faults e)" for e q
    by (auto simp: remove_file_def dest!: next_fault_suffix split: prod.splits)
  have temp: "dk_faults e' = dk_faults e" if "temp_path_for e q = (e', t)" for e e' q t
    using that by (auto simp: temp_path_for_def)
  show ?thesis
    using assms unfolding write_atomic_def write_atomic_with_def
    by (auto split: prod.splits sum.splits dest!: synced renamed temp intro: removed suffix_order.trans)
qed

lemma append_bytes_cases:
  assumes "append_bytes d p bytes = (d', r)" "file_at d p = Some old"
  shows "r = Inr () \<and> file_at d' p = Some (old @ bytes) \<or>
     (\<exists>e. r = Inl e) \<and> (\<exists>n. file_at d' p = Some (old @ take n bytes)) \<and>
     (spaced_faults (dk_faults d) \<longrightarrow> file_at d' p = Some old)"
proof -
  obtain f1 d1 where f1: "next_fault d = (f1, d1)" by fastforce
  show ?thesis
  proof (cases "f1 = NoFault")
    case False
    then have "\<exists>n. old = old @ take n bytes" by (intro exI [of _ 0]) simp
    then show ?thesis using assms False f1 by (auto simp: append_bytes_def)
  next
    case True
    have old1: "file_at d1 p = Some old" using f1 assms(2) by simp
    obtain f2 d2 where f2: "next_fault d1 = (f2, d2)" by fastforce
    show ?thesis
    proof (cases "f2 = NoFault")
      case True
      then show ?thesis using assms(1) \<open>f1 = NoFault\<close> f1 f2 old1 by (auto simp: append_bytes_def Let_def file_at_def)
    next
      case False
      define written where "written = (case f2 of FailsAfter n \<Rightarrow> take n bytes | _ \<Rightarrow> [])"
      define d3 where "d3 = d2\<lparr>dk_files := AList.update p (old @ written) (dk_files d2)\<rparr>"
      obtain f3 d4 where f3: "next_fault d3 = (f3, d4)" by fastforce
      have r: "r = Inl (StoreIo ''write'')" "d' = (if f3 = NoFault then d4\<lparr>dk_files := AList.update p old (dk_files d4)\<rparr> else d4)"
        using assms(1) \<open>f1 = NoFault\<close> f1 f2 False old1 f3
        by (auto simp: append_bytes_def Let_def d3_def written_def)
      have "file_at d4 p = Some (old @ written)" using f3 by (simp add: d3_def file_at_def)
      then have onfile: "file_at d' p = Some (if f3 = NoFault then old else old @ written)" by (simp add: r(2) file_at_def)
      have n: "\<exists>n. written = take n bytes" by (cases f2) (auto simp: written_def intro: exI [of _ 0])
      have "f3 = NoFault" if "spaced_faults (dk_faults d)"
      proof (rule ccontr)
        assume "f3 \<noteq> NoFault"
        then have "dk_faults d1 = f2 # f3 # dk_faults d4"
          using next_fault_cons [OF f3] next_fault_cons [OF f2 False] by (simp add: d3_def)
        then have "suffix (f2 # f3 # dk_faults d4) (dk_faults d)" using next_fault_suffix [OF f1] by simp
        from spaced_suffix [OF that this] show False using False \<open>f3 \<noteq> NoFault\<close> by (simp add: spaced_faults_def)
      qed
      moreover have "\<exists>n. file_at d' p = Some (old @ take n bytes)"
        using n onfile by (cases "f3 = NoFault") (auto intro: exI [of _ 0])
      ultimately show ?thesis using r(1) onfile by auto
    qed
  qed
qed

section \<open>The operations keep memory and file together\<close>

definition history_base :: "string option \<Rightarrow> string" where
  "history_base file = (case file of None \<Rightarrow> HISTORY_MAGIC | Some old \<Rightarrow> old)"

lemma append_record_cases:
  assumes "append_record d p bytes = (d', r)"
  shows "r = Inr () \<and> file_at d' p = Some (history_base (file_at d p) @ bytes) \<or>
     (\<exists>e. r = Inl e) \<and>
     (file_at d' p = file_at d p \<or> (\<exists>n. file_at d' p = Some (history_base (file_at d p) @ take n bytes))) \<and>
     (spaced_faults (dk_faults d) \<longrightarrow> file_at d' p = file_at d p \<or> file_at d' p = Some (history_base (file_at d p)))"
proof (cases "file_at d p")
  case (Some old)
  then show ?thesis using append_bytes_cases [of d p bytes d' r old] assms by (auto simp: append_record_def history_base_def)
next
  case None
  obtain d1 w where w: "write_atomic d p HISTORY_MAGIC = (d1, w)" by fastforce
  show ?thesis
  proof (cases w)
    case (Inl e)
    then show ?thesis using assms None w write_atomic_cases(2) [OF w] by (auto simp: append_record_def)
  next
    case (Inr u)
    then have "file_at d1 p = Some HISTORY_MAGIC" using write_atomic_cases(1) [OF w] by simp
    moreover have "append_bytes d1 p bytes = (d', r)" using assms None w Inr by (simp add: append_record_def)
    moreover have "spaced_faults (dk_faults d) \<Longrightarrow> spaced_faults (dk_faults d1)"
      using spaced_suffix write_atomic_suffix [OF w] by blast
    ultimately show ?thesis using append_bytes_cases [of d1 p bytes d' r HISTORY_MAGIC] None
      by (auto simp: history_base_def)
  qed
qed

lemma good_base:
  assumes "history_good H file h"
  obtains rows where "read_records H (hs_key h) (history_base file) = Inr rows" "sort_key em_sent_at rows = hs_messages h"
    "length rows = hs_records h"
  using assms by (cases "file") (auto simp: history_good_def history_base_def read_records_empty)

lemma good_base_again: "history_good H file h \<Longrightarrow> history_good H (Some (history_base file)) h"
  by (erule good_base) (auto simp: history_good_def)

datatype HistoryOp = AppendRow E2eMessage | AddCapture string E2eCapture | DeleteConversation string | DeleteAll

fun history_step ::
    "history_env \<Rightarrow> disk \<Rightarrow> (nat \<Rightarrow> string) \<Rightarrow> HistoryStore \<Rightarrow> HistoryOp \<Rightarrow> disk \<times> HistoryStore \<times> (E2eStoreError + unit)" where
  "history_step H d nonces h (AppendRow m) = history_append H d (nonces 0) h m"
| "history_step H d nonces h (AddCapture i capture) =
     (case add_capture H d nonces h i capture of (d, h, r) \<Rightarrow> (d, h, map_sum id (\<lambda>_. ()) r))"
| "history_step H d nonces h (DeleteConversation i) = delete_conversation H d nonces h i"
| "history_step H d nonces h DeleteAll = delete_all d h"

text \<open>What an operation that succeeds does to the rows.\<close>

fun history_effect :: "HistoryOp \<Rightarrow> E2eMessage list \<Rightarrow> E2eMessage list" where
  "history_effect (AppendRow m) rows = insert_row m rows"
| "history_effect (AddCapture i capture) rows =
     (case position_from (\<lambda>row. em_id row = i) 0 rows of
        None \<Rightarrow> rows
      | Some k \<Rightarrow> rows[k := (rows ! k)\<lparr>em_captures := em_captures (rows ! k) @ [capture]\<rparr>])"
| "history_effect (DeleteConversation i) rows = filter (\<lambda>m. em_conversation_id m \<noteq> i) rows"
| "history_effect DeleteAll rows = []"

lemma rewrite_file_facts:
  assumes "history_env_ok H" "\<And>i. length (nonces i) = NONCE_LEN" "rewrite_file H d nonces p key rows = (d', r)"
  shows "r = Inr () \<and> (\<exists>data. file_at d' p = Some data \<and> read_records H key data = Inr rows) \<or>
     (\<exists>e. r = Inl e) \<and> file_at d' p = file_at d p"
proof (cases "sealed_rows H key nonces 0 rows")
  case (Inl e)
  then show ?thesis using assms(3) by (auto simp: rewrite_file_def)
next
  case (Inr out)
  obtain d1 w where w: "write_atomic d p (HISTORY_MAGIC @ out) = (d1, w)" by fastforce
  have "read_records H key (HISTORY_MAGIC @ out) = Inr rows"
    using read_sealed_rows [OF assms(1,2), where rows = "[]"] Inr by (simp add: read_records_def starts_with_def)
  then show ?thesis
    using assms(3) Inr w write_atomic_cases(1,2) [OF w] by (cases w) (auto simp: rewrite_file_def)
qed

lemma history_append_facts:
  assumes "history_env_ok H" "length nonce = NONCE_LEN" "history_good H (file_at d (hs_path h)) h"
    and "history_append H d nonce h m = (d', h', r)"
  shows "r = Inr () \<and> h' = h\<lparr>hs_records := hs_records h + 1, hs_messages := insert_row m (hs_messages h)\<rparr> \<and>
       history_good H (file_at d' (hs_path h)) h' \<or>
     (\<exists>e. r = Inl e) \<and> h' = h \<and> (spaced_faults (dk_faults d) \<longrightarrow> history_good H (file_at d' (hs_path h)) h)"
proof (cases "seal_record H (hs_key h) nonce m (hs_records h)")
  case (Inl e)
  then show ?thesis using assms(3,4) by (auto simp: history_append_def)
next
  case (Inr bytes)
  obtain d1 w where w: "append_record d (hs_path h) bytes = (d1, w)" by fastforce
  obtain rows where rows: "read_records H (hs_key h) (history_base (file_at d (hs_path h))) = Inr rows"
    "sort_key em_sent_at rows = hs_messages h" "length rows = hs_records h"
    using good_base [OF assms(3)] by blast
  have extra: "read_records H (hs_key h) (history_base (file_at d (hs_path h)) @ bytes) = Inr (rows @ [m])"
    by (rule read_records_append [OF assms(1) rows(1) assms(2)]) (simp add: rows(3) Inr)
  have new: "sort_key em_sent_at (rows @ [m]) = insert_row m (hs_messages h)" by (simp only: insert_row_sort rows(2))
  show ?thesis
  proof (cases w)
    case (Inl e)
    then show ?thesis
      using assms(3,4) Inr w append_record_cases [OF w] good_base_again [OF assms(3)] by (auto simp: history_append_def)
  next
    case (Inr u)
    then show ?thesis
      using assms(4) \<open>seal_record H (hs_key h) nonce m (hs_records h) = Inr bytes\<close> w append_record_cases [OF w] extra new rows(3)
      by (auto simp: history_append_def history_good_def)
  qed
qed

lemma position_from_Some: "position_from P i xs = Some k \<Longrightarrow> i \<le> k \<and> k < i + length xs \<and> P (xs ! (k - i))"
  by (induction P i xs rule: position_from.induct) (auto split: if_splits simp: nth_Cons')

lemma rewritten_good:
  assumes "sorted (map em_sent_at rows)" "length rows = n"
    and "file = Some data" "read_records H (hs_key h) data = Inr rows"
  shows "history_good H file (h\<lparr>hs_messages := rows, hs_records := n\<rparr>)"
  using assms by (simp add: history_good_def sort_key_id_if_sorted)

lemma history_step_facts:
  assumes "history_env_ok H" "\<And>i. length (nonces i) = NONCE_LEN" "history_good H (file_at d (hs_path h)) h"
    and "history_step H d nonces h x = (d', h', r)"
  shows "hs_path h' = hs_path h \<and> hs_key h' = hs_key h \<and>
     (r = Inr () \<and> hs_messages h' = history_effect x (hs_messages h) \<and> history_good H (file_at d' (hs_path h)) h' \<or>
      (\<exists>e. r = Inl e) \<and> h' = h \<and> (spaced_faults (dk_faults d) \<longrightarrow> history_good H (file_at d' (hs_path h)) h))"
proof (cases x)
  case (AppendRow m)
  then show ?thesis using history_append_facts [OF assms(1) assms(2) assms(3), of 0 m] assms(4) by auto
next
  case (AddCapture i capture)
  show ?thesis
  proof (cases "position_from (\<lambda>row. em_id row = i) 0 (hs_messages h)")
    case None
    then show ?thesis using assms(3,4) AddCapture by (auto simp: add_capture_def)
  next
    case (Some k)
    define rows where "rows = (hs_messages h)[k := (hs_messages h ! k)\<lparr>em_captures := em_captures (hs_messages h ! k) @ [capture]\<rparr>]"
    obtain d1 w where w: "rewrite_file H d nonces (hs_path h) (hs_key h) rows = (d1, w)" by fastforce
    have k: "k < length (hs_messages h)" using position_from_Some [OF Some] by simp
    have "map em_sent_at rows = map em_sent_at (hs_messages h)" using k by (simp add: rows_def map_update list_update_same_conv)
    then have sorted: "sorted (map em_sent_at rows)" "length rows = hs_records h"
      using history_good_sorted [OF assms(3)] by (simp_all add: rows_def)
    show ?thesis
      using rewrite_file_facts [OF assms(1,2) w] assms(3,4) AddCapture Some w rewritten_good [OF sorted, of _ _ H h]
      by (cases w) (auto simp: add_capture_def Let_def rows_def)
  qed
next
  case (DeleteConversation i)
  define kept where "kept = filter (\<lambda>m. em_conversation_id m \<noteq> i) (hs_messages h)"
  obtain d1 w where w: "rewrite_file H d nonces (hs_path h) (hs_key h) kept = (d1, w)" by fastforce
  have kept: "sort_key em_sent_at kept = kept"
    using history_good_sorted [OF assms(3)] by (simp add: kept_def sorted_filter sort_key_id_if_sorted)
  have step: "(d', h', r) = (case w of Inl e \<Rightarrow> (d1, h, Inl e) | Inr _ \<Rightarrow> (d1, h\<lparr>hs_records := length kept, hs_messages := kept\<rparr>, Inr ()))"
    using assms(4) DeleteConversation w unfolding kept_def by (cases w) (auto simp: delete_conversation_def Let_def)
  show ?thesis
    using rewrite_file_facts [OF assms(1,2) w] assms(3) DeleteConversation step kept
    by (cases w) (auto simp: history_good_def kept_def [symmetric])
next
  case DeleteAll
  obtain f d1 where "next_fault d = (f, d1)" by fastforce
  then show ?thesis using assms(3,4) DeleteAll
    by (auto simp: delete_all_def history_good_def file_at_def split: if_splits)
qed

lemma open_good:
  assumes "history_good H (file_at d (hs_path h)) h" "dk_faults d = []"
  shows "history_open H d (hs_path h) LockTaken (Inr (hs_key h)) = (d, Inr h)"
proof (cases "file_at d (hs_path h)")
  case None
  then show ?thesis using assms by (simp add: history_open_def history_good_def)
next
  case (Some data)
  have "fs_read d (hs_path h) = (d, Inr data)" using assms(2) Some by (simp add: fs_read_def next_fault_def)
  moreover obtain rows where "read_records H (hs_key h) data = Inr rows" "sort_key em_sent_at rows = hs_messages h"
    "length rows = hs_records h"
    using assms(1) Some by (auto simp: history_good_def)
  ultimately show ?thesis using Some by (simp add: history_open_def read_history_file_def)
qed

lemma torn_record:
  assumes "history_env_ok H" "seal_record H key nonce m index = Inr bytes" "length nonce = NONCE_LEN" "0 < n" "n < length bytes"
  shows "read_loop H key rows (take n bytes) = Inl Corrupted"
proof -
  obtain c where b: "bytes = le_bytes LEN_FIELD (length c) @ nonce @ c" "le_value (le_bytes LEN_FIELD (length c)) = length c"
    using seal_record_Inr [OF assms(1,2)] by blast
  have ne: "take n bytes \<noteq> []" using assms(4,5) by auto
  show ?thesis
  proof (cases "n < LEN_FIELD + NONCE_LEN")
    case True
    then show ?thesis using ne assms(5) by (simp add: read_loop.simps)
  next
    case False
    then have "take LEN_FIELD (take n bytes) = le_bytes LEN_FIELD (length c)" by (simp add: b(1) min_def)
    moreover have "length (drop LEN_FIELD (take n bytes)) - NONCE_LEN < length c"
      using assms(3,5) False by (simp add: b(1))
    ultimately show ?thesis using ne False assms(5) b(2) by (subst read_loop.simps) (simp add: Let_def)
  qed
qed

lemma torn_file:
  assumes "history_env_ok H" "length nonce = NONCE_LEN" "read_records H key data = Inr rows"
    and "seal_record H key nonce m index = Inr bytes" "0 < n" "n < length bytes"
  shows "read_records H key (data @ take n bytes) = Inl Corrupted"
proof -
  have d: "starts_with HISTORY_MAGIC data" "read_loop H key [] (drop (length HISTORY_MAGIC) data) = Inr rows"
    using assms(3) by (auto simp: read_records_def split: if_splits)
  then have len: "length HISTORY_MAGIC \<le> length data" "take (length HISTORY_MAGIC) data = HISTORY_MAGIC"
    by (auto simp: starts_with_def) (metis length_take min.absorb_iff2 min.commute)
  then show ?thesis
    using read_loop_append [OF d(2), of "take n bytes"] torn_record [OF assms(1,4,2,5,6), of rows]
    by (simp add: read_records_def starts_with_def)
qed

section \<open>Properties\<close>


text \<open>
  Claim C28. A record that a crash cuts short locks the history. When a write stops inside a record and
  the file cannot be cut back, the rows in memory stay, but the file does not open any more, whatever
  rows it held before, and is left as it is.
\<close>

theorem torn_record_locks_history:
  assumes "history_env_ok H" and "length nonce = NONCE_LEN" and "history_good H (Some data) h"
    and "seal_record H (hs_key h) nonce m (hs_records h) = Inr bytes" and "0 < n" and "n < length bytes"
    and "dk_files d = [(hs_path h, data)]" and "dk_faults d = [NoFault, FailsAfter n, Fails]"
    and "history_append H d nonce h m = (d', h', r)"
  shows "h' = h \<and> history_open H d' (hs_path h) LockTaken (Inr (hs_key h)) = (d', Inl Corrupted) \<and>
     file_at d' (hs_path h) = Some (data @ take n bytes)"
proof -
  let ?p = "hs_path h"
  have old: "file_at d ?p = Some data" by (simp add: file_at_def assms(7))
  have step: "h' = h \<and> file_at d' ?p = Some (data @ take n bytes) \<and> dk_faults d' = []"
    using assms(4,7,8,9) old
    by (auto simp: history_append_def append_record_def append_bytes_def next_fault_def file_at_def Let_def)
  obtain rows where "read_records H (hs_key h) data = Inr rows" using assms(3) by (auto simp: history_good_def)
  from torn_file [OF assms(1,2) this assms(4-6)]
  show ?thesis using step by (auto simp: history_open_def read_history_file_def fs_read_def next_fault_def)
qed

text \<open>A concrete environment: the cipher puts key, nonce and associated data in front of the message,
  and the JSON text of a row is its id and text.\<close>

definition toy_row :: "string \<Rightarrow> int \<Rightarrow> E2eMessage" where
  "toy_row t at = \<lparr> em_id = t, em_conversation_id = ''c'', em_sender_device = ''d'', em_sent_at = at, em_text = t,
                    em_encrypted = True, em_captures = [] \<rparr>"

definition toy_rows :: "(string \<times> E2eMessage) list" where
  "toy_rows = [(''1'', toy_row ''one'' 5), (''2'', toy_row ''two'' 3)]"

definition toy_history_env :: history_env where
  "toy_history_env = \<lparr>
     hist_encrypt = (\<lambda>key nonce msg aad. Some (key @ nonce @ aad @ msg)),
     hist_decrypt = (\<lambda>key nonce c aad. strip_prefix (key @ nonce @ aad) c),
     row_json = (\<lambda>m. map_of (map (\<lambda>(t, row). (row, t)) toy_rows) m),
     row_of_json = (\<lambda>t. map_of toy_rows t),
     fold_case = (\<lambda>t. t) \<rparr>"

lemma toy_history_env_ok: "history_env_ok toy_history_env"
proof -
  have "strip_prefix (key @ nonce @ aad) (key @ nonce @ aad @ msg) = Some msg" for key nonce aad msg :: string
    using strip_prefix_append [of "key @ nonce @ aad" msg] by simp
  then show ?thesis
    by (auto simp: history_env_ok_def toy_history_env_def toy_rows_def toy_row_def split: if_splits)
qed

definition toy_history :: HistoryStore where
  "toy_history = \<lparr> hs_path = (''dir'', ''history''), hs_key = ''k'', hs_messages = [], hs_records = 0 \<rparr>"

lemma toy_history_good: "history_good toy_history_env None toy_history"
  by (simp add: history_good_def toy_history_def)


theorem torn_record_locks_history_witness:
  "\<exists>d. history_open toy_history_env d (''dir'', ''history'') LockTaken (Inr ''k'') = (d, Inl Corrupted) \<and>
     file_at d (''dir'', ''history'') = Some (HISTORY_MAGIC @ [CHR 0x38])"
proof -
  let ?d = "\<lparr> dk_files = [((''dir'', ''history''), HISTORY_MAGIC)], dk_serial = 0, dk_pid = 1,
              dk_faults = [NoFault, FailsAfter 1, Fails] \<rparr>"
  have good: "history_good toy_history_env (Some HISTORY_MAGIC) toy_history"
    by (simp add: history_good_def toy_history_def read_records_empty)
  have n: "length toy_nonce = NONCE_LEN" by (simp add: toy_nonce_def NONCE_LEN_def)
  let ?c = "''k'' @ toy_nonce @ record_aad 0 @ ''1''"
  have s: "seal_record toy_history_env (hs_key toy_history) toy_nonce (toy_row ''one'' 5) (hs_records toy_history)
      = Inr (le_bytes LEN_FIELD (length ?c) @ toy_nonce @ ?c)"
    by (simp add: seal_record_def toy_history_env_def toy_history_def toy_rows_def record_aad_def HISTORY_MAGIC_def
        toy_nonce_def u32_max_def)
  have c: "length ?c = 56" by (simp add: record_aad_def HISTORY_MAGIC_def toy_nonce_def)
  obtain d h r where st: "history_append toy_history_env ?d toy_nonce toy_history (toy_row ''one'' 5) = (d, h, r)"
    by (metis prod_cases3)
  have ch: "char_of (56::nat) = CHR 0x38" by code_simp
  have field: "LEN_FIELD = Suc 3" by (simp add: LEN_FIELD_def)
  have "le_bytes LEN_FIELD 56 = CHR 0x38 # le_bytes 3 0" unfolding field le_bytes.simps by (simp add: ch)
  then have "take 1 (le_bytes LEN_FIELD 56 @ toy_nonce @ ?c) = [CHR 0x38]" by simp
  then have "take 1 (le_bytes LEN_FIELD (length ?c) @ toy_nonce @ ?c) = [CHR 0x38]" by (simp only: c)
  then show ?thesis
    using torn_record_locks_history [OF toy_history_env_ok n good s _ _ _ _ st, of 1]
    by (auto simp: toy_history_def LEN_FIELD_def)
qed

end
