(* ===== verification/Selfcopy.thy ===== *)
theory Selfcopy
  imports Wire
begin

text \<open>
  The rules of the copies between the devices of one account, from \<^verbatim>\<open>e2e_selfcopy.rs\<close>: the plan of the
  copies of one text, the limits of an inbox, the states of a copy and the drain of an inbox. The Olm
  engine behind \<^verbatim>\<open>CopyCipher\<close> and the sink of the drain have a state of their own, which each call may
  change.
\<close>

section \<open>The plan\<close>

definition INBOX_MAX_BYTES :: nat where "INBOX_MAX_BYTES = 4 * 1024 * 1024"
definition INBOX_SENDER_MAX_BYTES :: nat where "INBOX_SENDER_MAX_BYTES = 1024 * 1024"
definition INBOX_EXPIRY_SECS :: nat where "INBOX_EXPIRY_SECS = 7 * 24 * 60 * 60"
definition INBOX_ENTRY_COST_BYTES :: nat where "INBOX_ENTRY_COST_BYTES = 256"

record 'c copy_cipher =
  cc_encrypt :: "'c \<Rightarrow> string \<Rightarrow> string \<Rightarrow> 'c \<times> string option"
  cc_decrypt :: "'c \<Rightarrow> string \<Rightarrow> string \<Rightarrow> 'c \<times> string option"

record OutgoingCopy =
  oc_target_did :: string
  oc_item_id :: string
  oc_ciphertext :: string

record CopyPlan =
  cpl_copies :: "OutgoingCopy list"
  cpl_failed :: "string list"

definition checked_add :: "nat \<Rightarrow> nat \<Rightarrow> nat option" where
  "checked_add a b = (if a + b \<le> u64_max then Some (a + b) else None)"

definition inbox_accepts :: "nat \<Rightarrow> nat \<Rightarrow> nat \<Rightarrow> bool" where
  "inbox_accepts total_bytes sender_bytes next_len \<longleftrightarrow>
     (case checked_add next_len INBOX_ENTRY_COST_BYTES of
        None \<Rightarrow> False
      | Some cost \<Rightarrow>
          (case checked_add total_bytes cost of None \<Rightarrow> False | Some n \<Rightarrow> n \<le> INBOX_MAX_BYTES) \<and>
          (case checked_add sender_bytes cost of None \<Rightarrow> False | Some n \<Rightarrow> n \<le> INBOX_SENDER_MAX_BYTES))"

definition is_expired :: "nat \<Rightarrow> nat \<Rightarrow> bool" where
  "is_expired created_at now \<longleftrightarrow> min (created_at + INBOX_EXPIRY_SECS) u64_max \<le> now"

fun copies_loop ::
    "'c copy_cipher \<Rightarrow> string \<Rightarrow> string \<Rightarrow> string list \<Rightarrow> string list \<Rightarrow> CopyPlan \<Rightarrow> 'c \<Rightarrow> 'c \<times> CopyPlan" where
  "copies_loop K msgid plain seen [] plan c = (c, plan)"
| "copies_loop K msgid plain seen (did # dids) plan c =
     (if did \<in> set seen then copies_loop K msgid plain seen dids plan c
      else
        (case cc_encrypt K c did plain of
           (c, found) \<Rightarrow>
             copies_loop K msgid plain (did # seen) dids
               (case found of
                  Some ciphertext \<Rightarrow>
                    if inbox_accepts 0 0 (length ciphertext) then
                      plan\<lparr>cpl_copies := cpl_copies plan @
                             [\<lparr> oc_target_did = did, oc_item_id = msgid @ ''.'' @ did, oc_ciphertext = ciphertext \<rparr>]\<rparr>
                    else plan\<lparr>cpl_failed := cpl_failed plan @ [did]\<rparr>
                | None \<Rightarrow> plan\<lparr>cpl_failed := cpl_failed plan @ [did]\<rparr>) c))"

definition build_copies ::
    "'c copy_cipher \<Rightarrow> string \<Rightarrow> string list \<Rightarrow> string \<Rightarrow> string \<Rightarrow> 'c \<Rightarrow> 'c \<times> CopyPlan" where
  "build_copies K own_did peer_dids msgid plain c =
     copies_loop K msgid plain [] (filter (\<lambda>d. d \<noteq> own_did) peer_dids) \<lparr> cpl_copies = [], cpl_failed = [] \<rparr> c"

section \<open>The states of a copy\<close>

datatype CopyState = CopyQueued nat | CopyDelivered | CopyExpired | CopyMissing

record DeliveryTracker =
  dt_states :: "((string \<times> string) \<times> CopyState) list"

definition DeliveryTracker_default :: DeliveryTracker where
  "DeliveryTracker_default = \<lparr> dt_states = [] \<rparr>"

definition DeliveryTracker_queued :: "string \<Rightarrow> string \<Rightarrow> nat \<Rightarrow> DeliveryTracker \<Rightarrow> DeliveryTracker" where
  "DeliveryTracker_queued item_id target_did created_at t =
     t\<lparr>dt_states := AList.update (item_id, target_did) (CopyQueued created_at) (dt_states t)\<rparr>"

definition DeliveryTracker_state :: "DeliveryTracker \<Rightarrow> string \<Rightarrow> string \<Rightarrow> CopyState option" where
  "DeliveryTracker_state t item_id target_did = map_of (dt_states t) (item_id, target_did)"

definition DeliveryTracker_settle :: "string \<Rightarrow> string \<Rightarrow> CopyState \<Rightarrow> DeliveryTracker \<Rightarrow> DeliveryTracker" where
  "DeliveryTracker_settle item_id target_did next t =
     (case map_of (dt_states t) (item_id, target_did) of
        Some (CopyQueued _) \<Rightarrow> t\<lparr>dt_states := AList.update (item_id, target_did) next (dt_states t)\<rparr>
      | _ \<Rightarrow> t)"

definition DeliveryTracker_acknowledged :: "string \<Rightarrow> string \<Rightarrow> DeliveryTracker \<Rightarrow> DeliveryTracker" where
  "DeliveryTracker_acknowledged item_id target_did = DeliveryTracker_settle item_id target_did CopyDelivered"

definition DeliveryTracker_missing :: "string \<Rightarrow> string \<Rightarrow> DeliveryTracker \<Rightarrow> DeliveryTracker" where
  "DeliveryTracker_missing item_id target_did = DeliveryTracker_settle item_id target_did CopyMissing"

definition DeliveryTracker_expire :: "nat \<Rightarrow> DeliveryTracker \<Rightarrow> DeliveryTracker" where
  "DeliveryTracker_expire now t =
     t\<lparr>dt_states := map (\<lambda>(key, state).
         (key, case state of CopyQueued created_at \<Rightarrow> if is_expired created_at now then CopyExpired else state | _ \<Rightarrow> state))
         (dt_states t)\<rparr>"

definition DeliveryTracker_is_delivered :: "DeliveryTracker \<Rightarrow> string \<Rightarrow> string \<Rightarrow> bool" where
  "DeliveryTracker_is_delivered t item_id target_did \<longleftrightarrow> DeliveryTracker_state t item_id target_did = Some CopyDelivered"

section \<open>The drain\<close>

record InboxItem =
  ii_id :: string
  ii_sender_did :: string
  ii_created_at :: nat
  ii_ciphertext :: string

datatype DrainOutcome = DoStored | DoDuplicate | DoExpired | DoBeforePairing | DoUndecryptable | DoStoreFailed

definition DrainOutcome_acknowledge :: "DrainOutcome \<Rightarrow> bool" where
  "DrainOutcome_acknowledge outcome \<longleftrightarrow> outcome \<noteq> DoStoreFailed"

type_synonym ('c, 'k) drain_world = "string set \<times> 'c \<times> 'k"

definition drain_item ::
    "'c copy_cipher \<Rightarrow> (InboxItem \<Rightarrow> string \<Rightarrow> 'k \<Rightarrow> 'k \<times> bool) \<Rightarrow> nat \<Rightarrow> nat \<Rightarrow> InboxItem \<Rightarrow> ('c, 'k) drain_world
     \<Rightarrow> ('c, 'k) drain_world \<times> DrainOutcome" where
  "drain_item K sink now paired_at item = (\<lambda>(seen, c, k).
     if ii_id item \<in> seen then ((seen, c, k), DoDuplicate)
     else if is_expired (ii_created_at item) now then ((seen, c, k), DoExpired)
     else if ii_created_at item < paired_at then ((seen, c, k), DoBeforePairing)
     else
       (case cc_decrypt K c (ii_sender_did item) (ii_ciphertext item) of
          (c, Some plain) \<Rightarrow>
            (case sink item plain k of
               (k, True) \<Rightarrow> ((insert (ii_id item) seen, c, k), DoStored)
             | (k, False) \<Rightarrow> ((seen, c, k), DoStoreFailed))
        | (c, None) \<Rightarrow> ((seen, c, k), DoUndecryptable)))"

fun drain_inbox ::
    "'c copy_cipher \<Rightarrow> (InboxItem \<Rightarrow> string \<Rightarrow> 'k \<Rightarrow> 'k \<times> bool) \<Rightarrow> nat \<Rightarrow> nat \<Rightarrow> InboxItem list \<Rightarrow> ('c, 'k) drain_world
     \<Rightarrow> ('c, 'k) drain_world \<times> (string \<times> DrainOutcome) list" where
  "drain_inbox K sink now paired_at [] w = (w, [])"
| "drain_inbox K sink now paired_at (item # items) w =
     (case drain_item K sink now paired_at item w of
        (w, outcome) \<Rightarrow>
          (case drain_inbox K sink now paired_at items w of (w, outcomes) \<Rightarrow> (w, (ii_id item, outcome) # outcomes)))"

section \<open>Lemmas\<close>

lemma inbox_accepts_iff:
  "inbox_accepts total_bytes sender_bytes next_len \<longleftrightarrow>
     total_bytes + next_len + INBOX_ENTRY_COST_BYTES \<le> INBOX_MAX_BYTES \<and>
     sender_bytes + next_len + INBOX_ENTRY_COST_BYTES \<le> INBOX_SENDER_MAX_BYTES"
  by (auto simp: inbox_accepts_def checked_add_def INBOX_MAX_BYTES_def INBOX_SENDER_MAX_BYTES_def u64_max_def)

text \<open>Only an acknowledgement of a queued copy makes it delivered, and no final state changes.\<close>

datatype tracker_op = TrAcknowledged string string | TrMissing string string | TrExpire nat

fun tracker_step :: "DeliveryTracker \<Rightarrow> tracker_op \<Rightarrow> DeliveryTracker" where
  "tracker_step t (TrAcknowledged i d) = DeliveryTracker_acknowledged i d t"
| "tracker_step t (TrMissing i d) = DeliveryTracker_missing i d t"
| "tracker_step t (TrExpire now) = DeliveryTracker_expire now t"

lemma map_of_map_values: "map_of (map (\<lambda>(k, x). (k, f x)) xs) k = map_option f (map_of xs k)"
  by (induction xs) auto

lemma tracker_step_state:
  "DeliveryTracker_state (tracker_step t x) i d =
     (case DeliveryTracker_state t i d of
        Some (CopyQueued created_at) \<Rightarrow>
          (case x of
             TrAcknowledged i' d' \<Rightarrow> Some (if i' = i \<and> d' = d then CopyDelivered else CopyQueued created_at)
           | TrMissing i' d' \<Rightarrow> Some (if i' = i \<and> d' = d then CopyMissing else CopyQueued created_at)
           | TrExpire now \<Rightarrow> Some (if is_expired created_at now then CopyExpired else CopyQueued created_at))
      | state \<Rightarrow> state)"
  by (cases x)
     (auto simp: DeliveryTracker_state_def DeliveryTracker_acknowledged_def DeliveryTracker_missing_def DeliveryTracker_settle_def
      DeliveryTracker_expire_def update_conv' map_of_map_values split: option.splits CopyState.splits)

declare tracker_step.simps [simp del]

lemma final_state_stays:
  assumes "DeliveryTracker_state t i d = Some state" "\<And>created_at. state \<noteq> CopyQueued created_at"
  shows "DeliveryTracker_state (foldl tracker_step t xs) i d = Some state"
  using assms(1)
proof (induction xs arbitrary: t)
  case (Cons x xs)
  have "DeliveryTracker_state (tracker_step t x) i d = Some state"
    using Cons.prems assms(2) by (cases state) (auto simp: tracker_step_state)
  then show ?case using Cons.IH by simp
qed simp

lemma delivered_was_acknowledged:
  assumes "DeliveryTracker_state (foldl tracker_step t xs) i d = Some CopyDelivered"
    "DeliveryTracker_state t i d \<noteq> Some CopyDelivered"
  shows "TrAcknowledged i d \<in> set xs"
  using assms
proof (induction xs arbitrary: t)
  case (Cons x xs)
  show ?case
  proof (cases "DeliveryTracker_state (tracker_step t x) i d = Some CopyDelivered")
    case True
    then have "x = TrAcknowledged i d"
      using Cons.prems(2) by (cases x) (auto simp: tracker_step_state split: option.splits CopyState.splits if_splits)
    then show ?thesis by simp
  qed (use Cons in auto)
qed simp

text \<open>The ids of the device grow by the stored items, and an item whose write failed may come again.\<close>

lemma drain_item_seen:
  "fst (fst (drain_item K sink now paired_at item w)) =
     fst w \<union> (if snd (drain_item K sink now paired_at item w) = DoStored then {ii_id item} else {})"
  by (cases w) (auto simp: drain_item_def split: prod.split option.split bool.split)

lemma drain_seen:
  "drain_inbox K sink now paired_at items w = (w', outcomes) \<Longrightarrow>
     fst w' = fst w \<union> {i. (i, DoStored) \<in> set outcomes} \<and> map fst outcomes = map ii_id items"
proof (induction items arbitrary: w w' outcomes)
  case (Cons item items)
  obtain v outcome where one: "drain_item K sink now paired_at item w = (v, outcome)" by fastforce
  obtain u rest where two: "drain_inbox K sink now paired_at items v = (u, rest)" by fastforce
  have v: "fst v = fst w \<union> (if outcome = DoStored then {ii_id item} else {})"
    using drain_item_seen [of K sink now paired_at item w] by (simp add: one)
  show ?case using Cons.IH [OF two] Cons.prems by (auto simp: one two v)
qed simp

end
