(* ===== verification/Engine_Data.thy ===== *)
theory Engine_Data
  imports Inbox History Refusal Send_Request Selfcopy
begin

text \<open>
  The data of the engine of one device on one network, from \<^verbatim>\<open>e2e_engine.rs\<close>: the payloads of KEYS,
  \<^verbatim>\<open>pkmsg\<close> and \<^verbatim>\<open>msg\<close>, the inner message of an Olm body, the names of windows, conversations and
  files, and the outcomes of a row. Olm itself, the derived JSON readers and the UTF-8 check of a
  plaintext are fields of \<open>engine_env\<close>.
\<close>

section \<open>Constants\<close>

definition PAYLOAD_VERSION :: nat where "PAYLOAD_VERSION = 2"
definition KEYS_REASSEMBLY_TIMEOUT :: duration where "KEYS_REASSEMBLY_TIMEOUT = REASSEMBLY_TIMEOUT"
definition ACTION_OPEN :: string where "ACTION_OPEN = CHR 0x01 # ''ACTION ''"
definition ACTION_CLOSE :: char where "ACTION_CLOSE = CHR 0x01"
definition OWN_DEVICE :: string where "OWN_DEVICE = ''own''"
definition REKEY_INTERVAL :: duration where "REKEY_INTERVAL = secs 60"
definition SENT_MEMORY :: duration where "SENT_MEMORY = secs 1800"
definition SENT_MAX :: nat where "SENT_MAX = 1200"
definition LISTREQ_INTERVAL :: duration where "LISTREQ_INTERVAL = secs 60"
definition MAX_SENDS :: nat where "MAX_SENDS = 2"

section \<open>Names\<close>

definition action_text :: "string \<Rightarrow> string" where
  "action_text t = ACTION_OPEN @ t @ [ACTION_CLOSE]"

definition action_body :: "string \<Rightarrow> string option" where
  "action_body stored =
     Option.bind (strip_prefix ACTION_OPEN stored) (\<lambda>rest.
       Some (case strip_suffix [ACTION_CLOSE] rest of None \<Rightarrow> rest | Some words \<Rightarrow> words))"

definition locked_label :: "string \<Rightarrow> string" where
  "locked_label nick = QUERY_LOCK_LABEL @ nick"

datatype SendRoute = Plain string | Encrypted string

fun SendRoute_nick :: "SendRoute \<Rightarrow> string" where
  "SendRoute_nick (Plain nick) = nick"
| "SendRoute_nick (Encrypted nick) = nick"

definition route_for_window :: "string \<Rightarrow> SendRoute" where
  "route_for_window window_name =
     (case strip_prefix QUERY_LOCK_LABEL window_name of
        Some nick \<Rightarrow> Encrypted nick
      | None \<Rightarrow> Plain window_name)"

definition conversation_id :: "string \<Rightarrow> string \<Rightarrow> string" where
  "conversation_id network nick = network @ CHR 0x00 # nick"

definition history_peers_of :: "HistoryStore \<Rightarrow> string \<Rightarrow> string list" where
  "history_peers_of history network =
     sort (List.map_filter (strip_prefix (conversation_id network [])) (conversation_ids history))"

text \<open>\<open>hash\<close> is SHA-256, as bytes.\<close>

definition storage_part :: "(string \<Rightarrow> string) \<Rightarrow> string \<Rightarrow> string \<Rightarrow> string \<Rightarrow> string option" where
  "storage_part hash server account network =
     (if server = [] \<or> account = [] \<or> starts_with ''visitor:'' account \<or> network = [] then None
      else Some (concat (map hex_byte (take 16 (hash (server @ CHR 0x00 # account @ CHR 0x00 # network))))))"

definition valid_peer :: "string \<Rightarrow> bool" where
  "valid_peer peer \<longleftrightarrow>
     peer \<noteq> [] \<and> length (utf8_chars peer) \<le> 64 \<and> \<not> contains QUERY_LOCK_LABEL peer \<and>
     \<not> list_ex (\<lambda>c. c \<in> set whitespace_seqs \<or> is_control_seq c) (utf8_chars peer)"

section \<open>Errors\<close>

datatype 'h EngineError =
  EE_NotReady | EE_EncryptionFailed | EE_Wire WireError | EE_Device E2eError | EE_Store E2eStoreError
| EE_Route "'h E2eRouteError" | EE_Client "'h GrappaClientError" | EE_Rejected SendResponse | EE_Paced KeyReqRefusal | EE_PeerNotCapable | EE_QueueFull

section \<open>Payloads\<close>

record IdBlock =
  ib_curve25519 :: string
  ib_ed25519 :: string
  ib_sig :: string

record MasterList =
  ml_ver :: nat
  ml_devices :: "string list"

record MasterBlock =
  mb_ed25519 :: string
  mb_list :: MasterList
  mb_sig :: string

record MasterRef =
  mr_ed25519 :: string
  mr_ver :: nat
  mr_cert :: string

record OneTimeKey =
  otk_key :: string
  otk_fallback :: bool
  otk_sig :: string

record KeysEntry =
  ke_id :: IdBlock
  ke_otk :: OneTimeKey

record KeysPayload =
  kp_v :: nat
  kp_master :: MasterBlock
  kp_devices :: "KeysEntry list"

text \<open>A \<^verbatim>\<open>BTreeMap\<close> of bodies is a list of pairs with each key once.\<close>

record PreKeyPayload =
  pp_v :: nat
  pp_id :: IdBlock
  pp_master :: MasterRef
  pp_bodies :: "(string \<times> string) list"

record MsgPayload =
  mp_v :: nat
  mp_ck :: string
  mp_bodies :: "(string \<times> string) list"

datatype MessagePayload = PreKey PreKeyPayload | Normal MsgPayload

datatype InnerKind =
  IK_Text string | IK_Copy string string | IK_List MasterBlock | IK_ListReq | IK_Other

record Inner =
  in_kind :: InnerKind
  in_lv :: "nat option"
  in_fb :: "string option"
  in_cid :: "string option"

text \<open>What the engine takes from the libraries: the JSON text, the value of a number without a
  fraction that is no \<^verbatim>\<open>u64\<close>, the derived readers, and Olm. A decryption gives the moved session and
  the plaintext; \<open>olm_prekey_id\<close> reads a first message and gives the id of its session;
  \<open>olm_inbound\<close> gives the account without the used key, the new session and the plaintext.\<close>

record ('v, 'a, 's) engine_env =
  ee_crypto :: crypto_api
  ee_json :: "'v json_api"
  ee_from_str :: "string \<Rightarrow> 'v option"
  ee_plain :: "string \<Rightarrow> 'v option"
  ee_float_whole :: "'v \<Rightarrow> nat option"
  ee_keys_payload :: "'v \<Rightarrow> KeysPayload option"
  ee_prekey_payload :: "'v \<Rightarrow> PreKeyPayload option"
  ee_msg_payload :: "'v \<Rightarrow> MsgPayload option"
  ee_master_block :: "'v \<Rightarrow> MasterBlock option"
  olm_prekey_id :: "string \<Rightarrow> string option"
  olm_session_id :: "'s \<Rightarrow> string"
  olm_decrypt_prekey :: "'s \<Rightarrow> string \<Rightarrow> ('s \<times> string) option"
  olm_message_ok :: "string \<Rightarrow> bool"
  olm_decrypt :: "'s \<Rightarrow> string \<Rightarrow> ('s \<times> string) option"
  olm_inbound :: "'a \<Rightarrow> string \<Rightarrow> string \<Rightarrow> ('a \<times> 's \<times> string) option"
  olm_curve_ok :: "string \<Rightarrow> bool"
  ee_store :: "('a, 's) store_env"
  ee_history :: history_env
  ee_nonce :: "nat \<Rightarrow> string"
  ee_clock :: "nat \<Rightarrow> duration"

definition version_from_value :: "('v, 'a, 's) engine_env \<Rightarrow> 'v \<Rightarrow> nat option" where
  "version_from_value E value =
     Option.bind (case as_u64 (ee_json E) value of Some whole \<Rightarrow> Some whole | None \<Rightarrow> ee_float_whole E value) (\<lambda>whole.
       if 1 \<le> whole \<and> whole \<le> MAX_VERSION then Some whole else None)"

definition check_payload_version :: "nat \<Rightarrow> WireError + unit" where
  "check_payload_version version = (if version = PAYLOAD_VERSION then Inr () else Inl BadVersion)"

definition KeysPayload_parse :: "('v, 'a, 's) engine_env \<Rightarrow> string \<Rightarrow> WireError + KeysPayload" where
  "KeysPayload_parse E t =
     rbind (parse_payload (ee_from_str E) t) (\<lambda>value.
     rbind (ok_or (ee_keys_payload E value) BadPayload) (\<lambda>payload.
     rbind (check_payload_version (kp_v payload)) (\<lambda>_.
       if length (kp_devices payload) > MAX_LIST_DEVICES then Inl BadDeviceCount else Inr payload)))"

fun bodies :: "MessagePayload \<Rightarrow> (string \<times> string) list" where
  "bodies (PreKey payload) = pp_bodies payload"
| "bodies (Normal payload) = mp_bodies payload"

fun payload_version :: "MessagePayload \<Rightarrow> nat" where
  "payload_version (PreKey payload) = pp_v payload"
| "payload_version (Normal payload) = mp_v payload"

definition MessagePayload_parse :: "('v, 'a, 's) engine_env \<Rightarrow> InboxVerb \<Rightarrow> string \<Rightarrow> WireError + MessagePayload" where
  "MessagePayload_parse E verb t =
     rbind (parse_payload (ee_from_str E) t) (\<lambda>value.
     rbind (case verb of
              IV_PkMsg \<Rightarrow> rbind (ok_or (ee_prekey_payload E value) BadPayload) (\<lambda>p. Inr (PreKey p))
            | IV_Msg \<Rightarrow> rbind (ok_or (ee_msg_payload E value) BadPayload) (\<lambda>p. Inr (Normal p))
            | _ \<Rightarrow> Inl BadVerb) (\<lambda>payload.
     rbind (check_payload_version (payload_version payload)) (\<lambda>_.
       if bodies payload = [] \<or> length (bodies payload) > MAX_LIST_DEVICES then Inl BadDeviceCount
       else if \<not> list_all (is_did_shape (ee_crypto E)) (map fst (bodies payload)) then Inl BadDid
       else Inr payload)))"

definition Inner_parse :: "('v, 'a, 's) engine_env \<Rightarrow> string \<Rightarrow> Inner option" where
  "Inner_parse E plain =
     Option.bind (ee_plain E plain) (\<lambda>value.
     Option.bind (as_map (ee_json E) value) (\<lambda>m.
     let field = (\<lambda>name. Option.bind (map_of m name) (as_str (ee_json E))) in
     Option.bind (field ''t'') (\<lambda>t.
       Some \<lparr>
         in_kind =
           (if t = ''text'' then (case field ''body'' of None \<Rightarrow> IK_Other | Some body \<Rightarrow> IK_Text body)
            else if t = ''action'' then (case field ''body'' of None \<Rightarrow> IK_Other | Some body \<Rightarrow> IK_Text (action_text body))
            else if t = ''copy'' then
              (case (field ''peer'', field ''body'') of (Some peer, Some body) \<Rightarrow> IK_Copy peer body | _ \<Rightarrow> IK_Other)
            else if t = ''list'' then
              (case Option.bind (map_of m ''master'') (ee_master_block E) of None \<Rightarrow> IK_Other | Some master \<Rightarrow> IK_List master)
            else if t = ''listreq'' then IK_ListReq
            else IK_Other),
         in_lv = Option.bind (map_of m ''lv'') (version_from_value E),
         in_fb = field ''fb'', in_cid = field ''cid'' \<rparr>)))"

definition bound_to :: "Inner \<Rightarrow> string \<Rightarrow> Inner option" where
  "bound_to inner expected_fb = (if in_fb inner = Some expected_fb then Some inner else None)"

definition nack_reference :: "('v, 'a, 's) engine_env \<Rightarrow> string \<Rightarrow> string option" where
  "nack_reference E payload =
     Option.bind (ee_from_str E payload) (\<lambda>value.
     Option.bind (str_field (ee_json E) value ''ref'') (\<lambda>reference.
       if reference \<noteq> [] then Some reference else None))"

fun inbox_verb_name :: "InboxVerb \<Rightarrow> string" where
  "inbox_verb_name IV_Keys = ''keys''"
| "inbox_verb_name IV_PkMsg = ''pkmsg''"
| "inbox_verb_name IV_Msg = ''msg''"
| "inbox_verb_name IV_Nack = ''nack''"

section \<open>Outcomes of a row\<close>

datatype RowOutcome = Stored | Duplicate | KeysRead | Undecryptable | Ignored | StoreFailed | StaleList

definition acknowledge :: "RowOutcome \<Rightarrow> bool" where
  "acknowledge x \<longleftrightarrow> x \<noteq> StoreFailed \<and> x \<noteq> StaleList"

section \<open>The state of the engine\<close>

record PendingText =
  pt_text :: string
  pt_sends :: nat
  pt_row_id :: string
  pt_did :: "string option"

record SentRecord =
  sr_nick :: string
  sr_dids :: "string list"
  sr_known_peer_dids :: "string set"
  sr_text :: string
  sr_sends :: nat
  sr_row_id :: string
  sr_at :: duration

record PeerEntry =
  pe_nick :: string
  pe_device :: PeerDevice
  pe_one_time_key :: "string option"

record ListJob =
  lj_nick :: string
  lj_did :: string
  lj_reply :: bool

record CopyJob =
  cj_id :: string
  cj_peer :: string
  cj_text :: string
  cj_created_at :: int
  cj_recipients :: "string set"
  cj_done :: "string set"
  cj_tries :: "(string \<times> nat) list"

record ('a, 's) Decrypted =
  de_inner :: Inner
  de_identity :: "'a option"
  de_session :: 's
  de_replay :: "ReplayState option"
  de_learned :: "(PeerEntry \<times> PeerTrust) option"

text \<open>The engine with the disk it writes to, the number of random draws and of clock readings.\<close>

record Engine =
  en_network :: string
  en_own_did :: string
  en_own_ed25519 :: string
  en_state :: Store
  en_history :: HistoryStore
  en_seen :: "nat set"
  en_peers :: "(string \<times> PeerEntry) list"
  en_book :: SendBook
  en_keyreq :: KeyReqPacer
  en_casemapping :: CaseMapping
  en_frame_budget_base :: "nat option"
  en_revoked_dids :: "string set"
  en_keys_wanted :: "string list"
  en_trust_changed :: "string list"
  en_queue :: OutgoingQueue
  en_pending :: "(SendKey \<times> PendingText) list"
  en_sent :: "(string \<times> SentRecord) list"
  en_rekey :: IntervalLimiter
  en_row_ids :: "(SendKey \<times> string) list"
  en_dropped_rows :: "(string \<times> DropReason) list"
  en_capability :: "(string \<times> bool) list"
  en_changed_peers :: "string list"
  en_local_sends :: nat
  en_copy_jobs :: "CopyJob list"
  en_copy_tracker :: DeliveryTracker
  en_stale_tries :: "(nat \<times> nat) list"
  en_list_jobs :: "ListJob list"
  en_list_answered :: "((string \<times> string) \<times> duration) list"
  en_listreq :: IntervalLimiter
  en_listreq_lv :: "(string \<times> nat set) list"
  en_disk :: disk
  en_draws :: nat
  en_ticks :: nat

definition Engine_new ::
    "('v, 'a, 's) engine_env \<Rightarrow> disk \<Rightarrow> nat \<Rightarrow> string \<Rightarrow> Store \<Rightarrow> HistoryStore \<Rightarrow> 'h EngineError + Engine" where
  "Engine_new E d draws network state history =
     rbind (map_err EE_Store (device_key (ee_store E) state)) (\<lambda>key.
     rbind (ok_or key EE_NotReady) (\<lambda>own_ed25519.
     rbind (map_err EE_Wire (did_from_key_text (ee_crypto E) own_ed25519)) (\<lambda>own_did.
       Inr \<lparr> en_network = network, en_own_did = own_did, en_own_ed25519 = own_ed25519, en_state = state,
              en_history = history, en_seen = {}, en_peers = [], en_book = SendBook_new,
              en_keyreq = KeyReqPacer_new KEYS_REASSEMBLY_TIMEOUT, en_casemapping = Rfc1459, en_frame_budget_base = None,
              en_revoked_dids = {}, en_keys_wanted = [], en_trust_changed = [], en_queue = OutgoingQueue_new,
              en_pending = [], en_sent = [], en_rekey = IntervalLimiter_new REKEY_INTERVAL, en_row_ids = [],
              en_dropped_rows = List.map_filter (\<lambda>(i, reason). map_option (Pair i) (DropReason_from_wire reason))
                                  (sd_dropped_rows (st_data state)),
              en_capability = [], en_changed_peers = [], en_local_sends = 0, en_copy_jobs = [],
              en_copy_tracker = DeliveryTracker_default, en_stale_tries = [], en_list_jobs = [],
              en_list_answered = [], en_listreq = IntervalLimiter_new LISTREQ_INTERVAL, en_listreq_lv = [],
              en_disk = d, en_draws = draws, en_ticks = 0 \<rparr>)))"

end
