(* ===== verification/Engine.thy ===== *)
theory Engine
  imports Engine_Data
begin

text \<open>
  The receive path of the engine, from \<^verbatim>\<open>e2e_engine.rs\<close>: \<open>handle_row\<close> reads one row of the inbox. An
  operation takes the engine and gives the next one with its result. Every write goes to the disk of the
  engine and may fail; every clock reading takes the next value of the clock.
\<close>

section \<open>The world of the engine\<close>

definition stateDo :: "('v, 'a, 's) engine_env \<Rightarrow> ('a, 's) StoreOp \<Rightarrow> Engine \<Rightarrow> Engine \<times> (E2eStoreError + unit)" where
  "stateDo E x e =
     (case store_step (ee_store E) (en_disk e) (ee_nonce E (en_draws e)) (en_state e) x of
        (d, s, r) \<Rightarrow> (e\<lparr>en_disk := d, en_state := s, en_draws := en_draws e + 1\<rparr>, r))"

definition historyAppend :: "('v, 'a, 's) engine_env \<Rightarrow> E2eMessage \<Rightarrow> Engine \<Rightarrow> Engine \<times> (E2eStoreError + unit)" where
  "historyAppend E m e =
     (case history_append (ee_history E) (en_disk e) (ee_nonce E (en_draws e)) (en_history e) m of
        (d, h, r) \<Rightarrow> (e\<lparr>en_disk := d, en_history := h, en_draws := en_draws e + 1\<rparr>, r))"

definition clock_now :: "('v, 'a, 's) engine_env \<Rightarrow> Engine \<Rightarrow> Engine \<times> duration" where
  "clock_now E e = (e\<lparr>en_ticks := en_ticks e + 1\<rparr>, ee_clock E (en_ticks e))"

abbreviation en_trust :: "Engine \<Rightarrow> PeerTrust" where
  "en_trust e \<equiv> sd_trust (st_data (en_state e))"

abbreviation en_fold :: "Engine \<Rightarrow> string \<Rightarrow> string" where
  "en_fold e \<equiv> CaseMapping_fold (en_casemapping e)"

section \<open>Notes for the view\<close>

definition push_new :: "'x \<Rightarrow> 'x list \<Rightarrow> 'x list" where
  "push_new x xs = (if x \<in> set xs then xs else xs @ [x])"

definition note_changed :: "string \<Rightarrow> Engine \<Rightarrow> Engine" where
  "note_changed nick e = e\<lparr>en_changed_peers := push_new nick (en_changed_peers e)\<rparr>"

definition note_trust_changed :: "string \<Rightarrow> Engine \<Rightarrow> Engine" where
  "note_trust_changed nick e = e\<lparr>en_trust_changed := push_new nick (en_trust_changed e)\<rparr>"

definition want_keys :: "string \<Rightarrow> Engine \<Rightarrow> Engine" where
  "want_keys nick e = e\<lparr>en_keys_wanted := push_new nick (en_keys_wanted e)\<rparr>"

fun capability_loop :: "CaseMapping \<Rightarrow> string \<Rightarrow> bool \<Rightarrow> (string \<times> bool) list \<Rightarrow> (string \<times> bool) list" where
  "capability_loop cm nick capable [] = [(nick, capable)]"
| "capability_loop cm nick capable ((known, old) # rest) =
     (if CaseMapping_fold cm known = CaseMapping_fold cm nick then (known, capable) # rest
      else (known, old) # capability_loop cm nick capable rest)"

definition set_peer_capability :: "string \<Rightarrow> bool \<Rightarrow> Engine \<Rightarrow> Engine" where
  "set_peer_capability nick capable e =
     e\<lparr>en_capability := capability_loop (en_casemapping e) nick capable (en_capability e)\<rparr>"

definition peer_capable :: "string \<Rightarrow> Engine \<Rightarrow> bool" where
  "peer_capable nick e =
     (case List.find (\<lambda>(known, _). en_fold e known = en_fold e nick) (en_capability e) of
        None \<Rightarrow> True | Some (_, capable) \<Rightarrow> capable)"

section \<open>Dropped sends\<close>

definition note_drop :: "('v, 'a, 's) engine_env \<Rightarrow> SendDropped \<Rightarrow> Engine \<Rightarrow> Engine" where
  "note_drop E event e =
     note_changed (sk_target (sd_key event))
       (case map_of (en_row_ids e) (sd_key event) of
          None \<Rightarrow> e
        | Some shown \<Rightarrow>
            let e = fst (stateDo E (SetDroppedRow shown (DropReason_wire_name (sd_reason event))) e)
            in (if map_of (en_dropped_rows e) shown = None
                then e\<lparr>en_dropped_rows := AList.update shown (sd_reason event) (en_dropped_rows e)\<rparr> else e))"

definition note_drops :: "('v, 'a, 's) engine_env \<Rightarrow> SendDropped list \<Rightarrow> Engine \<Rightarrow> Engine" where
  "note_drops E drops e = fold (note_drop E) drops e"

definition fail_send :: "('v, 'a, 's) engine_env \<Rightarrow> SendKey \<Rightarrow> DropReason \<Rightarrow> Engine \<Rightarrow> Engine \<times> SendDropped option" where
  "fail_send E key reason e =
     (case SendBook_drop_local (en_book e) key reason of
        (book, changed) \<Rightarrow>
          if \<not> changed then (e\<lparr>en_book := book\<rparr>, None)
          else let dropped = \<lparr> sd_key = key, sd_reason = reason \<rparr>
               in (note_drops E [dropped] (e\<lparr>en_book := book\<rparr>), Some dropped))"

section \<open>Keys of a peer\<close>

definition entry_revoked :: "Engine \<Rightarrow> PeerEntry \<Rightarrow> PeerTrust \<Rightarrow> bool" where
  "entry_revoked e known trust =
     is_revoked trust (en_network e) (pe_nick known) (pd_ed25519 (pe_device known)) (Some (pd_curve25519 (pe_device known)))"

definition forget_revoked :: "PeerTrust \<Rightarrow> Engine \<Rightarrow> Engine" where
  "forget_revoked trust e =
     e\<lparr>en_peers := filter (\<lambda>(_, known). \<not> entry_revoked e known trust) (en_peers e),
       en_revoked_dids := en_revoked_dids e \<union> fst ` set (filter (\<lambda>(_, known). entry_revoked e known trust) (en_peers e))\<rparr>"

record KeysScan =
  ks_trust :: PeerTrust
  ks_accepted :: "(PeerDevice \<times> string) list"
  ks_error :: "E2eError option"
  ks_changed :: bool

definition keys_bundle :: "MasterBlock \<Rightarrow> KeysEntry \<Rightarrow> PeerBundle" where
  "keys_bundle master known = \<lparr>
     pb_master = mb_ed25519 master, pb_list_version = ml_ver (mb_list master), pb_list_keys = ml_devices (mb_list master),
     pb_list_signature = mb_sig master, pb_device_ed25519 = ib_ed25519 (ke_id known),
     pb_curve25519 = ib_curve25519 (ke_id known), pb_id_signature = ib_sig (ke_id known) \<rparr>"

fun keys_loop :: "crypto_api \<Rightarrow> string \<Rightarrow> string \<Rightarrow> MasterBlock \<Rightarrow> string list \<Rightarrow> KeysEntry list \<Rightarrow> KeysScan \<Rightarrow> KeysScan" where
  "keys_loop C network nick master seen [] scan = scan"
| "keys_loop C network nick master seen (known # entries) scan =
     (let device_key = ib_ed25519 (ke_id known) in
      if device_key \<in> set seen then keys_loop C network nick master seen entries scan
      else
        (case verify_peer_device C (ks_trust scan) network nick None (keys_bundle master known) of
           (trust, r) \<Rightarrow>
             let checked = rbind r (\<lambda>device.
                   rbind (wire (bundle_key_signed_text C (otk_key (ke_otk known)))) (\<lambda>signed.
                   rbind (verify_signature C device_key (otk_sig (ke_otk known)) signed) (\<lambda>_. Inr device)));
                 scan = scan\<lparr>ks_trust := trust\<rparr>;
                 scan = (case checked of
                           Inr device \<Rightarrow> scan\<lparr>ks_accepted := ks_accepted scan @ [(device, otk_key (ke_otk known))]\<rparr>
                         | Inl err \<Rightarrow> scan\<lparr>ks_changed := (ks_changed scan \<or> err = E2e_MasterChanged),
                                           ks_error := (case ks_error scan of None \<Rightarrow> Some err | Some first \<Rightarrow> Some first)\<rparr>)
             in keys_loop C network nick master (device_key # seen) entries scan))"

definition cache_keys :: "string \<Rightarrow> PeerDevice \<times> string \<Rightarrow> Engine \<Rightarrow> Engine" where
  "cache_keys nick = (\<lambda>(device, one_time_key) e.
     e\<lparr>en_revoked_dids := en_revoked_dids e - {pd_did device},
       en_peers := AList.update (pd_did device)
         \<lparr> pe_nick = nick, pe_device = device, pe_one_time_key = Some one_time_key \<rparr> (en_peers e)\<rparr>)"

definition scan_keys :: "crypto_api \<Rightarrow> string \<Rightarrow> string \<Rightarrow> PeerTrust \<Rightarrow> KeysPayload \<Rightarrow> KeysScan" where
  "scan_keys C network nick trust payload =
     (let master = kp_master payload in
      case apply_peer_list C trust network nick (mb_ed25519 master) (ml_ver (mb_list master))
             (ml_devices (mb_list master)) (mb_sig master) of
        (trust, listed) \<Rightarrow>
          keys_loop C network nick master [] (kp_devices payload)
            (case listed of
               Inl err \<Rightarrow> \<lparr> ks_trust = trust, ks_accepted = [], ks_error = Some err, ks_changed = (err = E2e_MasterChanged) \<rparr>
             | Inr _ \<Rightarrow> \<lparr> ks_trust = trust, ks_accepted = [], ks_error = None, ks_changed = False \<rparr>))"

definition accept_keys ::
    "('v, 'a, 's) engine_env \<Rightarrow> string \<Rightarrow> string \<Rightarrow> Engine \<Rightarrow> Engine \<times> ('h EngineError + string list)" where
  "accept_keys E nick keys e =
     (case KeysPayload_parse E keys of
        Inl err \<Rightarrow> (e, Inl (EE_Wire err))
      | Inr payload \<Rightarrow>
          let scan = scan_keys (ee_crypto E) (en_network e) nick (en_trust e) payload;
              e = (if ks_changed scan then note_trust_changed nick e else e)
          in (case stateDo E (SetTrust (ks_trust scan)) e of
                (e, Inl err) \<Rightarrow> (e, Inl (EE_Store err))
              | (e, Inr _) \<Rightarrow>
                  let e = forget_revoked (ks_trust scan) e;
                      e = fold (cache_keys nick) (ks_accepted scan) e;
                      dids = map (\<lambda>(device, _). pd_did device) (ks_accepted scan)
                  in (if dids \<noteq> [] then (set_peer_capability nick True e, Inr dids)
                      else (e, Inl (case ks_error scan of Some err \<Rightarrow> EE_Device err | None \<Rightarrow> EE_Wire BadDeviceCount)))))"

section \<open>Lists inside messages\<close>

definition apply_list_message ::
    "('v, 'a, 's) engine_env \<Rightarrow> string \<Rightarrow> MasterBlock \<Rightarrow> Engine \<Rightarrow> Engine \<times> ('h EngineError + unit)" where
  "apply_list_message E nick block e =
     (case apply_peer_list (ee_crypto E) (en_trust e) (en_network e) nick (mb_ed25519 block) (ml_ver (mb_list block))
             (ml_devices (mb_list block)) (mb_sig block) of
        (trust, Inr Replace) \<Rightarrow>
          (case stateDo E (SetTrust trust) e of
             (e, Inl err) \<Rightarrow> (e, Inl (EE_Store err))
           | (e, Inr _) \<Rightarrow>
               let e = forget_revoked trust e
               in (e\<lparr>en_listreq_lv := AList.delete (en_fold e nick) (en_listreq_lv e)\<rparr>, Inr ()))
      | (_, Inr _) \<Rightarrow> (e, Inr ())
      | (_, Inl err) \<Rightarrow> (if err = E2e_MasterChanged then note_trust_changed nick e else e, Inl (EE_Device err)))"

definition queue_list_reply :: "('v, 'a, 's) engine_env \<Rightarrow> string \<Rightarrow> string \<Rightarrow> Engine \<Rightarrow> Engine" where
  "queue_list_reply E nick did e =
     (case clock_now E e of (e, now) \<Rightarrow>
        let e = e\<lparr>en_list_answered := filter (\<lambda>(_, at). now - at < LISTREQ_INTERVAL) (en_list_answered e)\<rparr>;
            key = (en_fold e nick, did)
        in (if map_of (en_list_answered e) key \<noteq> None then e
            else e\<lparr>en_list_answered := AList.update key now (en_list_answered e),
                   en_list_jobs := en_list_jobs e @ [\<lparr> lj_nick = nick, lj_did = did, lj_reply = True \<rparr>]\<rparr>))"

text \<open>\<^verbatim>\<open>own_list\<close> and \<^verbatim>\<open>sibling_dids\<close>.\<close>

definition own_list :: "crypto_api \<Rightarrow> Store \<Rightarrow> (SignedList \<times> string) option" where
  "own_list C s =
     Option.bind (sd_signed_list (st_data s)) (\<lambda>l.
     Option.bind (sd_device_certificate (st_data s)) (\<lambda>certificate.
       if is_ok (verify_signed_list C (sl_version l) (sl_keys l) (vc_master_ed25519 certificate) (sl_signature l))
       then Some (l, vc_master_ed25519 certificate) else None))"

definition did_of :: "crypto_api \<Rightarrow> string \<Rightarrow> string option" where
  "did_of C key = (case did_from_key_text C key of Inl _ \<Rightarrow> None | Inr did \<Rightarrow> Some did)"

definition sibling_dids :: "('v, 'a, 's) engine_env \<Rightarrow> Engine \<Rightarrow> (string \<times> string) list" where
  "sibling_dids E e =
     (case own_list (ee_crypto E) (en_state e) of
        None \<Rightarrow> []
      | Some (l, _) \<Rightarrow>
          filter (\<lambda>(did, _). did \<notin> en_revoked_dids e)
            (List.map_filter (\<lambda>key. map_option (\<lambda>did. (did, key)) (did_of (ee_crypto E) key))
              (filter (\<lambda>key. key \<noteq> en_own_ed25519 e \<and> key \<notin> set (sd_own_revoked (st_data (en_state e)))) (sl_keys l))))"

definition refresh_stale_list :: "('v, 'a, 's) engine_env \<Rightarrow> string \<Rightarrow> InboxRow \<Rightarrow> Engine \<Rightarrow> Engine" where
  "refresh_stale_list E nick row e =
     (case MessagePayload_parse E (row_verb row) (row_payload row) of
        Inl _ \<Rightarrow> e
      | Inr payload \<Rightarrow>
          (case own_list (ee_crypto E) (en_state e) of
             None \<Rightarrow> e
           | Some (l, _) \<Rightarrow>
               let listed = List.map_filter (did_of (ee_crypto E)) (sl_keys l)
               in (if list_ex (\<lambda>did. did \<notin> set listed) (map fst (bodies payload))
                   then queue_list_reply E nick (row_from_did row) e else e)))"

definition maybe_list_request :: "('v, 'a, 's) engine_env \<Rightarrow> string \<Rightarrow> string \<Rightarrow> nat \<Rightarrow> Engine \<Rightarrow> Engine" where
  "maybe_list_request E nick did lv e =
     (let version = list_version (en_trust e) (en_network e) nick;
          key = en_fold e nick;
          asked = {n \<in> (case map_of (en_listreq_lv e) key of None \<Rightarrow> {} | Some asked \<Rightarrow> asked). version < n};
          e = e\<lparr>en_listreq_lv := AList.update key asked (en_listreq_lv e)\<rparr>
      in if lv \<le> version \<or> lv \<in> asked then e
         else (case clock_now E e of (e, now) \<Rightarrow>
           (case IntervalLimiter_try_acquire (en_listreq e) nick (en_casemapping e) now of
              (l, False) \<Rightarrow> e\<lparr>en_listreq := l\<rparr>
            | (l, True) \<Rightarrow>
                e\<lparr>en_listreq := l, en_listreq_lv := AList.update key (insert lv asked) (en_listreq_lv e),
                  en_list_jobs := en_list_jobs e @ [\<lparr> lj_nick = nick, lj_did = did, lj_reply = False \<rparr>]\<rparr>)))"

section \<open>Opening a row\<close>

definition certified_bundle :: "PreKeyPayload \<Rightarrow> CertifiedBundle" where
  "certified_bundle pre = \<lparr>
     cb_master = mr_ed25519 (pp_master pre), cb_certificate_version = mr_ver (pp_master pre),
     cb_certificate_signature = mr_cert (pp_master pre), cb_device_ed25519 = ib_ed25519 (pp_id pre),
     cb_curve25519 = ib_curve25519 (pp_id pre), cb_id_signature = ib_sig (pp_id pre) \<rparr>"

definition opt_of :: "'e + 'x \<Rightarrow> 'x option" where
  "opt_of r = (case r of Inl _ \<Rightarrow> None | Inr x \<Rightarrow> Some x)"

definition replay_ok :: "ReplayState \<times> (E2eError + unit) \<Rightarrow> ReplayState option" where
  "replay_ok p = (case p of (st, Inr _) \<Rightarrow> Some st | (_, Inl _) \<Rightarrow> None)"

text \<open>A first message: who the sender is, then the session that exists or a new one.\<close>

definition prekey_sender ::
    "('v, 'a, 's) engine_env \<Rightarrow> Engine \<Rightarrow> InboxRow \<Rightarrow> PeerEntry option \<Rightarrow> string \<Rightarrow> PreKeyPayload
     \<Rightarrow> (PeerDevice \<times> PeerTrust \<times> ReplayState) option" where
  "prekey_sender E e row known nick pre =
     Option.bind (did_of (ee_crypto E) (ib_ed25519 (pp_id pre))) (\<lambda>did.
     if did \<noteq> row_from_did row then None
     else
       (case verify_certified_device (ee_crypto E) (en_trust e) (en_network e) nick (certified_bundle pre) of
          (_, Inl _) \<Rightarrow> None
        | (trust, Inr device) \<Rightarrow>
            if (case known of None \<Rightarrow> False | Some known \<Rightarrow> pd_curve25519 (pe_device known) \<noteq> pd_curve25519 device) then None
            else
              Option.bind (replay_ok (accept_first_message (sd_replay (st_data (en_state e))) (en_network e) nick
                                        (row_from_did row) (row_msgid row))) (\<lambda>replay.
              if \<not> olm_curve_ok E (pd_curve25519 device) then None else Some (device, trust, replay))))"

definition open_prekey ::
    "('v, 'a, 's) engine_env \<Rightarrow> Engine \<Rightarrow> InboxRow \<Rightarrow> PeerEntry option \<Rightarrow> string \<Rightarrow> PreKeyPayload \<Rightarrow> string
     \<Rightarrow> ('a, 's) Decrypted option" where
  "open_prekey E e row known nick pre body =
     Option.bind (prekey_sender E e row known nick pre) (\<lambda>(device, trust, replay).
     Option.bind (olm_prekey_id E body) (\<lambda>message_id.
     let expected_fb = recipient_binding (ee_crypto E) (pd_ed25519 device) (en_own_ed25519 e);
         learned = Some (\<lparr> pe_nick = nick, pe_device = device,
                            pe_one_time_key = Option.bind known pe_one_time_key \<rparr>, trust)
     in
     Option.bind (opt_of (peer_session (ee_store E) (en_state e) (en_network e) nick (row_from_did row))) (\<lambda>found.
     case (case found of None \<Rightarrow> None
           | Some session \<Rightarrow> if olm_session_id E session = message_id then Some session else None) of
       Some session \<Rightarrow>
         Option.bind (olm_decrypt_prekey E session body) (\<lambda>(session, plain).
         Option.bind (Option.bind (Inner_parse E plain) (\<lambda>inner. bound_to inner expected_fb)) (\<lambda>inner.
           Some \<lparr> de_inner = inner, de_identity = None, de_session = session, de_replay = Some replay,
                   de_learned = learned \<rparr>))
     | None \<Rightarrow>
         Option.bind (Option.bind (opt_of (olm_identity (ee_store E) (en_state e))) id) (\<lambda>identity.
         Option.bind (olm_inbound E identity (pd_curve25519 device) body) (\<lambda>(identity, session, plain).
         Option.bind (replay_ok (accept_new_session replay (en_network e) nick (row_from_did row)
                                   (olm_session_id E session))) (\<lambda>replay.
         Option.bind (Option.bind (Inner_parse E plain) (\<lambda>inner. bound_to inner expected_fb)) (\<lambda>inner.
           Some \<lparr> de_inner = inner, de_identity = Some identity, de_session = session, de_replay = Some replay,
                   de_learned = learned \<rparr>)))))))"

definition no_inner :: Inner where
  "no_inner = \<lparr> in_kind = IK_Other, in_lv = None, in_fb = None, in_cid = None \<rparr>"

definition open_normal ::
    "('v, 'a, 's) engine_env \<Rightarrow> Engine \<Rightarrow> InboxRow \<Rightarrow> PeerEntry option \<Rightarrow> string \<Rightarrow> MsgPayload \<Rightarrow> string
     \<Rightarrow> ('a, 's) Decrypted option" where
  "open_normal E e row known nick normal body =
     (if (case known of None \<Rightarrow> False | Some known \<Rightarrow> pd_curve25519 (pe_device known) \<noteq> mp_ck normal) then None
      else
        Option.bind (Option.bind (opt_of (peer_session (ee_store E) (en_state e) (en_network e) nick (row_from_did row))) id) (\<lambda>session.
        if \<not> olm_message_ok E body then None
        else
          Option.bind (olm_decrypt E session body) (\<lambda>(session, plain).
            Some \<lparr> de_inner = (case Inner_parse E plain of None \<Rightarrow> no_inner | Some inner \<Rightarrow> inner),
                    de_identity = None, de_session = session, de_replay = None, de_learned = None \<rparr>)))"

definition decrypt_row ::
    "('v, 'a, 's) engine_env \<Rightarrow> Engine \<Rightarrow> InboxRow \<Rightarrow> PeerEntry option \<Rightarrow> string \<Rightarrow> ('a, 's) Decrypted option" where
  "decrypt_row E e row known nick =
     Option.bind (opt_of (MessagePayload_parse E (row_verb row) (row_payload row))) (\<lambda>payload.
     Option.bind (map_of (bodies payload) (en_own_did e)) (\<lambda>body.
       case payload of
         PreKey pre \<Rightarrow> open_prekey E e row known nick pre body
       | Normal normal \<Rightarrow> open_normal E e row known nick normal body))"

section \<open>Keeping what a row gave\<close>

definition save_state ::
    "('v, 'a, 's) engine_env \<Rightarrow> string \<Rightarrow> string \<Rightarrow> ('a, 's) Decrypted \<Rightarrow> Engine \<Rightarrow> Engine \<times> (E2eStoreError + unit)" where
  "save_state E nick did decrypted e =
     (case (case de_learned decrypted of
              None \<Rightarrow> (e, Inr ())
            | Some (_, trust) \<Rightarrow> stateDo E (SetTrust trust) e) of
        (e, Inl err) \<Rightarrow> (e, Inl err)
      | (e, Inr _) \<Rightarrow>
          (case stateDo E (SetInbound (en_network e) nick did (de_session decrypted) (de_identity decrypted) (de_replay decrypted)) e of
             (e, Inl err) \<Rightarrow> (e, Inl err)
           | (e, Inr _) \<Rightarrow>
               (case de_learned decrypted of
                  None \<Rightarrow> e
                | Some (known, _) \<Rightarrow>
                    e\<lparr>en_revoked_dids := en_revoked_dids e - {pd_did (pe_device known)},
                      en_peers := AList.update (pd_did (pe_device known)) known (en_peers e)\<rparr>, Inr ())))"

definition row_captures :: "InboxRow \<Rightarrow> E2eCapture list" where
  "row_captures row =
     (if row_own row then []
      else [\<lparr> cap_verb = inbox_verb_name (row_verb row),
              cap_msgid = (if row_msgid row = [] then None else Some (row_msgid row)),
              cap_payload = row_payload row, cap_direction = CaptureIn \<rparr>])"

definition received_message :: "Engine \<Rightarrow> InboxRow \<Rightarrow> string \<Rightarrow> string \<Rightarrow> string \<Rightarrow> string \<Rightarrow> int \<Rightarrow> E2eMessage" where
  "received_message e row peer i sender t now =
     \<lparr> em_id = i, em_conversation_id = conversation_id (en_network e) peer, em_sender_device = sender,
       em_sent_at = now, em_text = t, em_encrypted = True, em_captures = row_captures row \<rparr>"

definition row_stored :: "Engine \<Rightarrow> string \<Rightarrow> string \<Rightarrow> bool" where
  "row_stored e peer i \<longleftrightarrow>
     list_ex (\<lambda>m. em_id m = i) (history_messages (en_history e) (conversation_id (en_network e) peer))"

definition store_decrypted ::
    "('v, 'a, 's) engine_env \<Rightarrow> string \<Rightarrow> InboxRow \<Rightarrow> ('a, 's) Decrypted \<Rightarrow> string \<Rightarrow> string \<Rightarrow> string \<Rightarrow> string \<Rightarrow> int
     \<Rightarrow> Engine \<Rightarrow> Engine \<times> RowOutcome" where
  "store_decrypted E nick row decrypted peer i sender t now e =
     (case (if row_stored e peer i then (e, Inr ())
            else historyAppend E (received_message e row peer i sender t now) e) of
        (e, Inl _) \<Rightarrow> (e, StoreFailed)
      | (e, Inr _) \<Rightarrow>
          (case save_state E nick (row_from_did row) decrypted e of
             (e, Inl _) \<Rightarrow> (e, StoreFailed)
           | (e, Inr _) \<Rightarrow> (note_changed peer e, Stored)))"

section \<open>Copies of own messages\<close>

definition stale_or_refuse :: "nat \<Rightarrow> Engine \<Rightarrow> Engine \<times> RowOutcome" where
  "stale_or_refuse i e =
     (let tries = (case map_of (en_stale_tries e) i of None \<Rightarrow> 0 | Some n \<Rightarrow> n) + 1
      in (e\<lparr>en_stale_tries := AList.update i tries (en_stale_tries e)\<rparr>,
          if tries < MAX_SENDS then StaleList else Undecryptable))"

definition release_stale_try :: "nat \<Rightarrow> Engine \<Rightarrow> Engine" where
  "release_stale_try i e =
     (case map_of (en_stale_tries e) i of
        None \<Rightarrow> e
      | Some tries \<Rightarrow> e\<lparr>en_stale_tries := AList.update i (tries - 1) (en_stale_tries e)\<rparr>)"

definition entry_nick :: "InboxRow \<Rightarrow> PeerEntry option \<Rightarrow> string" where
  "entry_nick row known = (case known of None \<Rightarrow> row_from row | Some known \<Rightarrow> pe_nick known)"

definition copy_row_id :: "Engine \<Rightarrow> InboxRow \<Rightarrow> Inner \<Rightarrow> string" where
  "copy_row_id e row inner =
     (case in_cid inner of
        Some cid \<Rightarrow> if valid_peer cid then en_network e @ '':own:'' @ row_from_did row @ '':'' @ cid
                     else en_network e @ '':own:'' @ dec_string (row_id row)
      | None \<Rightarrow> en_network e @ '':own:'' @ dec_string (row_id row))"

definition receive_copy :: "('v, 'a, 's) engine_env \<Rightarrow> InboxRow \<Rightarrow> int \<Rightarrow> Engine \<Rightarrow> Engine \<times> RowOutcome" where
  "receive_copy E row now e =
     (case own_list (ee_crypto E) (en_state e) of
        None \<Rightarrow> (e, Undecryptable)
      | Some (l, _) \<Rightarrow>
          let listed = list_ex (\<lambda>(did, _). did = row_from_did row) (sibling_dids E e);
              known = map_of (en_peers e) (row_from_did row);
              nick = entry_nick row known;
              revoked_key = list_ex (\<lambda>key. did_from_key_text (ee_crypto E) key = Inr (row_from_did row))
                              (sd_own_revoked (st_data (en_state e)))
          in
          if revoked_key \<or> row_from_did row = en_own_did e \<or> row_from_did row \<in> en_revoked_dids e
             \<or> is_did_revoked (ee_crypto E) (en_trust e) (en_network e) nick (row_from_did row)
          then (e, Undecryptable)
          else if \<not> listed then stale_or_refuse (row_id row) e
          else
            (case decrypt_row E e row known nick of
               None \<Rightarrow> (e, Undecryptable)
             | Some decrypted \<Rightarrow>
                 if (case in_lv (de_inner decrypted) of None \<Rightarrow> False | Some lv \<Rightarrow> sl_version l < lv)
                 then stale_or_refuse (row_id row) e
                 else
                   let save = (case save_state E nick (row_from_did row) decrypted e of
                                 (e, Inr _) \<Rightarrow> (e, Ignored) | (e, Inl _) \<Rightarrow> (e, StoreFailed))
                   in
                   (case in_kind (de_inner decrypted) of
                      IK_Copy peer body \<Rightarrow>
                        if valid_peer peer then
                          store_decrypted E nick row decrypted peer (copy_row_id e row (de_inner decrypted)) OWN_DEVICE body now e
                        else (e, Undecryptable)
                    | IK_Text _ \<Rightarrow> (e, Undecryptable)
                    | IK_Other \<Rightarrow> save
                    | IK_List _ \<Rightarrow> save
                    | IK_ListReq \<Rightarrow> save)))"

section \<open>Messages of a peer\<close>

definition unread_row :: "('v, 'a, 's) engine_env \<Rightarrow> InboxRow \<Rightarrow> string \<Rightarrow> PeerEntry option \<Rightarrow> Engine \<Rightarrow> Engine" where
  "unread_row E row nick known e =
     (let changed = (case MessagePayload_parse E (row_verb row) (row_payload row) of
                       Inr (PreKey pre) \<Rightarrow>
                         (case trust_master (en_trust e) (en_network e) nick of
                            None \<Rightarrow> False | Some master \<Rightarrow> master \<noteq> mr_ed25519 (pp_master pre))
                     | _ \<Rightarrow> False);
          e = (if changed then note_trust_changed nick e else e)
      in if known = None then want_keys nick e else e)"

definition message_row_id :: "Engine \<Rightarrow> InboxRow \<Rightarrow> string" where
  "message_row_id e row = en_network e @ '':in:'' @ dec_string (row_id row)"

text \<open>A message that only moves the session on: the state is saved, then a list is applied or queued.\<close>

definition keep_session ::
    "('v, 'a, 's) engine_env \<Rightarrow> InboxRow \<Rightarrow> string \<Rightarrow> ('a, 's) Decrypted \<Rightarrow> Engine \<Rightarrow> Engine \<times> RowOutcome" where
  "keep_session E row nick decrypted e =
     (case save_state E nick (row_from_did row) decrypted e of
        (e, Inl _) \<Rightarrow> (e, StoreFailed)
      | (e, Inr _) \<Rightarrow>
          (case in_kind (de_inner decrypted) of
             IK_List master \<Rightarrow>
               (case (apply_list_message E nick master e :: Engine \<times> (unit EngineError + unit)) of
                  (e, Inl (EE_Store _)) \<Rightarrow>
                    (e\<lparr>en_listreq_lv := AList.delete (en_fold e nick) (en_listreq_lv e)\<rparr>, StoreFailed)
                | (e, _) \<Rightarrow> (e, Ignored))
           | IK_ListReq \<Rightarrow> (queue_list_reply E nick (row_from_did row) e, Ignored)
           | _ \<Rightarrow> (e, Ignored)))"

text \<open>A sender that is refused before a decryption: its id, or a key of its known device, is revoked.\<close>

definition refused_sender :: "('v, 'a, 's) engine_env \<Rightarrow> Engine \<Rightarrow> InboxRow \<Rightarrow> bool" where
  "refused_sender E e row \<longleftrightarrow>
     (let known = map_of (en_peers e) (row_from_did row) in
      row_from_did row \<in> en_revoked_dids e
      \<or> is_did_revoked (ee_crypto E) (en_trust e) (en_network e) (entry_nick row known) (row_from_did row)
      \<or> (case known of None \<Rightarrow> False | Some known \<Rightarrow> entry_revoked e known (en_trust e)))"

text \<open>What a decrypted message does. The early return after a list that could not be saved gives
  \<open>StoreFailed\<close>, for which no list is asked either.\<close>

definition receive_decrypted ::
    "('v, 'a, 's) engine_env \<Rightarrow> InboxRow \<Rightarrow> int \<Rightarrow> string \<Rightarrow> ('a, 's) Decrypted \<Rightarrow> Engine \<Rightarrow> Engine \<times> RowOutcome" where
  "receive_decrypted E row now nick decrypted e =
     (case (case in_kind (de_inner decrypted) of
              IK_Text body \<Rightarrow>
                store_decrypted E nick row decrypted nick (message_row_id e row) (row_from_did row) body now e
            | IK_Copy _ _ \<Rightarrow> (e, Undecryptable)
            | _ \<Rightarrow> keep_session E row nick decrypted e) of
        (e, result) \<Rightarrow>
          ((case in_lv (de_inner decrypted) of
              Some lv \<Rightarrow>
                if result = Stored \<or> result = Ignored then maybe_list_request E nick (row_from_did row) lv e else e
            | None \<Rightarrow> e), result))"

definition receive_message :: "('v, 'a, 's) engine_env \<Rightarrow> InboxRow \<Rightarrow> int \<Rightarrow> Engine \<Rightarrow> Engine \<times> RowOutcome" where
  "receive_message E row now e =
     (if row_own row then receive_copy E row now e
      else if refused_sender E e row then (e, Undecryptable)
      else
        let known = map_of (en_peers e) (row_from_did row);
            nick = entry_nick row known
        in (case decrypt_row E e row known nick of
              None \<Rightarrow> (unread_row E row nick known e, Undecryptable)
            | Some decrypted \<Rightarrow>
                receive_decrypted E row now nick decrypted (refresh_stale_list E nick row (set_peer_capability nick True e))))"

section \<open>A NACK\<close>

text \<open>\<^verbatim>\<open>min_by_key\<close> over the map of sent texts; of several oldest ones any may come first.\<close>

definition oldest_sent :: "(string \<times> SentRecord) list \<Rightarrow> string option" where
  "oldest_sent sent =
     (case sent of
        [] \<Rightarrow> None
      | x # xs \<Rightarrow> Some (fst (fold (\<lambda>y m. if sr_at (snd y) < sr_at (snd m) then y else m) xs x)))"

lemma oldest_sent_mem:
  assumes "oldest_sent sent = Some m"
  shows "m \<in> fst ` set sent"
proof -
  let ?F = "\<lambda>(y :: string \<times> SentRecord) m. if sr_at (snd y) < sr_at (snd m) then y else m"
  have mem: "fold ?F xs x \<in> insert x (set xs)" for xs x
  proof (induction xs arbitrary: x)
    case (Cons y ys)
    show ?case using Cons [of "?F y x"] by (cases "sr_at (snd y) < sr_at (snd x)") auto
  qed simp
  show ?thesis
  proof (cases sent)
    case (Cons x xs)
    then show ?thesis using assms mem [of xs x] by (auto simp: oldest_sent_def intro: imageI)
  qed (use assms in \<open>simp add: oldest_sent_def\<close>)
qed

lemma delete_shorter: "k \<in> fst ` set xs \<Longrightarrow> length (AList.delete k xs) < length xs"
  by (induction xs) (auto simp: delete_simps intro: le_imp_less_Suc length_delete_le)

function trim_oldest :: "(string \<times> SentRecord) list \<Rightarrow> (string \<times> SentRecord) list" where
  "trim_oldest sent =
     (if length sent > SENT_MAX then
        (case oldest_sent sent of None \<Rightarrow> sent | Some msgid \<Rightarrow> trim_oldest (AList.delete msgid sent))
      else sent)"
  by pat_completeness auto
termination
  by (relation "measure length") (auto intro: delete_shorter dest: oldest_sent_mem)

declare trim_oldest.simps [simp del]

definition trim_sent :: "('v, 'a, 's) engine_env \<Rightarrow> Engine \<Rightarrow> Engine" where
  "trim_sent E e =
     (case clock_now E e of (e, now) \<Rightarrow>
        e\<lparr>en_sent := trim_oldest (filter (\<lambda>(_, record). now - sr_at record < SENT_MEMORY) (en_sent e))\<rparr>)"

text \<open>The re-send of \<open>record\<close>, which names one device: a new session and a queued text.\<close>

definition queue_resend ::
    "('v, 'a, 's) engine_env \<Rightarrow> SendKey \<Rightarrow> SentRecord \<Rightarrow> string \<Rightarrow> Engine \<Rightarrow> Engine" where
  "queue_resend E key record did e =
     (let session_nick = (case map_of (en_peers e) did of None \<Rightarrow> sr_nick record | Some known \<Rightarrow> pe_nick known) in
      case stateDo E (RemovePeerSession (en_network e) session_nick did) e of
        (e, Inl _) \<Rightarrow> fst (fail_send E key SendFailed e)
      | (e, Inr _) \<Rightarrow>
          let e = e\<lparr>en_local_sends := en_local_sends e + 1\<rparr>;
              queue_key = SendKey_new (en_network e) (sr_nick record) (''q'' @ dec_string (en_local_sends e))
          in (case clock_now E e of (e, now) \<Rightarrow>
                (case OutgoingQueue_push (en_queue e) queue_key (en_casemapping e) now of
                   (q, False) \<Rightarrow> fst (fail_send E key SendFailed (e\<lparr>en_queue := q\<rparr>))
                 | (q, True) \<Rightarrow>
                     want_keys (sr_nick record)
                       (e\<lparr>en_queue := q, en_book := SendBook_start queue_key (en_book e),
                          en_row_ids := AList.update queue_key (sr_row_id record) (en_row_ids e),
                          en_pending := AList.update queue_key
                            \<lparr> pt_text = sr_text record, pt_sends = sr_sends record + 1, pt_row_id = sr_row_id record,
                              pt_did = Some did \<rparr> (en_pending e)\<rparr>))))"

definition on_nack :: "('v, 'a, 's) engine_env \<Rightarrow> InboxRow \<Rightarrow> Engine \<Rightarrow> Engine" where
  "on_nack E row e0 =
     (let e = trim_sent E e0 in
      case nack_reference E (row_payload row) of
        None \<Rightarrow> e
      | Some reference \<Rightarrow>
          (case map_of (en_sent e) reference of
             None \<Rightarrow> e
           | Some record \<Rightarrow>
               let key = SendKey_new (en_network e) (sr_nick record) reference;
                   did = row_from_did row
               in
               if en_fold e (sr_nick record) \<noteq> en_fold e (row_from row) then e
               else if did = WILDCARD \<or> did \<notin> set (sr_dids record) \<and> did \<notin> sr_known_peer_dids record then
                 fst (fail_send E key Pacing.Unreadable (e\<lparr>en_sent := AList.delete reference (en_sent e)\<rparr>))
               else if did \<notin> set (sr_dids record) then e
               else
                 let others = filter (\<lambda>d. d \<noteq> did) (sr_dids record);
                     e = e\<lparr>en_sent := (if others = [] then AList.delete reference (en_sent e)
                                        else AList.update reference (record\<lparr>sr_dids := others\<rparr>) (en_sent e))\<rparr>
                 in
                 if sr_sends record \<ge> MAX_SENDS then fst (fail_send E key SendFailed e)
                 else
                   (case clock_now E e of (e, now) \<Rightarrow>
                      (case IntervalLimiter_try_acquire (en_rekey e) (sr_nick record) (en_casemapping e) now of
                         (l, False) \<Rightarrow> fst (fail_send E key SendFailed (e\<lparr>en_rekey := l\<rparr>))
                       | (l, True) \<Rightarrow> queue_resend E key record did (e\<lparr>en_rekey := l\<rparr>)))))"

section \<open>One row\<close>

definition read_row :: "('v, 'a, 's) engine_env \<Rightarrow> InboxRow \<Rightarrow> int \<Rightarrow> Engine \<Rightarrow> Engine \<times> RowOutcome" where
  "read_row E row now e =
     (case row_verb row of
        IV_Keys \<Rightarrow>
          (case (accept_keys E (row_from row) (row_payload row) e :: Engine \<times> (unit EngineError + string list)) of
             (e, Inr _) \<Rightarrow> (e, KeysRead)
           | (e, Inl (EE_Store _)) \<Rightarrow> (e, StoreFailed)
           | (e, Inl _) \<Rightarrow> (e, Undecryptable))
      | IV_Nack \<Rightarrow> (on_nack E row e, Ignored)
      | _ \<Rightarrow> receive_message E row now e)"

definition handle_row :: "('v, 'a, 's) engine_env \<Rightarrow> InboxRow \<Rightarrow> int \<Rightarrow> Engine \<Rightarrow> Engine \<times> RowOutcome" where
  "handle_row E row now e =
     (if row_id row \<in> en_seen e then (e, Duplicate)
      else
        (case read_row E row now e of
           (e, result) \<Rightarrow>
             (if acknowledge result then e\<lparr>en_seen := insert (row_id row) (en_seen e)\<rparr> else e, result)))"

end
