(* ===== verification/Engine_Facts.thy ===== *)
theory Engine_Facts
  imports Engine Effects
begin

text \<open>
  What the receive path does to the parts of an engine that last: the sealed state, the sealed history
  and their disk. Every operation is a sequence of the steps of \<open>engine_step\<close>, so an invariant of the
  steps is an invariant of every run of rows.
\<close>

section \<open>The steps\<close>

definition same_core :: "Engine \<Rightarrow> Engine \<Rightarrow> bool" where
  "same_core e e' \<longleftrightarrow>
     en_network e' = en_network e \<and> en_own_did e' = en_own_did e \<and> en_own_ed25519 e' = en_own_ed25519 e \<and>
     en_state e' = en_state e \<and> en_history e' = en_history e \<and> en_disk e' = en_disk e \<and>
     en_casemapping e' = en_casemapping e \<and> en_seen e' = en_seen e"

text \<open>The writes of the receive path: a trust state that the doors made of the stored one, the session
  of a message, the end of a session, and the mark of a dropped send.\<close>

inductive receive_op :: "crypto_api \<Rightarrow> Engine \<Rightarrow> ('a, 's) StoreOp \<Rightarrow> bool" for C e where
  trust_op: "door_run C (en_network e) nick (en_trust e) t \<Longrightarrow> receive_op C e (SetTrust t)"
| inbound_op: "receive_op C e (SetInbound (en_network e) nick did x a r)"
| remove_op: "receive_op C e (RemovePeerSession (en_network e) nick did)"
| dropped_op: "receive_op C e (SetDroppedRow row reason)"

definition row_fresh :: "E2eMessage \<Rightarrow> HistoryStore \<Rightarrow> bool" where
  "row_fresh m h \<longleftrightarrow> (\<forall>k \<in> set (hs_messages h). em_conversation_id k = em_conversation_id m \<longrightarrow> em_id k \<noteq> em_id m)"

inductive engine_step :: "('v, 'a, 's) engine_env \<Rightarrow> Engine \<Rightarrow> Engine \<Rightarrow> bool" for E where
  memory: "same_core e e' \<Longrightarrow> engine_step E e e'"
| write_state: "receive_op (ee_crypto E) e x \<Longrightarrow> engine_step E e (fst (stateDo E x e))"
| append_row: "row_fresh m (en_history e) \<Longrightarrow> em_encrypted m \<Longrightarrow> engine_step E e (fst (historyAppend E m e))"

abbreviation engine_run :: "('v, 'a, 's) engine_env \<Rightarrow> Engine \<Rightarrow> Engine \<Rightarrow> bool" where
  "engine_run E \<equiv> (engine_step E)\<^sup>*\<^sup>*"

lemma same_core_refl [simp]: "same_core e e"
  by (simp add: same_core_def)

lemma same_core_trans [trans]: "same_core e f \<Longrightarrow> same_core f g \<Longrightarrow> same_core e g"
  by (simp add: same_core_def)

lemma run_memory: "same_core e e' \<Longrightarrow> engine_run E e e'"
  by (blast intro: engine_step.memory)

lemma run_then_memory: "engine_run E e e' \<Longrightarrow> same_core e' e'' \<Longrightarrow> engine_run E e e''"
  by (meson engine_step.memory rtranclp.rtrancl_into_rtrancl)

lemma run_write:
  assumes "stateDo E x e = (e', r)" "receive_op (ee_crypto E) e x"
  shows "engine_run E e e'"
  using engine_step.write_state [OF assms(2)] assms(1) by (metis fst_conv r_into_rtranclp)

section \<open>Steps that only change the memory\<close>

lemma core_updates [simp]:
  "same_core e (f\<lparr>en_peers := x0\<rparr>) = same_core e f"
  "same_core e (f\<lparr>en_book := x1\<rparr>) = same_core e f"
  "same_core e (f\<lparr>en_revoked_dids := x2\<rparr>) = same_core e f"
  "same_core e (f\<lparr>en_keys_wanted := x3\<rparr>) = same_core e f"
  "same_core e (f\<lparr>en_trust_changed := x4\<rparr>) = same_core e f"
  "same_core e (f\<lparr>en_queue := x5\<rparr>) = same_core e f"
  "same_core e (f\<lparr>en_pending := x6\<rparr>) = same_core e f"
  "same_core e (f\<lparr>en_sent := x7\<rparr>) = same_core e f"
  "same_core e (f\<lparr>en_rekey := x8\<rparr>) = same_core e f"
  "same_core e (f\<lparr>en_row_ids := x9\<rparr>) = same_core e f"
  "same_core e (f\<lparr>en_dropped_rows := x10\<rparr>) = same_core e f"
  "same_core e (f\<lparr>en_capability := x11\<rparr>) = same_core e f"
  "same_core e (f\<lparr>en_changed_peers := x12\<rparr>) = same_core e f"
  "same_core e (f\<lparr>en_local_sends := x13\<rparr>) = same_core e f"
  "same_core e (f\<lparr>en_stale_tries := x14\<rparr>) = same_core e f"
  "same_core e (f\<lparr>en_list_jobs := x15\<rparr>) = same_core e f"
  "same_core e (f\<lparr>en_list_answered := x16\<rparr>) = same_core e f"
  "same_core e (f\<lparr>en_listreq := x17\<rparr>) = same_core e f"
  "same_core e (f\<lparr>en_listreq_lv := x18\<rparr>) = same_core e f"
  "same_core e (f\<lparr>en_draws := x19\<rparr>) = same_core e f"
  "same_core e (f\<lparr>en_ticks := x20\<rparr>) = same_core e f"
  "same_core e (f\<lparr>en_keyreq := x21\<rparr>) = same_core e f"
  "same_core e (f\<lparr>en_copy_jobs := x22\<rparr>) = same_core e f"
  "same_core e (f\<lparr>en_copy_tracker := x23\<rparr>) = same_core e f"
  by (simp_all add: same_core_def)

lemma notes_core [simp]:
  "same_core e (note_changed nick f) = same_core e f" "same_core e (note_trust_changed nick f) = same_core e f"
  "same_core e (want_keys nick f) = same_core e f" "same_core e (set_peer_capability nick c f) = same_core e f"
  "same_core e (forget_revoked t f) = same_core e f" "same_core e (cache_keys nick p f) = same_core e f"
  by (simp_all add: note_changed_def note_trust_changed_def want_keys_def set_peer_capability_def
      forget_revoked_def cache_keys_def split: prod.split)

lemma fold_cache_core [simp]: "same_core e (fold (cache_keys nick) ps f) = same_core e f"
  by (induction ps arbitrary: f) simp_all

lemma clock_core: "clock_now E f = (f', now) \<Longrightarrow> same_core e f' = same_core e f"
  by (auto simp: clock_now_def)

lemma queue_list_reply_core [simp]: "same_core e (queue_list_reply E nick did f) = same_core e f"
  by (simp add: queue_list_reply_def clock_now_def Let_def)

lemma refresh_stale_list_core [simp]: "same_core e (refresh_stale_list E nick row f) = same_core e f"
  by (simp add: refresh_stale_list_def Let_def split: sum.split option.split prod.split)

lemma maybe_list_request_core [simp]: "same_core e (maybe_list_request E nick did lv f) = same_core e f"
  by (simp add: maybe_list_request_def clock_now_def Let_def split: prod.split bool.split)

lemma stale_or_refuse_core: "stale_or_refuse i f = (f', r) \<Longrightarrow> same_core e f' = same_core e f \<and> r \<noteq> Stored"
  by (auto simp: stale_or_refuse_def Let_def split: if_splits)

lemma unread_row_core [simp]: "same_core e (unread_row E row nick known f) = same_core e f"
  by (simp add: unread_row_def Let_def)

lemma trim_sent_core [simp]: "same_core e (trim_sent E f) = same_core e f"
  by (simp add: trim_sent_def clock_now_def)

section \<open>The operations as runs of steps\<close>

lemma stateDo_fields:
  assumes "stateDo E x e = (e', r)"
  shows "en_network e' = en_network e" "en_own_did e' = en_own_did e" "en_own_ed25519 e' = en_own_ed25519 e"
    "en_history e' = en_history e" "en_casemapping e' = en_casemapping e" "en_seen e' = en_seen e"
    "en_peers e' = en_peers e" "en_revoked_dids e' = en_revoked_dids e"
  using assms by (auto simp: stateDo_def split: prod.splits)

lemma stateDo_state:
  assumes "stateDo E x e = (e', r)"
  shows "r = Inr () \<and> en_state e' = changed (ee_store E) (en_state e) x \<or> (\<exists>err. r = Inl err) \<and> en_state e' = en_state e"
proof -
  obtain d s' where st: "store_step (ee_store E) (en_disk e) (ee_nonce E (en_draws e)) (en_state e) x = (d, s', r)"
    and e': "e' = e\<lparr>en_disk := d, en_state := s', en_draws := en_draws e + 1\<rparr>"
    using assms by (auto simp: stateDo_def split: prod.splits)
  show ?thesis using store_step_memory [OF st] by (simp add: e')
qed

lemma note_drop_run: "engine_run E e (note_drop E event e)"
proof (cases "map_of (en_row_ids e) (sd_key event)")
  case None
  then show ?thesis by (intro run_memory) (simp add: note_drop_def)
next
  case (Some shown)
  obtain f r where f: "stateDo E (SetDroppedRow shown (DropReason_wire_name (sd_reason event))) e = (f, r)" by fastforce
  have "engine_run E e f" by (rule run_write [OF f]) (rule dropped_op)
  moreover have "same_core f (note_drop E event e)"
    using Some f by (simp add: note_drop_def Let_def)
  ultimately show ?thesis by (rule run_then_memory)
qed

lemma fail_send_run: "engine_run E e (fst (fail_send E key reason e))"
proof -
  obtain book b where b: "SendBook_drop_local (en_book e) key reason = (book, b)" by fastforce
  have m: "engine_run E e (e\<lparr>en_book := book\<rparr>)" by (intro run_memory) simp
  have "engine_run E e (note_drop E event (e\<lparr>en_book := book\<rparr>))" for event
    using m note_drop_run by (rule rtranclp_trans)
  then show ?thesis using m b by (simp add: fail_send_def Let_def note_drops_def)
qed

lemma queue_resend_run: "engine_run E e (queue_resend E key record did e)"
proof -
  let ?x = "RemovePeerSession (en_network e) (case map_of (en_peers e) did of None \<Rightarrow> sr_nick record | Some known \<Rightarrow> pe_nick known) did"
  obtain f r where f: "stateDo E ?x e = (f, r)" by fastforce
  have run: "engine_run E e f" by (rule run_write [OF f]) (rule remove_op)
  have fail: "engine_run E e (fst (fail_send E key SendFailed g))" if "same_core f g" for g
    using run_then_memory [OF run that] fail_send_run by (rule rtranclp_trans)
  have kept: "engine_run E e g" if "same_core f g" for g using run_then_memory [OF run that] .
  show ?thesis
    unfolding queue_resend_def Let_def f
    by (simp add: clock_now_def kept fail split: sum.split prod.split bool.split)
qed

lemma on_nack_run: "engine_run E e (on_nack E row e)"
proof -
  have start: "same_core e (trim_sent E e)" by simp
  have memory: "engine_run E e g" if "same_core (trim_sent E e) g" for g
    using run_memory same_core_trans [OF start that] .
  have fail: "engine_run E e (fst (fail_send E key reason g))" if "same_core (trim_sent E e) g" for key reason g
    using memory [OF that] fail_send_run by (rule rtranclp_trans)
  have resend: "engine_run E e (queue_resend E key rec did g)" if "same_core (trim_sent E e) g" for key rec did g
    using memory [OF that] queue_resend_run by (rule rtranclp_trans)
  show ?thesis
    unfolding on_nack_def Let_def
    by (simp add: clock_now_def memory fail resend split: option.split prod.split bool.split)
qed

lemma door_run_trans: "door_run C n k t t' \<Longrightarrow> door_run C n k t' t'' \<Longrightarrow> door_run C n k t t''"
  unfolding door_run_def by (metis (no_types, lifting) Un_iff foldl_append set_append)

lemma keys_loop_trust:
  "door_run C network nick t (ks_trust scan) \<Longrightarrow> door_run C network nick t (ks_trust (keys_loop C network nick master seen entries scan))"
proof (induction C network nick master seen entries scan rule: keys_loop.induct)
  case (2 C network nick master seen known entries scan)
  show ?case
  proof (cases "ib_ed25519 (ke_id known) \<in> set seen")
    case True
    then show ?thesis using "2.IH"(1) "2.prems" by simp
  next
    case False
    obtain trust r where v: "verify_peer_device C (ks_trust scan) network nick None (keys_bundle master known) = (trust, r)" by fastforce
    have "door_run C network nick t trust" by (rule door_run_trans [OF "2.prems" verify_peer_device_run [OF v]])
    then show ?thesis using "2.IH"(2) [OF refl False v [symmetric] refl refl refl] False v
      by (auto simp: Let_def split: sum.splits)
  qed
qed simp

lemma scan_keys_trust: "door_run C network nick t (ks_trust (scan_keys C network nick t payload))"
proof -
  obtain trust r where a: "apply_peer_list C t network nick (mb_ed25519 (kp_master payload)) (ml_ver (mb_list (kp_master payload)))
      (ml_devices (mb_list (kp_master payload))) (mb_sig (kp_master payload)) = (trust, r)" by fastforce
  show ?thesis using apply_peer_list_run [OF a]
    by (cases r) (auto simp: scan_keys_def Let_def a intro!: keys_loop_trust)
qed

lemma accept_keys_run: "engine_run E e (fst (accept_keys E nick keys e))"
proof (cases "KeysPayload_parse E keys")
  case (Inl err)
  then show ?thesis by (simp add: accept_keys_def)
next
  case (Inr payload)
  define scan where "scan = scan_keys (ee_crypto E) (en_network e) nick (en_trust e) payload"
  define f where "f = (if ks_changed scan then note_trust_changed nick e else e)"
  have core: "same_core e f" by (simp add: f_def)
  obtain g r where g: "stateDo E (SetTrust (ks_trust scan)) f = (g, r)" by fastforce
  have "door_run (ee_crypto E) (en_network f) nick (en_trust f) (ks_trust scan)"
    using scan_keys_trust [of "ee_crypto E" "en_network e" nick "en_trust e" payload] core by (simp add: scan_def same_core_def)
  from run_write [OF g trust_op [OF this]] have run: "engine_run E e g"
    by (rule rtranclp_trans [OF run_memory [OF core]])
  show ?thesis
    using run Inr g
    by (cases r) (auto simp: accept_keys_def Let_def scan_def [symmetric] f_def [symmetric] intro: run_then_memory)
qed

lemma apply_list_message_run: "engine_run E e (fst (apply_list_message E nick block e))"
proof -
  obtain trust r where a: "apply_peer_list (ee_crypto E) (en_trust e) (en_network e) nick (mb_ed25519 block)
      (ml_ver (mb_list block)) (ml_devices (mb_list block)) (mb_sig block) = (trust, r)" by fastforce
  obtain f r' where f: "stateDo E (SetTrust trust) e = (f, r')" by fastforce
  have run: "engine_run E e f" by (rule run_write [OF f trust_op [OF apply_peer_list_run [OF a]]])
  have last: "engine_run E e ((forget_revoked trust f)\<lparr>en_listreq_lv := l\<rparr>)" for l
    by (rule run_then_memory [OF run]) (simp add: forget_revoked_def same_core_def)
  show ?thesis
    using run last
    by (auto simp: apply_list_message_def a f Let_def split: sum.split ListDecision.split intro: run_memory)
qed

lemma save_state_run:
  assumes "save_state E nick did decrypted e = (e', r)"
    and "\<And>p t. de_learned decrypted = Some (p, t) \<Longrightarrow> door_run (ee_crypto E) (en_network e) nick (en_trust e) t"
  shows "engine_run E e e'"
proof -
  obtain f s where f: "(case de_learned decrypted of None \<Rightarrow> (e, Inr ()) | Some (_, trust) \<Rightarrow> stateDo E (SetTrust trust) e) = (f, s)"
    by fastforce
  have run: "engine_run E e f"
  proof (cases "de_learned decrypted")
    case (Some p)
    then show ?thesis using f run_write trust_op [OF assms(2)] by (cases p) fastforce
  qed (use f in simp)
  obtain g s' where g: "stateDo E (SetInbound (en_network f) nick did (de_session decrypted) (de_identity decrypted) (de_replay decrypted)) f = (g, s')"
    by fastforce
  have "engine_run E e g" using run run_write [OF g inbound_op] by (rule rtranclp_trans)
  moreover have "same_core g (g\<lparr>en_revoked_dids := x, en_peers := y\<rparr>)" for x y by (simp add: same_core_def)
  ultimately show ?thesis
    using assms(1) run unfolding save_state_def f
    by (auto simp: g split: sum.splits option.splits prod.splits intro: run_then_memory)
qed

lemma prekey_sender_facts:
  assumes "prekey_sender E e row known nick pre = Some (device, trust, replay)"
  shows "verify_certified_device (ee_crypto E) (en_trust e) (en_network e) nick (certified_bundle pre) = (trust, Inr device)"
    "did_from_key_text (ee_crypto E) (ib_ed25519 (pp_id pre)) = Inr (row_from_did row)"
    "accept_first_message (sd_replay (st_data (en_state e))) (en_network e) nick (row_from_did row) (row_msgid row) = (replay, Inr ())"
    "\<And>p. known = Some p \<Longrightarrow> pd_curve25519 (pe_device p) = pd_curve25519 device"
  using assms
  by (auto simp: prekey_sender_def did_of_def replay_ok_def bind_eq_Some_conv split: sum.splits prod.splits if_splits option.splits)

lemma open_prekey_facts:
  assumes "open_prekey E e row known nick pre body = Some d"
  obtains device trust replay one_time where "prekey_sender E e row known nick pre = Some (device, trust, replay)"
    "de_learned d = Some (\<lparr> pe_nick = nick, pe_device = device, pe_one_time_key = one_time \<rparr>, trust)"
    "in_fb (de_inner d) = Some (recipient_binding (ee_crypto E) (pd_ed25519 device) (en_own_ed25519 e))"
    "\<exists>r. de_replay d = Some r \<and> rs_first_messages r = rs_first_messages replay"
proof -
  have new: "rs_first_messages r = rs_first_messages replay" if "accept_new_session replay n k did i = (r, x)" for n k did i r x replay
    using that by (auto simp: accept_new_session_def split: prod.splits)
  obtain device trust replay where p: "prekey_sender E e row known nick pre = Some (device, trust, replay)"
    using assms by (auto simp: open_prekey_def bind_eq_Some_conv)
  have "de_learned d = Some (\<lparr> pe_nick = nick, pe_device = device, pe_one_time_key = Option.bind known pe_one_time_key \<rparr>, trust) \<and>
     in_fb (de_inner d) = Some (recipient_binding (ee_crypto E) (pd_ed25519 device) (en_own_ed25519 e)) \<and>
     (\<exists>r. de_replay d = Some r \<and> rs_first_messages r = rs_first_messages replay)"
    using assms new
    by (auto simp: open_prekey_def p Let_def bind_eq_Some_conv bound_to_def replay_ok_def
        split: option.splits if_splits prod.splits sum.splits)
  then show ?thesis using that [OF p] by blast
qed

lemma open_normal_facts:
  assumes "open_normal E e row known nick normal body = Some d"
  shows "de_learned d = None" "de_replay d = None" "de_identity d = None"
  using assms by (auto simp: open_normal_def bind_eq_Some_conv split: if_splits prod.splits)

lemma decrypt_row_learned:
  assumes "decrypt_row E e row known nick = Some d" "de_learned d = Some (p, t)"
  shows "door_run (ee_crypto E) (en_network e) nick (en_trust e) t"
proof -
  obtain payload body where "MessagePayload_parse E (row_verb row) (row_payload row) = Inr payload"
    and o: "(case payload of PreKey pre \<Rightarrow> open_prekey E e row known nick pre body
       | Normal normal \<Rightarrow> open_normal E e row known nick normal body) = Some d"
    using assms(1) by (auto simp: decrypt_row_def opt_of_def bind_eq_Some_conv split: sum.splits)
  show ?thesis
  proof (cases payload)
    case (PreKey pre)
    then have "open_prekey E e row known nick pre body = Some d" using o by simp
    then show ?thesis
      by (rule open_prekey_facts) (use assms(2) prekey_sender_facts(1) verify_certified_device_run in fastforce)
  next
    case (Normal normal)
    then show ?thesis using o open_normal_facts(1) assms(2) by fastforce
  qed
qed

lemma store_decrypted_run:
  assumes "store_decrypted E nick row d peer i sender t now e = (e', r)"
    and "\<And>p t. de_learned d = Some (p, t) \<Longrightarrow> door_run (ee_crypto E) (en_network e) nick (en_trust e) t"
  shows "engine_run E e e'"
proof -
  obtain f s where f: "(if row_stored e peer i then (e, Inr ()) else historyAppend E (received_message e row peer i sender t now) e) = (f, s)"
    by fastforce
  have run: "engine_run E e f"
  proof (cases "row_stored e peer i")
    case False
    then have "row_fresh (received_message e row peer i sender t now) (en_history e)"
      by (auto simp: row_fresh_def row_stored_def received_message_def history_messages_def list_ex_iff)
    then have "engine_step E e (fst (historyAppend E (received_message e row peer i sender t now) e))"
      by (rule append_row) (simp add: received_message_def)
    then show ?thesis using f False by (metis fst_conv r_into_rtranclp)
  qed (use f in simp)
  have same: "en_network f = en_network e" "en_trust f = en_trust e"
    using f by (auto simp: historyAppend_def split: if_splits prod.splits)
  obtain g s' where g: "save_state E nick (row_from_did row) d f = (g, s')" by fastforce
  have "engine_run E e g" using run save_state_run [OF g] assms(2) same by (auto intro: rtranclp_trans)
  then show ?thesis
    using assms(1) run unfolding store_decrypted_def f
    by (auto simp: g split: sum.splits intro: run_then_memory)
qed

lemma keep_session_run:
  assumes "keep_session E row nick d e = (e', r)"
    and "\<And>p t. de_learned d = Some (p, t) \<Longrightarrow> door_run (ee_crypto E) (en_network e) nick (en_trust e) t"
  shows "engine_run E e e'"
proof -
  obtain f s where f: "save_state E nick (row_from_did row) d e = (f, s)" by fastforce
  have run: "engine_run E e f" by (rule save_state_run [OF f assms(2)])
  have l: "engine_run E e g" if "(apply_list_message E nick master f :: Engine \<times> (unit EngineError + unit)) = (g, x)" for master g x
    using rtranclp_trans [OF run apply_list_message_run [of E f nick master]] that by (metis fst_conv)
  have l': "engine_run E e (g\<lparr>en_listreq_lv := y\<rparr>)"
    if "(apply_list_message E nick master f :: Engine \<times> (unit EngineError + unit)) = (g, x)" for master g x y
    by (rule run_then_memory [OF l [OF that]]) (simp add: same_core_def)
  show ?thesis
    using assms(1) run unfolding keep_session_def f
    by (auto split: sum.splits InnerKind.splits prod.splits EngineError.splits intro: l l' run_then_memory)
qed

lemma receive_copy_run: "engine_run E e (fst (receive_copy E row now e))"
proof (cases "own_list (ee_crypto E) (en_state e)")
  case None
  then show ?thesis by (simp add: receive_copy_def)
next
  case (Some own)
  obtain l master where own: "own = (l, master)" by fastforce
  let ?known = "map_of (en_peers e) (row_from_did row)"
  let ?nick = "entry_nick row ?known"
  have stale: "engine_run E e (fst (stale_or_refuse (row_id row) e))"
    using stale_or_refuse_core by (intro run_memory) (metis prod.collapse same_core_refl)
  show ?thesis
  proof (cases "decrypt_row E e row ?known ?nick")
    case None
    then show ?thesis using stale Some own by (simp add: receive_copy_def Let_def)
  next
    case (Some d)
    note learned = decrypt_row_learned [OF Some]
    obtain f s where f: "save_state E ?nick (row_from_did row) d e = (f, s)" by fastforce
    have save: "engine_run E e f" by (rule save_state_run [OF f]) (rule learned)
    have keep: "engine_run E e (fst (store_decrypted E ?nick row d peer i sender t now e))" for peer i sender t
      by (rule store_decrypted_run [OF prod.collapse [symmetric]]) (rule learned)
    show ?thesis
      using stale save keep Some own \<open>own_list (ee_crypto E) (en_state e) = Some own\<close> f
      by (auto simp: receive_copy_def Let_def split: option.split InnerKind.split sum.split)
  qed
qed

lemma receive_decrypted_run:
  assumes "\<And>p t. de_learned d = Some (p, t) \<Longrightarrow> door_run (ee_crypto E) (en_network e) nick (en_trust e) t"
  shows "engine_run E e (fst (receive_decrypted E row now nick d e))"
proof -
  have store: "engine_run E e (fst (store_decrypted E nick row d peer i sender t now e))" for peer i sender t
    by (rule store_decrypted_run [OF prod.collapse [symmetric]]) (rule assms)
  have keep: "engine_run E e (fst (keep_session E row nick d e))"
    by (rule keep_session_run [OF prod.collapse [symmetric]]) (rule assms)
  define body where "body = (case in_kind (de_inner d) of
      IK_Text body \<Rightarrow> store_decrypted E nick row d nick (message_row_id e row) (row_from_did row) body now e
    | IK_Copy _ _ \<Rightarrow> (e, Undecryptable) | _ \<Rightarrow> keep_session E row nick d e)"
  have run: "engine_run E e (fst body)"
    using store keep by (simp add: body_def split: InnerKind.split)
  then have ask: "engine_run E e (maybe_list_request E nick did lv (fst body))" for nick did lv
    by (rule run_then_memory) simp
  obtain g x where g: "body = (g, x)" by fastforce
  have runs: "engine_run E e g" "\<And>nick did lv. engine_run E e (maybe_list_request E nick did lv g)"
    using run ask g by simp_all
  show ?thesis
    using runs by (simp add: receive_decrypted_def body_def [symmetric] g split: option.split)
qed

lemma receive_message_run: "engine_run E e (fst (receive_message E row now e))"
proof -
  let ?known = "map_of (en_peers e) (row_from_did row)"
  let ?nick = "entry_nick row ?known"
  have read: "engine_run E e (fst (receive_decrypted E row now ?nick d (refresh_stale_list E ?nick row (set_peer_capability ?nick True e))))"
    if d: "decrypt_row E e row ?known ?nick = Some d" for d
  proof -
    have core: "same_core e (refresh_stale_list E ?nick row (set_peer_capability ?nick True e))" by simp
    have learned: "door_run (ee_crypto E) (en_network f) ?nick (en_trust f) t" if "same_core e f" "de_learned d = Some (p, t)" for f p t
      using decrypt_row_learned [OF d that(2)] that(1) by (simp add: same_core_def)
    show ?thesis by (rule rtranclp_trans [OF run_memory [OF core] receive_decrypted_run]) (rule learned [OF core])
  qed
  then show ?thesis
    by (auto simp: receive_message_def Let_def receive_copy_run intro: run_memory split: option.split)
qed

lemma read_row_run: "engine_run E e (fst (read_row E row now e))"
proof -
  let ?a = "accept_keys E (row_from row) (row_payload row) e :: Engine \<times> (unit EngineError + string list)"
  have "engine_run E e (fst ?a)" by (rule accept_keys_run)
  then show ?thesis
    using on_nack_run [of E e row] receive_message_run [of E e row now]
    by (auto simp: read_row_def split: InboxVerb.split prod.splits sum.split EngineError.split)
qed

lemma handle_row_new:
  assumes "row_id row \<notin> en_seen e" "read_row E row now e = (f, r)"
  shows "handle_row E row now e = (if acknowledge r then f\<lparr>en_seen := insert (row_id row) (en_seen f)\<rparr> else f, r)"
  using assms by (simp add: handle_row_def)

text \<open>An invariant of the steps that does not look at the rows seen is an invariant of a row.\<close>

lemma run_invariant: "engine_run E e f \<Longrightarrow> (\<And>e f. engine_step E e f \<Longrightarrow> I e \<Longrightarrow> I f) \<Longrightarrow> I e \<Longrightarrow> I f"
  by (induction rule: rtranclp_induct) auto

lemma handle_row_invariant:
  assumes "\<And>e f. engine_step E e f \<Longrightarrow> I e \<Longrightarrow> I f" "\<And>e x. I e \<Longrightarrow> I (e\<lparr>en_seen := x\<rparr>)" "I e"
  shows "I (fst (handle_row E row now e))"
proof (cases "row_id row \<in> en_seen e")
  case False
  obtain f r where f: "read_row E row now e = (f, r)" by fastforce
  have "I f" using run_invariant [OF read_row_run [of E e row now], of I] assms(1,3) f by simp
  then show ?thesis using handle_row_new [OF False f] assms(2) by simp
qed (use assms(3) in \<open>simp add: handle_row_def\<close>)

text \<open>The run of a list of rows, each with the time it is read at.\<close>

fun handle_rows :: "('v, 'a, 's) engine_env \<Rightarrow> (InboxRow \<times> int) list \<Rightarrow> Engine \<Rightarrow> Engine" where
  "handle_rows E [] e = e"
| "handle_rows E ((row, now) # rows) e = handle_rows E rows (fst (handle_row E row now e))"

lemma handle_rows_invariant:
  assumes "\<And>e f. engine_step E e f \<Longrightarrow> I e \<Longrightarrow> I f" "\<And>e x. I e \<Longrightarrow> I (e\<lparr>en_seen := x\<rparr>)" "I e"
  shows "I (handle_rows E rows e)"
  using assms(3)
proof (induction rows arbitrary: e)
  case (Cons p rows)
  then show ?case using handle_row_invariant [of E I e, OF assms(1,2) Cons.prems] by (cases p) simp
qed simp

end
