(* ===== verification/Receive.thy ===== *)
theory Receive
  imports Engine_Facts
begin

text \<open>
  The promises of the receive path. A row moves the trust state of the network only by runs of trust
  operations that forget nothing, writes nothing of the own identity, keeps the sealed state and the
  sealed history equal to their files, and puts at most one row in the history for each row of the inbox.
\<close>

section \<open>Trust and the own identity\<close>

definition safe_run :: "crypto_api \<Rightarrow> PeerTrust \<Rightarrow> PeerTrust \<Rightarrow> bool" where
  "safe_run C t t' \<longleftrightarrow> (\<exists>xs. t' = foldl (trust_step C) t xs \<and> (\<forall>x \<in> set xs. \<not> is_replace x \<and> \<not> is_release x))"

lemma safe_run_refl [simp]: "safe_run C t t"
  by (auto simp: safe_run_def intro: exI [of _ "[]"])

lemma safe_run_trans: "safe_run C t t' \<Longrightarrow> safe_run C t' t'' \<Longrightarrow> safe_run C t t''"
  unfolding safe_run_def by (metis Un_iff foldl_append set_append)

lemma door_run_safe: "door_run C n k t t' \<Longrightarrow> safe_run C t t'"
  by (auto simp: door_run_def safe_run_def door_op_def)

lemma safe_runE:
  assumes "safe_run C t t'"
  obtains xs where "t' = foldl (trust_step C) t xs" "\<forall>x \<in> set xs. \<not> forgets_peer n k x" "\<forall>x \<in> set xs. \<not> resets_peer n k x"
  using assms by (auto simp: safe_run_def forgets_peer_def resets_peer_def)

text \<open>What a row never writes: the keys, list, certificate and revocations of the own user.\<close>

definition own_part :: "StateData \<Rightarrow> string option \<times> SignedList option \<times> bool \<times> VersionedDeviceCertificate option
    \<times> string option \<times> PendingRevoke option \<times> string list \<times> bool" where
  "own_part data = (sd_master data, sd_signed_list data, sd_list_pending data, sd_device_certificate data,
     sd_pending_pairing data, sd_pending_revoke data, sd_own_revoked data, sd_reset_pending data)"

definition keeps_trust :: "crypto_api \<Rightarrow> Engine \<Rightarrow> Engine \<Rightarrow> bool" where
  "keeps_trust C e f \<longleftrightarrow>
     en_network f = en_network e \<and> en_own_did f = en_own_did e \<and> en_own_ed25519 f = en_own_ed25519 e \<and>
     safe_run C (en_trust e) (en_trust f) \<and>
     own_part (st_data (en_state f)) = own_part (st_data (en_state e))"

lemma receive_op_data:
  assumes "receive_op C e x" "store_change S key x (st_data (en_state e)) = Some data"
  shows "own_part data = own_part (st_data (en_state e)) \<and> safe_run C (en_trust e) (sd_trust data)"
  using assms
  by (cases rule: receive_op.cases)
    (auto simp: change_trust_def change_inbound_def change_remove_session_def change_dropped_row_def own_part_def Let_def
      split: option.splits if_splits intro: door_run_safe)

lemma step_keeps_trust:
  assumes "engine_step E e f"
  shows "keeps_trust (ee_crypto E) e f"
  using assms
proof (cases rule: engine_step.cases)
  case (write_state x)
  obtain g r where g: "stateDo E x e = (g, r)" by fastforce
  have f: "f = g" using write_state(1) g by simp
  show ?thesis
    using stateDo_fields(1-3) [OF g] stateDo_state [OF g] receive_op_data [OF write_state(2)]
    by (auto simp: f keeps_trust_def changed_def split: option.splits)
next
  case (append_row m)
  then show ?thesis by (auto simp: keeps_trust_def historyAppend_def split: prod.split)
qed (auto simp: keeps_trust_def same_core_def)

lemma keeps_trust_trans: "keeps_trust C e f \<Longrightarrow> keeps_trust C f g \<Longrightarrow> keeps_trust C e g"
  by (auto simp: keeps_trust_def intro: safe_run_trans)

lemma handle_rows_keep_trust: "keeps_trust (ee_crypto E) e (handle_rows E rows e)"
proof (rule handle_rows_invariant [where I = "keeps_trust (ee_crypto E) e"])
  show "keeps_trust (ee_crypto E) e g" if "engine_step E f g" "keeps_trust (ee_crypto E) e f" for f g
    using keeps_trust_trans [OF that(2) step_keeps_trust [OF that(1)]] .
qed (simp_all add: keeps_trust_def)

lemma handle_row_keeps_trust: "keeps_trust (ee_crypto E) e (fst (handle_row E row now e))"
  using handle_rows_keep_trust [of E e "[(row, now)]"] by simp

text \<open>The rows of the inbox keep the contract of a device ledger for every peer of the network.\<close>

interpretation inbox: device_ledger "\<lambda>e (row, now). fst (handle_row E row now e)"
  "\<lambda>e. is_revoked (en_trust e) network nick" "\<lambda>e. list_version (en_trust e) network nick"
  "\<lambda>e. listed_devices (en_trust e) network nick" "\<lambda>_. False" "\<lambda>_. False" for E network nick
proof unfold_locales
  fix x :: "InboxRow \<times> int" and s
  have "safe_run (ee_crypto E) (en_trust s) (en_trust (case x of (row, now) \<Rightarrow> fst (handle_row E row now s)))"
    using handle_row_keeps_trust [of E s] by (cases x) (simp add: keeps_trust_def)
  then obtain xs where xs: "en_trust (case x of (row, now) \<Rightarrow> fst (handle_row E row now s)) = foldl (trust_step (ee_crypto E)) (en_trust s) xs"
    "\<forall>x \<in> set xs. \<not> forgets_peer network nick x" "\<forall>x \<in> set xs. \<not> resets_peer network nick x"
    by (rule safe_runE)
  show "is_revoked (en_trust s) network nick ed curve \<Longrightarrow>
      is_revoked (en_trust (case x of (row, now) \<Rightarrow> fst (handle_row E row now s))) network nick ed curve" for ed curve
    unfolding xs(1) by (rule trust.run_keeps_revoked [OF xs(2)])
  show "list_version (en_trust s) network nick \<le> list_version (en_trust (case x of (row, now) \<Rightarrow> fst (handle_row E row now s))) network nick"
    unfolding xs(1) by (rule trust.run_version [OF xs(3)])
  show "list_version (en_trust (case x of (row, now) \<Rightarrow> fst (handle_row E row now s))) network nick = list_version (en_trust s) network nick \<Longrightarrow>
      listed_devices (en_trust (case x of (row, now) \<Rightarrow> fst (handle_row E row now s))) network nick = listed_devices (en_trust s) network nick"
    unfolding xs(1) by (rule trust.run_same_version [OF xs(3)])
  show "d \<in> set (listed_devices (en_trust s) network nick) \<Longrightarrow>
      d \<notin> set (listed_devices (en_trust (case x of (row, now) \<Rightarrow> fst (handle_row E row now s))) network nick) \<Longrightarrow>
      is_revoked (en_trust (case x of (row, now) \<Rightarrow> fst (handle_row E row now s))) network nick d curve" for d curve
    unfolding xs(1) using trust.run_listed_or_revoked [of xs network nick d "en_trust s" curve] xs(2,3) by blast
qed

lemma handle_rows_foldl: "handle_rows E rows e = foldl (\<lambda>e (row, now). fst (handle_row E row now e)) e rows"
  by (induction E rows e rule: handle_rows.induct) simp_all

lemma safe_run_master: "safe_run C t t' \<Longrightarrow> trust_master t n k = Some m \<Longrightarrow> trust_master t' n k = Some m"
  by (erule safe_runE [where n = n and k = k]) (auto intro: run_master_pinned)

section \<open>The files\<close>

text \<open>The two files of the engine: no name is the name of a temporary file of the other.\<close>

definition apart :: "path \<Rightarrow> path \<Rightarrow> bool" where
  "apart p q \<longleftrightarrow> p \<noteq> q \<and> hd (snd p @ ''.'') \<noteq> CHR ''.'' \<and> hd (snd q @ ''.'') \<noteq> CHR ''.''"

lemma temp_path_apart: "hd (snd p @ ''.'') \<noteq> CHR ''.'' \<Longrightarrow> p \<noteq> snd (temp_path_for d q)"
  by (auto simp: temp_path_for_def)

lemma write_atomic_apart:
  assumes "write_atomic d p contents = (d', r)" "apart p q"
  shows "file_at d' q = file_at d q"
  using write_atomic_cases(3) [OF assms(1)] assms(2) temp_path_apart [of q d p] by (metis apart_def)

lemma commit_other:
  assumes "commit E d nonce s change = (d', s', r)" "apart (st_path s) q"
  shows "file_at d' q = file_at d q" "suffix (dk_faults d') (dk_faults d)"
  using assms
  by (auto simp: commit_def commit_with_def Let_def split: sum.splits prod.splits
      dest: write_atomic_apart write_atomic_suffix)

lemma store_step_other:
  assumes "store_step E d nonce s x = (d', s', r)" "apart (st_path s) q"
  shows "file_at d' q = file_at d q" "suffix (dk_faults d') (dk_faults d)"
  using assms by (auto simp: store_step_def dest: commit_other split: option.splits)

lemma append_bytes_other:
  assumes "append_bytes d p bytes = (d', r)" "q \<noteq> p"
  shows "file_at d' q = file_at d q" "suffix (dk_faults d') (dk_faults d)"
proof -
  obtain f1 d1 where f1: "next_fault d = (f1, d1)" by fastforce
  obtain f2 d2 where f2: "next_fault d1 = (f2, d2)" by fastforce
  define put where "put = (\<lambda>(d :: disk) contents. d\<lparr>dk_files := AList.update p contents (dk_files d)\<rparr>)"
  have put: "file_at (put d contents) q = file_at d q" "dk_faults (put d contents) = dk_faults d" for d contents
    using assms(2) by (simp_all add: put_def file_at_def)
  have s: "suffix (dk_faults d1) (dk_faults d)" "suffix (dk_faults d2) (dk_faults d)"
    using next_fault_suffix [OF f1] next_fault_suffix [OF f2] by (auto intro: suffix_order.trans)
  have cut: "file_at d4 q = file_at d q \<and> suffix (dk_faults d4) (dk_faults d)"
    if "next_fault (put d2 x) = (f3, d4)" for x f3 d4
    using that f1 f2 put next_fault_suffix [OF that] s by (auto intro: suffix_order.trans)
  have "file_at d' q = file_at d q \<and> suffix (dk_faults d') (dk_faults d)"
    using assms(1) f1 f2 put cut s
    by (auto simp: append_bytes_def Let_def put_def [symmetric] split: if_splits option.splits prod.splits)
  then show "file_at d' q = file_at d q" "suffix (dk_faults d') (dk_faults d)" by simp_all
qed

lemma history_append_other:
  assumes "history_append H d nonce h m = (d', h', r)" "apart (hs_path h) q"
  shows "file_at d' q = file_at d q" "suffix (dk_faults d') (dk_faults d)"
proof -
  have q: "q \<noteq> hs_path h" using assms(2) by (metis apart_def)
  have rec: "file_at d' q = file_at d q \<and> suffix (dk_faults d') (dk_faults d)" if "append_record d (hs_path h) bytes = (d', x)" for bytes d' x
  proof (cases "file_at d (hs_path h)")
    case None
    obtain d1 w where w: "write_atomic d (hs_path h) HISTORY_MAGIC = (d1, w)" by fastforce
    show ?thesis
      using that None w write_atomic_apart [OF w assms(2)] write_atomic_suffix [OF w] append_bytes_other [of d1 "hs_path h" bytes d' x q] q
      by (cases w) (auto simp: append_record_def intro: suffix_order.trans)
  next
    case (Some old)
    then show ?thesis using that append_bytes_other [of d "hs_path h" bytes d' x q] q by (simp add: append_record_def)
  qed
  show "file_at d' q = file_at d q" "suffix (dk_faults d') (dk_faults d)"
    using assms(1) rec by (auto simp: history_append_def split: sum.splits prod.splits)
qed

section \<open>Memory and disk\<close>

text \<open>The state of the engine is its file, its history is its file, no two calls in a row fail, and the
  two files stand apart.\<close>

definition engine_env_ok :: "('v, 'a, 's) engine_env \<Rightarrow> bool" where
  "engine_env_ok E \<longleftrightarrow> store_env_ok (ee_store E) \<and> history_env_ok (ee_history E) \<and> (\<forall>i. length (ee_nonce E i) = NONCE_LEN)"

definition engine_ok :: "('v, 'a, 's) engine_env \<Rightarrow> Engine \<Rightarrow> bool" where
  "engine_ok E e \<longleftrightarrow>
     in_sync (ee_store E) (en_disk e) (en_state e) \<and>
     history_good (ee_history E) (file_at (en_disk e) (hs_path (en_history e))) (en_history e) \<and>
     spaced_faults (dk_faults (en_disk e)) \<and> apart (st_path (en_state e)) (hs_path (en_history e))"

lemma apart_sym: "apart p q \<Longrightarrow> apart q p"
  by (auto simp: apart_def)

lemma step_engine_ok:
  assumes env: "engine_env_ok E" and "engine_step E e f" and ok: "engine_ok E e"
  shows "engine_ok E f"
  using assms(2)
proof (cases rule: engine_step.cases)
  case memory
  then show ?thesis using ok by (simp add: engine_ok_def same_core_def)
next
  case (write_state x)
  obtain d s r where st: "store_step (ee_store E) (en_disk e) (ee_nonce E (en_draws e)) (en_state e) x = (d, s, r)"
    by (metis prod_cases3)
  have env': "store_env_ok (ee_store E)" "length (ee_nonce E (en_draws e)) = NONCE_LEN"
    "in_sync (ee_store E) (en_disk e) (en_state e)" "apart (st_path (en_state e)) (hs_path (en_history e))"
    using env ok by (simp_all add: engine_env_ok_def engine_ok_def)
  note facts = store_step_facts(1,2) [OF env'(1-3) st] and other = store_step_other [OF st env'(4)]
  show ?thesis
    using ok facts other spaced_suffix [OF _ other(2)] by (simp add: write_state(1) stateDo_def st engine_ok_def)
next
  case (append_row m)
  obtain d h r where st: "history_append (ee_history E) (en_disk e) (ee_nonce E (en_draws e)) (en_history e) m = (d, h, r)"
    by (metis prod_cases3)
  have env': "history_env_ok (ee_history E)" "length (ee_nonce E (en_draws e)) = NONCE_LEN"
    "history_good (ee_history E) (file_at (en_disk e) (hs_path (en_history e))) (en_history e)"
    "apart (hs_path (en_history e)) (st_path (en_state e))"
    using env ok by (auto simp: engine_env_ok_def engine_ok_def intro: apart_sym)
  note facts = history_append_facts [OF env'(1-3) st] and other = history_append_other [OF st env'(4)]
  show ?thesis
    using ok facts other(1) spaced_suffix [OF _ other(2)]
    by (auto simp: append_row(1) historyAppend_def st engine_ok_def in_sync_def)
qed

section \<open>Rows of the history\<close>

lemma insert_row_mset [simp]: "mset (insert_row m rows) = add_mset m (mset rows)"
  by (simp add: insert_row_def) (metis mset_append takeWhile_dropWhile_id union_code)

lemma insert_row_set [simp]: "set (insert_row m rows) = insert m (set rows)"
  by (metis insert_row_mset set_mset_add_mset_insert set_mset_mset)

lemma insert_row_subseq: "subseq rows (insert_row m rows)"
  using subseq_append_iff by (simp add: insert_row_def) (metis list_emb_append_mono subseq_Cons' subseq_order.order_refl takeWhile_dropWhile_id)

definition row_key :: "E2eMessage \<Rightarrow> string \<times> string" where
  "row_key m = (em_conversation_id m, em_id m)"

definition grown :: "HistoryStore \<Rightarrow> HistoryStore \<Rightarrow> bool" where
  "grown h h' \<longleftrightarrow> subseq (hs_messages h) (hs_messages h') \<and>
     (\<forall>m \<in> set (hs_messages h') - set (hs_messages h). em_encrypted m) \<and>
     (distinct (map row_key (hs_messages h)) \<longrightarrow> distinct (map row_key (hs_messages h')))"

lemma distinct_insert_row:
  assumes "distinct (map row_key (hs_messages h))" "row_fresh m h"
  shows "distinct (map row_key (insert_row m (hs_messages h)))"
proof -
  have "mset (map row_key (insert_row m (hs_messages h))) = mset (map row_key (m # hs_messages h))" by simp
  moreover have "distinct (map row_key (m # hs_messages h))"
    using assms by (auto simp: row_fresh_def row_key_def)
  ultimately show ?thesis by (metis mset_eq_imp_distinct_iff)
qed

lemma grown_trans: "grown h h' \<Longrightarrow> grown h' h'' \<Longrightarrow> grown h h''"
  by (auto simp: grown_def intro: subseq_order.trans)

lemma historyAppend_history:
  assumes "historyAppend E m e = (f, r)"
  shows "r = Inr () \<and> hs_messages (en_history f) = insert_row m (hs_messages (en_history e)) \<or>
     (\<exists>err. r = Inl err) \<and> en_history f = en_history e"
    "en_state f = en_state e" "en_network f = en_network e"
  using assms by (auto simp: historyAppend_def history_append_def split: prod.splits sum.splits)

lemma step_grown:
  assumes "engine_step E e f"
  shows "grown (en_history e) (en_history f)"
  using assms
proof (cases rule: engine_step.cases)
  case memory
  then show ?thesis by (simp add: same_core_def grown_def)
next
  case (write_state x)
  then show ?thesis by (auto simp: stateDo_def grown_def split: prod.split)
next
  case (append_row m)
  obtain g r where g: "historyAppend E m e = (g, r)" by fastforce
  show ?thesis
    using historyAppend_history(1) [OF g] append_row g distinct_insert_row [OF _ append_row(2)] insert_row_subseq
    by (auto simp: grown_def)
qed

lemma handle_rows_ok: "engine_env_ok E \<Longrightarrow> engine_ok E e \<Longrightarrow> engine_ok E (handle_rows E rows e)"
proof (rule handle_rows_invariant [where I = "engine_ok E"])
  show "engine_ok E (f\<lparr>en_seen := x\<rparr>)" if "engine_ok E f" for f x using that by (simp add: engine_ok_def)
qed (rule step_engine_ok)

lemma handle_rows_grown: "grown (en_history e) (en_history (handle_rows E rows e))"
proof (rule handle_rows_invariant [where I = "\<lambda>f. grown (en_history e) (en_history f)"])
  show "grown (en_history e) (en_history g)" if "engine_step E f g" "grown (en_history e) (en_history f)" for f g
    using grown_trans [OF that(2) step_grown [OF that(1)]] .
qed (simp_all add: grown_def)

lemma step_seen: "engine_step E e f \<Longrightarrow> en_seen f = en_seen e"
  by (cases rule: engine_step.cases, assumption)
    (auto simp: same_core_def stateDo_def historyAppend_def split: prod.split)

lemma read_row_seen:
  assumes "read_row E row now e = (f, r)"
  shows "en_seen f = en_seen e"
  using run_invariant [OF read_row_run [of E e row now], of "\<lambda>f. en_seen f = en_seen e"] assms step_seen by fastforce

lemma handle_row_seen:
  assumes "handle_row E row now e = (f, r)"
  shows "en_seen f = (if acknowledge r then insert (row_id row) (en_seen e) else en_seen e)"
proof (cases "row_id row \<in> en_seen e")
  case True
  then show ?thesis using assms by (auto simp: handle_row_def acknowledge_def)
next
  case False
  obtain g s where g: "read_row E row now e = (g, s)" by fastforce
  show ?thesis using handle_row_new [OF False g] assms read_row_seen [OF g] by (auto split: if_splits)
qed

lemma handle_rows_seen: "en_seen e \<subseteq> en_seen (handle_rows E rows e)"
proof (induction rows arbitrary: e)
  case (Cons p rows)
  have "en_seen e \<subseteq> en_seen (fst (handle_row E row now e))" for row now
    using handle_row_seen [OF prod.collapse [symmetric], of E row now e] by auto
  then show ?case using Cons [of "fst (handle_row E (fst p) (snd p) e)"] by (cases p) fastforce
qed simp

section \<open>Outcomes\<close>

lemma row_stored_iff:
  "row_stored e peer i \<longleftrightarrow> (conversation_id (en_network e) peer, i) \<in> set (map row_key (hs_messages (en_history e)))"
  unfolding row_stored_def history_messages_def list_ex_iff row_key_def by (simp add: image_iff) metis

lemma stateDo_keeps: "stateDo E x e = (f, r) \<Longrightarrow> en_history f = en_history e \<and> en_network f = en_network e"
  using stateDo_fields(1,4) by blast

lemma save_state_history:
  assumes "save_state E nick did d e = (f, r)"
  shows "en_history f = en_history e" "en_network f = en_network e"
  using assms by (auto simp: save_state_def split: option.splits prod.splits sum.splits dest!: stateDo_keeps)

lemma store_decrypted_Stored:
  assumes "store_decrypted E nick row d peer i sender t now e = (f, r)"
  shows "r = Stored \<and> row_stored f peer i \<or> r = StoreFailed"
proof -
  obtain g s where g: "(if row_stored e peer i then (e, Inr ()) else historyAppend E (received_message e row peer i sender t now) e) = (g, s)"
    by fastforce
  obtain k v where k: "save_state E nick (row_from_did row) d g = (k, v)" by fastforce
  have "row_stored g peer i \<and> en_network g = en_network e" if "s = Inr u" for u
    using g that historyAppend_history(1,3) [of E _ e g s]
    by (auto simp: row_stored_iff row_key_def received_message_def split: if_splits)
  then show ?thesis
    using assms unfolding store_decrypted_def g
    by (auto simp: k save_state_history [OF k] note_changed_def row_stored_iff split: sum.splits)
qed

lemma keep_session_outcome: "keep_session E row nick d e = (f, r) \<Longrightarrow> r = Ignored \<or> r = StoreFailed"
  by (auto simp: keep_session_def split: prod.splits sum.splits InnerKind.splits EngineError.splits)

text \<open>The entry of the sender and the name it goes by.\<close>

abbreviation entry_of :: "Engine \<Rightarrow> InboxRow \<Rightarrow> PeerEntry option" where
  "entry_of e row \<equiv> map_of (en_peers e) (row_from_did row)"

abbreviation nick_of :: "Engine \<Rightarrow> InboxRow \<Rightarrow> string" where
  "nick_of e row \<equiv> entry_nick row (entry_of e row)"

lemma receive_decrypted_text:
  assumes "receive_decrypted E row now nick d e = (f, r)" "in_kind (de_inner d) = IK_Text body"
  obtains h where "store_decrypted E nick row d nick (message_row_id e row) (row_from_did row) body now e = (h, r)" "same_core h f"
proof -
  obtain h x where h: "store_decrypted E nick row d nick (message_row_id e row) (row_from_did row) body now e = (h, x)" by fastforce
  have "x = r" "same_core h f" using assms h by (auto simp: receive_decrypted_def split: option.splits if_splits)
  then show ?thesis using h that by simp
qed

lemma receive_decrypted_other:
  assumes "receive_decrypted E row now nick d e = (f, r)" "\<And>body. in_kind (de_inner d) \<noteq> IK_Text body"
  shows "r \<noteq> Stored"
  using assms
  by (auto simp: receive_decrypted_def split: InnerKind.splits prod.splits dest: keep_session_outcome)

lemma receive_message_Stored:
  assumes "receive_message E row now e = (f, Stored)" "\<not> row_own row"
  obtains d body g h where "\<not> refused_sender E e row" "decrypt_row E e row (entry_of e row) (nick_of e row) = Some d"
    "in_kind (de_inner d) = IK_Text body" "same_core e g"
    "store_decrypted E (nick_of e row) row d (nick_of e row) (message_row_id e row) (row_from_did row) body now g = (h, Stored)"
    "same_core h f"
proof -
  have not_refused: "\<not> refused_sender E e row" using assms by (auto simp: receive_message_def)
  obtain d where d: "decrypt_row E e row (entry_of e row) (nick_of e row) = Some d"
    using assms not_refused by (auto simp: receive_message_def Let_def split: option.splits)
  define g where "g = refresh_stale_list E (nick_of e row) row (set_peer_capability (nick_of e row) True e)"
  have core: "same_core e g" by (simp add: g_def)
  then have i: "message_row_id g row = message_row_id e row" by (simp add: message_row_id_def same_core_def)
  have run: "receive_decrypted E row now (nick_of e row) d g = (f, Stored)"
    using assms not_refused d by (simp add: receive_message_def Let_def g_def)
  obtain body where body: "in_kind (de_inner d) = IK_Text body" using receive_decrypted_other [OF run] by blast
  show ?thesis using that [OF not_refused d body core] receive_decrypted_text [OF run body] i by metis
qed

lemma read_row_Stored:
  assumes "read_row E row now e = (f, Stored)"
  shows "receive_message E row now e = (f, Stored)" "row_verb row = IV_PkMsg \<or> row_verb row = IV_Msg"
  using assms by (auto simp: read_row_def split: InboxVerb.splits prod.splits sum.splits EngineError.splits)

lemma handle_row_Stored:
  assumes "handle_row E row now e = (f, Stored)"
  obtains g where "receive_message E row now e = (g, Stored)" "row_verb row = IV_PkMsg \<or> row_verb row = IV_Msg"
    "row_id row \<notin> en_seen e" "f = g\<lparr>en_seen := insert (row_id row) (en_seen g)\<rparr>"
proof -
  have new: "row_id row \<notin> en_seen e" using assms by (auto simp: handle_row_def split: if_splits)
  obtain g r where g: "read_row E row now e = (g, r)" by fastforce
  have "r = Stored" "f = g\<lparr>en_seen := insert (row_id row) (en_seen g)\<rparr>"
    using handle_row_new [OF new g] assms by (auto simp: acknowledge_def split: if_splits)
  then show ?thesis using read_row_Stored [of E row now e g] g new that by blast
qed

text \<open>The account, the sessions and the replay state, which a save that fails leaves.\<close>

definition session_part :: "StateData \<Rightarrow> string option \<times> (string \<times> string) list \<times> ReplayState" where
  "session_part data = (sd_account data, sd_sessions data, sd_replay data)"

lemma learned_saved:
  assumes "(case de_learned d of None \<Rightarrow> (e, Inr ()) | Some (_, trust) \<Rightarrow> stateDo E (SetTrust trust) e) = (g, s)"
  shows "session_part (st_data (en_state g)) = session_part (st_data (en_state e)) \<and> en_network g = en_network e \<and>
     st_key (en_state g) = st_key (en_state e) \<and> (de_learned d = None \<longrightarrow> g = e)"
proof (cases "de_learned d")
  case (Some p)
  then have st: "stateDo E (SetTrust (snd p)) e = (g, s)" using assms by (cases p) simp
  show ?thesis using stateDo_state [OF st] stateDo_fields(1) [OF st] Some
    by (auto simp: changed_def change_trust_def session_part_def)
qed (use assms in simp)

lemma save_state_kept:
  assumes "save_state E nick did d e = (f, Inr ())"
  shows "sd_replay (st_data (en_state f)) = (case de_replay d of None \<Rightarrow> sd_replay (st_data (en_state e)) | Some r \<Rightarrow> r)"
    "map_of (sd_sessions (st_data (en_state f))) (peer_device_key (en_network e) nick did)
       = Some (session_pickle (ee_store E) (de_session d) (st_key (en_state e)))"
proof -
  obtain g s where g: "(case de_learned d of None \<Rightarrow> (e, Inr ()) | Some (_, trust) \<Rightarrow> stateDo E (SetTrust trust) e) = (g, s)" by fastforce
  have keep: "sd_replay (st_data (en_state g)) = sd_replay (st_data (en_state e)) \<and> en_network g = en_network e \<and>
      st_key (en_state g) = st_key (en_state e)"
    using learned_saved [OF g] by (simp add: session_part_def)
  obtain h x where h: "stateDo E (SetInbound (en_network g) nick did (de_session d) (de_identity d) (de_replay d)) g = (h, x)" by fastforce
  have s: "s = Inr ()" "x = Inr ()" "en_state f = en_state h"
    using assms unfolding save_state_def g by (auto simp: h split: sum.splits option.splits)
  have "en_state h = changed (ee_store E) (en_state g) (SetInbound (en_network g) nick did (de_session d) (de_identity d) (de_replay d))"
    using stateDo_state [OF h] s(2) by simp
  then show "sd_replay (st_data (en_state f)) = (case de_replay d of None \<Rightarrow> sd_replay (st_data (en_state e)) | Some r \<Rightarrow> r)"
    "map_of (sd_sessions (st_data (en_state f))) (peer_device_key (en_network e) nick did)
       = Some (session_pickle (ee_store E) (de_session d) (st_key (en_state e)))"
    using keep s(3) by (auto simp: changed_def change_inbound_def Let_def update_Some_unfold split: option.splits)
qed

lemma save_state_failed:
  assumes "save_state E nick did d e = (f, Inl err)"
  shows "session_part (st_data (en_state f)) = session_part (st_data (en_state e))"
    "de_learned d = None \<Longrightarrow> en_state f = en_state e"
proof -
  obtain g s where g: "(case de_learned d of None \<Rightarrow> (e, Inr ()) | Some (_, trust) \<Rightarrow> stateDo E (SetTrust trust) e) = (g, s)" by fastforce
  have keep: "session_part (st_data (en_state g)) = session_part (st_data (en_state e)) \<and> (de_learned d = None \<longrightarrow> g = e)"
    using learned_saved [OF g] by simp
  obtain h x where h: "stateDo E (SetInbound (en_network g) nick did (de_session d) (de_identity d) (de_replay d)) g = (h, x)" by fastforce
  have "en_state f = en_state g"
    using assms stateDo_state [OF h] unfolding save_state_def g by (auto simp: h split: sum.splits option.splits)
  then show "session_part (st_data (en_state f)) = session_part (st_data (en_state e))"
    "de_learned d = None \<Longrightarrow> en_state f = en_state e"
    using keep by simp_all
qed

lemma store_decrypted_failed:
  assumes "store_decrypted E nick row d peer i sender t now e = (f, StoreFailed)"
  shows "session_part (st_data (en_state f)) = session_part (st_data (en_state e))"
    "de_learned d = None \<Longrightarrow> en_state f = en_state e"
proof -
  obtain g s where g: "(if row_stored e peer i then (e, Inr ()) else historyAppend E (received_message e row peer i sender t now) e) = (g, s)"
    by fastforce
  have state: "en_state g = en_state e" using g historyAppend_history(2) by (metis fst_conv)
  obtain h x where h: "save_state E nick (row_from_did row) d g = (h, x)" by fastforce
  have "f = g \<or> (\<exists>err. x = Inl err) \<and> f = h"
    using assms unfolding store_decrypted_def g by (auto simp: h split: sum.splits)
  then show "session_part (st_data (en_state f)) = session_part (st_data (en_state e))"
    "de_learned d = None \<Longrightarrow> en_state f = en_state e"
    using save_state_failed [of E nick "row_from_did row" d g h] h state by auto
qed

lemma store_decrypted_saved:
  assumes "store_decrypted E nick row d peer i sender t now e = (f, Stored)"
  obtains g h where "en_state g = en_state e" "en_network g = en_network e"
    "save_state E nick (row_from_did row) d g = (h, Inr ())" "en_state f = en_state h"
proof -
  obtain g s where g: "(if row_stored e peer i then (e, Inr ()) else historyAppend E (received_message e row peer i sender t now) e) = (g, s)"
    by fastforce
  have state: "en_state g = en_state e" "en_network g = en_network e"
    using g historyAppend_history(2,3) by (metis fst_conv)+
  obtain h x where h: "save_state E nick (row_from_did row) d g = (h, x)" by fastforce
  have "x = Inr ()" "en_state f = en_state h"
    using assms unfolding store_decrypted_def g by (auto simp: h note_changed_def split: sum.splits)
  then show ?thesis using that [OF state] h by simp
qed

lemma decrypt_row_PreKey:
  assumes "decrypt_row E e row known nick = Some d" "MessagePayload_parse E (row_verb row) (row_payload row) = Inr (PreKey pre)"
  obtains body where "open_prekey E e row known nick pre body = Some d"
  using assms by (auto simp: decrypt_row_def opt_of_def bind_eq_Some_conv)

lemma accepted_first_message:
  assumes "accept_first_message st n k did i = (st', Inr ())"
  shows "i \<notin> set (seen_ids (rs_first_messages st) (peer_device_key n k did))"
    "i \<in> set (seen_ids (rs_first_messages st') (peer_device_key n k did))"
proof -
  obtain m where m: "record_id (rs_first_messages st) n k did i = (m, Inr ())" "st' = st\<lparr>rs_first_messages := m\<rparr>"
    using assms by (auto simp: accept_first_message_def split: prod.splits)
  have "REPLAY_WINDOW \<noteq> 0" by (simp add: REPLAY_WINDOW_def)
  then show "i \<notin> set (seen_ids (rs_first_messages st) (peer_device_key n k did))"
    "i \<in> set (seen_ids (rs_first_messages st') (peer_device_key n k did))"
    using m by (auto simp: record_id_eq Let_def split: if_splits) (cases "seen_ids (rs_first_messages st) (peer_device_key n k did)"; auto)
qed

text \<open>What opening a row looks at.\<close>

lemma decrypt_row_again:
  assumes "en_state f = en_state e" "en_network f = en_network e" "en_own_did f = en_own_did e" "en_own_ed25519 f = en_own_ed25519 e"
  shows "decrypt_row E f row known nick = decrypt_row E e row known nick"
  unfolding decrypt_row_def open_prekey_def open_normal_def prekey_sender_def assms ..

lemma same_peers:
  "en_peers (refresh_stale_list E nick row f) = en_peers f" "en_peers (set_peer_capability nick c f) = en_peers f"
  by (simp_all add: refresh_stale_list_def queue_list_reply_def clock_now_def set_peer_capability_def Let_def
      split: sum.split option.split prod.split)

lemma store_decrypted_peers:
  assumes "store_decrypted E nick row d peer i sender t now e = (f, StoreFailed)" "de_learned d = None"
  shows "en_peers f = en_peers e"
proof -
  have history: "en_peers g = en_peers e" if "historyAppend E m e = (g, s)" for m g s
    using that by (auto simp: historyAppend_def split: prod.splits)
  obtain g s where g: "(if row_stored e peer i then (e, Inr ()) else historyAppend E (received_message e row peer i sender t now) e) = (g, s)"
    by fastforce
  obtain h x where h: "save_state E nick (row_from_did row) d g = (h, x)" by fastforce
  have "en_peers h = en_peers g"
    using h assms(2) stateDo_fields(7) by (auto simp: save_state_def split: prod.splits sum.splits)
  moreover have "en_peers g = en_peers e" using g history by (metis fst_conv)
  ultimately show ?thesis using assms(1) unfolding store_decrypted_def g by (auto simp: h split: sum.splits)
qed

end
