(* ===== verification/Toy_Engine.thy ===== *)
theory Toy_Engine
  imports Receive
begin

text \<open>
  A concrete engine on which the promises of the receive and the send path are run: a device with one
  peer, whose messages have fixed plaintexts.
\<close>

section \<open>A concrete engine\<close>

text \<open>The device \<open>O\<close> and a peer. A first message of the device \<open>F\<close> carries the text
  \<open>hi\<close>; every other payload is a message of a session whose text is \<open>ho\<close>.\<close>

definition toy_did :: "char \<Rightarrow> string" where
  "toy_did c = (case did_of toy_crypto (toy_key c) of None \<Rightarrow> [] | Some did \<Rightarrow> did)"

definition toy_prekey :: PreKeyPayload where
  "toy_prekey = \<lparr>
     pp_v = PAYLOAD_VERSION,
     pp_id = \<lparr> ib_curve25519 = toy_key CHR ''f'', ib_ed25519 = toy_key CHR ''F'', ib_sig = cb_id_signature sample_certified \<rparr>,
     pp_master = \<lparr> mr_ed25519 = toy_key CHR ''M'', mr_ver = 2, mr_cert = cb_certificate_signature sample_certified \<rparr>,
     pp_bodies = [(toy_did CHR ''O'', ''b'')] \<rparr>"

definition toy_msg :: MsgPayload where
  "toy_msg = \<lparr> mp_v = PAYLOAD_VERSION, mp_ck = toy_key CHR ''f'', mp_bodies = [(toy_did CHR ''O'', ''b'')] \<rparr>"

definition toy_plain :: "string \<Rightarrow> json option" where
  "toy_plain p =
     (if p = ''first'' then
        Some (JObject [(''t'', JString ''text''), (''body'', JString ''hi''),
                       (''fb'', JString (recipient_binding toy_crypto (toy_key CHR ''F'') (toy_key CHR ''O'')))])
      else if p = ''copy'' then
        Some (JObject [(''t'', JString ''copy''), (''peer'', JString ''bob''), (''body'', JString ''ho'')])
      else Some (JObject [(''t'', JString ''text''), (''body'', JString ''ho'')]))"

definition toy_engine_env :: "(json, string, string) engine_env" where
  "toy_engine_env = \<lparr>
     ee_crypto = toy_crypto, ee_json = json_instance, ee_from_str = (\<lambda>_. Some (JObject [])), ee_plain = toy_plain,
     ee_float_whole = (\<lambda>_. None), ee_keys_payload = (\<lambda>_. None), ee_prekey_payload = (\<lambda>_. Some toy_prekey),
     ee_msg_payload = (\<lambda>_. Some toy_msg), ee_master_block = (\<lambda>_. None),
     olm_prekey_id = (\<lambda>_. Some ''s''), olm_session_id = (\<lambda>_. ''s''), olm_decrypt_prekey = (\<lambda>_ _. None),
     olm_message_ok = (\<lambda>_. True), olm_decrypt = (\<lambda>s b. Some (s @ ''+'', s)),
     olm_inbound = (\<lambda>a c b. Some (a @ ''-'', ''session'', ''first'')), olm_curve_ok = (\<lambda>_. True),
     ee_store = toy_store_env\<lparr>json_of := \<lambda>_. Some ''{}''\<rparr>,
     ee_history = toy_history_env\<lparr>row_json := \<lambda>_. Some ''1''\<rparr>,
     ee_nonce = (\<lambda>_. toy_nonce), ee_clock = (\<lambda>i. i) \<rparr>"

definition toy_engine :: "StateData \<Rightarrow> fault list \<Rightarrow> Engine" where
  "toy_engine data faults = \<lparr>
     en_network = ''net'', en_own_did = toy_did CHR ''O'', en_own_ed25519 = toy_key CHR ''O'',
     en_state = toy_store\<lparr>st_data := data\<rparr>, en_history = toy_history, en_seen = {}, en_peers = [], en_book = SendBook_new,
     en_keyreq = KeyReqPacer_new KEYS_REASSEMBLY_TIMEOUT, en_casemapping = Rfc1459, en_frame_budget_base = None, en_revoked_dids = {}, en_keys_wanted = [], en_trust_changed = [],
     en_queue = OutgoingQueue_new, en_pending = [], en_sent = [], en_rekey = IntervalLimiter_new REKEY_INTERVAL,
     en_row_ids = [], en_dropped_rows = [], en_capability = [], en_changed_peers = [], en_local_sends = 0,
     en_copy_jobs = [], en_copy_tracker = DeliveryTracker_default,
     en_stale_tries = [], en_list_jobs = [], en_list_answered = [], en_listreq = IntervalLimiter_new LISTREQ_INTERVAL,
     en_listreq_lv = [], en_disk = toy_disk faults, en_draws = 0, en_ticks = 0 \<rparr>"

definition toy_peer_data :: StateData where
  "toy_peer_data = StateData_default\<lparr>sd_account := Some ''kacct''\<rparr>"

definition toy_inbox_row :: "nat \<Rightarrow> InboxVerb \<Rightarrow> char \<Rightarrow> bool \<Rightarrow> InboxRow" where
  "toy_inbox_row i verb device own = \<lparr> row_id = i, row_network = ''net'', row_from = ''bob'', row_from_did = toy_did device,
     row_to_did = toy_did CHR ''O'', row_verb = verb, row_msgid = ''m'', row_payload = ''p'', row_own = own \<rparr>"

end
