(* ===== verification/Receive_Claims.thy ===== *)
theory Receive_Claims
  imports Toy_Engine
begin

text \<open>
  The promises of the receive path of the engine, over the lemmas of theory Receive, run on the concrete
  engine of theory Toy_Engine.
\<close>

section \<open>Properties\<close>

text \<open>
  Claim C8. The rows of the inbox never undo a protection. Whatever rows come, in any order and with any
  failed write, a device or curve key of a peer that is revoked stays revoked, the list of a peer never
  goes back and a device that leaves it is revoked, a pinned master stays pinned, and the keys, the
  certificate, the signed list and the revocations of the own user do not change.
\<close>

theorem inbox_never_undoes_protection:
  assumes "handle_rows E rows e = f"
  shows "(is_revoked (en_trust e) network nick ed curve \<longrightarrow> is_revoked (en_trust f) network nick ed curve) \<and>
     list_version (en_trust e) network nick \<le> list_version (en_trust f) network nick \<and>
     (d \<in> set (listed_devices (en_trust e) network nick) \<longrightarrow>
        d \<in> set (listed_devices (en_trust f) network nick) \<or> is_revoked (en_trust f) network nick d c) \<and>
     (trust_master (en_trust e) network nick = Some m \<longrightarrow> trust_master (en_trust f) network nick = Some m) \<and>
     own_part (st_data (en_state f)) = own_part (st_data (en_state e)) \<and>
     en_own_did f = en_own_did e \<and> en_own_ed25519 f = en_own_ed25519 e"
proof -
  have f: "f = foldl (\<lambda>e (row, now). fst (handle_row E row now e)) e rows" using assms handle_rows_foldl by metis
  have keep: "keeps_trust (ee_crypto E) e f" using assms handle_rows_keep_trust by metis
  show ?thesis
    using inbox.run_keeps_revoked [of rows e network nick ed curve E] inbox.run_version [of rows e network nick E]
      inbox.run_listed_or_revoked [of rows d e network nick c E] keep safe_run_master
    by (auto simp: f [symmetric] keeps_trust_def)
qed

theorem inbox_never_undoes_protection_witness:
  "let data = StateData_default\<lparr>sd_trust := trust_step toy_crypto sample_trust sample_drop\<rparr>;
       f = handle_rows toy_engine_env [(toy_inbox_row 1 IV_PkMsg CHR ''D'' False, 5)] (toy_engine data [Fails])
   in is_revoked (en_trust f) ''net'' ''bob'' ''other'' (Some (toy_key CHR ''c''))"
proof -
  let ?t = "trust_step toy_crypto sample_trust sample_drop"
  let ?e = "toy_engine (StateData_default\<lparr>sd_trust := ?t\<rparr>) [Fails]"
  have "is_revoked ?t ''net'' ''bob'' ''other'' (Some (toy_key CHR ''c''))" by code_simp
  moreover have "en_trust ?e = ?t" by (simp add: toy_engine_def toy_store_def)
  ultimately show ?thesis
    using inbox_never_undoes_protection [of toy_engine_env "[(toy_inbox_row 1 IV_PkMsg CHR ''D'' False, 5)]" ?e, OF refl,
        of "''net''" "''bob''" "''other''" "Some (toy_key CHR ''c'')"]
    by (simp add: Let_def)
qed



text \<open>
  Claim C10. The text of a peer that is stored is from a device that is not revoked, and a first message
  is from a device of the pinned master. The id of the device comes from the key of the message, the
  master of the peer certified the key, the inner message names the sender and this device, the message
  id is not one of the last ones of the device and is one of them now, the session is saved and the row
  is in the conversation of the sender.
\<close>

theorem stored_text_is_authentic:
  assumes "handle_row E row now e = (f, Stored)" and "\<not> row_own row"
  shows "\<not> refused_sender E e row \<and> row_id row \<notin> en_seen e \<and> row_id row \<in> en_seen f \<and>
     row_stored f (nick_of e row) (message_row_id e row) \<and>
     (\<exists>d body. decrypt_row E e row (entry_of e row) (nick_of e row) = Some d \<and> in_kind (de_inner d) = IK_Text body \<and>
        map_of (sd_sessions (st_data (en_state f))) (peer_device_key (en_network e) (nick_of e row) (row_from_did row))
          = Some (session_pickle (ee_store E) (de_session d) (st_key (en_state e))) \<and>
        (\<forall>pre. MessagePayload_parse E (row_verb row) (row_payload row) = Inr (PreKey pre) \<longrightarrow>
           (\<exists>device trust.
              verify_certified_device (ee_crypto E) (en_trust e) (en_network e) (nick_of e row) (certified_bundle pre) = (trust, Inr device) \<and>
              did_from_key_text (ee_crypto E) (ib_ed25519 (pp_id pre)) = Inr (row_from_did row) \<and>
              in_fb (de_inner d) = Some (recipient_binding (ee_crypto E) (pd_ed25519 device) (en_own_ed25519 e))) \<and>
           (let key = peer_device_key (en_network e) (nick_of e row) (row_from_did row) in
              row_msgid row \<notin> set (seen_ids (rs_first_messages (sd_replay (st_data (en_state e)))) key) \<and>
              row_msgid row \<in> set (seen_ids (rs_first_messages (sd_replay (st_data (en_state f)))) key))))"
proof -
  obtain g where g: "receive_message E row now e = (g, Stored)" "row_id row \<notin> en_seen e"
    "f = g\<lparr>en_seen := insert (row_id row) (en_seen g)\<rparr>" using assms(1) by (rule handle_row_Stored)
  obtain d body k h where d: "\<not> refused_sender E e row" "decrypt_row E e row (entry_of e row) (nick_of e row) = Some d"
    "in_kind (de_inner d) = IK_Text body" "same_core e k"
    "store_decrypted E (nick_of e row) row d (nick_of e row) (message_row_id e row) (row_from_did row) body now k = (h, Stored)"
    "same_core h g"
    using g(1) assms(2) by (rule receive_message_Stored)
  have core: "en_state f = en_state h" "en_history f = en_history h" "en_network f = en_network h" "en_state k = en_state e"
    "en_network k = en_network e"
    using d(4,6) g(3) by (simp_all add: same_core_def)
  obtain a b where save: "en_state a = en_state k" "en_network a = en_network k"
    "save_state E (nick_of e row) (row_from_did row) d a = (b, Inr ())" "en_state h = en_state b"
    using store_decrypted_saved [OF d(5)] by blast
  have replay: "sd_replay (st_data (en_state f)) = (case de_replay d of None \<Rightarrow> sd_replay (st_data (en_state e)) | Some r \<Rightarrow> r)"
    and session: "map_of (sd_sessions (st_data (en_state f))) (peer_device_key (en_network e) (nick_of e row) (row_from_did row))
          = Some (session_pickle (ee_store E) (de_session d) (st_key (en_state e)))"
    using save_state_kept [OF save(3)] save core by (auto split: option.split)
  have first: "(\<exists>device trust.
        verify_certified_device (ee_crypto E) (en_trust e) (en_network e) (nick_of e row) (certified_bundle pre) = (trust, Inr device) \<and>
        did_from_key_text (ee_crypto E) (ib_ed25519 (pp_id pre)) = Inr (row_from_did row) \<and>
        in_fb (de_inner d) = Some (recipient_binding (ee_crypto E) (pd_ed25519 device) (en_own_ed25519 e))) \<and>
      (let key = peer_device_key (en_network e) (nick_of e row) (row_from_did row) in
        row_msgid row \<notin> set (seen_ids (rs_first_messages (sd_replay (st_data (en_state e)))) key) \<and>
        row_msgid row \<in> set (seen_ids (rs_first_messages (sd_replay (st_data (en_state f)))) key))"
    if pre: "MessagePayload_parse E (row_verb row) (row_payload row) = Inr (PreKey pre)" for pre
  proof -
    obtain b where "open_prekey E e row (entry_of e row) (nick_of e row) pre b = Some d" using d(2) pre by (rule decrypt_row_PreKey)
    then obtain device trust rep ot where o: "prekey_sender E e row (entry_of e row) (nick_of e row) pre = Some (device, trust, rep)"
      "in_fb (de_inner d) = Some (recipient_binding (ee_crypto E) (pd_ed25519 device) (en_own_ed25519 e))"
      "\<exists>r. de_replay d = Some r \<and> rs_first_messages r = rs_first_messages rep"
      by (rule open_prekey_facts)
    note p = prekey_sender_facts(1-3) [OF o(1)]
    show ?thesis using p(1,2) o(2,3) accepted_first_message [OF p(3)] replay by (auto simp: Let_def)
  qed
  have "row_stored h (nick_of e row) (message_row_id e row)" using store_decrypted_Stored [OF d(5)] by simp
  then have "row_stored f (nick_of e row) (message_row_id e row)" using core by (simp add: row_stored_def)
  then show ?thesis using d(1-3) g(2,3) session first by auto
qed

theorem stored_text_is_authentic_witness:
  "let row = toy_inbox_row 1 IV_PkMsg CHR ''F'' False;
       f = fst (handle_row toy_engine_env row 5 (toy_engine toy_peer_data []))
   in row_stored f ''bob'' (message_row_id f row) \<and> 1 \<in> en_seen f"
proof -
  let ?row = "toy_inbox_row 1 IV_PkMsg CHR ''F'' False" and ?e = "toy_engine toy_peer_data []"
  obtain f r where f: "handle_row toy_engine_env ?row 5 ?e = (f, r)" by fastforce
  have "snd (handle_row toy_engine_env ?row 5 ?e) = Stored" by code_simp
  then have s: "handle_row toy_engine_env ?row 5 ?e = (f, Stored)" using f by simp
  have "en_network f = en_network ?e" using handle_row_keeps_trust [of toy_engine_env ?e ?row 5] f by (simp add: keeps_trust_def)
  then have i: "message_row_id ?e ?row = message_row_id f ?row" by (simp add: message_row_id_def)
  have n: "nick_of ?e ?row = ''bob''" by (simp add: toy_engine_def toy_inbox_row_def entry_nick_def)
  have "\<not> row_own ?row" "row_id ?row = 1" by (simp_all add: toy_inbox_row_def)
  then have "row_stored f ''bob'' (message_row_id f ?row) \<and> 1 \<in> en_seen f"
    using stored_text_is_authentic [OF s, unfolded i n] by metis
  then show ?thesis by (simp only: Let_def f fst_conv)
qed

text \<open>
  Claim C11. A copy of an own message is stored only from another device of the own signed list. The list
  is valid under the certified master, the device is in it, is not this device and is not revoked, the
  list is not older than the one the copy was sent with, and the row is in the conversation the copy
  names.
\<close>

theorem stored_copy_is_from_a_listed_device:
  assumes "handle_row E row now e = (f, Stored)" and "row_own row"
  shows "\<exists>l master d peer body. own_list (ee_crypto E) (en_state e) = Some (l, master) \<and>
     verify_signed_list (ee_crypto E) (sl_version l) (sl_keys l) master (sl_signature l) = Inr () \<and>
     (\<exists>key \<in> set (sl_keys l). did_from_key_text (ee_crypto E) key = Inr (row_from_did row) \<and> key \<noteq> en_own_ed25519 e) \<and>
     row_from_did row \<noteq> en_own_did e \<and> row_from_did row \<notin> en_revoked_dids e \<and>
     (\<forall>key \<in> set (sd_own_revoked (st_data (en_state e))). did_from_key_text (ee_crypto E) key \<noteq> Inr (row_from_did row)) \<and>
     decrypt_row E e row (entry_of e row) (nick_of e row) = Some d \<and> in_kind (de_inner d) = IK_Copy peer body \<and>
     valid_peer peer \<and> (\<forall>lv. in_lv (de_inner d) = Some lv \<longrightarrow> lv \<le> sl_version l) \<and>
     row_stored f peer (copy_row_id e row (de_inner d))"
proof -
  obtain g where g: "receive_copy E row now e = (g, Stored)" "f = g\<lparr>en_seen := insert (row_id row) (en_seen g)\<rparr>"
    using assms by (elim handle_row_Stored) (auto simp: receive_message_def)
  obtain l master where l: "own_list (ee_crypto E) (en_state e) = Some (l, master)"
    using g(1) by (auto simp: receive_copy_def split: option.splits)
  have stale: "stale_or_refuse i e \<noteq> (g, Stored)" for i using stale_or_refuse_core by blast
  note run = g(1) [unfolded receive_copy_def l option.case prod.case Let_def]
  have ok: "\<not> (list_ex (\<lambda>key. did_from_key_text (ee_crypto E) key = Inr (row_from_did row)) (sd_own_revoked (st_data (en_state e))))"
    "row_from_did row \<noteq> en_own_did e" "row_from_did row \<notin> en_revoked_dids e"
    "list_ex (\<lambda>(did, _). did = row_from_did row) (sibling_dids E e)"
    using run stale by (auto split: if_splits)
  obtain d where d: "decrypt_row E e row (entry_of e row) (nick_of e row) = Some d"
    using run stale by (auto split: if_splits option.splits)
  have lv: "\<forall>lv. in_lv (de_inner d) = Some lv \<longrightarrow> lv \<le> sl_version l"
    using run stale by (auto simp: d split: if_splits)
  obtain peer body where k: "in_kind (de_inner d) = IK_Copy peer body" "valid_peer peer"
    "store_decrypted E (nick_of e row) row d peer (copy_row_id e row (de_inner d)) OWN_DEVICE body now e = (g, Stored)"
    using run stale by (auto simp: d split: if_splits InnerKind.splits prod.splits sum.splits)
  have "row_stored f peer (copy_row_id e row (de_inner d))"
    using store_decrypted_Stored [OF k(3)] g(2) by (simp add: row_stored_def)
  moreover have "verify_signed_list (ee_crypto E) (sl_version l) (sl_keys l) master (sl_signature l) = Inr ()"
    using l by (auto simp: own_list_def bind_eq_Some_conv is_ok_iff split: if_splits)
  moreover have "\<exists>key \<in> set (sl_keys l). did_from_key_text (ee_crypto E) key = Inr (row_from_did row) \<and> key \<noteq> en_own_ed25519 e"
  proof -
    obtain key where "(row_from_did row, key) \<in> set (sibling_dids E e)" using ok(4) by (auto simp: list_ex_iff)
    then show ?thesis
      using l by (auto simp: sibling_dids_def map_filter_def did_of_def split: sum.splits)
  qed
  ultimately show ?thesis using l ok(1-3) d lv k(1,2) by (auto simp: list_ex_iff)
qed

definition toy_own_data :: "string \<Rightarrow> StateData" where
  "toy_own_data session = StateData_default\<lparr>
     sd_signed_list := Some \<lparr> sl_version = 1, sl_keys = [toy_key CHR ''G'', toy_key CHR ''O''],
       sl_signature = toy_sign CHR ''M'' (list_text 1 [toy_key CHR ''G'', toy_key CHR ''O'']) \<rparr>,
     sd_device_certificate := Some \<lparr> vc_first_list_version = 1, vc_device_ed25519 = toy_key CHR ''O'',
       vc_master_ed25519 = toy_key CHR ''M'', vc_signature = [] \<rparr>,
     sd_sessions := [(peer_device_key ''net'' ''bob'' (toy_did CHR ''G''), ''k'' @ session)]\<rparr>"

theorem stored_copy_is_from_a_listed_device_witness:
  "row_stored (fst (handle_row toy_engine_env (toy_inbox_row 1 IV_Msg CHR ''G'' True) 5 (toy_engine (toy_own_data ''copy'') [])))
     ''bob'' (''net:own:'' @ dec_string 1)"
proof -
  let ?row = "toy_inbox_row 1 IV_Msg CHR ''G'' True" and ?e = "toy_engine (toy_own_data ''copy'') []"
  obtain f r where f: "handle_row toy_engine_env ?row 5 ?e = (f, r)" by fastforce
  have "snd (handle_row toy_engine_env ?row 5 ?e) = Stored" by code_simp
  then have s: "handle_row toy_engine_env ?row 5 ?e = (f, Stored)" using f by simp
  have "row_own ?row" by (simp add: toy_inbox_row_def)
  from stored_copy_is_from_a_listed_device [OF s this] obtain d peer body where
    d: "decrypt_row toy_engine_env ?e ?row (entry_of ?e ?row) (nick_of ?e ?row) = Some d" "in_kind (de_inner d) = IK_Copy peer body"
      "row_stored f peer (copy_row_id ?e ?row (de_inner d))" by blast
  have "map_option (\<lambda>d. (in_kind (de_inner d), in_cid (de_inner d)))
      (decrypt_row toy_engine_env ?e ?row (entry_of ?e ?row) (nick_of ?e ?row)) = Some (IK_Copy ''bob'' ''ho'', None)"
    by code_simp
  then have "peer = ''bob''" "in_cid (de_inner d) = None" using d(1,2) by auto
  then have "copy_row_id ?e ?row (de_inner d) = ''net:own:'' @ dec_string 1"
    by (simp add: copy_row_id_def toy_engine_def toy_inbox_row_def)
  then show ?thesis unfolding f fst_conv using d(3) \<open>peer = ''bob''\<close> by simp
qed

text \<open>
  Claim C12. A text that could not be written is not lost and does not move the session. When the history
  or the state could not be written, the row is not marked as read and is not acknowledged, and the
  account, the sessions and the replay state are as before; a message of an existing session can be
  decrypted again with the same result.
\<close>

theorem failed_write_keeps_the_row_readable:
  assumes "handle_row E row now e = (f, StoreFailed)" and "row_verb row = IV_PkMsg \<or> row_verb row = IV_Msg"
    and "\<not> row_own row" and "decrypt_row E e row (entry_of e row) (nick_of e row) = Some d"
    and "in_kind (de_inner d) = IK_Text body"
  shows "en_seen f = en_seen e \<and> \<not> acknowledge StoreFailed \<and>
     session_part (st_data (en_state f)) = session_part (st_data (en_state e)) \<and>
     (de_learned d = None \<longrightarrow>
        en_state f = en_state e \<and> entry_of f row = entry_of e row \<and>
        decrypt_row E f row (entry_of f row) (nick_of f row) = Some d)"
proof -
  have new: "row_id row \<notin> en_seen e" using assms(1) by (auto simp: handle_row_def split: if_splits)
  obtain g r where g: "read_row E row now e = (g, r)" by fastforce
  have f: "f = g" "r = StoreFailed" using handle_row_new [OF new g] assms(1) by (auto simp: acknowledge_def split: if_splits)
  then have run: "receive_message E row now e = (f, StoreFailed)" using g assms(2) by (auto simp: read_row_def)
  define k where "k = refresh_stale_list E (nick_of e row) row (set_peer_capability (nick_of e row) True e)"
  have core: "same_core e k" and peers: "en_peers k = en_peers e" by (simp_all add: k_def same_peers)
  have text_run: "receive_decrypted E row now (nick_of e row) d k = (f, StoreFailed)"
    using run assms(3,4) by (auto simp: receive_message_def Let_def k_def split: if_splits)
  obtain h x where h: "store_decrypted E (nick_of e row) row d (nick_of e row) (message_row_id k row) (row_from_did row) body now k = (h, x)"
    by fastforce
  have "f = h" "x = StoreFailed"
    using text_run h by (auto simp: receive_decrypted_def assms(5) split: option.splits)
  note failed = store_decrypted_failed [OF h [folded this(1), unfolded this(2)]]
    and kept = store_decrypted_peers [OF h [folded this(1), unfolded this(2)]]
  have seen: "en_seen f = en_seen e" using handle_row_seen [OF assms(1)] by (simp add: acknowledge_def)
  have trust: "en_network f = en_network e" "en_own_did f = en_own_did e" "en_own_ed25519 f = en_own_ed25519 e"
    using handle_row_keeps_trust [of E e row now] assms(1) by (simp_all add: keeps_trust_def)
  have k: "en_state k = en_state e" using core by (simp add: same_core_def)
  show ?thesis
  proof (intro conjI impI)
    assume l: "de_learned d = None"
    show state: "en_state f = en_state e" using failed(2) l k by simp
    show peer: "entry_of f row = entry_of e row" using kept l peers by simp
    show "decrypt_row E f row (entry_of f row) (nick_of f row) = Some d"
      using assms(4) by (simp add: decrypt_row_again [OF state trust, of E] peer)
  qed (use seen failed(1) k in \<open>simp_all add: acknowledge_def\<close>)
qed

definition toy_session_data :: "string \<Rightarrow> StateData" where
  "toy_session_data session = StateData_default\<lparr>
     sd_sessions := [(peer_device_key ''net'' ''bob'' (toy_did CHR ''F''), ''k'' @ session)]\<rparr>"

theorem failed_write_keeps_the_row_readable_witness:
  "let row = toy_inbox_row 1 IV_Msg CHR ''F'' False;
       f = fst (handle_row toy_engine_env row 5 (toy_engine (toy_session_data ''ho'') [Fails]))
   in en_state f = toy_store\<lparr>st_data := toy_session_data ''ho''\<rparr> \<and>
      decrypt_row toy_engine_env f row (entry_of f row) (nick_of f row) \<noteq> None"
proof -
  let ?row = "toy_inbox_row 1 IV_Msg CHR ''F'' False" and ?e = "toy_engine (toy_session_data ''ho'') [Fails]"
  obtain f r where f: "handle_row toy_engine_env ?row 5 ?e = (f, r)" by fastforce
  have "snd (handle_row toy_engine_env ?row 5 ?e) = StoreFailed" by code_simp
  then have s: "handle_row toy_engine_env ?row 5 ?e = (f, StoreFailed)" using f by simp
  have verb: "row_verb ?row = IV_PkMsg \<or> row_verb ?row = IV_Msg" "\<not> row_own ?row" by (simp_all add: toy_inbox_row_def)
  have "map_option (\<lambda>d. (in_kind (de_inner d), de_learned d))
      (decrypt_row toy_engine_env ?e ?row (entry_of ?e ?row) (nick_of ?e ?row)) = Some (IK_Text ''ho'', None)"
    by code_simp
  then obtain d where d: "decrypt_row toy_engine_env ?e ?row (entry_of ?e ?row) (nick_of ?e ?row) = Some d"
    "in_kind (de_inner d) = IK_Text ''ho''" "de_learned d = None" by auto
  have "en_state ?e = toy_store\<lparr>st_data := toy_session_data ''ho''\<rparr>" by (simp add: toy_engine_def)
  moreover have "en_state f = en_state ?e" "decrypt_row toy_engine_env f ?row (entry_of f ?row) (nick_of f ?row) = Some d"
    using failed_write_keeps_the_row_readable [OF s verb d(1,2)] d(3) by blast+
  ultimately show ?thesis unfolding Let_def f fst_conv by (simp only:) simp
qed

end
