(* ===== verification/Drain.thy ===== *)
theory Drain
  imports Receive_Claims Client
begin

text \<open>
  The inbox of the device: acknowledging ids, the row of an event, the loop that drains the pages of the
  inbox and the claim of a key, from \<^verbatim>\<open>e2e_engine.rs\<close>. The loop asks the server again and again, so not
  returning is the value None; it returns for a server whose pages move on.
\<close>

section \<open>Acknowledging\<close>

text \<open>\<^verbatim>\<open>ids.chunks(n)\<close>.\<close>

function chunks :: "nat \<Rightarrow> 'a list \<Rightarrow> 'a list list" where
  "chunks k xs = (if xs = [] \<or> k = 0 then [] else take k xs # chunks k (drop k xs))"
  by pat_completeness auto
termination by (relation "measure (\<lambda>(k, xs). length xs)") auto

declare chunks.simps [simp del]

text \<open>Who asks: the call library, the token and the protocol of the server.\<close>

record ('n, 'h, 'v) asker =
  as_http :: "('n, 'h, 'v) http_env"
  as_token :: string
  as_protocol :: "nat option"

fun ack_chunks ::
    "crypto_api \<Rightarrow> ('n, 'h, 'v) asker \<Rightarrow> string \<Rightarrow> string \<Rightarrow> nat list list \<Rightarrow> 'n \<Rightarrow> 'n \<times> ('h EngineError + unit) outcome" where
  "ack_chunks C A network did [] n = (n, Value (Inr ()))"
| "ack_chunks C A network did (chunk # rest) n =
     (case InboxAckRequest_new chunk of
        Inl err \<Rightarrow> (n, Value (Inl (EE_Wire err)))
      | Inr request \<Rightarrow>
          (case ack_e2e_inbox C (as_http A) n (as_token A) network did (as_protocol A) request of
             (n, Panic) \<Rightarrow> (n, Panic)
           | (n, Value (Inl err)) \<Rightarrow> (n, Value (Inl (EE_Route err)))
           | (n, Value (Inr _)) \<Rightarrow> ack_chunks C A network did rest n))"

definition engine_ack ::
    "('v, 'a, 's) engine_env \<Rightarrow> ('n, 'h, 'v) asker \<Rightarrow> nat list \<Rightarrow> Engine \<Rightarrow> 'n \<Rightarrow> 'n \<times> ('h EngineError + unit) outcome" where
  "engine_ack E A ids e n = ack_chunks (ee_crypto E) A (en_network e) (en_own_did e) (chunks INBOX_PAGE_MAX ids) n"

definition handle_event ::
    "('v, 'a, 's) engine_env \<Rightarrow> ('n, 'h, 'v) asker \<Rightarrow> InboxRow \<Rightarrow> int \<Rightarrow> Engine \<Rightarrow> 'n
     \<Rightarrow> Engine \<times> 'n \<times> ('h EngineError + RowOutcome) outcome" where
  "handle_event E A row now e n =
     (case handle_row E row now e of
        (e, x) \<Rightarrow>
          if acknowledge x \<and> x \<noteq> Duplicate then
            (case engine_ack E A [row_id row] e n of
               (n, Panic) \<Rightarrow> (e, n, Panic)
             | (n, Value (Inl err)) \<Rightarrow> (e, n, Value (Inl err))
             | (n, Value (Inr _)) \<Rightarrow> (e, n, Value (Inr x)))
          else (e, n, Value (Inr x)))"

section \<open>Draining\<close>

text \<open>The rows of a page up to a row whose list is stale: the ids to acknowledge, the outcomes, and
  whether such a row came.\<close>

fun drain_rows ::
    "('v, 'a, 's) engine_env \<Rightarrow> int \<Rightarrow> InboxRow list \<Rightarrow> nat list \<Rightarrow> (nat \<times> RowOutcome) list \<Rightarrow> Engine
     \<Rightarrow> Engine \<times> nat list \<times> (nat \<times> RowOutcome) list \<times> bool" where
  "drain_rows E now [] acks outcomes e = (e, acks, outcomes, False)"
| "drain_rows E now (row # rows) acks outcomes e =
     (case handle_row E row now e of
        (e, x) \<Rightarrow>
          let acks = (if acknowledge x then acks @ [row_id row] else acks);
              outcomes = outcomes @ [(row_id row, x)]
          in if x = StaleList then (e, acks, outcomes, True) else drain_rows E now rows acks outcomes e)"

datatype 'h DrainNext = Finished "('h EngineError + (nat \<times> RowOutcome) list) outcome" | NextPage nat "(nat \<times> RowOutcome) list"

definition drain_page ::
    "('v, 'a, 's) engine_env \<Rightarrow> ('n, 'h, 'v) asker \<Rightarrow> int \<Rightarrow> nat option \<Rightarrow> (nat \<times> RowOutcome) list \<Rightarrow> Engine \<Rightarrow> 'n
     \<Rightarrow> Engine \<times> 'n \<times> 'h DrainNext" where
  "drain_page E A now after outcomes e n =
     (case fetch_e2e_inbox (ee_crypto E) (as_http A) (ee_from_str E) n (as_token A) (en_network e) (en_own_did e) after (as_protocol A) of
        (n, Panic) \<Rightarrow> (e, n, Finished Panic)
      | (n, Value (Inl err)) \<Rightarrow> (e, n, Finished (Value (Inl (EE_Route err))))
      | (n, Value (Inr page)) \<Rightarrow>
          if page = [] then (e, n, Finished (Value (Inr outcomes)))
          else
            let highest = Max (row_id ` set page) in
            (case drain_rows E now page [] outcomes e of
               (e, acks, outcomes, stale) \<Rightarrow>
                 (case engine_ack E A acks e n of
                    (n, Panic) \<Rightarrow> (e, n, Finished Panic)
                  | (n, Value (Inl err)) \<Rightarrow> (e, n, Finished (Value (Inl err)))
                  | (n, Value (Inr _)) \<Rightarrow>
                      if stale \<or> length page < INBOX_PAGE_MAX \<or> after = Some highest
                      then (e, n, Finished (Value (Inr outcomes)))
                      else (e, n, NextPage highest outcomes))))"

partial_function (option) drain_loop ::
    "('v, 'a, 's) engine_env \<Rightarrow> ('n, 'h, 'v) asker \<Rightarrow> int \<Rightarrow> nat option \<Rightarrow> (nat \<times> RowOutcome) list \<Rightarrow> Engine \<Rightarrow> 'n
     \<Rightarrow> (Engine \<times> 'n \<times> ('h EngineError + (nat \<times> RowOutcome) list) outcome) option" where
  "drain_loop E A now after outcomes e n =
     (case drain_page E A now after outcomes e n of
        (e, n, Finished r) \<Rightarrow> Some (e, n, r)
      | (e, n, NextPage highest outcomes) \<Rightarrow> drain_loop E A now (Some highest) outcomes e n)"

definition drain ::
    "('v, 'a, 's) engine_env \<Rightarrow> ('n, 'h, 'v) asker \<Rightarrow> int \<Rightarrow> Engine \<Rightarrow> 'n
     \<Rightarrow> (Engine \<times> 'n \<times> ('h EngineError + (nat \<times> RowOutcome) list) outcome) option" where
  "drain E A now e n = drain_loop E A now None [] e n"

section \<open>Claiming a key\<close>

definition claim_keys ::
    "('v, 'a, 's) engine_env \<Rightarrow> ('n, 'h, 'v) asker \<Rightarrow> string \<Rightarrow> string \<Rightarrow> Engine \<Rightarrow> 'n
     \<Rightarrow> Engine \<times> 'n \<times> ('h EngineError + string list) outcome" where
  "claim_keys E A nick did e n =
     (case ClaimRequest_new (ee_crypto E) (en_own_did e) of
        Inl err \<Rightarrow> (e, n, Value (Inl (EE_Wire err)))
      | Inr request \<Rightarrow>
          (case claim_e2e_device_key (ee_crypto E) (as_http A) (ee_from_str E) n (as_token A) (en_network e) did (as_protocol A) request of
             (n, Panic) \<Rightarrow> (e, n, Panic)
           | (n, Value (Inl err)) \<Rightarrow> (e, n, Value (Inl (EE_Route err)))
           | (n, Value (Inr keys)) \<Rightarrow> (case accept_keys E nick keys e of (e, r) \<Rightarrow> (e, n, Value r))))"

section \<open>Lemmas\<close>

lemma chunks_concat: "0 < k \<Longrightarrow> concat (chunks k xs) = xs"
  by (induction k xs rule: chunks.induct) (subst chunks.simps, auto)

lemma chunks_sizes: "0 < k \<Longrightarrow> c \<in> set (chunks k xs) \<Longrightarrow> c \<noteq> [] \<and> length c \<le> k"
  by (induction k xs rule: chunks.induct) (subst (asm) (2) chunks.simps, auto split: if_splits)

text \<open>The ids to acknowledge of a list of outcomes.\<close>

fun acked :: "(nat \<times> RowOutcome) list \<Rightarrow> nat list" where
  "acked [] = []"
| "acked ((i, x) # outcomes) = (if acknowledge x then i # acked outcomes else acked outcomes)"

lemma acked_mem: "i \<in> set (acked outcomes) \<Longrightarrow> \<exists>x. (i, x) \<in> set outcomes \<and> acknowledge x"
  by (induction outcomes rule: acked.induct) (auto split: if_splits)

text \<open>What a page did: the rows that were read, and an outcome for each.\<close>

definition page_read :: "('v, 'a, 's) engine_env \<Rightarrow> int \<Rightarrow> InboxRow list \<Rightarrow> Engine \<Rightarrow> (nat \<times> RowOutcome) list \<Rightarrow> Engine \<Rightarrow> bool" where
  "page_read E now rows e new f \<longleftrightarrow>
     f = handle_rows E (map (\<lambda>row. (row, now)) rows) e \<and> map fst new = map row_id rows \<and>
     (\<forall>(i, x) \<in> set new. acknowledge x \<longrightarrow> i \<in> en_seen f)"

lemma drain_rows_read:
  assumes "drain_rows E now rows acks outcomes e = (f, acks', outcomes', stale)"
  shows "\<exists>got new. prefix got rows \<and> page_read E now got e new f \<and> outcomes' = outcomes @ new \<and>
     acks' = acks @ acked new \<and>
     (stale \<longleftrightarrow> StaleList \<in> snd ` set new) \<and> (\<not> stale \<longrightarrow> got = rows)"
  using assms
proof (induction E now rows acks outcomes e rule: drain_rows.induct)
  case (1 E now acks outcomes e)
  then show ?case by (intro exI [of _ "[]"]) (auto simp: page_read_def)
next
  case (2 E now row rows acks outcomes e)
  obtain g x where g: "handle_row E row now e = (g, x)" by fastforce
  let ?acks = "if acknowledge x then acks @ [row_id row] else acks"
  have seen: "acknowledge x \<Longrightarrow> row_id row \<in> en_seen g" using handle_row_seen [OF g] by simp
  show ?case
  proof (cases "x = StaleList")
    case True
    then show ?thesis
      using "2.prems" g seen
      by (intro exI [of _ "[row]"] exI [of _ "[(row_id row, x)]"]) (auto simp: page_read_def acknowledge_def)
  next
    case False
    then have "drain_rows E now rows ?acks (outcomes @ [(row_id row, x)]) g = (f, acks', outcomes', stale)"
      using "2.prems" g by (simp add: Let_def)
    from "2.IH" [OF g [symmetric] refl refl False this] obtain got new where
      r: "prefix got rows" "page_read E now got g new f" "outcomes' = (outcomes @ [(row_id row, x)]) @ new"
        "acks' = ?acks @ acked new" "stale \<longleftrightarrow> StaleList \<in> snd ` set new" "\<not> stale \<longrightarrow> got = rows"
      by blast
    have "en_seen g \<subseteq> en_seen f" using r(2) handle_rows_seen by (simp add: page_read_def)
    then have "page_read E now (row # got) e ((row_id row, x) # new) f"
      using r(2) g seen by (auto simp: page_read_def)
    then show ?thesis
      using r False by (intro exI [of _ "row # got"] exI [of _ "(row_id row, x) # new"]) auto
  qed
qed

text \<open>The engine after a page has only read rows.\<close>

definition rows_read :: "('v, 'a, 's) engine_env \<Rightarrow> int \<Rightarrow> Engine \<Rightarrow> (nat \<times> RowOutcome) list \<Rightarrow> Engine \<Rightarrow> bool" where
  "rows_read E now e new f \<longleftrightarrow> (\<exists>rows. page_read E now rows e new f)"

lemma handle_rows_append: "handle_rows E (xs @ ys) e = handle_rows E ys (handle_rows E xs e)"
  by (induction E xs e rule: handle_rows.induct) simp_all

lemma rows_read_append: "rows_read E now e a f \<Longrightarrow> rows_read E now f b g \<Longrightarrow> rows_read E now e (a @ b) g"
proof -
  assume "rows_read E now e a f" "rows_read E now f b g"
  then obtain xs ys where r: "page_read E now xs e a f" "page_read E now ys f b g" by (auto simp: rows_read_def)
  then have "en_seen f \<subseteq> en_seen g" using handle_rows_seen by (simp add: page_read_def)
  then have "page_read E now (xs @ ys) e (a @ b) g" using r by (auto simp: page_read_def handle_rows_append)
  then show ?thesis by (auto simp: rows_read_def)
qed

lemma rows_read_none: "rows_read E now e [] e"
  by (auto simp: rows_read_def page_read_def intro: exI [of _ "[]"])

lemma drain_page_read:
  assumes "drain_page E A now after outcomes e n = (f, n', d)"
  shows "\<exists>new. rows_read E now e new f \<and>
     (\<forall>outs. d = Finished (Value (Inr outs)) \<longrightarrow> outs = outcomes @ new) \<and>
     (\<forall>highest outs. d = NextPage highest outs \<longrightarrow> outs = outcomes @ new)"
proof -
  obtain n1 r where r: "fetch_e2e_inbox (ee_crypto E) (as_http A) (ee_from_str E) n (as_token A) (en_network e) (en_own_did e) after (as_protocol A)
      = (n1, r)" by fastforce
  show ?thesis
  proof (cases "\<exists>page. r = Value (Inr page) \<and> page \<noteq> []")
    case False
    then show ?thesis
      using assms rows_read_none [of E now e]
      by (auto simp: drain_page_def r split: outcome.splits sum.splits if_splits intro!: exI [of _ "[]"])
  next
    case True
    then obtain page where page: "r = Value (Inr page)" "page \<noteq> []" by blast
    obtain g acks outs stale where g: "drain_rows E now page [] outcomes e = (g, acks, outs, stale)" by (metis prod_cases4)
    from drain_rows_read [OF g] obtain got new where "page_read E now got e new g" "outs = outcomes @ new" by blast
    then show ?thesis
      using assms page
      by (intro exI [of _ new])
        (auto simp: drain_page_def r g Let_def rows_read_def split: outcome.splits sum.splits if_splits prod.splits)
  qed
qed

lemma drain_loop_read:
  assumes "drain_loop E A now after outcomes e n = Some y"
  shows "\<exists>new. rows_read E now e new (fst y) \<and> (\<forall>outs. snd (snd y) = Value (Inr outs) \<longrightarrow> outs = outcomes @ new)"
    (is "?P E A now after outcomes e n y")
proof (rule drain_loop.raw_induct [where P = ?P, OF _ assms])
  fix loop E A now after outcomes e n y
  assume IH: "\<And>E A now after outcomes e n y. loop E A now after outcomes e n = Some y \<Longrightarrow> ?P E A now after outcomes e n y"
    and step: "(case drain_page E A now after outcomes e n of
        (e, n, Finished r) \<Rightarrow> Some (e, n, r)
      | (e, n, NextPage highest outcomes) \<Rightarrow> loop E A now (Some highest) outcomes e n) = Some y"
  obtain g m d where d: "drain_page E A now after outcomes e n = (g, m, d)" by (metis prod_cases3)
  obtain new where new: "rows_read E now e new g" "\<forall>outs. d = Finished (Value (Inr outs)) \<longrightarrow> outs = outcomes @ new"
    "\<forall>highest outs. d = NextPage highest outs \<longrightarrow> outs = outcomes @ new"
    using drain_page_read [OF d] by blast
  show "?P E A now after outcomes e n y"
  proof (cases d)
    case (Finished x)
    then have "y = (g, m, x)" using step d by simp
    then show ?thesis using Finished new(1,2) by auto
  next
    case (NextPage highest outs)
    then have "loop E A now (Some highest) outs g m = Some y" using step d by simp
    from IH [OF this] obtain more where
      "rows_read E now g more (fst y)" "\<forall>x. snd (snd y) = Value (Inr x) \<longrightarrow> x = outs @ more" by blast
    then show ?thesis using rows_read_append [OF new(1)] new(3) NextPage by (intro exI [of _ "new @ more"]) simp
  qed
qed

text \<open>The ids of a page fit a \<^verbatim>\<open>u64\<close>.\<close>

lemma fetched_ids:
  assumes "json_api_ok (http_json H)" "fetch_e2e_inbox C H parse n token net did after protocol = (n', Value (Inr page))" "row \<in> set page"
  shows "row_id row \<le> u64_max"
proof -
  obtain b where "with_body (\<lambda>value. page_from_value C (http_json H) parse value protocol) b = Inr page"
    using assms(2)
    by (auto simp: fetch_e2e_inbox_def e2e_call_with_def answer_def map_err_def split: sum.splits prod.splits outcome.splits)
  then obtain rows where "collect_results (\<lambda>row. InboxRow_from_value C (http_json H) parse row protocol) rows = Inr page"
    by (auto simp: with_body_def page_from_value_def rbind_eq_Inr)
  then obtain v where "InboxRow_from_value C (http_json H) parse v protocol = Inr row"
    using assms(3) by (auto simp: collect_results_Inr list_all2_conv_all_nth in_set_conv_nth)
  then show ?thesis
    using assms(1)
    by (auto simp: InboxRow_from_value_def rbind_eq_Inr required_id_def read_id_def json_api_ok_def split: option.splits if_splits)
qed

section \<open>The loop returns\<close>

text \<open>Documented behaviour of the route: a page holds only rows behind the cursor.\<close>

definition pages_move_on :: "('v, 'a, 's) engine_env \<Rightarrow> ('n, 'h, 'v) asker \<Rightarrow> bool" where
  "pages_move_on E A \<longleftrightarrow>
     (\<forall>n network did after n' page. fetch_e2e_inbox (ee_crypto E) (as_http A) (ee_from_str E) n (as_token A) network did (Some after) (as_protocol A)
        = (n', Value (Inr page)) \<longrightarrow> (\<forall>row \<in> set page. after < row_id row))"

lemma drain_page_next:
  assumes "json_api_ok (http_json (as_http A))" "pages_move_on E A" "drain_page E A now after outcomes e n = (f, n', NextPage highest outs)"
  shows "highest \<le> u64_max \<and> (\<forall>a. after = Some a \<longrightarrow> a < highest)"
proof -
  obtain n1 r where r: "fetch_e2e_inbox (ee_crypto E) (as_http A) (ee_from_str E) n (as_token A) (en_network e) (en_own_did e) after (as_protocol A)
      = (n1, r)" by fastforce
  obtain page where page: "r = Value (Inr page)" "page \<noteq> []" "highest = Max (row_id ` set page)"
    using assms(3)
    by (auto simp: drain_page_def r Let_def split: outcome.splits sum.splits if_splits prod.splits)
  have "highest \<in> row_id ` set page" using page(2,3) by simp
  then obtain row where row: "row \<in> set page" "highest = row_id row" by blast
  show ?thesis
    using fetched_ids [OF assms(1) r [unfolded page(1)] row(1)] row assms(2) r page(1)
    by (auto simp: pages_move_on_def)
qed

lemma drain_loop_returns:
  assumes "json_api_ok (http_json (as_http A))" "pages_move_on E A"
  shows "(case after of None \<Rightarrow> u64_max + 1 | Some a \<Rightarrow> u64_max - a) = k \<Longrightarrow> \<exists>r. drain_loop E A now after outcomes e n = Some r"
proof (induction k arbitrary: after outcomes e n rule: less_induct)
  case (less k)
  obtain f m d where d: "drain_page E A now after outcomes e n = (f, m, d)" by (metis prod_cases3)
  show ?case
  proof (cases d)
    case (Finished x)
    then show ?thesis using d by (subst drain_loop.simps) simp
  next
    case (NextPage highest outs)
    from drain_page_next [OF assms d [unfolded NextPage]] have "u64_max - highest < k"
      using less.prems by (auto split: option.splits)
    from less.IH [OF this, of "Some highest" outs f m] show ?thesis
      using d NextPage by (subst drain_loop.simps) simp
  qed
qed

section \<open>Properties\<close>

text \<open>
  Claim C13. Draining the inbox ends. For a server whose pages hold only rows behind the cursor it is
  asked with, the loop returns, whatever the rows are, and the limit is that of the ids.
\<close>

theorem drain_returns:
  assumes "json_api_ok (http_json (as_http A))" and "pages_move_on E A"
  shows "\<exists>f n' r. drain E A now e n = Some (f, n', r)"
  using drain_loop_returns [OF assms refl, of now None "[]" e n] by (auto simp: drain_def)



section \<open>A concrete server\<close>

text \<open>One NACK row with the id 7, and nothing behind a cursor.\<close>

definition toy_nack :: json where
  "toy_nack = JObject [(''kind'', JString ''e2e_message''), (''verb'', JString ''nack''), (''from_did'', JString (toy_did CHR ''F'')),
     (''to_did'', JString (toy_did CHR ''O'')), (''payload'', JString ''p''), (''id'', JInt 7), (''network'', JString ''net''),
     (''from'', JString ''bob''), (''msgid'', JString ''m'')]"

definition toy_server :: "(nat, unit, json) asker" where
  "toy_server = \<lparr>
     as_http = \<lparr>
       http = (\<lambda>n request. (n + 1, Inr \<lparr> rs_status = 200, rs_retry_after = None,
         rs_json = Some (JObject [(''messages'', JArray (if rq_query request = [] then [toy_nack] else []))]) \<rparr>)),
       no_json = (), base_url_ok = Inr (), http_json = json_instance, read_rendezvous = (\<lambda>_. None),
       read_message = (\<lambda>_. None), read_messages = (\<lambda>_. None), http_now = 0, time_limit = 0 \<rparr>,
     as_token = ''t'', as_protocol = Some 55 \<rparr>"

lemma toy_server_moves_on: "json_api_ok (http_json (as_http toy_server))" "pages_move_on E toy_server"
proof -
  show "json_api_ok (http_json (as_http toy_server))" by (simp add: toy_server_def json_instance_ok)
  have "page = []"
    if "fetch_e2e_inbox C (as_http toy_server) parse n token network did (Some after) protocol = (n', Value (Inr page))"
    for C parse n token network did after protocol n' page
    using that
    by (auto simp: fetch_e2e_inbox_def e2e_call_with_def send_request_def answer_def reject_with_code_def is_success_def NO_CONTENT_def
        toy_server_def with_body_def page_from_value_def as_object_def json_instance_def ok_or_def map_err_def split: sum.splits)
  then show "pages_move_on E toy_server" unfolding pages_move_on_def by fastforce
qed

theorem drain_returns_witness: "\<exists>f n' r. drain toy_engine_env toy_server 5 (toy_engine toy_peer_data []) 0 = Some (f, n', r)"
  using drain_returns [OF toy_server_moves_on] by blast



end
