(* ===== verification/Send_Plan.thy ===== *)
theory Send_Plan
  imports Engine Client
begin

text \<open>
  What the engine of \<^verbatim>\<open>e2e_engine.rs\<close> writes and how it is cut into requests: the inner message, the sealed
  bodies, the payload of a request and the plan of the requests of one text. Nothing here changes the
  engine or reaches the server. What the libraries give is in \<open>send_env\<close>.
\<close>

section \<open>What a message says\<close>

record OwnWire =
  ow_id :: IdBlock
  ow_master :: MasterRef
  ow_lv :: nat

record InnerOut =
  io_t :: string
  io_peer :: "string option"
  io_body :: string
  io_lv :: nat
  io_fb :: "string option"

record CopyOut =
  cu_t :: string
  cu_peer :: string
  cu_body :: string
  cu_cid :: string
  cu_lv :: nat
  cu_fb :: "string option"

datatype Outgoing = OutText string | OutList MasterBlock | OutListReq

text \<open>The libraries behind a send: the readers of the receive path, the server calls and who is asking,
  the derived JSON writers (\<open>sv_object_json\<close> writes an object with \<open>t\<close>, a \<open>master\<close>, \<open>lv\<close> and \<open>fb\<close>),
  the keys of the account, and Olm, which takes a random draw to start a session and to encrypt. An
  encryption gives the moved session, whether the message is a first message, and its text.\<close>

record ('v, 'a, 's, 'n, 'h) send_env =
  sv_engine :: "('v, 'a, 's) engine_env"
  sv_http :: "('n, 'h, 'v) http_env"
  sv_token :: string
  sv_protocol :: "nat option"
  sv_inner_json :: "InnerOut \<Rightarrow> string"
  sv_copy_json :: "CopyOut \<Rightarrow> string"
  sv_object_json :: "string \<Rightarrow> MasterBlock option \<Rightarrow> nat \<Rightarrow> string option \<Rightarrow> string"
  sv_payload_json :: "MessagePayload \<Rightarrow> string"
  sv_curve :: "'a \<Rightarrow> string"
  sv_sign :: "'a \<Rightarrow> string \<Rightarrow> string"
  sv_has_received :: "'s \<Rightarrow> bool"
  sv_outbound :: "nat \<Rightarrow> 'a \<Rightarrow> string \<Rightarrow> string \<Rightarrow> 's option"
  sv_encrypt :: "nat \<Rightarrow> 's \<Rightarrow> string \<Rightarrow> ('s \<times> bool \<times> string) option"

abbreviation sv_crypto :: "('v, 'a, 's, 'n, 'h) send_env \<Rightarrow> crypto_api" where
  "sv_crypto S \<equiv> ee_crypto (sv_engine S)"

abbreviation sv_store :: "('v, 'a, 's, 'n, 'h) send_env \<Rightarrow> ('a, 's) store_env" where
  "sv_store S \<equiv> ee_store (sv_engine S)"

definition Outgoing_to_json :: "('v, 'a, 's, 'n, 'h) send_env \<Rightarrow> Outgoing \<Rightarrow> nat \<Rightarrow> string option \<Rightarrow> string" where
  "Outgoing_to_json S out lv fb =
     (case out of
        OutText stored \<Rightarrow>
          (case action_body stored of
             Some words \<Rightarrow> sv_inner_json S \<lparr> io_t = ''action'', io_peer = None, io_body = words, io_lv = lv, io_fb = fb \<rparr>
           | None \<Rightarrow> sv_inner_json S \<lparr> io_t = ''text'', io_peer = None, io_body = stored, io_lv = lv, io_fb = fb \<rparr>)
      | OutList master \<Rightarrow> sv_object_json S ''list'' (Some master) lv fb
      | OutListReq \<Rightarrow> sv_object_json S ''listreq'' None lv fb)"

definition own_wire :: "('v, 'a, 's, 'n, 'h) send_env \<Rightarrow> Engine \<Rightarrow> 'a \<Rightarrow> 'h EngineError + OwnWire" where
  "own_wire S e identity =
     rbind (ok_or (sd_device_certificate (st_data (en_state e))) EE_NotReady) (\<lambda>certificate.
     rbind (map_err EE_Store (master_key (sv_store S) (en_state e))) (\<lambda>master.
       if (case master of None \<Rightarrow> False
           | Some master \<Rightarrow> account_ed25519 (sv_store S) master \<noteq> vc_master_ed25519 certificate) then Inl EE_NotReady
       else
         rbind (ok_or (sd_signed_list (st_data (en_state e))) EE_NotReady) (\<lambda>l.
           if vc_device_ed25519 certificate \<noteq> en_own_ed25519 e then Inl EE_NotReady
           else
             let curve25519 = sv_curve S identity;
                 signed = device_id_signed_text curve25519 (vc_master_ed25519 certificate)
             in Inr \<lparr>
               ow_id = \<lparr> ib_curve25519 = curve25519, ib_ed25519 = en_own_ed25519 e, ib_sig = sv_sign S identity signed \<rparr>,
               ow_master = \<lparr> mr_ed25519 = vc_master_ed25519 certificate, mr_ver = vc_first_list_version certificate,
                             mr_cert = vc_signature certificate \<rparr>,
               ow_lv = sl_version l \<rparr>)))"

section \<open>Devices to send to\<close>

definition entry_ready :: "('v, 'a, 's, 'n, 'h) send_env \<Rightarrow> Engine \<Rightarrow> PeerEntry \<Rightarrow> bool" where
  "entry_ready S e known \<longleftrightarrow>
     \<not> entry_revoked e known (en_trust e) \<and>
     (pe_one_time_key known \<noteq> None \<or>
      (case peer_session (sv_store S) (en_state e) (en_network e) (pe_nick known) (pd_did (pe_device known)) of
         Inr (Some _) \<Rightarrow> True | _ \<Rightarrow> False))"

definition pick_devices :: "('v, 'a, 's, 'n, 'h) send_env \<Rightarrow> string \<Rightarrow> Engine \<Rightarrow> PeerEntry list" where
  "pick_devices S nick e =
     take MAX_LIST_DEVICES (sort_key (\<lambda>known. pd_did (pe_device known))
       (filter (\<lambda>known. en_fold e (pe_nick known) = en_fold e nick \<and> entry_ready S e known) (map snd (en_peers e))))"

definition pick_specific_device :: "('v, 'a, 's, 'n, 'h) send_env \<Rightarrow> string \<Rightarrow> string \<Rightarrow> Engine \<Rightarrow> PeerEntry option" where
  "pick_specific_device S nick did e =
     Option.bind (map_of (en_peers e) did) (\<lambda>known.
       if en_fold e (pe_nick known) = en_fold e nick \<and> entry_ready S e known then Some known else None)"

definition is_ready :: "('v, 'a, 's, 'n, 'h) send_env \<Rightarrow> string \<Rightarrow> Engine \<Rightarrow> bool" where
  "is_ready S nick e \<longleftrightarrow>
     list_ex (\<lambda>known. en_fold e (pe_nick known) = en_fold e nick \<and> entry_ready S e known) (map snd (en_peers e))"

definition ready_peers :: "('v, 'a, 's, 'n, 'h) send_env \<Rightarrow> Engine \<Rightarrow> string list" where
  "ready_peers S e = remdups_adj (sort (map pe_nick (filter (entry_ready S e) (map snd (en_peers e)))))"

section \<open>Requests\<close>

record 's Sealed =
  so_nick :: string
  so_did :: string
  so_prekey :: bool
  so_body :: string
  so_session :: 's

record Emitted =
  et_dids :: "string list"
  et_msgid :: "string option"
  et_capture :: E2eCapture

fun send_verb_name :: "E2eSendVerb \<Rightarrow> string" where
  "send_verb_name SvKeyReq = ''keyreq''"
| "send_verb_name SvPkMsg = ''pkmsg''"
| "send_verb_name SvMsg = ''msg''"
| "send_verb_name SvNack = ''nack''"

text \<open>\<^verbatim>\<open>BTreeMap\<close>: the keys in order, a later value in place of an earlier one.\<close>

fun tree_insert :: "string \<Rightarrow> string \<Rightarrow> (string \<times> string) list \<Rightarrow> (string \<times> string) list" where
  "tree_insert k x [] = [(k, x)]"
| "tree_insert k x ((l, y) # rest) =
     (if k < l then (k, x) # (l, y) # rest else if k = l then (k, x) # rest else (l, y) # tree_insert k x rest)"

definition bodies_of :: "'s Sealed list \<Rightarrow> (string \<times> string) list" where
  "bodies_of chunk = fold (\<lambda>sealed. tree_insert (so_did sealed) (so_body sealed)) chunk []"

definition chunk_payload :: "'s Sealed list \<Rightarrow> OwnWire \<Rightarrow> E2eSendVerb \<times> MessagePayload" where
  "chunk_payload chunk own =
     (if (case chunk of [] \<Rightarrow> False | first # _ \<Rightarrow> so_prekey first) then
        (SvPkMsg, PreKey \<lparr> pp_v = PAYLOAD_VERSION, pp_id = ow_id own, pp_master = ow_master own, pp_bodies = bodies_of chunk \<rparr>)
      else
        (SvMsg, Normal \<lparr> mp_v = PAYLOAD_VERSION, mp_ck = ib_curve25519 (ow_id own), mp_bodies = bodies_of chunk \<rparr>))"

text \<open>The payload as JSON text, which the code makes at once.\<close>

definition chunk_json :: "('v, 'a, 's, 'n, 'h) send_env \<Rightarrow> 's Sealed list \<Rightarrow> OwnWire \<Rightarrow> string" where
  "chunk_json S chunk own = sv_payload_json S (snd (chunk_payload chunk own))"

definition chunk_target :: "'s Sealed list \<Rightarrow> string" where
  "chunk_target chunk = (case chunk of [only] \<Rightarrow> so_did only | _ \<Rightarrow> WILDCARD)"

definition request_fits ::
    "('v, 'a, 's, 'n, 'h) send_env \<Rightarrow> OwnWire \<Rightarrow> string \<Rightarrow> nat option \<Rightarrow> 's Sealed list \<Rightarrow> bool" where
  "request_fits S own own_did line_budget chunk \<longleftrightarrow>
     (let payload = chunk_json S chunk own in
      \<not> (length payload > SEND_PAYLOAD_MAX_BYTES \<or> line_count payload > SEND_PAYLOAD_MAX_LINES) \<and>
      (case line_budget of
         None \<Rightarrow> True
       | Some line_budget \<Rightarrow>
           (case frames_needed (frame_verb (fst (chunk_payload chunk own))) (length payload) line_budget own_did (chunk_target chunk) of
              None \<Rightarrow> False | Some frames \<Rightarrow> frames \<le> MAX_FRAGMENTS)))"

text \<open>The loop holds the requests made so far and the one that grows. A body that does not fit with the
  others starts the next request.\<close>

fun split_loop ::
    "('v, 'a, 's, 'n, 'h) send_env \<Rightarrow> OwnWire \<Rightarrow> string \<Rightarrow> nat option \<Rightarrow> 's Sealed list \<Rightarrow> 's Sealed list list \<Rightarrow> 's Sealed list
     \<Rightarrow> 's Sealed list list" where
  "split_loop S own own_did line_budget [] chunks current = (if current \<noteq> [] then chunks @ [current] else chunks)"
| "split_loop S own own_did line_budget (sealed # waiting) chunks current =
     (let grown = current @ [sealed] in
      if length grown > 1 \<and> (length grown > MAX_LIST_DEVICES \<or> \<not> request_fits S own own_did line_budget grown)
      then split_loop S own own_did line_budget waiting (chunks @ [current]) [sealed]
      else split_loop S own own_did line_budget waiting chunks grown)"

definition split_by_limits ::
    "('v, 'a, 's, 'n, 'h) send_env \<Rightarrow> 's Sealed list \<Rightarrow> OwnWire \<Rightarrow> string \<Rightarrow> nat option \<Rightarrow> 's Sealed list list" where
  "split_by_limits S waiting own own_did line_budget = split_loop S own own_did line_budget waiting [] []"

text \<open>The plan of \<^verbatim>\<open>emit\<close>: all requests, or nothing when a body or a request does not fit.\<close>

definition plan_requests ::
    "('v, 'a, 's, 'n, 'h) send_env \<Rightarrow> 's Sealed list \<Rightarrow> OwnWire \<Rightarrow> string \<Rightarrow> nat option \<Rightarrow> 's Sealed list list option" where
  "plan_requests S sealed own own_did line_budget =
     (if list_ex (\<lambda>s. \<not> request_fits S own own_did line_budget [s]) sealed then None
      else
        let plan = concat (map (\<lambda>prekey. split_by_limits S (filter (\<lambda>s. so_prekey s = prekey) sealed) own own_did line_budget)
                             [False, True])
        in if list_all (request_fits S own own_did line_budget) plan then Some plan else None)"

section \<open>Lemmas\<close>

lemma tree_insert_set: "set (tree_insert k x xs) \<subseteq> insert (k, x) (set xs)"
  by (induction xs rule: tree_insert.induct) auto

lemma bodies_of_set: "set (bodies_of chunk) \<subseteq> (\<lambda>s. (so_did s, so_body s)) ` set chunk"
proof -
  let ?F = "fold (\<lambda>s. tree_insert (so_did s) (so_body s))"
  have "set (?F chunk xs) \<subseteq> set xs \<union> (\<lambda>s. (so_did s, so_body s)) ` set chunk" for xs
  proof (induction chunk arbitrary: xs)
    case (Cons s chunk)
    show ?case using Cons [of "tree_insert (so_did s) (so_body s) xs"] tree_insert_set [of "so_did s" "so_body s" xs] by auto
  qed simp
  from this [of "[]"] show ?thesis by (simp add: bodies_of_def)
qed

text \<open>A request keeps the limits when it has one body or fits.\<close>

definition chunk_ok ::
    "('v, 'a, 's, 'n, 'h) send_env \<Rightarrow> OwnWire \<Rightarrow> string \<Rightarrow> nat option \<Rightarrow> 's Sealed list \<Rightarrow> bool" where
  "chunk_ok S own own_did line_budget chunk \<longleftrightarrow>
     chunk \<noteq> [] \<and> (length chunk = 1 \<or> length chunk \<le> MAX_LIST_DEVICES \<and> request_fits S own own_did line_budget chunk)"

lemma split_loop_concat: "concat (split_loop S own own_did budget waiting chunks current) = concat chunks @ current @ waiting"
  by (induction S own own_did budget waiting chunks current rule: split_loop.induct) (auto simp: Let_def)

lemma split_loop_ok:
  assumes "\<forall>chunk \<in> set chunks. chunk_ok S own own_did budget chunk" "current = [] \<or> chunk_ok S own own_did budget current"
  shows "\<forall>chunk \<in> set (split_loop S own own_did budget waiting chunks current). chunk_ok S own own_did budget chunk"
  using assms
proof (induction waiting arbitrary: chunks current)
  case (Cons sealed waiting)
  let ?grown = "current @ [sealed]"
  have one: "chunk_ok S own own_did budget [sealed]" by (simp add: chunk_ok_def)
  show ?case
  proof (cases "length ?grown > 1 \<and> (length ?grown > MAX_LIST_DEVICES \<or> \<not> request_fits S own own_did budget ?grown)")
    case True
    then have "chunk_ok S own own_did budget current" using Cons.prems(2) by auto
    then have "\<forall>chunk \<in> set (chunks @ [current]). chunk_ok S own own_did budget chunk" using Cons.prems(1) by auto
    from Cons.IH [OF this, of "[sealed]"] one True show ?thesis by (simp add: Let_def)
  next
    case False
    then have "chunk_ok S own own_did budget ?grown" by (cases current) (auto simp: chunk_ok_def)
    with Cons.IH [OF Cons.prems(1), of ?grown] False show ?thesis by (auto simp: Let_def)
  qed
qed auto

lemma plan_requests_Some:
  assumes "plan_requests S sealed own own_did budget = Some plan"
  shows "chunk \<in> set plan \<Longrightarrow> chunk \<noteq> [] \<and> set chunk \<subseteq> set sealed \<and> length chunk \<le> MAX_LIST_DEVICES \<and>
      request_fits S own own_did budget chunk \<and> (\<exists>prekey. \<forall>s \<in> set chunk. so_prekey s = prekey)"
    and "concat plan = filter (\<lambda>s. \<not> so_prekey s) sealed @ filter so_prekey sealed"
proof -
  let ?split = "\<lambda>prekey. split_by_limits S (filter (\<lambda>s. so_prekey s = prekey) sealed) own own_did budget"
  have plan: "plan = ?split False @ ?split True" "list_all (request_fits S own own_did budget) plan"
    using assms by (auto simp: plan_requests_def Let_def split: if_splits)
  have c: "concat (?split prekey) = filter (\<lambda>s. so_prekey s = prekey) sealed" for prekey
    by (simp add: split_by_limits_def split_loop_concat)
  have ok: "\<forall>chunk \<in> set (?split prekey). chunk_ok S own own_did budget chunk" for prekey
    unfolding split_by_limits_def by (rule split_loop_ok) simp_all
  show "concat plan = filter (\<lambda>s. \<not> so_prekey s) sealed @ filter so_prekey sealed"
    using c [of False] c [of True] by (simp add: plan(1))
  assume chunk: "chunk \<in> set plan"
  then have "chunk \<in> set (?split False) \<or> chunk \<in> set (?split True)" by (simp only: plan(1) set_append Un_iff)
  then obtain prekey where p: "chunk \<in> set (?split prekey)" by blast
  have "set chunk \<subseteq> set (concat (?split prekey))" using p by auto
  then have sub: "set chunk \<subseteq> set (filter (\<lambda>s. so_prekey s = prekey) sealed)" by (simp only: c)
  have fits: "request_fits S own own_did budget chunk" using plan(2) chunk by (auto simp: list_all_iff)
  have "chunk_ok S own own_did budget chunk" using ok p by blast
  then have "chunk \<noteq> []" "length chunk \<le> MAX_LIST_DEVICES" by (auto simp: chunk_ok_def MAX_LIST_DEVICES_def)
  then show "chunk \<noteq> [] \<and> set chunk \<subseteq> set sealed \<and> length chunk \<le> MAX_LIST_DEVICES \<and>
      request_fits S own own_did budget chunk \<and> (\<exists>prekey. \<forall>s \<in> set chunk. so_prekey s = prekey)"
    using sub fits by auto
qed

lemma pick_devices_facts:
  assumes "known \<in> set (pick_devices S nick e)"
  shows "en_fold e (pe_nick known) = en_fold e nick" "entry_ready S e known" "known \<in> snd ` set (en_peers e)"
  using assms by (auto simp: pick_devices_def dest!: in_set_takeD)

end
