(* ===== verification/Engine_Send.thy ===== *)
theory Engine_Send
  imports Send_Plan Effects
begin

text \<open>
  The send path of the engine, from \<^verbatim>\<open>e2e_engine.rs\<close>: sealing a text for the devices of a nick, the
  requests of the send door, the queue of texts that wait for keys, the list messages and the request
  for keys. A step works on the engine and on the other side of the network.
\<close>

section \<open>Steps of the engine\<close>

type_synonym ('n, 'e, 'x) sending = "(Engine \<times> 'n, 'e, 'x) act"

definition engineDo :: "(Engine \<Rightarrow> Engine \<times> ('e + 'x)) \<Rightarrow> ('n, 'e, 'x) sending" where
  "engineDo f w = (case f (fst w) of (e, r) \<Rightarrow> ((e, snd w), Value r))"

definition engineStep :: "(Engine \<Rightarrow> Engine \<times> 'x) \<Rightarrow> ('n, 'e, 'x) sending" where
  "engineStep f = engineDo (\<lambda>e. case f e of (e, x) \<Rightarrow> (e, Inr x))"

definition engineSet :: "(Engine \<Rightarrow> Engine) \<Rightarrow> ('n, 'e, unit) sending" where
  "engineSet f = engineStep (\<lambda>e. (f e, ()))"

definition engineGet :: "(Engine \<Rightarrow> 'x) \<Rightarrow> ('n, 'e, 'x) sending" where
  "engineGet f = engineStep (\<lambda>e. (e, f e))"

definition engineCheck :: "(Engine \<Rightarrow> 'e + 'x) \<Rightarrow> ('n, 'e, 'x) sending" where
  "engineCheck f = engineDo (\<lambda>e. (e, f e))"

definition serverDo :: "('n \<Rightarrow> 'n \<times> ('e + 'x) outcome) \<Rightarrow> ('n, 'e, 'x) sending" where
  "serverDo f w = (case f (snd w) of (n, r) \<Rightarrow> ((fst w, n), r))"

definition fresh :: "(nat \<Rightarrow> 'x) \<Rightarrow> ('n, 'e, 'x) sending" where
  "fresh f = engineStep (\<lambda>e. (e\<lparr>en_draws := en_draws e + 1\<rparr>, f (en_draws e)))"

text \<open>The result of a step as a value, for a caller that looks at its error.\<close>

definition attempt :: "('w, 'e, 'x) act \<Rightarrow> ('w, 'f, 'e + 'x) act" where
  "attempt m w = (case m w of (w, Panic) \<Rightarrow> (w, Panic) | (w, Value r) \<Rightarrow> (w, Value (Inr r)))"

definition identityOf :: "('v, 'a, 's, 'n, 'h) send_env \<Rightarrow> ('n, 'h EngineError, 'a) sending" where
  "identityOf S =
     engineCheck (\<lambda>e. rbind (map_err EE_Store (olm_identity (sv_store S) (en_state e))) (\<lambda>identity. ok_or identity EE_NotReady))"

section \<open>Sealing\<close>

definition seal_session ::
    "('v, 'a, 's, 'n, 'h) send_env \<Rightarrow> 'a \<Rightarrow> PeerEntry \<Rightarrow> ('n, 'h EngineError, 's) sending" where
  "seal_session S identity known =
     andThen (engineCheck (\<lambda>e. map_err EE_Store
                (peer_session (sv_store S) (en_state e) (en_network e) (pe_nick known) (pd_did (pe_device known))))) (\<lambda>found.
     case found of
       Some session \<Rightarrow> ret session
     | None \<Rightarrow>
         (case pe_one_time_key known of
            None \<Rightarrow> throw EE_NotReady
          | Some one_time \<Rightarrow>
              if \<not> olm_curve_ok (sv_engine S) (pd_curve25519 (pe_device known)) then throw EE_EncryptionFailed
              else if \<not> olm_curve_ok (sv_engine S) one_time then throw EE_EncryptionFailed
              else
                andThen (fresh (\<lambda>draw. sv_outbound S draw identity (pd_curve25519 (pe_device known)) one_time)) (\<lambda>session.
                  fromResult (ok_or session EE_EncryptionFailed))))"

definition seal_one ::
    "('v, 'a, 's, 'n, 'h) send_env \<Rightarrow> 'a \<Rightarrow> Outgoing \<Rightarrow> nat \<Rightarrow> PeerEntry \<Rightarrow> ('n, 'h EngineError, 's Sealed) sending" where
  "seal_one S identity out lv known =
     andThen (seal_session S identity known) (\<lambda>session.
     andThen (engineGet en_own_ed25519) (\<lambda>own.
     let fb = (if \<not> sv_has_received S session
               then Some (recipient_binding (sv_crypto S) own (pd_ed25519 (pe_device known))) else None)
     in
     andThen (fresh (\<lambda>draw. sv_encrypt S draw session (Outgoing_to_json S out lv fb))) (\<lambda>sealed.
       case sealed of
         None \<Rightarrow> throw EE_EncryptionFailed
       | Some (session, prekey, body) \<Rightarrow>
           ret \<lparr> so_nick = pe_nick known, so_did = pd_did (pe_device known), so_prekey = prekey, so_body = body,
                 so_session = session \<rparr>)))"

fun seal_loop ::
    "('v, 'a, 's, 'n, 'h) send_env \<Rightarrow> 'a \<Rightarrow> Outgoing \<Rightarrow> nat \<Rightarrow> PeerEntry list \<Rightarrow> ('n, 'h EngineError, 's Sealed list) sending" where
  "seal_loop S identity out lv [] = ret []"
| "seal_loop S identity out lv (known # entries) =
     andThen (seal_one S identity out lv known) (\<lambda>sealed.
     andThen (seal_loop S identity out lv entries) (\<lambda>rest. ret (sealed # rest)))"

definition seal_text ::
    "('v, 'a, 's, 'n, 'h) send_env \<Rightarrow> 'a \<Rightarrow> PeerEntry list \<Rightarrow> Outgoing \<Rightarrow> nat \<Rightarrow> ('n, 'h EngineError, 's Sealed list) sending" where
  "seal_text S identity entries out lv =
     andThen (seal_loop S identity out lv entries) (\<lambda>sealed. if sealed = [] then throw EE_NotReady else ret sealed)"

section \<open>Sending\<close>

definition save_sealed :: "('v, 'a, 's, 'n, 'h) send_env \<Rightarrow> 's Sealed \<Rightarrow> ('n, 'h EngineError, unit) sending" where
  "save_sealed S sealed =
     andThen (mapError EE_Store (engineDo (\<lambda>e.
       stateDo (sv_engine S) (SetPeerSession (en_network e) (so_nick sealed) (so_did sealed) (so_session sealed)) e))) (\<lambda>_.
     engineSet (\<lambda>e. e\<lparr>en_peers := map (\<lambda>(did, known).
       (did, if did = so_did sealed then known\<lparr>pe_one_time_key := None\<rparr> else known)) (en_peers e)\<rparr>))"

definition send_door ::
    "('v, 'a, 's, 'n, 'h) send_env \<Rightarrow> string \<Rightarrow> E2eSendRequest \<Rightarrow> ('n, 'h EngineError, SendAnswer) sending" where
  "send_door S network request =
     mapError EE_Client (serverDo (\<lambda>n. send_e2e_message (sv_http S) n (sv_token S) network request))"

definition group_request ::
    "('v, 'a, 's, 'n, 'h) send_env \<Rightarrow> Engine \<Rightarrow> string \<Rightarrow> 's Sealed list \<Rightarrow> OwnWire \<Rightarrow> E2eSendPriority \<Rightarrow> WireError + E2eSendRequest" where
  "group_request S e nick chunk own priority =
     E2eSendRequest_new (sv_crypto S) (ee_json (sv_engine S)) (ee_from_str (sv_engine S)) nick (fst (chunk_payload chunk own))
       (en_own_did e) (chunk_target chunk) (chunk_json S chunk own) (Some priority) None"

definition emit_group ::
    "('v, 'a, 's, 'n, 'h) send_env \<Rightarrow> string \<Rightarrow> 's Sealed list \<Rightarrow> OwnWire \<Rightarrow> E2eSendPriority \<Rightarrow> ('n, 'h EngineError, Emitted) sending" where
  "emit_group S nick chunk own priority =
     andThen (engineCheck (\<lambda>e. map_err EE_Wire (group_request S e nick chunk own priority))) (\<lambda>request.
     andThen (forEach (save_sealed S) chunk) (\<lambda>_.
     andThen (engineGet en_network) (\<lambda>network.
     andThen (send_door S network request) (\<lambda>answer.
       if an_response answer \<noteq> RespAccepted then throw (EE_Rejected (an_response answer))
       else
         ret \<lparr> et_dids = map so_did chunk, et_msgid = an_msgid answer,
               et_capture = \<lparr> cap_verb = send_verb_name (fst (chunk_payload chunk own)), cap_msgid = an_msgid answer,
                              cap_payload = chunk_json S chunk own, cap_direction = CaptureOut \<rparr> \<rparr>))))"

text \<open>After the first request that was accepted a failure is passed over.\<close>

fun emit_loop ::
    "('v, 'a, 's, 'n, 'h) send_env \<Rightarrow> string \<Rightarrow> OwnWire \<Rightarrow> E2eSendPriority \<Rightarrow> 's Sealed list list \<Rightarrow> Emitted list
     \<Rightarrow> ('n, 'h EngineError, Emitted list) sending" where
  "emit_loop S nick own priority [] emitted = ret emitted"
| "emit_loop S nick own priority (chunk # plan) emitted =
     andThen (attempt (emit_group S nick chunk own priority)) (\<lambda>r.
       case r of
         Inr sent \<Rightarrow> emit_loop S nick own priority plan (emitted @ [sent])
       | Inl err \<Rightarrow> if emitted = [] then throw err else emit_loop S nick own priority plan emitted)"

definition emit ::
    "('v, 'a, 's, 'n, 'h) send_env \<Rightarrow> string \<Rightarrow> 's Sealed list \<Rightarrow> OwnWire \<Rightarrow> E2eSendPriority \<Rightarrow> ('n, 'h EngineError, Emitted list) sending" where
  "emit S nick sealed own priority =
     andThen (engineGet (\<lambda>e. plan_requests S sealed own (en_own_did e)
                               (map_option (\<lambda>base. frame_line_budget base nick) (en_frame_budget_base e)))) (\<lambda>plan.
       case plan of
         None \<Rightarrow> throw (EE_Wire PayloadTooLarge)
       | Some plan \<Rightarrow> emit_loop S nick own priority plan [])"

section \<open>What a send leaves behind\<close>

definition fresh_local_id :: "('v, 'a, 's) engine_env \<Rightarrow> nat \<Rightarrow> string" where
  "fresh_local_id E draw = ''local'' @ concat (map hex_byte (take 16 (ee_nonce E draw)))"

definition remember_sent ::
    "('v, 'a, 's) engine_env \<Rightarrow> string \<Rightarrow> string \<Rightarrow> string list \<Rightarrow> string \<Rightarrow> nat \<Rightarrow> string \<Rightarrow> Engine \<Rightarrow> Engine" where
  "remember_sent E msgid nick dids t sends row e =
     (case clock_now E e of
        (e, now) \<Rightarrow>
          trim_sent E (e\<lparr>en_sent := AList.update msgid
            \<lparr> sr_nick = nick, sr_dids = dids,
              sr_known_peer_dids = set (List.map_filter (did_of (ee_crypto E)) (listed_devices (en_trust e) (en_network e) nick)),
              sr_text = t, sr_sends = sends, sr_row_id = row, sr_at = now \<rparr> (en_sent e)\<rparr>))"

definition register_sent ::
    "('v, 'a, 's) engine_env \<Rightarrow> string \<Rightarrow> string \<Rightarrow> nat \<Rightarrow> string \<Rightarrow> Emitted \<Rightarrow> Engine \<Rightarrow> Engine" where
  "register_sent E nick t sends row sent e =
     (case et_msgid sent of
        None \<Rightarrow> e
      | Some msgid \<Rightarrow>
          let key = SendKey_new (en_network e) nick msgid;
              book = fst (SendBook_apply_response (SendBook_start key (en_book e)) key RespAccepted)
          in remember_sent E msgid nick (et_dids sent) t sends row
               (e\<lparr>en_book := book, en_row_ids := AList.update key row (en_row_ids e)\<rparr>))"

definition queue_copies ::
    "('v, 'a, 's) engine_env \<Rightarrow> string \<Rightarrow> string \<Rightarrow> string \<Rightarrow> int \<Rightarrow> Engine \<Rightarrow> Engine" where
  "queue_copies E peer t i now e =
     (let recipients = set (map fst (sibling_dids E e)) in
      if recipients = {} then e
      else
        e\<lparr>en_copy_jobs := drop (length (en_copy_jobs e) + 1 - OUTGOING_QUEUE_MAX) (en_copy_jobs e) @
            [\<lparr> cj_id = i, cj_peer = peer, cj_text = t, cj_created_at = now, cj_recipients = recipients, cj_done = {},
               cj_tries = [] \<rparr>]\<rparr>)"

definition historyCapture :: "('v, 'a, 's) engine_env \<Rightarrow> string \<Rightarrow> E2eCapture \<Rightarrow> Engine \<Rightarrow> Engine" where
  "historyCapture E row capture e =
     (case add_capture (ee_history E) (en_disk e) (\<lambda>i. ee_nonce E (en_draws e + i)) (en_history e) row capture of
        (d, h, _) \<Rightarrow> e\<lparr>en_disk := d, en_history := h, en_draws := en_draws e + length (hs_messages (en_history e))\<rparr>)"

definition sent_message :: "Engine \<Rightarrow> string \<Rightarrow> string \<Rightarrow> string \<Rightarrow> E2eCapture list \<Rightarrow> int \<Rightarrow> E2eMessage" where
  "sent_message e row nick t captures now =
     \<lparr> em_id = row, em_conversation_id = conversation_id (en_network e) nick, em_sender_device = OWN_DEVICE,
       em_sent_at = now, em_text = t, em_encrypted = True, em_captures = captures \<rparr>"

definition keep_row ::
    "('v, 'a, 's) engine_env \<Rightarrow> string \<Rightarrow> string \<Rightarrow> string \<Rightarrow> E2eCapture list \<Rightarrow> string option \<Rightarrow> int
     \<Rightarrow> ('n, 'h EngineError, string) sending" where
  "keep_row E nick t local_id captures known_row now =
     (case known_row of
        Some row \<Rightarrow> andThen (engineSet (fold (historyCapture E row) captures)) (\<lambda>_. ret row)
      | None \<Rightarrow>
          andThen (engineGet (\<lambda>e. en_network e @ '':out:'' @ local_id)) (\<lambda>row.
          andThen (mapError EE_Store (engineDo (\<lambda>e. historyAppend E (sent_message e row nick t captures now) e))) (\<lambda>_. ret row)))"

record SentText =
  sx_msgid :: "string option"
  sx_key :: "SendKey option"

definition after_sent ::
    "('v, 'a, 's) engine_env \<Rightarrow> string \<Rightarrow> string \<Rightarrow> nat \<Rightarrow> string \<Rightarrow> string \<Rightarrow> Emitted list \<Rightarrow> int \<Rightarrow> Engine \<Rightarrow> Engine" where
  "after_sent E nick t sends row local_id emitted now e =
     (let e = fold (register_sent E nick t sends row) emitted e;
          e = (if sends = 1 then queue_copies E nick t local_id now e else e)
      in note_changed nick e)"

definition deliver ::
    "('v, 'a, 's, 'n, 'h) send_env \<Rightarrow> string \<Rightarrow> string \<Rightarrow> PeerEntry list \<Rightarrow> nat \<Rightarrow> string option \<Rightarrow> int
     \<Rightarrow> ('n, 'h EngineError, SentText) sending" where
  "deliver S nick t entries sends known_row now =
     andThen (identityOf S) (\<lambda>identity.
     andThen (engineCheck (\<lambda>e. own_wire S e identity)) (\<lambda>own.
     andThen (seal_text S identity entries (OutText t) (ow_lv own)) (\<lambda>sealed.
     andThen (emit S nick sealed own Text) (\<lambda>emitted.
       case emitted of
         [] \<Rightarrow> throw EE_NotReady
       | first # _ \<Rightarrow>
           andThen (engineGet (\<lambda>e. map_option (SendKey_new (en_network e) nick) (et_msgid first))) (\<lambda>key.
           andThen (case et_msgid first of Some msgid \<Rightarrow> ret msgid | None \<Rightarrow> fresh (fresh_local_id (sv_engine S))) (\<lambda>local_id.
           andThen (keep_row (sv_engine S) nick t local_id (map et_capture emitted) known_row now) (\<lambda>row.
           andThen (engineSet (after_sent (sv_engine S) nick t sends row local_id emitted now)) (\<lambda>_.
             ret \<lparr> sx_msgid = et_msgid first, sx_key = key \<rparr>))))))))"

definition send_text ::
    "('v, 'a, 's, 'n, 'h) send_env \<Rightarrow> string \<Rightarrow> string \<Rightarrow> int \<Rightarrow> ('n, 'h EngineError, SentText) sending" where
  "send_text S nick t now =
     (if contains QUERY_LOCK_LABEL nick then throw (EE_Wire BadTarget)
      else
        andThen (engineGet (pick_devices S nick)) (\<lambda>entries.
          if entries = [] then throw EE_NotReady else deliver S nick t entries 1 None now))"

section \<open>The queue\<close>

definition dec_int :: "int \<Rightarrow> string" where
  "dec_int i = (if i < 0 then CHR ''-'' # dec_string (nat (- i)) else dec_string (nat i))"

definition queue_row ::
    "('v, 'a, 's) engine_env \<Rightarrow> string \<Rightarrow> string \<Rightarrow> int \<Rightarrow> Engine \<Rightarrow> Engine \<times> ('h EngineError + SentText)" where
  "queue_row E nick t now e =
     (let e = e\<lparr>en_local_sends := en_local_sends e + 1\<rparr>;
          key = SendKey_new (en_network e) nick (''q'' @ dec_int now @ ''-'' @ dec_string (en_local_sends e))
      in
      case clock_now E e of
        (e, at) \<Rightarrow>
          (case OutgoingQueue_push (en_queue e) key (en_casemapping e) at of
             (q, False) \<Rightarrow> (e\<lparr>en_queue := q\<rparr>, Inl EE_QueueFull)
           | (q, True) \<Rightarrow>
               let row = en_network e @ '':out:'' @ sk_msgid key in
               (case historyAppend E (sent_message e row nick t [] now) (e\<lparr>en_queue := q\<rparr>) of
                  (e, Inl err) \<Rightarrow> (e\<lparr>en_queue := fst (OutgoingQueue_remove (en_queue e) key)\<rparr>, Inl (EE_Store err))
                | (e, Inr _) \<Rightarrow>
                    (note_changed nick (want_keys nick
                       (e\<lparr>en_book := SendBook_start key (en_book e),
                          en_row_ids := AList.update key row (en_row_ids e),
                          en_pending := AList.update key
                            \<lparr> pt_text = t, pt_sends = 1, pt_row_id = row, pt_did = None \<rparr> (en_pending e)\<rparr>)),
                     Inr \<lparr> sx_msgid = None, sx_key = Some key \<rparr>))))"

definition queue_text ::
    "('v, 'a, 's, 'n, 'h) send_env \<Rightarrow> string \<Rightarrow> string \<Rightarrow> int \<Rightarrow> ('n, 'h EngineError, SentText) sending" where
  "queue_text S nick t now =
     andThen (engineGet (peer_capable nick)) (\<lambda>capable.
       if \<not> capable then throw EE_PeerNotCapable
       else
         andThen (identityOf S) (\<lambda>identity.
         andThen (engineCheck (\<lambda>e. own_wire S e identity)) (\<lambda>_.
           engineDo (queue_row (sv_engine S) nick t now))))"

definition send_or_queue ::
    "('v, 'a, 's, 'n, 'h) send_env \<Rightarrow> string \<Rightarrow> string \<Rightarrow> int \<Rightarrow> ('n, 'h EngineError, SentText) sending" where
  "send_or_queue S nick t now =
     orElse (send_text S nick t now) (\<lambda>err. case err of EE_NotReady \<Rightarrow> queue_text S nick t now | _ \<Rightarrow> throw err)"

definition settle_late :: "('v, 'a, 's) engine_env \<Rightarrow> SendDropped list \<Rightarrow> Engine \<Rightarrow> Engine" where
  "settle_late E late e =
     note_drops E late
       (fold (\<lambda>dropped e. e\<lparr>en_pending := AList.delete (sd_key dropped) (en_pending e),
          en_book := fst (SendBook_drop_local (en_book e) (sd_key dropped) (sd_reason dropped))\<rparr>) late e)"

definition expire_queue :: "('v, 'a, 's) engine_env \<Rightarrow> Engine \<Rightarrow> Engine \<times> SendDropped list" where
  "expire_queue E e =
     (case clock_now E e of
        (e, now) \<Rightarrow>
          (case OutgoingQueue_expire (en_queue e) now of
             (q, late) \<Rightarrow> (settle_late E late (e\<lparr>en_queue := q\<rparr>), late)))"

definition opt_list :: "'x option \<Rightarrow> 'x list" where
  "opt_list x = (case x of None \<Rightarrow> [] | Some x \<Rightarrow> [x])"

definition drop_item ::
    "('v, 'a, 's) engine_env \<Rightarrow> SendKey \<Rightarrow> DropReason \<Rightarrow> ('n, 'e, SendDropped list \<times> QueuedSend list) sending" where
  "drop_item E key reason =
     andThen (engineStep (fail_send E key reason)) (\<lambda>dropped. ret (opt_list dropped, []))"

definition keep_item :: "QueuedSend \<Rightarrow> PendingText \<Rightarrow> ('n, 'e, SendDropped list \<times> QueuedSend list) sending" where
  "keep_item item pending =
     andThen (engineSet (\<lambda>e. e\<lparr>en_pending := AList.update (qs_key item) pending (en_pending e)\<rparr>)) (\<lambda>_. ret ([], [item]))"

definition TOO_MANY_REQUESTS :: nat where "TOO_MANY_REQUESTS = 429"

definition flush_result ::
    "('v, 'a, 's) engine_env \<Rightarrow> QueuedSend \<Rightarrow> PendingText \<Rightarrow> 'h EngineError + SentText
     \<Rightarrow> ('n, 'e, SendDropped list \<times> QueuedSend list) sending" where
  "flush_result E item pending r =
     (case r of
        Inr _ \<Rightarrow>
          andThen (engineSet (\<lambda>e. e\<lparr>en_book := fst (SendBook_remove (en_book e) (qs_key item))\<rparr>)) (\<lambda>_. ret ([], []))
      | Inl (EE_Rejected (RespUnexpected status)) \<Rightarrow>
          if status = TOO_MANY_REQUESTS then keep_item item pending else drop_item E (qs_key item) SendFailed
      | Inl (EE_Rejected (RespFailed SfTooLate)) \<Rightarrow> drop_item E (qs_key item) Late
      | Inl _ \<Rightarrow> drop_item E (qs_key item) SendFailed)"

definition flush_item ::
    "('v, 'a, 's, 'n, 'h) send_env \<Rightarrow> int \<Rightarrow> QueuedSend \<Rightarrow> ('n, 'e, SendDropped list \<times> QueuedSend list) sending" where
  "flush_item S now item =
     andThen (engineStep (\<lambda>e. (e\<lparr>en_pending := AList.delete (qs_key item) (en_pending e)\<rparr>, map_of (en_pending e) (qs_key item)))) (\<lambda>found.
     case found of
       None \<Rightarrow> ret ([], [])
     | Some pending \<Rightarrow>
         andThen (engineStep (clock_now (sv_engine S))) (\<lambda>at.
         if check_send_deadline at (qs_deadline item) = TooLate then drop_item (sv_engine S) (qs_key item) Late
         else
           andThen (engineGet (\<lambda>e.
             case pt_did pending of
               Some did \<Rightarrow> opt_list (pick_specific_device S (sk_target (qs_key item)) did e)
             | None \<Rightarrow> pick_devices S (sk_target (qs_key item)) e)) (\<lambda>entries.
           case entries of
             [] \<Rightarrow> keep_item item pending
           | known # _ \<Rightarrow>
               andThen (attempt (deliver S (pe_nick known) (pt_text pending) entries (pt_sends pending)
                                   (Some (pt_row_id pending)) now)) (\<lambda>r.
                 flush_result (sv_engine S) item pending r))))"

fun flush_loop ::
    "('v, 'a, 's, 'n, 'h) send_env \<Rightarrow> int \<Rightarrow> QueuedSend list \<Rightarrow> ('n, 'e, SendDropped list \<times> QueuedSend list) sending" where
  "flush_loop S now [] = ret ([], [])"
| "flush_loop S now (item # items) =
     andThen (flush_item S now item) (\<lambda>(drops, retry).
     andThen (flush_loop S now items) (\<lambda>(more_drops, more_retry). ret (drops @ more_drops, retry @ more_retry)))"

definition take_sendable ::
    "('v, 'a, 's, 'n, 'h) send_env \<Rightarrow> Engine \<Rightarrow> Engine \<times> QueuedSend list \<times> SendDropped list" where
  "take_sendable S e =
     (let ready = set (map (en_fold e) (ready_peers S e)) in
      case clock_now (sv_engine S) e of
        (e, at) \<Rightarrow>
          (case OutgoingQueue_take_matching (en_queue e) at (\<lambda>_ item. ((), en_fold e (sk_target (qs_key item)) \<in> ready)) () of
             (q, taken, late) \<Rightarrow> (settle_late (sv_engine S) late (e\<lparr>en_queue := q\<rparr>), taken, late)))"

text \<open>The last retry is restored first, so the retries come back in their order, before the rest.\<close>

definition requeue :: "QueuedSend list \<Rightarrow> Engine \<Rightarrow> Engine" where
  "requeue retry e =
     (let e = e\<lparr>en_queue := fold (\<lambda>item q. OutgoingQueue_restore q item) (rev retry) (en_queue e)\<rparr>
      in fold want_keys (OutgoingQueue_targets (en_queue e)) e)"

definition flush_queue :: "('v, 'a, 's, 'n, 'h) send_env \<Rightarrow> int \<Rightarrow> ('n, 'e, SendDropped list) sending" where
  "flush_queue S now =
     andThen (engineGet (\<lambda>e. oq_items (en_queue e))) (\<lambda>items.
       if items = [] then ret []
       else
         andThen (engineStep (take_sendable S)) (\<lambda>(taken, late).
         andThen (flush_loop S now taken) (\<lambda>(drops, retry).
         andThen (engineSet (requeue retry)) (\<lambda>_. ret (late @ drops)))))"

section \<open>Lists\<close>

definition list_outgoing :: "('v, 'a, 's, 'n, 'h) send_env \<Rightarrow> ListJob \<Rightarrow> Engine \<Rightarrow> 'h EngineError + Outgoing" where
  "list_outgoing S job e =
     (if lj_reply job then
        rbind (ok_or (own_list (sv_crypto S) (en_state e)) EE_NotReady) (\<lambda>(l, master).
          Inr (OutList \<lparr> mb_ed25519 = master, mb_list = \<lparr> ml_ver = sl_version l, ml_devices = sl_keys l \<rparr>,
                         mb_sig = sl_signature l \<rparr>))
      else Inr OutListReq)"

text \<open>Every failure gives false.\<close>

definition send_list_job :: "('v, 'a, 's, 'n, 'h) send_env \<Rightarrow> ListJob \<Rightarrow> ('n, 'e, bool) sending" where
  "send_list_job S job =
     orElse
       (andThen (engineCheck (\<lambda>e. ok_or (pick_specific_device S (lj_nick job) (lj_did job) e) (EE_NotReady :: 'h EngineError))) (\<lambda>known.
        andThen (identityOf S) (\<lambda>identity.
        andThen (engineCheck (\<lambda>e. own_wire S e identity)) (\<lambda>own.
        andThen (engineCheck (list_outgoing S job)) (\<lambda>outgoing.
        andThen (seal_text S identity [known] outgoing (ow_lv own)) (\<lambda>sealed.
        andThen (emit S (lj_nick job) sealed own Control) (\<lambda>emitted. ret (emitted \<noteq> []))))))))
       (\<lambda>_. ret False)"

fun list_loop :: "('v, 'a, 's, 'n, 'h) send_env \<Rightarrow> ListJob list \<Rightarrow> nat \<Rightarrow> ('n, 'e, nat) sending" where
  "list_loop S [] sent = ret sent"
| "list_loop S (job # jobs) sent =
     andThen (send_list_job S job) (\<lambda>went.
       if went then list_loop S jobs (sent + 1)
       else
         andThen (whenever (\<not> lj_reply job)
                    (engineSet (\<lambda>e. e\<lparr>en_listreq_lv := AList.delete (en_fold e (lj_nick job)) (en_listreq_lv e)\<rparr>)))
           (\<lambda>_. list_loop S jobs sent))"

definition send_list_messages :: "('v, 'a, 's, 'n, 'h) send_env \<Rightarrow> ('n, 'e, nat) sending" where
  "send_list_messages S =
     andThen (engineStep (\<lambda>e. (e\<lparr>en_list_jobs := []\<rparr>, en_list_jobs e))) (\<lambda>jobs. list_loop S jobs 0)"

section \<open>Keys\<close>

definition pace_keyreq :: "('v, 'a, 's) engine_env \<Rightarrow> string \<Rightarrow> Engine \<Rightarrow> Engine \<times> ('h EngineError + unit)" where
  "pace_keyreq E nick e =
     (case clock_now E e of
        (e, now) \<Rightarrow>
          (case KeyReqPacer_try_send (en_keyreq e) nick (en_casemapping e) now of
             (p, r) \<Rightarrow> (e\<lparr>en_keyreq := p\<rparr>, map_err EE_Paced r)))"

definition keyreq_payload :: string where
  "keyreq_payload = ''{\"v\":'' @ dec_string PAYLOAD_VERSION @ ''}''"

definition request_keys :: "('v, 'a, 's, 'n, 'h) send_env \<Rightarrow> string \<Rightarrow> ('n, 'h EngineError, unit) sending" where
  "request_keys S nick =
     andThen (engineGet (peer_capable nick)) (\<lambda>capable.
       if \<not> capable then throw EE_PeerNotCapable
       else
         andThen (engineDo (pace_keyreq (sv_engine S) nick)) (\<lambda>_.
         andThen (engineCheck (\<lambda>e. map_err EE_Wire
           (E2eSendRequest_new (sv_crypto S) (ee_json (sv_engine S)) (ee_from_str (sv_engine S)) nick SvKeyReq
              (en_own_did e) WILDCARD keyreq_payload (Some Control) None))) (\<lambda>request.
         andThen (engineGet en_network) (\<lambda>network.
         andThen (send_door S network request) (\<lambda>answer.
           if an_response answer = RespAccepted then ret () else throw (EE_Rejected (an_response answer)))))))"

definition drop_waiting :: "('v, 'a, 's) engine_env \<Rightarrow> SendKey list \<Rightarrow> DropReason \<Rightarrow> Engine \<Rightarrow> Engine \<times> SendDropped list" where
  "drop_waiting E keys reason e =
     fold (\<lambda>key (e, drops).
       case fail_send E key reason
              (e\<lparr>en_queue := fst (OutgoingQueue_remove (en_queue e) key), en_pending := AList.delete key (en_pending e)\<rparr>) of
         (e, dropped) \<Rightarrow> (e, drops @ opt_list dropped)) keys (e, [])"

definition no_such_nick :: "('v, 'a, 's) engine_env \<Rightarrow> string \<Rightarrow> Engine \<Rightarrow> Engine \<times> SendDropped list" where
  "no_such_nick E nick e =
     (let cm = en_casemapping e;
          key = en_fold e nick;
          e = e\<lparr>en_keyreq := KeyReqPacer_forget (en_keyreq e) nick cm,
                en_rekey := IntervalLimiter_forget (en_rekey e) nick cm,
                en_keys_wanted := filter (\<lambda>wanted. en_fold e wanted \<noteq> key) (en_keys_wanted e)\<rparr>;
          waiting = filter (\<lambda>send. en_fold e (sk_target send) = key) (map fst (en_pending e))
      in drop_waiting E waiting NoSuchNick e)"

section \<open>The session and the events\<close>

definition end_session :: "('v, 'a, 's) engine_env \<Rightarrow> Engine \<Rightarrow> Engine \<times> SendDropped list" where
  "end_session E e =
     (let e = e\<lparr>en_queue := fst (OutgoingQueue_end_session (en_queue e)), en_pending := [], en_sent := []\<rparr> in
      case SendBook_end_session (en_book e) of
        (book, ended) \<Rightarrow> (note_drops E ended (e\<lparr>en_book := book\<rparr>), ended))"

definition apply_send_dropped :: "('v, 'a, 's) engine_env \<Rightarrow> 'v \<Rightarrow> Engine \<Rightarrow> Engine \<times> SendDropped option" where
  "apply_send_dropped E payload e =
     (case SendBook_apply_payload (ee_json E) (en_book e) payload of
        (book, None) \<Rightarrow> (e\<lparr>en_book := book\<rparr>, None)
      | (book, Some dropped) \<Rightarrow> (note_drops E [dropped] (e\<lparr>en_book := book\<rparr>), Some dropped))"

definition set_casemapping :: "CaseMapping \<Rightarrow> Engine \<Rightarrow> Engine" where
  "set_casemapping cm e = e\<lparr>en_casemapping := cm\<rparr>"

definition set_frame_budget_base :: "nat \<Rightarrow> Engine \<Rightarrow> Engine" where
  "set_frame_budget_base base e = e\<lparr>en_frame_budget_base := Some base\<rparr>"

section \<open>Decisions of the user\<close>

text \<open>The operations work on a copy of the trust state; only \<open>SetTrust\<close> puts it in place.\<close>

definition confirm_sas ::
    "('v, 'a, 's) engine_env \<Rightarrow> string \<Rightarrow> string \<Rightarrow> Engine \<Rightarrow> Engine \<times> ('h EngineError + unit)" where
  "confirm_sas E nick master e =
     (case mark_sas_verified (en_trust e) (en_network e) nick master of
        (_, Inl err) \<Rightarrow> (e, Inl (EE_Device err))
      | (trust, Inr _) \<Rightarrow> (case stateDo E (SetTrust trust) e of (e, r) \<Rightarrow> (e, map_err EE_Store r)))"

definition confirm_key ::
    "('v, 'a, 's) engine_env \<Rightarrow> string \<Rightarrow> string \<Rightarrow> Engine \<Rightarrow> Engine \<times> ('h EngineError + unit)" where
  "confirm_key E nick master e =
     (case mark_key_verified (en_trust e) (en_network e) nick master of
        (_, Inl err) \<Rightarrow> (e, Inl (EE_Device err))
      | (trust, Inr _) \<Rightarrow> (case stateDo E (SetTrust trust) e of (e, r) \<Rightarrow> (e, map_err EE_Store r)))"

definition forget_peer_devices :: "('v, 'a, 's) engine_env \<Rightarrow> string \<Rightarrow> Engine \<Rightarrow> Engine" where
  "forget_peer_devices E nick e =
     (let old = map fst (filter (\<lambda>(_, known). en_fold e (pe_nick known) = en_fold e nick) (en_peers e));
          e = e\<lparr>en_peers := filter (\<lambda>(did, _). did \<notin> set old) (en_peers e)\<rparr>;
          stopped = map fst (filter (\<lambda>(key, pending).
                      en_fold e (sk_target key) = en_fold e nick \<and>
                      (case pt_did pending of None \<Rightarrow> False | Some did \<Rightarrow> did \<in> set old)) (en_pending e))
      in fst (drop_waiting E stopped SendFailed e))"

definition replace_peer_master ::
    "('v, 'a, 's) engine_env \<Rightarrow> string \<Rightarrow> string \<Rightarrow> Engine \<Rightarrow> Engine \<times> ('h EngineError + unit)" where
  "replace_peer_master E nick master e =
     (case replace_master_by_user (ee_crypto E) (en_trust e) (en_network e) nick master of
        (_, Inl err) \<Rightarrow> (e, Inl (EE_Device err))
      | (trust, Inr _) \<Rightarrow>
          let e = forget_peer_devices E nick e;
              cm = en_casemapping e
          in (case stateDo E (RemovePeerSessions (en_network e)
                     (\<lambda>session_nick. CaseMapping_fold cm session_nick = CaseMapping_fold cm nick)) e of
                (e, Inl err) \<Rightarrow> (e, Inl (EE_Store err))
              | (e, Inr _) \<Rightarrow> (case stateDo E (SetTrust trust) e of (e, r) \<Rightarrow> (e, map_err EE_Store r))))"

end
