(* ===== verification/Engine_Copies.thy ===== *)
theory Engine_Copies
  imports Engine_Send
begin

text \<open>
  The copies of own texts for the other devices of the account, from \<^verbatim>\<open>e2e_engine.rs\<close>: the sync of the own
  signed list, the claim of a key of a sibling, one copy, and the run over all waiting copies.
\<close>

section \<open>Results\<close>

datatype CopyFailure =
  CfSameDevice | CfKeylessDevice | CfKeyTaken | CfRemovedDevice | CfInboxFull | CfNoKey | CfTooLarge | CfExpired | CfFailed

datatype CopyStep = CsDrop CopyFailure | CsRetry | CsSync

record CopyReport =
  rp_queued :: "string list"
  rp_failed :: "(string \<times> CopyFailure) list"
  rp_needs_sync :: bool

definition copy_step :: "'h E2eRouteError \<Rightarrow> CopyStep" where
  "copy_step err =
     (case err of
        Refused refusal _ \<Rightarrow>
          (case refusal of
             R_SameDevice \<Rightarrow> CsDrop CfSameDevice
           | R_KeylessDevice \<Rightarrow> CsDrop CfKeylessDevice
           | R_KeyTaken \<Rightarrow> CsDrop CfKeyTaken
           | R_RemovedDevice \<Rightarrow> CsDrop CfRemovedDevice
           | R_InboxFull \<Rightarrow> CsDrop CfInboxFull
           | _ \<Rightarrow> CsRetry)
      | ClientErr _ \<Rightarrow> CsRetry
      | WireErr _ \<Rightarrow> CsRetry
      | Unavailable \<Rightarrow> CsDrop CfFailed)"

section \<open>The own list\<close>

definition sync_own_list :: "('v, 'a, 's, 'n, 'h) send_env \<Rightarrow> ('n, 'h EngineError, bool) sending" where
  "sync_own_list S =
     andThen (engineCheck (\<lambda>e. ok_or (own_list (sv_crypto S) (en_state e)) EE_NotReady)) (\<lambda>(l, master).
     andThen (engineGet en_network) (\<lambda>network.
     andThen (mapError EE_Route (serverDo (\<lambda>n. fetch_e2e_list (sv_crypto S) (sv_http S) n (sv_token S) network (sv_protocol S)))) (\<lambda>held.
       if hl_master held \<noteq> master then throw (EE_Wire BadKey)
       else
         andThen (fromResult (map_err EE_Device (verify_signed_list (sv_crypto S) (sl_version (hl_list held)) (sl_keys (hl_list held))
                                                   master (sl_signature (hl_list held))))) (\<lambda>_.
         andThen (engineGet en_own_ed25519) (\<lambda>own.
           if sl_version (hl_list held) \<le> sl_version l \<or> own \<notin> set (sl_keys (hl_list held)) then ret False
           else andThen (mapError EE_Store (engineDo (stateDo (sv_engine S) (SetSignedList (hl_list held))))) (\<lambda>_. ret True))))))"

section \<open>The key of a sibling\<close>

fun claim_loop ::
    "('v, 'a, 's, 'n, 'h) send_env \<Rightarrow> string \<Rightarrow> string \<Rightarrow> ClaimRequest \<Rightarrow> nat \<Rightarrow> ('n, CopyStep, string) sending" where
  "claim_loop S network did request 0 = throw (CsDrop CfKeyTaken)"
| "claim_loop S network did request (Suc k) =
     andThen (attempt (serverDo (\<lambda>n. claim_e2e_device_key (sv_crypto S) (sv_http S) (ee_from_str (sv_engine S)) n (sv_token S) network did
                (sv_protocol S) request))) (\<lambda>r.
       case r of
         Inr keys \<Rightarrow> ret keys
       | Inl (Refused R_KeyTaken _) \<Rightarrow> claim_loop S network did request k
       | Inl err \<Rightarrow> throw (copy_step err))"

text \<open>The checks on the answer: the own signed list names the sibling, the server list may only remove it.\<close>

definition check_claimed ::
    "('v, 'a, 's) engine_env \<Rightarrow> Engine \<Rightarrow> string \<Rightarrow> string \<Rightarrow> CopyStep + (string \<times> string)" where
  "check_claimed E e sibling keys =
     (let C = ee_crypto E; no_key = CsDrop CfNoKey in
     rbind (ok_or (own_list C (en_state e)) no_key) (\<lambda>(l, master).
     rbind (map_err (\<lambda>_. no_key) (KeysPayload_parse E keys)) (\<lambda>payload.
     let block = kp_master payload; listed = mb_list block in
     rbind (map_err (\<lambda>_. no_key) (verify_signed_list C (ml_ver listed) (ml_devices listed) (mb_ed25519 block) (mb_sig block))) (\<lambda>_.
       if mb_ed25519 block \<noteq> master then Inl no_key
       else if ml_ver listed \<ge> sl_version l \<and> sibling \<notin> set (ml_devices listed) then Inl (CsDrop CfRemovedDevice)
       else if ml_ver listed \<noteq> sl_version l then Inl CsSync
       else
         rbind (ok_or (List.find (\<lambda>known. ib_ed25519 (ke_id known) = sibling) (kp_devices payload)) no_key) (\<lambda>known.
         rbind (map_err (\<lambda>_. no_key) (verify_signature C (ib_ed25519 (ke_id known)) (ib_sig (ke_id known))
                                        (device_id_signed_text (ib_curve25519 (ke_id known)) master))) (\<lambda>_.
         rbind (map_err (\<lambda>_. no_key) (bundle_key_signed_text C (otk_key (ke_otk known)))) (\<lambda>signed.
         rbind (map_err (\<lambda>_. no_key) (verify_signature C (ib_ed25519 (ke_id known)) (otk_sig (ke_otk known)) signed)) (\<lambda>_.
           Inr (ib_curve25519 (ke_id known), otk_key (ke_otk known))))))))))"

definition claim_sibling_key ::
    "('v, 'a, 's, 'n, 'h) send_env \<Rightarrow> string \<Rightarrow> string \<Rightarrow> ('n, CopyStep, string \<times> string) sending" where
  "claim_sibling_key S did sibling =
     andThen (engineCheck (\<lambda>e. map_err (\<lambda>_. CsDrop CfFailed) (ClaimRequest_new (sv_crypto S) (en_own_did e)))) (\<lambda>request.
     andThen (engineGet en_network) (\<lambda>network.
     andThen (claim_loop S network did request MAX_SENDS) (\<lambda>keys.
       engineCheck (\<lambda>e. check_claimed (sv_engine S) e sibling keys))))"

section \<open>One copy\<close>

definition copy_session ::
    "('v, 'a, 's, 'n, 'h) send_env \<Rightarrow> string \<Rightarrow> 'a \<Rightarrow> string \<Rightarrow> string \<Rightarrow> ('n, CopyStep, 's) sending" where
  "copy_session S own_nick identity did sibling =
     andThen (engineCheck (\<lambda>e. map_err (\<lambda>_. CsDrop CfFailed) (peer_session (sv_store S) (en_state e) (en_network e) own_nick did))) (\<lambda>existing.
       case existing of
         Some session \<Rightarrow> ret session
       | None \<Rightarrow>
           andThen (claim_sibling_key S did sibling) (\<lambda>(curve, one_time).
             if \<not> olm_curve_ok (sv_engine S) curve \<or> \<not> olm_curve_ok (sv_engine S) one_time then throw (CsDrop CfFailed)
             else
               andThen (fresh (\<lambda>draw. sv_outbound S draw identity curve one_time)) (\<lambda>session.
                 fromResult (ok_or session (CsDrop CfFailed)))))"

definition copy_payload :: "OwnWire \<Rightarrow> string \<Rightarrow> bool \<Rightarrow> string \<Rightarrow> CopyVerb \<times> MessagePayload" where
  "copy_payload own did prekey body =
     (if prekey then
        (CopyPkMsg, PreKey \<lparr> pp_v = PAYLOAD_VERSION, pp_id = ow_id own, pp_master = ow_master own, pp_bodies = [(did, body)] \<rparr>)
      else (CopyMsg, Normal \<lparr> mp_v = PAYLOAD_VERSION, mp_ck = ib_curve25519 (ow_id own), mp_bodies = [(did, body)] \<rparr>))"

definition copy_inner ::
    "('v, 'a, 's, 'n, 'h) send_env \<Rightarrow> string \<Rightarrow> CopyJob \<Rightarrow> OwnWire \<Rightarrow> string \<Rightarrow> 's \<Rightarrow> string" where
  "copy_inner S own_ed25519 job own sibling session =
     sv_copy_json S \<lparr> cu_t = ''copy'', cu_peer = cj_peer job, cu_body = cj_text job, cu_cid = cj_id job, cu_lv = ow_lv own,
       cu_fb = (if \<not> sv_has_received S session then Some (recipient_binding (sv_crypto S) own_ed25519 sibling) else None) \<rparr>"

text \<open>The copy is planned, then the session is saved, then the request leaves.\<close>

definition queue_copy ::
    "('v, 'a, 's, 'n, 'h) send_env \<Rightarrow> string \<Rightarrow> string \<Rightarrow> 's \<Rightarrow> CopyVerb \<Rightarrow> string \<Rightarrow> ('n, CopyStep, unit) sending" where
  "queue_copy S own_nick did session verb payload =
     (if \<not> inbox_accepts 0 0 (length payload) then throw (CsDrop CfTooLarge)
      else
        andThen (engineCheck (\<lambda>e. map_err (\<lambda>_. CsDrop CfTooLarge)
                   (CopyRequest_new (sv_crypto S) (ee_json (sv_engine S)) (ee_from_str (sv_engine S)) (en_own_did e) verb payload))) (\<lambda>request.
        andThen (mapError (\<lambda>_. CsDrop CfFailed)
                   (engineDo (\<lambda>e. stateDo (sv_engine S) (SetPeerSession (en_network e) own_nick did session) e))) (\<lambda>_.
        andThen (engineGet en_network) (\<lambda>network.
        andThen (mapError copy_step (serverDo (\<lambda>n. send_e2e_copy (sv_crypto S) (sv_http S) n (sv_token S) network did (sv_protocol S) request))) (\<lambda>_.
          ret ())))))"

definition copy_to ::
    "('v, 'a, 's, 'n, 'h) send_env \<Rightarrow> string \<Rightarrow> CopyJob \<Rightarrow> string \<Rightarrow> string \<Rightarrow> ('n, CopyStep, unit) sending" where
  "copy_to S own_nick job did sibling =
     andThen (mapError (\<lambda>_. CsDrop CfFailed) (identityOf S)) (\<lambda>identity.
     andThen (mapError (\<lambda>_. CsDrop CfFailed) (engineCheck (\<lambda>e. own_wire S e identity))) (\<lambda>own.
     andThen (copy_session S own_nick identity did sibling) (\<lambda>session.
     andThen (engineGet en_own_ed25519) (\<lambda>own_ed25519.
     andThen (fresh (\<lambda>draw. sv_encrypt S draw session (copy_inner S own_ed25519 job own sibling session))) (\<lambda>sealed.
       case sealed of
         None \<Rightarrow> throw (CsDrop CfFailed)
       | Some (session, prekey, body) \<Rightarrow>
           queue_copy S own_nick did session (fst (copy_payload own did prekey body))
             (sv_payload_json S (snd (copy_payload own did prekey body))))))))"

section \<open>All copies\<close>

definition copy_expired :: "CopyJob \<Rightarrow> int \<Rightarrow> bool" where
  "copy_expired job now \<longleftrightarrow> 0 \<le> cj_created_at job \<and> 0 \<le> now \<and> is_expired (nat (cj_created_at job)) (nat now)"

definition finish_copy :: "string \<Rightarrow> CopyJob \<Rightarrow> CopyJob" where
  "finish_copy did job = job\<lparr>cj_done := insert did (cj_done job)\<rparr>"

text \<open>A copy that may be tried again: the second try is the last.\<close>

definition retry_copy :: "string \<Rightarrow> CopyStep \<Rightarrow> CopyJob \<times> CopyReport \<times> bool \<Rightarrow> CopyJob \<times> CopyReport \<times> bool" where
  "retry_copy did step = (\<lambda>(job, report, waits).
     let tries = (case map_of (cj_tries job) did of None \<Rightarrow> 0 | Some n \<Rightarrow> n) + 1;
         job = job\<lparr>cj_tries := AList.update did tries (cj_tries job)\<rparr>;
         (job, report, waits) =
           (if tries \<ge> MAX_SENDS
            then (finish_copy did job, report\<lparr>rp_failed := rp_failed report @ [(did, CfFailed)]\<rparr>, waits)
            else (job, report, True))
     in (job, if step = CsSync then report\<lparr>rp_needs_sync := True\<rparr> else report, waits))"

definition copy_turn ::
    "('v, 'a, 's, 'n, 'h) send_env \<Rightarrow> string \<Rightarrow> int \<Rightarrow> string \<times> string \<Rightarrow> CopyJob \<times> CopyReport \<times> bool
     \<Rightarrow> ('n, 'e, CopyJob \<times> CopyReport \<times> bool) sending" where
  "copy_turn S own_nick now sibling turn =
     (case (sibling, turn) of
        ((did, ed25519), (job, report, waits)) \<Rightarrow>
          if did \<in> cj_done job \<or> did \<notin> cj_recipients job then ret (job, report, waits)
          else if rp_needs_sync report then ret (job, report, True)
          else
            andThen (if copy_expired job now then ret (Inl (CsDrop CfExpired)) else attempt (copy_to S own_nick job did ed25519)) (\<lambda>step.
              case step of
                Inr _ \<Rightarrow>
                  andThen (engineSet (\<lambda>e. e\<lparr>en_copy_tracker :=
                             DeliveryTracker_queued (cj_id job @ ''.'' @ did) did (nat now) (en_copy_tracker e)\<rparr>)) (\<lambda>_.
                    ret (finish_copy did job, report\<lparr>rp_queued := rp_queued report @ [did]\<rparr>, waits))
              | Inl (CsDrop failure) \<Rightarrow>
                  ret (finish_copy did job, report\<lparr>rp_failed := rp_failed report @ [(did, failure)]\<rparr>, waits)
              | Inl step \<Rightarrow> ret (retry_copy did step (job, report, waits))))"

fun sibling_loop ::
    "('v, 'a, 's, 'n, 'h) send_env \<Rightarrow> string \<Rightarrow> int \<Rightarrow> (string \<times> string) list \<Rightarrow> CopyJob \<times> CopyReport \<times> bool
     \<Rightarrow> ('n, 'e, CopyJob \<times> CopyReport \<times> bool) sending" where
  "sibling_loop S own_nick now [] turn = ret turn"
| "sibling_loop S own_nick now (sibling # siblings) turn =
     andThen (copy_turn S own_nick now sibling turn) (\<lambda>turn. sibling_loop S own_nick now siblings turn)"

fun copies_run ::
    "('v, 'a, 's, 'n, 'h) send_env \<Rightarrow> string \<Rightarrow> int \<Rightarrow> CopyJob list \<Rightarrow> CopyReport \<Rightarrow> CopyJob list
     \<Rightarrow> ('n, 'e, CopyReport \<times> CopyJob list) sending" where
  "copies_run S own_nick now [] report kept = ret (report, kept)"
| "copies_run S own_nick now (job # jobs) report kept =
     andThen (engineGet (sibling_dids (sv_engine S))) (\<lambda>siblings.
     andThen (sibling_loop S own_nick now siblings (job, report, False)) (\<lambda>(job, report, waits).
       copies_run S own_nick now jobs report (if waits then kept @ [job] else kept)))"

definition send_copies :: "('v, 'a, 's, 'n, 'h) send_env \<Rightarrow> string \<Rightarrow> int \<Rightarrow> ('n, 'e, CopyReport) sending" where
  "send_copies S own_nick now =
     andThen (engineStep (\<lambda>e. (e\<lparr>en_copy_jobs := []\<rparr>, en_copy_jobs e))) (\<lambda>jobs.
     andThen (copies_run S own_nick now jobs \<lparr> rp_queued = [], rp_failed = [], rp_needs_sync = False \<rparr> []) (\<lambda>(report, kept).
     andThen (engineSet (\<lambda>e. e\<lparr>en_copy_jobs := kept\<rparr>)) (\<lambda>_. ret report)))"

end
