(* ===== verification/Engine_Open.thy ===== *)
theory Engine_Open
  imports Engine
begin

text \<open>
  Opening the engine of a network from its sealed files, from \<^verbatim>\<open>e2e_engine.rs\<close>, and the small readers of an
  engine. The data folder, the locks of the two files, the key of the keyring and SHA-256 are the
  parameters in \<open>open_env\<close>.
\<close>

record ('v, 'a, 's) open_env =
  oe_engine :: "('v, 'a, 's) engine_env"
  oe_hash :: "string \<Rightarrow> string"
  oe_data_dir :: "string option"
  oe_state_lock :: lock_outcome
  oe_history_lock :: lock_outcome
  oe_state_key :: "E2eStoreError + string"
  oe_history_key :: "E2eStoreError + string"

definition state_file :: "string \<Rightarrow> string" where
  "state_file part_name = ''e2e_state_'' @ part_name @ ''.bin''"

definition history_file :: "string \<Rightarrow> string" where
  "history_file part_name = ''e2e_history_'' @ part_name @ ''.bin''"

text \<open>The folder and the part of the file names.\<close>

definition engine_files ::
    "('v, 'a, 's) open_env \<Rightarrow> string \<Rightarrow> string \<Rightarrow> string \<Rightarrow> 'h EngineError + (string \<times> string)" where
  "engine_files P server account network =
     rbind (ok_or (storage_part (oe_hash P) server account network) EE_NotReady) (\<lambda>part_name.
     rbind (ok_or (oe_data_dir P) (EE_Store NoDataDir)) (\<lambda>dir. Inr (dir, part_name)))"

definition open_for_network ::
    "('v, 'a, 's) open_env \<Rightarrow> disk \<Rightarrow> nat \<Rightarrow> string \<Rightarrow> string \<Rightarrow> string \<Rightarrow> disk \<times> ('h EngineError + Engine)" where
  "open_for_network P d draws server account network =
     (case (engine_files P server account network :: 'h EngineError + (string \<times> string)) of
        Inl err \<Rightarrow> (d, Inl err)
      | Inr (dir, part_name) \<Rightarrow>
          if file_at d (dir, state_file part_name) = None then (d, Inl EE_NotReady)
          else
            (case open_store (ee_store (oe_engine P)) d (ee_nonce (oe_engine P) draws) (dir, state_file part_name)
                    (oe_state_lock P) (oe_state_key P) of
               (d, Inl err) \<Rightarrow> (d, Inl (EE_Store err))
             | (d, Inr state) \<Rightarrow>
                 (case history_open (ee_history (oe_engine P)) d (dir, history_file part_name) (oe_history_lock P) (oe_history_key P) of
                    (d, Inl err) \<Rightarrow> (d, Inl (EE_Store err))
                  | (d, Inr history) \<Rightarrow> (d, Engine_new (oe_engine P) d (draws + 1) network state history))))"

definition open_history_for_network ::
    "('v, 'a, 's) open_env \<Rightarrow> disk \<Rightarrow> string \<Rightarrow> string \<Rightarrow> string \<Rightarrow> disk \<times> ('h EngineError + HistoryStore option)" where
  "open_history_for_network P d server account network =
     (case (engine_files P server account network :: 'h EngineError + (string \<times> string)) of
        Inl err \<Rightarrow> (d, Inl err)
      | Inr (dir, part_name) \<Rightarrow>
          if file_at d (dir, history_file part_name) = None then (d, Inr None)
          else
            (case history_open (ee_history (oe_engine P)) d (dir, history_file part_name) (oe_history_lock P) (oe_history_key P) of
               (d, Inl err) \<Rightarrow> (d, Inl (EE_Store err))
             | (d, Inr history) \<Rightarrow> (d, Inr (Some history))))"

section \<open>Readers\<close>

definition take_changed_peers :: "Engine \<Rightarrow> Engine \<times> string list" where
  "take_changed_peers e = (e\<lparr>en_changed_peers := []\<rparr>, en_changed_peers e)"

definition take_keys_wanted :: "Engine \<Rightarrow> Engine \<times> string list" where
  "take_keys_wanted e = (e\<lparr>en_keys_wanted := []\<rparr>, en_keys_wanted e)"

definition take_trust_changed :: "Engine \<Rightarrow> Engine \<times> string list" where
  "take_trust_changed e = (e\<lparr>en_trust_changed := []\<rparr>, en_trust_changed e)"

definition history_peers :: "Engine \<Rightarrow> string list" where
  "history_peers e = history_peers_of (en_history e) (en_network e)"

definition send_status :: "Engine \<Rightarrow> SendKey \<Rightarrow> SendStatus option" where
  "send_status e key = SendBook_status (en_book e) key"

definition dropped_reason :: "Engine \<Rightarrow> string \<Rightarrow> DropReason option" where
  "dropped_reason e row = map_of (en_dropped_rows e) row"

definition sas_master :: "Engine \<Rightarrow> string \<Rightarrow> string option" where
  "sas_master e nick = trust_master (en_trust e) (en_network e) nick"

definition engine_key_verified :: "Engine \<Rightarrow> string \<Rightarrow> bool" where
  "engine_key_verified e nick = is_key_verified (en_trust e) (en_network e) nick"

definition has_queued_text :: "Engine \<Rightarrow> bool" where
  "has_queued_text e \<longleftrightarrow> oq_items (en_queue e) \<noteq> []"

definition has_pending_copies :: "Engine \<Rightarrow> bool" where
  "has_pending_copies e \<longleftrightarrow> en_copy_jobs e \<noteq> []"

definition own_master_key :: "('v, 'a, 's) engine_env \<Rightarrow> Engine \<Rightarrow> string option" where
  "own_master_key E e =
     (case sd_device_certificate (st_data (en_state e)) of
        Some certificate \<Rightarrow> Some (vc_master_ed25519 certificate)
      | None \<Rightarrow>
          (case master_key (ee_store E) (en_state e) of
             Inr (Some master) \<Rightarrow> Some (account_ed25519 (ee_store E) master)
           | _ \<Rightarrow> None))"

definition engine_sas_code :: "('v, 'a, 's) engine_env \<Rightarrow> string \<Rightarrow> Engine \<Rightarrow> string option" where
  "engine_sas_code E nick e =
     Option.bind (sas_master e nick) (\<lambda>peer.
     Option.bind (own_master_key E e) (\<lambda>own. opt_of (sas_code (ee_crypto E) own peer)))"

text \<open>\<open>hint\<close> is the JSON text of an object with the version 2 and the master.\<close>

definition own_consent_line :: "('v, 'a, 's) engine_env \<Rightarrow> (string \<Rightarrow> string) \<Rightarrow> Engine \<Rightarrow> 'h EngineError + E2eConsentLine" where
  "own_consent_line E hint e =
     rbind (ok_or (own_master_key E e) EE_NotReady) (\<lambda>master.
       map_err EE_Wire (E2eConsentLine_new (ee_crypto E) (ee_json E) (ee_from_str E) (en_own_did e) (hint master)))"

section \<open>Lemmas\<close>

text \<open>Without an account and with a guest account nothing is opened, read or made.\<close>

lemma guests_have_no_engine:
  assumes "account = [] \<or> starts_with ''visitor:'' account"
  shows "open_for_network P d draws server account network = (d, Inl EE_NotReady)"
    "open_history_for_network P d server account network = (d, Inl EE_NotReady)"
  using assms by (auto simp: open_for_network_def open_history_for_network_def engine_files_def storage_part_def ok_or_def)

text \<open>An engine that opens belongs to the network and to the key of its sealed state.\<close>

lemma Engine_new_facts:
  assumes "Engine_new E d draws network state history = Inr e"
  shows "en_network e = network" "en_queue e = OutgoingQueue_new" "en_peers e = []"
    "device_key (ee_store E) (en_state e) = Inr (Some (en_own_ed25519 e))"
    "did_from_key_text (ee_crypto E) (en_own_ed25519 e) = Inr (en_own_did e)"
proof -
  obtain k where k: "device_key (ee_store E) state = Inr k"
    using assms by (cases "device_key (ee_store E) state") (auto simp: Engine_new_def map_err_def)
  obtain key where key: "k = Some key"
    using assms by (cases k) (auto simp: Engine_new_def map_err_def ok_or_def k)
  obtain did where did: "did_from_key_text (ee_crypto E) key = Inr did"
    using assms by (cases "did_from_key_text (ee_crypto E) key") (auto simp: Engine_new_def map_err_def ok_or_def k key)
  show "en_network e = network" "en_queue e = OutgoingQueue_new" "en_peers e = []"
    "device_key (ee_store E) (en_state e) = Inr (Some (en_own_ed25519 e))"
    "did_from_key_text (ee_crypto E) (en_own_ed25519 e) = Inr (en_own_did e)"
    using assms by (auto simp: Engine_new_def map_err_def ok_or_def k key did)
qed

lemma opened_engine:
  assumes "open_for_network P d draws server account network = (d', Inr e :: 'h EngineError + Engine)"
  shows "en_network e = network" "en_queue e = OutgoingQueue_new" "en_peers e = []"
    "device_key (ee_store (oe_engine P)) (en_state e) = Inr (Some (en_own_ed25519 e))"
    "did_from_key_text (ee_crypto (oe_engine P)) (en_own_ed25519 e) = Inr (en_own_did e)"
proof -
  have "\<exists>f i state history. Engine_new (oe_engine P) f i network state history = (Inr e :: 'h EngineError + Engine)"
    using assms unfolding open_for_network_def by (auto split: sum.splits if_splits prod.splits)
  then obtain f i state history where "Engine_new (oe_engine P) f i network state history = (Inr e :: 'h EngineError + Engine)" by blast
  from Engine_new_facts [OF this] show "en_network e = network" "en_queue e = OutgoingQueue_new" "en_peers e = []"
    "device_key (ee_store (oe_engine P)) (en_state e) = Inr (Some (en_own_ed25519 e))"
    "did_from_key_text (ee_crypto (oe_engine P)) (en_own_ed25519 e) = Inr (en_own_did e)" by simp_all
qed

end
