(* ===== verification/Send_Facts.thy ===== *)
theory Send_Facts
  imports Engine_Send Engine_Facts
begin

text \<open>
  What the send path asks of the server and what it leaves in the engine. \<open>asked H P n m\<close>: the other
  side goes from \<open>n\<close> to \<open>m\<close> by requests that all satisfy \<open>P\<close>.
\<close>

section \<open>Requests that leave\<close>

inductive asked :: "('n, 'h, 'v) http_env \<Rightarrow> (Request \<Rightarrow> bool) \<Rightarrow> 'n \<Rightarrow> 'n \<Rightarrow> bool" for H P where
  asked_nothing: "asked H P n n"
| asked_more: "asked H P n m \<Longrightarrow> P request \<Longrightarrow> asked H P n (fst (http H m request))"

lemma asked_trans: "asked H P n m \<Longrightarrow> asked H P m k \<Longrightarrow> asked H P n k"
  by (rotate_tac, induction rule: asked.induct) (auto intro: asked.intros)

lemma asked_mono: "asked H P n m \<Longrightarrow> (\<And>request. P request \<Longrightarrow> Q request) \<Longrightarrow> asked H Q n m"
  by (induction rule: asked.induct) (auto intro: asked.intros)

definition only_asks :: "('n, 'h, 'v) http_env \<Rightarrow> (Request \<Rightarrow> bool) \<Rightarrow> 'e \<times> 'n \<Rightarrow> 'e \<times> 'n \<Rightarrow> bool" where
  "only_asks H P w v \<longleftrightarrow> asked H P (snd w) (snd v)"

interpretation asks: world_order "only_asks H P" for H P
  by unfold_locales (auto simp: only_asks_def intro: asked_nothing asked_trans)

lemma engineDo_asks [simp]: "keeps (only_asks H P) (engineDo f)"
  by (auto simp: keeps_def only_asks_def engineDo_def asked_nothing split: prod.split)

lemma engine_steps_ask [simp]:
  "keeps (only_asks H P) (engineDo f)" "keeps (only_asks H P) (engineStep g)" "keeps (only_asks H P) (engineSet h)"
  "keeps (only_asks H P) (engineGet k)" "keeps (only_asks H P) (engineCheck c)" "keeps (only_asks H P) (fresh x)"
  unfolding engineSet_def engineGet_def engineCheck_def fresh_def engineStep_def by (rule engineDo_asks)+

lemma keeps_attempt: "keeps R m \<Longrightarrow> keeps R (attempt m)"
  unfolding keeps_def attempt_def by (auto split: prod.split outcome.split) (metis fst_conv)+

lemma send_e2e_message_asks:
  "fst (send_e2e_message H n token network request) = n \<or>
   fst (send_e2e_message H n token network request) =
     fst (http H n \<lparr> rq_method = Post, rq_segments = [''networks'', network, ''e2e'', ''messages''], rq_query = [],
                     rq_token = token, rq_body = SendBody request \<rparr>)"
  by (auto simp: send_e2e_message_def split: sum.split prod.split)

lemma send_door_asks:
  assumes "\<And>segs token. P \<lparr> rq_method = Post, rq_segments = segs, rq_query = [], rq_token = token, rq_body = SendBody request \<rparr>"
  shows "keeps (only_asks (sv_http S) P) (send_door S network request)"
proof -
  have "asked (sv_http S) P n (fst (send_e2e_message (sv_http S) n (sv_token S) network request))" for n
    using send_e2e_message_asks [of "sv_http S" n "sv_token S" network request]
    by (metis assms asked_nothing asked_more)
  then show ?thesis
    unfolding send_door_def by (intro asks.keeps_mapError) (auto simp: keeps_def only_asks_def serverDo_def split: prod.split, metis fst_conv)
qed

text \<open>What a step gives.\<close>

definition gives :: "('w, 'e, 'x) act \<Rightarrow> ('x \<Rightarrow> bool) \<Rightarrow> bool" where
  "gives m Q \<longleftrightarrow> (\<forall>w v x. m w = (v, Value (Inr x)) \<longrightarrow> Q x)"

lemma gives_andThen:
  assumes "gives m Q" "\<And>x. Q x \<Longrightarrow> gives (f x) Q'"
  shows "gives (andThen m f) Q'"
  unfolding gives_def
proof (intro allI impI)
  fix w v y
  assume run: "andThen m f w = (v, Value (Inr y))"
  obtain u x where m: "m w = (u, Value (Inr x))" and f: "f x u = (v, Value (Inr y))"
    using run by (auto simp: andThen_def split: prod.splits outcome.splits sum.splits)
  have "Q x" using assms(1) m unfolding gives_def by blast
  from assms(2) [OF this] show "Q' y" using f unfolding gives_def by blast
qed

lemma gives_any: "gives m (\<lambda>_. True)"
  by (simp add: gives_def)

lemma gives_ret: "gives (ret x) Q = Q x" "gives (throw e) Q"
  by (auto simp: gives_def)

lemma gives_fresh: "gives (fresh f) (\<lambda>x. \<exists>draw. x = f draw)"
  by (auto simp: gives_def fresh_def engineStep_def engineDo_def)

lemma keeps_andThen_gives:
  assumes "world_order R" "keeps R m" "gives m Q" "\<And>x. Q x \<Longrightarrow> keeps R (f x)"
  shows "keeps R (andThen m f)"
  unfolding keeps_def
proof
  fix w
  obtain v r where m: "m w = (v, r)" by fastforce
  have v: "R w v" using assms(2) m unfolding keeps_def by (metis fst_conv)
  have step: "R v (fst (f x v))" if "r = Value (Inr x)" for x
    using assms(3,4) m that unfolding gives_def keeps_def by blast
  show "R w (fst (andThen m f w))"
    using m v step world_order.trans [OF assms(1)] by (auto simp: andThen_def split: outcome.split sum.split)
qed

lemma gives_get: "gives (engineGet f) (\<lambda>x. \<exists>e. x = f e)"
  by (auto simp: gives_def engineGet_def engineStep_def engineDo_def)

lemma gives_check: "gives (engineCheck f) (\<lambda>x. \<exists>e. f e = Inr x)"
  by (auto simp: gives_def engineCheck_def engineDo_def)

section \<open>Sealed bodies\<close>

definition sealed_body :: "('v, 'a, 's, 'n, 'h) send_env \<Rightarrow> Outgoing \<Rightarrow> string \<Rightarrow> bool" where
  "sealed_body S out body \<longleftrightarrow>
     (\<exists>draw session lv fb moved prekey. sv_encrypt S draw session (Outgoing_to_json S out lv fb) = Some (moved, prekey, body))"

definition sealed_for :: "('v, 'a, 's, 'n, 'h) send_env \<Rightarrow> Outgoing \<Rightarrow> string set \<Rightarrow> 's Sealed \<Rightarrow> bool" where
  "sealed_for S out dids sealed \<longleftrightarrow> so_did sealed \<in> dids \<and> sealed_body S out (so_body sealed)"

lemma seal_one_asks: "keeps (only_asks H P) (seal_one S identity out lv known)"
  unfolding seal_one_def seal_session_def Let_def
  by (intro asks.keeps_andThen engine_steps_ask keeps_branches asks.keeps_ret | simp add: asks.keeps_ret split: option.split prod.split)+

lemma seal_one_gives: "gives (seal_one S identity out lv known) (sealed_for S out {pd_did (pe_device known)})"
  unfolding seal_one_def Let_def
  by (rule gives_andThen [OF gives_any], rule gives_andThen [OF gives_any], rule gives_andThen [OF gives_fresh])
     (auto simp: gives_ret sealed_for_def sealed_body_def simp del: ret_apply split: option.split, metis+)

lemma seal_text_asks: "keeps (only_asks H P) (seal_text S identity entries out lv)"
proof -
  have "keeps (only_asks H P) (seal_loop S identity out lv entries)"
  proof (induction entries)
    case Nil
    show ?case unfolding seal_loop.simps by (rule asks.keeps_ret)
  next
    case (Cons known entries)
    show ?case
      unfolding seal_loop.simps by (intro asks.keeps_andThen seal_one_asks Cons.IH asks.keeps_ret)
  qed
  then show ?thesis
    unfolding seal_text_def by (intro asks.keeps_andThen keeps_branches asks.keeps_ret)
qed

lemma seal_text_gives:
  "gives (seal_text S identity entries out lv)
     (\<lambda>sealed. \<forall>x \<in> set sealed. sealed_for S out (set (map (\<lambda>known. pd_did (pe_device known)) entries)) x)"
proof -
  have one: "gives (seal_one S identity out lv known) (sealed_for S out dids)" if "pd_did (pe_device known) \<in> dids" for known dids
    using seal_one_gives [of S identity out lv known] that by (auto simp: gives_def sealed_for_def)
  have loop: "gives (seal_loop S identity out lv entries) (\<lambda>sealed. \<forall>x \<in> set sealed. sealed_for S out dids x)"
    if "set (map (\<lambda>known. pd_did (pe_device known)) entries) \<subseteq> dids" for dids
    using that
  proof (induction entries)
    case (Cons known entries)
    have first: "pd_did (pe_device known) \<in> dids" and rest: "set (map (\<lambda>known. pd_did (pe_device known)) entries) \<subseteq> dids"
      using Cons.prems by auto
    show ?case
      unfolding seal_loop.simps
      by (rule gives_andThen [OF one [OF first]], rule gives_andThen [OF Cons.IH [OF rest]]) (simp add: gives_ret del: ret_apply)
  qed (simp add: gives_ret del: ret_apply)
  show ?thesis
    unfolding seal_text_def by (rule gives_andThen [OF loop [OF subset_refl]]) (auto simp: gives_ret)
qed

text \<open>A request of the send door whose payload has sealed bodies only, for the devices \<open>dids\<close>.\<close>

definition sealed_request :: "('v, 'a, 's, 'n, 'h) send_env \<Rightarrow> Outgoing \<Rightarrow> string set \<Rightarrow> Request \<Rightarrow> bool" where
  "sealed_request S out dids request \<longleftrightarrow>
     rq_method request = Post \<and>
     (\<exists>door payload. rq_body request = SendBody door \<and> sq_payload door = sv_payload_json S payload \<and>
        sq_verb door \<in> {SvPkMsg, SvMsg} \<and> (\<forall>did body. (did, body) \<in> set (bodies payload) \<longrightarrow> did \<in> dids \<and> sealed_body S out body))"

lemma chunk_payload_facts:
  "fst (chunk_payload chunk own) \<in> {SvPkMsg, SvMsg}" "bodies (snd (chunk_payload chunk own)) = bodies_of chunk"
  by (simp_all add: chunk_payload_def)

lemma emit_group_asks:
  assumes "\<forall>x \<in> set chunk. sealed_for S out dids x"
  shows "keeps (only_asks (sv_http S) (sealed_request S out dids)) (emit_group S nick chunk own priority)"
proof -
  let ?R = "only_asks (sv_http S) (sealed_request S out dids)"
  have door: "keeps ?R (send_door S network request)" if "group_request S e nick chunk own priority = Inr request" for network request e
  proof (rule send_door_asks)
    fix segs token
    have r: "sq_payload request = chunk_json S chunk own" "sq_verb request = fst (chunk_payload chunk own)"
      using send_request_checked [OF that [unfolded group_request_def]] by simp_all
    have "did \<in> dids \<and> sealed_body S out body" if "(did, body) \<in> set (bodies_of chunk)" for did body
      using that bodies_of_set [of chunk] assms by (auto simp: sealed_for_def)
    then show "sealed_request S out dids \<lparr> rq_method = Post, rq_segments = segs, rq_query = [], rq_token = token, rq_body = SendBody request \<rparr>"
      unfolding sealed_request_def using r chunk_payload_facts [of chunk own] by (auto simp: chunk_json_def)
  qed
  have save: "keeps ?R (forEach (save_sealed S) chunk)"
    by (intro asks.keeps_forEach) (simp add: save_sealed_def asks.keeps_andThen asks.keeps_mapError)
  have check: "gives (engineCheck (\<lambda>e. map_err EE_Wire (group_request S e nick chunk own priority)) :: ('n, 'h EngineError, E2eSendRequest) sending)
     (\<lambda>request. \<exists>e. group_request S e nick chunk own priority = Inr request)"
    by (auto simp: gives_def engineCheck_def engineDo_def map_err_def split: sum.splits)
  show ?thesis
    unfolding emit_group_def
    by (rule keeps_andThen_gives [OF asks.world_order_axioms _ check])
       (auto intro!: asks.keeps_andThen save door keeps_branches simp: asks.keeps_ret)
qed

lemma emit_asks:
  assumes "\<forall>x \<in> set sealed. sealed_for S out dids x"
  shows "keeps (only_asks (sv_http S) (sealed_request S out dids)) (emit S nick sealed own priority)"
proof -
  let ?R = "only_asks (sv_http S) (sealed_request S out dids)"
  have loop: "keeps ?R (emit_loop S nick own priority plan emitted)" if "\<forall>chunk \<in> set plan. set chunk \<subseteq> set sealed" for plan emitted
    using that
  proof (induction plan arbitrary: emitted)
    case (Cons chunk plan)
    have sub: "\<forall>x \<in> set chunk. sealed_for S out dids x" "\<forall>chunk \<in> set plan. set chunk \<subseteq> set sealed"
      using Cons.prems assms by auto
    show ?case
      unfolding emit_loop.simps
      by (intro asks.keeps_andThen keeps_attempt emit_group_asks keeps_branches asks.keeps_ret Cons.IH sub)
  qed (simp add: asks.keeps_ret)
  show ?thesis
    unfolding emit_def
  proof (rule keeps_andThen_gives [OF asks.world_order_axioms engine_steps_ask(4) gives_get])
    fix found
    assume "\<exists>e. found = plan_requests S sealed own (en_own_did e)
        (map_option (\<lambda>base. frame_line_budget base nick) (en_frame_budget_base e))"
    then have "\<forall>chunk \<in> set plan. set chunk \<subseteq> set sealed" if "found = Some plan" for plan
      using that plan_requests_Some(1) by metis
    then show "keeps ?R (case found of None \<Rightarrow> throw (EE_Wire PayloadTooLarge) | Some plan \<Rightarrow> emit_loop S nick own priority plan [])"
      by (intro keeps_branches asks.keeps_ret loop)
  qed
qed

lemma keep_row_asks: "keeps (only_asks H P) (keep_row E nick t local_id captures row now)"
  unfolding keep_row_def
  by (intro keeps_branches asks.keeps_andThen asks.keeps_mapError engine_steps_ask asks.keeps_ret)

lemma deliver_asks:
  "keeps (only_asks (sv_http S) (sealed_request S (OutText t) (set (map (\<lambda>known. pd_did (pe_device known)) entries))))
     (deliver S nick t entries sends row now)"
  unfolding deliver_def identityOf_def
  by (intro asks.keeps_andThen engine_steps_ask keeps_andThen_gives [OF asks.world_order_axioms seal_text_asks seal_text_gives] emit_asks)
     (auto intro!: asks.keeps_andThen engine_steps_ask keep_row_asks asks.keeps_ret split: list.split option.split)

end
