(* ===== verification/Send_Claims.thy ===== *)
theory Send_Claims
  imports Send_Facts Engine_Copies
begin

text \<open>
  The promises of the send path of the engine, over the lemmas of theory Send_Facts, about the
  requests that leave.
\<close>

section \<open>The operations that send\<close>

datatype SendOp =
  DoSend string string int | DoSendOrQueue string string int | DoFlush int | DoLists | DoKeyReq string
| DoCopies string int | DoSync

fun after_op :: "('v, 'a, 's, 'n, 'h) send_env \<Rightarrow> SendOp \<Rightarrow> Engine \<times> 'n \<Rightarrow> Engine \<times> 'n" where
  "after_op S (DoSend nick t now) w = fst (send_text S nick t now w)"
| "after_op S (DoSendOrQueue nick t now) w = fst (send_or_queue S nick t now w)"
| "after_op S (DoFlush now) w = fst ((flush_queue S now :: ('n, unit, _) sending) w)"
| "after_op S DoLists w = fst ((send_list_messages S :: ('n, unit, _) sending) w)"
| "after_op S (DoKeyReq nick) w = fst (request_keys S nick w)"
| "after_op S (DoCopies own_nick now) w = fst ((send_copies S own_nick now :: ('n, unit, _) sending) w)"
| "after_op S DoSync w = fst (sync_own_list S w)"

definition keyreq_request :: "Request \<Rightarrow> bool" where
  "keyreq_request request \<longleftrightarrow>
     rq_method request = Post \<and>
     (\<exists>door. rq_body request = SendBody door \<and> sq_verb door = SvKeyReq \<and> sq_payload door = keyreq_payload)"

text \<open>A copy has one body, for the device it goes to: the encryption of a \<open>copy\<close> message.\<close>

definition copy_request :: "('v, 'a, 's, 'n, 'h) send_env \<Rightarrow> Request \<Rightarrow> bool" where
  "copy_request S request \<longleftrightarrow>
     (\<exists>copy payload did body draw session message moved prekey.
        rq_body request = CopyBody copy \<and> cp_payload copy = sv_payload_json S payload \<and> bodies payload = [(did, body)] \<and>
        sv_encrypt S draw session (sv_copy_json S message) = Some (moved, prekey, body))"

definition bare_request :: "Request \<Rightarrow> bool" where
  "bare_request request \<longleftrightarrow> rq_body request = NoBody \<or> (\<exists>claim. rq_body request = ClaimBody claim)"

definition no_clear_text :: "('v, 'a, 's, 'n, 'h) send_env \<Rightarrow> Request \<Rightarrow> bool" where
  "no_clear_text S request \<longleftrightarrow>
     (\<exists>out. sealed_request S out UNIV request) \<or> keyreq_request request \<or> copy_request S request \<or> bare_request request"

lemma sealed_request_mono: "sealed_request S out dids request \<Longrightarrow> no_clear_text S request"
  unfolding sealed_request_def no_clear_text_def by blast

lemma map_err_Inr: "map_err f r = Inr x \<longleftrightarrow> r = Inr x"
  by (cases r) (auto simp: map_err_def)

lemma asked_by: "keeps (only_asks H P) m \<Longrightarrow> asked H P n (snd (fst (m (e, n))))"
  by (simp add: keeps_def only_asks_def split_paired_all)

lemma only_asks_mono:
  "keeps (only_asks H P) m \<Longrightarrow> (\<And>request. P request \<Longrightarrow> Q request) \<Longrightarrow> keeps (only_asks H Q) m"
  by (auto simp: keeps_def only_asks_def intro: asked_mono)

lemma deliver_sealed: "keeps (only_asks (sv_http S) (no_clear_text S)) (deliver S nick t entries sends row now)"
  by (rule only_asks_mono [OF deliver_asks sealed_request_mono])

lemma send_text_sealed: "keeps (only_asks (sv_http S) (no_clear_text S)) (send_text S nick t now)"
  unfolding send_text_def
  by (intro keeps_branches asks.keeps_andThen engine_steps_ask asks.keeps_ret deliver_sealed)

lemma send_or_queue_sealed: "keeps (only_asks (sv_http S) (no_clear_text S)) (send_or_queue S nick t now)"
proof -
  have "keeps (only_asks (sv_http S) (no_clear_text S)) (queue_text S nick t now)"
    unfolding queue_text_def identityOf_def
    by (intro keeps_branches asks.keeps_andThen engine_steps_ask asks.keeps_ret)
  then show ?thesis
    unfolding send_or_queue_def
    by (intro asks.keeps_orElse send_text_sealed) (auto simp: asks.keeps_ret split: EngineError.split)
qed

lemma item_steps_ask: "keeps (only_asks H P) (drop_item E key reason)" "keeps (only_asks H P) (keep_item item pending)"
  unfolding drop_item_def keep_item_def by (intro asks.keeps_andThen engine_steps_ask asks.keeps_ret)+

lemma flush_result_asks: "keeps (only_asks H P) (flush_result E item pending r)"
  unfolding flush_result_def
  by (auto intro!: item_steps_ask asks.keeps_andThen engine_steps_ask simp: asks.keeps_ret
      split: sum.split EngineError.split SendResponse.split SendFailure.split)

lemma flush_item_sealed: "keeps (only_asks (sv_http S) (no_clear_text S)) (flush_item S now item)"
  unfolding flush_item_def
  by (intro asks.keeps_andThen engine_steps_ask)
     (auto intro!: asks.keeps_andThen engine_steps_ask item_steps_ask flush_result_asks keeps_attempt deliver_sealed
       simp: asks.keeps_ret split: option.split list.split)

lemma flush_loop_sealed: "keeps (only_asks (sv_http S) (no_clear_text S)) (flush_loop S now items)"
proof (induction items)
  case Nil
  show ?case unfolding flush_loop.simps by (rule asks.keeps_ret)
next
  case (Cons item items)
  show ?case
    unfolding flush_loop.simps by (intro asks.keeps_andThen keeps_branches flush_item_sealed Cons.IH asks.keeps_ret)
qed

lemma flush_queue_sealed: "keeps (only_asks (sv_http S) (no_clear_text S)) (flush_queue S now)"
  unfolding flush_queue_def
  by (intro asks.keeps_andThen engine_steps_ask keeps_branches flush_loop_sealed asks.keeps_ret)

lemma emit_sealed:
  "\<forall>x \<in> set sealed. sealed_for S out dids x \<Longrightarrow> keeps (only_asks (sv_http S) (no_clear_text S)) (emit S nick sealed own priority)"
  by (rule only_asks_mono [OF emit_asks sealed_request_mono])

lemma send_list_job_sealed: "keeps (only_asks (sv_http S) (no_clear_text S)) (send_list_job S job)"
  unfolding send_list_job_def identityOf_def
  by (intro asks.keeps_orElse asks.keeps_andThen engine_steps_ask keeps_andThen_gives [OF asks.world_order_axioms seal_text_asks seal_text_gives]
      emit_sealed asks.keeps_ret)

lemma list_loop_sealed: "keeps (only_asks (sv_http S) (no_clear_text S)) (list_loop S jobs k)"
proof (induction jobs arbitrary: k)
  case Nil
  show ?case unfolding list_loop.simps by (rule asks.keeps_ret)
next
  case (Cons job jobs)
  show ?case
    unfolding list_loop.simps
    by (intro asks.keeps_andThen asks.keeps_whenever engine_steps_ask keeps_branches send_list_job_sealed Cons.IH)
qed

lemma send_list_messages_sealed: "keeps (only_asks (sv_http S) (no_clear_text S)) (send_list_messages S)"
  unfolding send_list_messages_def by (intro asks.keeps_andThen engine_steps_ask list_loop_sealed)

lemma request_keys_sealed: "keeps (only_asks (sv_http S) (no_clear_text S)) (request_keys S nick)"
proof -
  let ?R = "only_asks (sv_http S) (no_clear_text S)"
  let ?new = "\<lambda>e. E2eSendRequest_new (sv_crypto S) (ee_json (sv_engine S)) (ee_from_str (sv_engine S)) nick SvKeyReq
      (en_own_did e) WILDCARD keyreq_payload (Some Control) None"
  have door: "keeps ?R (send_door S network request)" if "?new e = Inr request" for network request e
    using send_request_checked [OF that]
    by (intro send_door_asks) (simp add: no_clear_text_def keyreq_request_def)
  show ?thesis
    unfolding request_keys_def
  proof (rule asks.keeps_andThen [OF engine_steps_ask(4)], rule keeps_branches(1), rule asks.keeps_ret(2),
      rule asks.keeps_andThen [OF engine_steps_ask(1)], rule keeps_andThen_gives [OF asks.world_order_axioms engine_steps_ask(5) gives_check])
    fix request
    assume "\<exists>e :: Engine. map_err EE_Wire (?new e) = Inr request"
    then obtain e :: Engine where "?new e = Inr request" by (auto simp: map_err_Inr)
    from door [OF this] show "keeps ?R (andThen (engineGet en_network) (\<lambda>network.
         andThen (send_door S network request) (\<lambda>answer.
           if an_response answer = RespAccepted then ret () else throw (EE_Rejected (an_response answer)))))"
      by (intro asks.keeps_andThen engine_steps_ask keeps_branches asks.keeps_ret)
  qed
qed

lemma e2e_call_asks:
  assumes "\<And>segs. P \<lparr> rq_method = verb, rq_segments = segs, rq_query = query, rq_token = token, rq_body = body \<rparr>"
  shows "asked H P n (fst (e2e_call_with query C H n verb x network did protocol token body f))"
proof (cases "e2e_url C H x network did protocol")
  case (Inr segs)
  have "asked H P n (fst (http H n \<lparr> rq_method = verb, rq_segments = segs, rq_query = query, rq_token = token, rq_body = body \<rparr>))"
    by (rule asked_more [OF asked_nothing]) (rule assms)
  then show ?thesis by (simp add: e2e_call_with_def Inr)
qed (simp add: e2e_call_with_def asked_nothing)

lemma serverDo_asks: "(\<And>n. asked H P n (fst (f n))) \<Longrightarrow> keeps (only_asks H P) (serverDo f)"
  by (auto simp: keeps_def only_asks_def serverDo_def split: prod.split) (metis fst_conv)

lemma sync_own_list_sealed: "keeps (only_asks (sv_http S) (no_clear_text S)) (sync_own_list S)"
proof -
  have "asked (sv_http S) (no_clear_text S) n (fst (fetch_e2e_list (sv_crypto S) (sv_http S) n (sv_token S) network (sv_protocol S)))" for n network
    unfolding fetch_e2e_list_def e2e_call_def by (rule e2e_call_asks) (simp add: no_clear_text_def bare_request_def)
  then show ?thesis
    unfolding sync_own_list_def
    by (intro asks.keeps_andThen asks.keeps_mapError engine_steps_ask keeps_branches asks.keeps_ret serverDo_asks)
qed

lemma claim_sibling_key_sealed: "keeps (only_asks (sv_http S) (no_clear_text S)) (claim_sibling_key S did sibling)"
proof -
  have ask: "asked (sv_http S) (no_clear_text S) n (fst (claim_e2e_device_key (sv_crypto S) (sv_http S) (ee_from_str (sv_engine S)) n (sv_token S) network did
                (sv_protocol S) request))" for n network request
    unfolding claim_e2e_device_key_def e2e_call_def by (rule e2e_call_asks) (simp add: no_clear_text_def bare_request_def)
  have "keeps (only_asks (sv_http S) (no_clear_text S)) (claim_loop S network did request k)" for network request k
  proof (induction k)
    case 0
    show ?case unfolding claim_loop.simps by (rule asks.keeps_ret)
  next
    case (Suc k)
    show ?case
      unfolding claim_loop.simps
      by (intro asks.keeps_andThen keeps_attempt serverDo_asks ask)
         (auto simp: asks.keeps_ret Suc split: sum.split E2eRouteError.split E2eRefusal.split)
  qed
  then show ?thesis
    unfolding claim_sibling_key_def by (intro asks.keeps_andThen engine_steps_ask)
qed

lemma copy_to_sealed: "keeps (only_asks (sv_http S) (no_clear_text S)) (copy_to S own_nick job did sibling)"
proof -
  let ?R = "only_asks (sv_http S) (no_clear_text S)"
  have queue: "keeps ?R (queue_copy S own_nick did session verb (sv_payload_json S payload))"
    if "bodies payload = [(did, body)]" "sv_encrypt S draw known (sv_copy_json S message) = Some (moved, prekey, body)"
    for session verb payload body draw known message moved prekey
  proof -
    have ask: "asked (sv_http S) (no_clear_text S) n (fst (send_e2e_copy (sv_crypto S) (sv_http S) n (sv_token S) network did (sv_protocol S) request))"
      if "CopyRequest_new (sv_crypto S) (ee_json (sv_engine S)) (ee_from_str (sv_engine S)) own verb (sv_payload_json S payload) = Inr request"
      for n network request own
    proof -
      have "cp_payload request = sv_payload_json S payload"
        using that by (auto simp: CopyRequest_new_def rbind_eq_Inr split: if_splits)
      then show ?thesis
        unfolding send_e2e_copy_def e2e_call_def
        using \<open>bodies payload = [(did, body)]\<close> \<open>sv_encrypt S draw known (sv_copy_json S message) = Some (moved, prekey, body)\<close>
        by (intro e2e_call_asks) (auto simp: no_clear_text_def copy_request_def)
    qed
    show ?thesis
      unfolding queue_copy_def
    proof (intro keeps_branches asks.keeps_ret, rule keeps_andThen_gives [OF asks.world_order_axioms engine_steps_ask(5) gives_check])
      fix request :: CopyRequest
      assume "\<exists>e. map_err (\<lambda>_. CsDrop CfTooLarge)
                   (CopyRequest_new (sv_crypto S) (ee_json (sv_engine S)) (ee_from_str (sv_engine S)) (en_own_did e) verb
                     (sv_payload_json S payload)) = Inr request"
      then obtain own where "CopyRequest_new (sv_crypto S) (ee_json (sv_engine S)) (ee_from_str (sv_engine S)) own verb (sv_payload_json S payload) = Inr request"
        by (auto simp: map_err_Inr)
      from ask [OF this] show "keeps ?R (andThen (mapError (\<lambda>_. CsDrop CfFailed)
                   (engineDo (\<lambda>e. stateDo (sv_engine S) (SetPeerSession (en_network e) own_nick did session) e))) (\<lambda>_.
        andThen (engineGet en_network) (\<lambda>network.
        andThen (mapError copy_step (serverDo (\<lambda>n. send_e2e_copy (sv_crypto S) (sv_http S) n (sv_token S) network did (sv_protocol S) request))) (\<lambda>_.
          ret ()))))"
        by (intro asks.keeps_andThen asks.keeps_mapError engine_steps_ask asks.keeps_ret serverDo_asks)
    qed
  qed
  have session: "keeps ?R (copy_session S own_nick identity did sibling)" for identity
    unfolding copy_session_def
    by (intro asks.keeps_andThen engine_steps_ask keeps_branches asks.keeps_ret claim_sibling_key_sealed)
  show ?thesis
    unfolding copy_to_def identityOf_def
  proof (rule asks.keeps_andThen [OF asks.keeps_mapError [OF engine_steps_ask(5)]], rule asks.keeps_andThen [OF asks.keeps_mapError [OF engine_steps_ask(5)]],
      rule asks.keeps_andThen [OF session], rule asks.keeps_andThen [OF engine_steps_ask(4)],
      rule keeps_andThen_gives [OF asks.world_order_axioms engine_steps_ask(6) gives_fresh])
    fix identity own session own_ed25519 found
    assume "\<exists>draw. found = sv_encrypt S draw session (copy_inner S own_ed25519 job own sibling session)"
    then obtain draw where f: "found = sv_encrypt S draw session (copy_inner S own_ed25519 job own sibling session)" by blast
    show "keeps ?R (case found of
         None \<Rightarrow> throw (CsDrop CfFailed)
       | Some (session, prekey, body) \<Rightarrow>
           queue_copy S own_nick did session (fst (copy_payload own did prekey body)) (sv_payload_json S (snd (copy_payload own did prekey body))))"
      by (cases found) (auto simp: asks.keeps_ret copy_payload_def f copy_inner_def simp del: ret_apply intro!: queue)
  qed
qed

lemma send_copies_sealed: "keeps (only_asks (sv_http S) (no_clear_text S)) (send_copies S own_nick now)"
proof -
  let ?R = "only_asks (sv_http S) (no_clear_text S)"
  have turn: "keeps ?R (copy_turn S own_nick now sibling turn)" for sibling turn
    unfolding copy_turn_def
    by (intro keeps_branches asks.keeps_ret asks.keeps_andThen engine_steps_ask keeps_attempt copy_to_sealed)
       (auto simp: asks.keeps_ret simp del: ret_apply split: CopyStep.split intro!: asks.keeps_andThen)
  have siblings: "keeps ?R (sibling_loop S own_nick now siblings turn)" for siblings turn
  proof (induction siblings arbitrary: turn)
    case Nil
    show ?case unfolding sibling_loop.simps by (rule asks.keeps_ret)
  next
    case (Cons sibling siblings)
    show ?case unfolding sibling_loop.simps by (intro asks.keeps_andThen turn Cons.IH)
  qed
  have "keeps ?R (copies_run S own_nick now jobs report kept)" for jobs report kept
  proof (induction jobs arbitrary: report kept)
    case Nil
    show ?case unfolding copies_run.simps by (rule asks.keeps_ret)
  next
    case (Cons job jobs)
    show ?case unfolding copies_run.simps by (intro asks.keeps_andThen engine_steps_ask siblings keeps_branches Cons.IH)
  qed
  then show ?thesis
    unfolding send_copies_def by (intro asks.keeps_andThen engine_steps_ask keeps_branches asks.keeps_ret)
qed

section \<open>Properties\<close>

text \<open>
  Claim C16. The engine has no path that sends clear text. Whatever a send, a send that may wait, a flush
  of the waiting texts, the list messages, a request for keys, the copies for the own devices or a sync
  of the own list do, and whatever the server answers, every request that leaves is a KEYREQ with its
  fixed payload, a claim, a request with no body, or a message or copy whose payload has for each
  device the result of an Olm encryption of an inner message.
\<close>

theorem nothing_leaves_in_clear: "asked (sv_http S) (no_clear_text S) n (snd (after_op S x (e, n)))"
proof (cases x)
  case (DoFlush now)
  show ?thesis unfolding DoFlush after_op.simps by (rule asked_by [OF flush_queue_sealed])
next
  case DoLists
  show ?thesis unfolding DoLists after_op.simps by (rule asked_by [OF send_list_messages_sealed])
next
  case (DoCopies own_nick now)
  show ?thesis unfolding DoCopies after_op.simps by (rule asked_by [OF send_copies_sealed])
qed (simp_all add: asked_by [OF send_text_sealed] asked_by [OF send_or_queue_sealed] asked_by [OF request_keys_sealed]
    asked_by [OF sync_own_list_sealed])


end
