(* ===== verification/Send_Promises.thy ===== *)
theory Send_Promises
  imports Send_Facts Engine_Copies Toy_Engine
begin

text \<open>
  What the send path leaves behind: saved sessions, a plan that is all or nothing, texts that wait with
  their keys wanted, no device of a replaced master, and an own list that only moves forward.
\<close>

section \<open>Sessions\<close>

abbreviation sealed_key :: "string \<Rightarrow> 's Sealed \<Rightarrow> string" where
  "sealed_key network x \<equiv> peer_device_key network (so_nick x) (so_did x)"

definition send_env_ok :: "('v, 'a, 's, 'n, 'h) send_env \<Rightarrow> bool" where
  "send_env_ok S \<longleftrightarrow> store_env_ok (sv_store S) \<and> (\<forall>i. length (ee_nonce (sv_engine S) i) = NONCE_LEN)"

definition state_saved :: "('v, 'a, 's, 'n, 'h) send_env \<Rightarrow> Engine \<Rightarrow> bool" where
  "state_saved S e \<longleftrightarrow> in_sync (sv_store S) (en_disk e) (en_state e)"

lemma stateDo_saved:
  assumes "send_env_ok S" "state_saved S e" "stateDo (sv_engine S) x e = (e', r)"
  shows "state_saved S e'" "st_key (en_state e') = st_key (en_state e)"
proof -
  obtain d s' where st: "store_step (sv_store S) (en_disk e) (ee_nonce (sv_engine S) (en_draws e)) (en_state e) x = (d, s', r)"
    and e': "e' = e\<lparr>en_disk := d, en_state := s', en_draws := en_draws e + 1\<rparr>"
    using assms(3) by (auto simp: stateDo_def split: prod.splits)
  from store_step_facts(1,3) [OF _ _ _ st] show "state_saved S e'" "st_key (en_state e') = st_key (en_state e)"
    using assms(1,2) by (simp_all add: e' send_env_ok_def state_saved_def)
qed

text \<open>Saving one body: a failure changes no session, a success puts its session in place.\<close>

lemma save_sealed_facts:
  assumes "save_sealed S x (e, n) = ((e', m), Value r)"
  shows "m = n" "en_network e' = en_network e" "en_own_did e' = en_own_did e"
    and "r = Inr () \<Longrightarrow> sd_sessions (st_data (en_state e')) =
      AList.update (sealed_key (en_network e) x) (session_pickle (sv_store S) (so_session x) (st_key (en_state e)))
        (sd_sessions (st_data (en_state e)))"
    and "r = Inr () \<Longrightarrow> en_peers e' = map (\<lambda>(did, known).
       (did, if did = so_did x then known\<lparr>pe_one_time_key := None\<rparr> else known)) (en_peers e)"
    and "send_env_ok S \<Longrightarrow> state_saved S e \<Longrightarrow> state_saved S e' \<and> st_key (en_state e') = st_key (en_state e)"
proof -
  obtain f s where f: "stateDo (sv_engine S) (SetPeerSession (en_network e) (so_nick x) (so_did x) (so_session x)) e = (f, s)" by fastforce
  have r: "m = n \<and> (\<exists>err. s = Inl err \<and> r = Inl (EE_Store err) \<and> e' = f \<or> s = Inr () \<and> r = Inr () \<and>
      e' = f\<lparr>en_peers := map (\<lambda>(did, known). (did, if did = so_did x then known\<lparr>pe_one_time_key := None\<rparr> else known)) (en_peers f)\<rparr>)"
    using assms by (cases s) (auto simp: save_sealed_def andThen_def mapError_def orElse_def engineDo_def engineSet_def engineStep_def f)
  then show "m = n" "en_network e' = en_network e" "en_own_did e' = en_own_did e"
    using stateDo_fields [OF f] by auto
  show "sd_sessions (st_data (en_state e')) =
      AList.update (sealed_key (en_network e) x) (session_pickle (sv_store S) (so_session x) (st_key (en_state e)))
        (sd_sessions (st_data (en_state e)))" if "r = Inr ()"
    using r that stateDo_state [OF f] by (auto simp: changed_def change_session_def)
  show "en_peers e' = map (\<lambda>(did, known). (did, if did = so_did x then known\<lparr>pe_one_time_key := None\<rparr> else known)) (en_peers e)"
    if "r = Inr ()"
    using r that stateDo_fields(7) [OF f] by auto
  show "state_saved S e' \<and> st_key (en_state e') = st_key (en_state e)" if "send_env_ok S" "state_saved S e"
    using r stateDo_saved [OF that f] by (auto simp: state_saved_def)
qed

lemma forEach_Cons_value:
  assumes "forEach f (x # xs) w = (v, Value r)"
  obtains u where "f x w = (u, Value (Inr ()))" "forEach f xs u = (v, Value r)"
  | err where "f x w = (v, Value (Inl err))" "r = Inl err"
  using assms by (auto simp: andThen_def split: prod.splits outcome.splits sum.splits)

lemma save_sealed_value: "\<exists>v r. save_sealed S x w = (v, Value r)"
  by (auto simp: save_sealed_def andThen_def mapError_def orElse_def engineDo_def engineSet_def engineStep_def
      split: prod.split sum.split)

lemma save_all_facts:
  assumes "forEach (save_sealed S) chunk (e, n) = ((e', m), Value r)"
  shows "m = n \<and> en_network e' = en_network e \<and>
    (send_env_ok S \<and> state_saved S e \<longrightarrow> state_saved S e' \<and> st_key (en_state e') = st_key (en_state e)) \<and>
    (r = Inr () \<and> send_env_ok S \<and> state_saved S e \<and> distinct (map (sealed_key (en_network e)) chunk) \<longrightarrow>
       (\<forall>k. map_of (sd_sessions (st_data (en_state e'))) k =
          (case map_of (map (\<lambda>x. (sealed_key (en_network e) x, session_pickle (sv_store S) (so_session x) (st_key (en_state e)))) chunk) k of
             None \<Rightarrow> map_of (sd_sessions (st_data (en_state e))) k | Some pickle \<Rightarrow> Some pickle)))"
  using assms
proof (induction chunk arbitrary: e n)
  case (Cons x chunk)
  from Cons.prems show ?case
  proof (cases rule: forEach_Cons_value)
    case (1 u)
    obtain f k where u: "u = (f, k)" by fastforce
    note one = save_sealed_facts [OF 1(1) [unfolded u]]
    have rest: "forEach (save_sealed S) chunk (f, n) = ((e', m), Value r)" using 1(2) one(1) by (simp add: u)
    have new: "map_of (map (\<lambda>x. (sealed_key (en_network e) x, session_pickle (sv_store S) (so_session x) (st_key (en_state e)))) chunk)
        (sealed_key (en_network e) x) = None" if "sealed_key (en_network e) x \<notin> sealed_key (en_network e) ` set chunk"
      using that by (auto simp: map_of_eq_None_iff image_image)
    show ?thesis
      using Cons.IH [OF rest] one(2,4,6) new by (auto simp: update_conv' split: option.splits)
  next
    case (2 err)
    show ?thesis using save_sealed_facts [OF 2(1)] 2(2) by auto
  qed
qed simp

section \<open>The queue and the peers\<close>

lemma fold_want_keys:
  "en_queue (fold want_keys nicks e) = en_queue e" "set (en_keys_wanted (fold want_keys nicks e)) = set (en_keys_wanted e) \<union> set nicks"
  by (induction nicks arbitrary: e) (auto simp: want_keys_def push_new_def)

lemma requeue_wanted:
  assumes "item \<in> set (oq_items (en_queue (requeue retry e)))"
  shows "sk_target (qs_key item) \<in> set (en_keys_wanted (requeue retry e))"
proof -
  define f where "f = e\<lparr>en_queue := fold (\<lambda>item q. OutgoingQueue_restore q item) (rev retry) (en_queue e)\<rparr>"
  have r: "requeue retry e = fold want_keys (OutgoingQueue_targets (en_queue f)) f" by (simp add: requeue_def f_def)
  have "item \<in> set (oq_items (en_queue f))" using assms by (simp add: r fold_want_keys)
  then show ?thesis
    using targets_loop_facts [of "[]" "oq_items (en_queue f)"] by (auto simp: r fold_want_keys OutgoingQueue_targets_def)
qed

lemma note_drops_fields:
  "en_peers (note_drops E drops e) = en_peers e" "en_network (note_drops E drops e) = en_network e"
  "en_casemapping (note_drops E drops e) = en_casemapping e"
proof -
  have one: "en_peers (note_drop E x f) = en_peers f \<and> en_network (note_drop E x f) = en_network f \<and>
      en_casemapping (note_drop E x f) = en_casemapping f" for x f
  proof (cases "map_of (en_row_ids f) (sd_key x)")
    case (Some shown)
    obtain g s where "stateDo E (SetDroppedRow shown (DropReason_wire_name (sd_reason x))) f = (g, s)" by fastforce
    from stateDo_fields [OF this] this Some show ?thesis by (simp add: note_drop_def note_changed_def Let_def)
  qed (simp add: note_drop_def note_changed_def)
  have "en_peers (note_drops E drops e) = en_peers e \<and> en_network (note_drops E drops e) = en_network e \<and>
      en_casemapping (note_drops E drops e) = en_casemapping e"
    unfolding note_drops_def by (induction drops arbitrary: e) (auto simp: one)
  then show "en_peers (note_drops E drops e) = en_peers e" "en_network (note_drops E drops e) = en_network e"
    "en_casemapping (note_drops E drops e) = en_casemapping e" by auto
qed

lemma drop_waiting_fields:
  "en_peers (fst (drop_waiting E keys reason e)) = en_peers e" "en_casemapping (fst (drop_waiting E keys reason e)) = en_casemapping e"
proof -
  have "en_peers (fst (fold (\<lambda>key (e, drops).
       case fail_send E key reason
              (e\<lparr>en_queue := fst (OutgoingQueue_remove (en_queue e) key), en_pending := AList.delete key (en_pending e)\<rparr>) of
         (e, dropped) \<Rightarrow> (e, drops @ opt_list dropped)) keys (e, drops))) = en_peers e \<and>
      en_casemapping (fst (fold (\<lambda>key (e, drops).
       case fail_send E key reason
              (e\<lparr>en_queue := fst (OutgoingQueue_remove (en_queue e) key), en_pending := AList.delete key (en_pending e)\<rparr>) of
         (e, dropped) \<Rightarrow> (e, drops @ opt_list dropped)) keys (e, drops))) = en_casemapping e" for drops
  proof (induction keys arbitrary: e drops)
    case (Cons key keys)
    obtain f x where f: "fail_send E key reason
        (e\<lparr>en_queue := fst (OutgoingQueue_remove (en_queue e) key), en_pending := AList.delete key (en_pending e)\<rparr>) = (f, x)" by fastforce
    then have "en_peers f = en_peers e \<and> en_casemapping f = en_casemapping e"
      by (auto simp: fail_send_def Let_def note_drops_fields split: prod.splits if_splits)
    then show ?case using Cons [of f "drops @ opt_list x"] by (simp add: f)
  qed simp
  then show "en_peers (fst (drop_waiting E keys reason e)) = en_peers e" "en_casemapping (fst (drop_waiting E keys reason e)) = en_casemapping e"
    unfolding drop_waiting_def by blast+
qed

text \<open>No cached device stays under the nick.\<close>

definition no_device :: "string \<Rightarrow> Engine \<Rightarrow> bool" where
  "no_device nick e \<longleftrightarrow> (\<forall>(did, known) \<in> set (en_peers e). en_fold e (pe_nick known) \<noteq> en_fold e nick)"

lemma forgotten: "no_device nick (forget_peer_devices E nick e)"
proof -
  define old where "old = map fst (filter (\<lambda>(_, known). en_fold e (pe_nick known) = en_fold e nick) (en_peers e))"
  have "en_fold e (pe_nick known) \<noteq> en_fold e nick" if "(did, known) \<in> set (en_peers e)" "did \<notin> set old" for did known
  proof
    assume "en_fold e (pe_nick known) = en_fold e nick"
    then have "(did, known) \<in> set (filter (\<lambda>(_, known). en_fold e (pe_nick known) = en_fold e nick) (en_peers e))" using that(1) by simp
    then have "fst (did, known) \<in> set old" unfolding old_def set_map by (rule imageI)
    then show False using that(2) by simp
  qed
  then show ?thesis
    by (auto simp: no_device_def forget_peer_devices_def Let_def drop_waiting_fields old_def [symmetric])
qed

lemma no_device_stateDo: "stateDo E x e = (e', r) \<Longrightarrow> no_device nick e' = no_device nick e"
  using stateDo_fields [of E x e e' r] by (simp add: no_device_def)

lemma no_device_picks:
  assumes "no_device nick e"
  shows "pick_devices S nick e = []"
proof -
  have "filter (\<lambda>known. en_fold e (pe_nick known) = en_fold e nick \<and> entry_ready S e known) (map snd (en_peers e)) = []"
    using assms by (auto simp: no_device_def filter_empty_conv)
  then show ?thesis by (simp add: pick_devices_def)
qed

lemma plan_requests_None:
  "plan_requests S sealed own own_did budget = None \<longleftrightarrow> (\<exists>x \<in> set sealed. \<not> request_fits S own own_did budget [x])"
proof -
  let ?split = "\<lambda>prekey. split_by_limits S (filter (\<lambda>s. so_prekey s = prekey) sealed) own own_did budget"
  have ok: "\<forall>chunk \<in> set (?split prekey). chunk_ok S own own_did budget chunk" for prekey
    unfolding split_by_limits_def by (rule split_loop_ok) simp_all
  have sub: "set chunk \<subseteq> set sealed" if "chunk \<in> set (?split prekey)" for chunk prekey
  proof -
    have "set chunk \<subseteq> set (concat (?split prekey))" using that by auto
    also have "concat (?split prekey) = filter (\<lambda>s. so_prekey s = prekey) sealed" by (simp add: split_by_limits_def split_loop_concat)
    finally show ?thesis by auto
  qed
  have "request_fits S own own_did budget chunk"
    if "\<forall>x \<in> set sealed. request_fits S own own_did budget [x]" "chunk \<in> set (?split prekey)" for chunk prekey
  proof (cases "length chunk = 1")
    case True
    then obtain x where "chunk = [x]" by (cases chunk) auto
    then show ?thesis using that sub [OF that(2)] by auto
  next
    case False
    then show ?thesis using ok [of prekey] that(2) unfolding chunk_ok_def by blast
  qed
  note fits = this
  show ?thesis
  proof (cases "\<forall>x \<in> set sealed. request_fits S own own_did budget [x]")
    case True
    have "list_all (request_fits S own own_did budget) (?split False @ ?split True)"
      using fits [OF True, of _ False] fits [OF True, of _ True] unfolding list_all_iff set_append by blast
    then have "plan_requests S sealed own own_did budget \<noteq> None"
      using True by (simp add: plan_requests_def Let_def list_ex_iff)
    then show ?thesis using True by blast
  next
    case False
    then show ?thesis by (simp add: plan_requests_def list_ex_iff)
  qed
qed

section \<open>Properties\<close>

text \<open>
  Claim C18. A reused Olm message is worse than a lost one, so the sessions are saved first. When a request
  with the bodies of a chunk reached the server, the state file and the memory agree and hold for every
  body the session that wrote it, whatever the server answers.
\<close>

theorem sessions_saved_before_sending:
  assumes "emit_group S nick chunk own priority (e, n) = ((e', n'), r)" and "n' \<noteq> n"
    and "send_env_ok S" and "state_saved S e" and "distinct (map (sealed_key (en_network e)) chunk)"
  shows "state_saved S e' \<and>
     (\<forall>x \<in> set chunk. map_of (sd_sessions (st_data (en_state e'))) (sealed_key (en_network e) x) =
        Some (session_pickle (sv_store S) (so_session x) (st_key (en_state e))))"
proof -
  obtain request where q: "group_request S e nick chunk own priority = Inr request"
    using assms(1,2) by (cases "group_request S e nick chunk own priority")
      (auto simp: emit_group_def andThen_def engineCheck_def engineDo_def map_err_def)
  obtain f m s where f: "forEach (save_sealed S) chunk (e, n) = ((f, m), s)" by (metis surj_pair)
  have "s \<noteq> Panic"
  proof -
    have "\<exists>v r. forEach (save_sealed S) xs w = (v, Value r)" for xs w
    proof (induction xs arbitrary: w)
      case (Cons x xs)
      obtain v r where "save_sealed S x w = (v, Value r)" using save_sealed_value by blast
      then show ?case using Cons.IH [of v] by (cases r) (auto simp: andThen_def)
    qed simp
    then show ?thesis using f by (metis Pair_inject outcome.distinct(1))
  qed
  then obtain t where s: "s = Value t" by (cases s) auto
  note saved = save_all_facts [OF f [unfolded s]]
  have run: "emit_group S nick chunk own priority (e, n) =
     (case t of Inl err \<Rightarrow> ((f, m), Value (Inl err)) | Inr _ \<Rightarrow>
        andThen (engineGet en_network) (\<lambda>network. andThen (send_door S network request) (\<lambda>answer.
          if an_response answer \<noteq> RespAccepted then throw (EE_Rejected (an_response answer))
          else ret \<lparr> et_dids = map so_did chunk, et_msgid = an_msgid answer,
               et_capture = \<lparr> cap_verb = send_verb_name (fst (chunk_payload chunk own)), cap_msgid = an_msgid answer,
                              cap_payload = chunk_json S chunk own, cap_direction = CaptureOut \<rparr> \<rparr>)) (f, m))"
    by (simp add: emit_group_def andThen_def engineCheck_def engineDo_def map_err_def q f s split: sum.split)
  have t: "t = Inr ()" using assms(1,2) run saved by (cases t) auto
  have "e' = f"
    using assms(1) run
    by (auto simp: t andThen_def engineGet_def engineStep_def engineDo_def send_door_def mapError_def orElse_def serverDo_def
        split: prod.splits outcome.splits sum.splits if_splits)
  moreover have "map_of (map (\<lambda>x. (sealed_key (en_network e) x, session_pickle (sv_store S) (so_session x) (st_key (en_state e)))) chunk)
      (sealed_key (en_network e) x) = Some (session_pickle (sv_store S) (so_session x) (st_key (en_state e)))" if "x \<in> set chunk" for x
  proof (rule map_of_is_SomeI)
    show "distinct (map fst (map (\<lambda>x. (sealed_key (en_network e) x, session_pickle (sv_store S) (so_session x) (st_key (en_state e)))) chunk))"
      using assms(5) by (simp add: comp_def)
  qed (use that in simp)
  ultimately show ?thesis using saved t assms(3-5) by simp
qed

text \<open>A server that records the requests, a body for the device \<open>F\<close> of the peer, and a store whose only
  JSON texts are those of the empty state and of the state with the session of that body.\<close>

definition toy_sealed :: "string Sealed" where
  "toy_sealed = \<lparr> so_nick = ''bob'', so_did = toy_did CHR ''F'', so_prekey = False, so_body = ''b'', so_session = ''s'' \<rparr>"

definition toy_saved :: StateData where
  "toy_saved = StateData_default\<lparr>sd_sessions := [(sealed_key ''net'' toy_sealed, ''ks'')]\<rparr>"

definition toy_send_env :: "(json, string, string, Request list, unit) send_env" where
  "toy_send_env = \<lparr>
     sv_engine = toy_engine_env\<lparr>ee_store := toy_store_env\<lparr>
       json_of := (\<lambda>data. if data = StateData_default then Some ''{}'' else if data = toy_saved then Some ''saved'' else None),
       of_json := (\<lambda>t. if t = ''{}'' then Some StateData_default else if t = ''saved'' then Some toy_saved else None)\<rparr>\<rparr>,
     sv_http = toy_http, sv_token = ''t'', sv_protocol = None, sv_inner_json = io_body, sv_copy_json = cu_body,
     sv_object_json = (\<lambda>t _ _ _. t), sv_payload_json = (\<lambda>_. ''p''), sv_curve = id, sv_sign = (\<lambda>a t. t),
     sv_has_received = (\<lambda>_. True), sv_outbound = (\<lambda>_ _ _ _. Some ''s''), sv_encrypt = (\<lambda>_ s t. Some (s @ ''+'', False, rev t)) \<rparr>"

definition toy_own_wire :: OwnWire where
  "toy_own_wire = \<lparr> ow_id = \<lparr> ib_curve25519 = [], ib_ed25519 = [], ib_sig = [] \<rparr>,
     ow_master = \<lparr> mr_ed25519 = [], mr_ver = 1, mr_cert = [] \<rparr>, ow_lv = 1 \<rparr>"

lemma toy_send_env_ok: "send_env_ok toy_send_env"
  using toy_store_env_ok
  by (auto simp: send_env_ok_def store_env_ok_def toy_send_env_def toy_engine_env_def toy_store_env_def toy_nonce_def NONCE_LEN_def
      toy_saved_def StateData_default_def split: if_splits)

lemma toy_state_saved: "state_saved toy_send_env (toy_engine StateData_default [])"
  using toy_start [of "[]"]
  by (simp add: state_saved_def toy_send_env_def toy_engine_env_def toy_engine_def toy_store_def in_sync_def bytes_hold_def toy_disk_def file_at_def)

lemma toy_group_reaches_server:
  assumes "is_ok (group_request S e nick [x] own priority)" "sv_http S = toy_http"
    and "is_ok (snd (stateDo (sv_engine S) (SetPeerSession (en_network e) (so_nick x) (so_did x) (so_session x)) e))"
  shows "snd (fst (emit_group S nick [x] own priority (e, []))) \<noteq> []"
proof -
  obtain request where q: "group_request S e nick [x] own priority = Inr request"
    using assms(1) by (cases "group_request S e nick [x] own priority") (auto simp: is_ok_def)
  obtain f where f: "stateDo (sv_engine S) (SetPeerSession (en_network e) (so_nick x) (so_did x) (so_session x)) e = (f, Inr ())"
    using assms(3) by (cases "stateDo (sv_engine S) (SetPeerSession (en_network e) (so_nick x) (so_did x) (so_session x)) e"; cases "snd (stateDo (sv_engine S) (SetPeerSession (en_network e) (so_nick x) (so_did x) (so_session x)) e)") (auto simp: is_ok_def)
  obtain g where saved: "save_sealed S x (e, []) = ((g, []), Value (Inr ()))"
    by (auto simp: save_sealed_def andThen_def mapError_def orElse_def engineDo_def engineSet_def engineStep_def f)
  have "fst (send_e2e_message toy_http [] token network request) \<noteq> []" for token network
    by (simp add: send_e2e_message_def toy_http_def checked_base_def)
  have sent: "snd (fst (send_door S network request (h, []))) \<noteq> []" for network h
  proof -
    obtain m q where m: "send_e2e_message toy_http [] (sv_token S) network request = (m, q)" by fastforce
    then have "m \<noteq> []" using \<open>\<And>token network. fst (send_e2e_message toy_http [] token network request) \<noteq> []\<close> by (metis fst_conv)
    then show ?thesis by (simp add: send_door_def mapError_def orElse_def serverDo_def assms(2) m split: outcome.split sum.split)
  qed
  show ?thesis
    using sent [of "en_network g" g]
    by (auto simp: emit_group_def andThen_def engineCheck_def engineGet_def engineStep_def engineDo_def map_err_def q saved
        split: prod.splits outcome.splits sum.splits)
qed

lemma toy_group:
  "is_ok (group_request toy_send_env (toy_engine StateData_default []) ''bob'' [toy_sealed] toy_own_wire Text)"
  by code_simp

lemma toy_save:
  "is_ok (snd (stateDo (sv_engine toy_send_env) (SetPeerSession ''net'' ''bob'' (so_did toy_sealed) ''s'') (toy_engine StateData_default [])))"
  by code_simp

theorem sessions_saved_before_sending_witness:
  "let e' = fst (fst (emit_group toy_send_env ''bob'' [toy_sealed] toy_own_wire Text (toy_engine StateData_default [], [])))
   in state_saved toy_send_env e' \<and> map_of (sd_sessions (st_data (en_state e'))) (sealed_key ''net'' toy_sealed) = Some ''ks''"
proof -
  let ?e = "toy_engine StateData_default []"
  obtain e' n' r where run: "emit_group toy_send_env ''bob'' [toy_sealed] toy_own_wire Text (?e, []) = ((e', n'), r)" by (metis surj_pair)
  have "snd (fst (emit_group toy_send_env ''bob'' [toy_sealed] toy_own_wire Text (?e, []))) \<noteq> []"
    using toy_save by (intro toy_group_reaches_server toy_group) (simp_all add: toy_send_env_def toy_engine_def toy_sealed_def)
  then have "n' \<noteq> []" by (simp add: run)
  moreover have "distinct (map (sealed_key (en_network ?e)) [toy_sealed])" by simp
  ultimately have "state_saved toy_send_env e' \<and>
      (\<forall>x \<in> set [toy_sealed]. map_of (sd_sessions (st_data (en_state e'))) (sealed_key (en_network ?e) x) =
         Some (session_pickle (sv_store toy_send_env) (so_session x) (st_key (en_state ?e))))"
    by (rule sessions_saved_before_sending [OF run _ toy_send_env_ok toy_state_saved])
  moreover have "en_network ?e = ''net''" by (simp add: toy_engine_def)
  moreover have "session_pickle (sv_store toy_send_env) (so_session toy_sealed) (st_key (en_state ?e)) = ''ks''" by code_simp
  ultimately show ?thesis by (simp add: run Let_def)
qed

text \<open>
  Claim C19. A text is planned as a whole. Either every body alone fits a request: then the plan has each
  body once, first the messages and then the first messages, in requests of one kind, of at most four
  bodies, within the byte limit and the limit of lines. Or one body does not fit: then nothing is sent,
  nothing changes and the call fails.
\<close>

theorem plan_is_all_or_nothing:
  "(case plan_requests S sealed own (en_own_did e) (map_option (\<lambda>base. frame_line_budget base nick) (en_frame_budget_base e)) of
      None \<Rightarrow>
        list_ex (\<lambda>x. \<not> request_fits S own (en_own_did e) (map_option (\<lambda>base. frame_line_budget base nick) (en_frame_budget_base e)) [x]) sealed \<and>
        emit S nick sealed own priority (e, n) = ((e, n), Value (Inl (EE_Wire PayloadTooLarge)))
    | Some plan \<Rightarrow>
        list_all (\<lambda>x. request_fits S own (en_own_did e) (map_option (\<lambda>base. frame_line_budget base nick) (en_frame_budget_base e)) [x]) sealed \<and>
        concat plan = filter (\<lambda>x. \<not> so_prekey x) sealed @ filter so_prekey sealed \<and>
        list_all (\<lambda>chunk. chunk \<noteq> [] \<and> length chunk \<le> 4 \<and> length (remdups (map so_prekey chunk)) = 1 \<and>
          length (chunk_json S chunk own) \<le> SEND_PAYLOAD_MAX_BYTES \<and> line_count (chunk_json S chunk own) \<le> 64) plan)"
proof -
  let ?budget = "map_option (\<lambda>base. frame_line_budget base nick) (en_frame_budget_base e)"
  note none = plan_requests_None [of S sealed own "en_own_did e" ?budget]
  show ?thesis
  proof (cases "plan_requests S sealed own (en_own_did e) ?budget")
    case None
    then show ?thesis
      using none by (auto simp: list_ex_iff emit_def andThen_def engineGet_def engineStep_def engineDo_def)
  next
    case (Some plan)
    have kinds: "length (remdups (map so_prekey chunk)) = 1" if ne: "chunk \<noteq> []" and kind: "\<exists>prekey. \<forall>s \<in> set chunk. so_prekey s = prekey"
      for chunk
    proof -
      obtain prekey where "\<forall>s \<in> set chunk. so_prekey s = prekey" using kind by blast
      then have "set (map so_prekey chunk) = {prekey}" using ne by (cases chunk) auto
      then show ?thesis by (metis card_1_singleton_iff length_remdups_card_conv One_nat_def)
    qed
    have "chunk \<noteq> [] \<and> length chunk \<le> 4 \<and> length (remdups (map so_prekey chunk)) = 1 \<and>
          length (chunk_json S chunk own) \<le> SEND_PAYLOAD_MAX_BYTES \<and> line_count (chunk_json S chunk own) \<le> 64"
      if "chunk \<in> set plan" for chunk
      using plan_requests_Some(1) [OF Some that] kinds [of chunk]
      by (auto simp: request_fits_def Let_def MAX_LIST_DEVICES_def SEND_PAYLOAD_MAX_LINES_def)
    then show ?thesis
      using none Some plan_requests_Some(2) [OF Some] by (auto simp: list_all_iff)
  qed
qed


text \<open>
  Claim C21. A master that the user replaced leaves no way to its devices. When the new master is a key, no
  device of the nick can be picked for a send any more, also when a write fails on the way; when it is
  not, nothing changes.
\<close>

theorem replaced_master_has_no_device:
  "case replace_peer_master (sv_engine S) nick master e of
     (e', Inl (EE_Device err)) \<Rightarrow> e' = e
   | (e', r) \<Rightarrow> pick_devices S nick e' = [] \<and> \<not> is_ready S nick e'"
proof -
  obtain trust r where t: "replace_master_by_user (ee_crypto (sv_engine S)) (en_trust e) (en_network e) nick master = (trust, r)" by fastforce
  define f where "f = forget_peer_devices (sv_engine S) nick e"
  obtain g s where g: "stateDo (sv_engine S) (RemovePeerSessions (en_network f)
      (\<lambda>session_nick. CaseMapping_fold (en_casemapping f) session_nick = CaseMapping_fold (en_casemapping f) nick)) f = (g, s)" by fastforce
  obtain h u where h: "stateDo (sv_engine S) (SetTrust trust) g = (h, u)" by fastforce
  have gone: "no_device nick g" "no_device nick h"
    using forgotten [of nick "sv_engine S" e] no_device_stateDo [OF g] no_device_stateDo [OF h] by (simp_all add: f_def)
  have ready: "\<not> is_ready S nick x" if "no_device nick x" for x
    using that by (auto simp: is_ready_def no_device_def list_ex_iff)
  show ?thesis
    using gone no_device_picks ready
    by (cases r; cases s; cases u) (auto simp: replace_peer_master_def t f_def [symmetric] g h Let_def map_err_def split: EngineError.split)
qed

text \<open>What a sync does to the own list.\<close>

lemma sync_own_list_cases:
  assumes "sync_own_list S (e, n) = ((e', n'), r)"
  shows "(r = Value (Inr True) \<and>
       (\<exists>old new master. own_list (sv_crypto S) (en_state e) = Some (old, master) \<and> own_list (sv_crypto S) (en_state e') = Some (new, master) \<and>
          sl_version old < sl_version new \<and> en_own_ed25519 e \<in> set (sl_keys new) \<and>
          verify_signed_list (sv_crypto S) (sl_version new) (sl_keys new) master (sl_signature new) = Inr ()))
     \<or> (r \<noteq> Value (Inr True) \<and> en_state e' = en_state e)"
proof (cases "own_list (sv_crypto S) (en_state e)")
  case None
  then show ?thesis using assms by (auto simp: sync_own_list_def andThen_def engineCheck_def engineDo_def ok_or_def)
next
  case (Some p)
  obtain old master where p: "p = (old, master)" by fastforce
  obtain m q where m: "fetch_e2e_list (sv_crypto S) (sv_http S) n (sv_token S) (en_network e) (sv_protocol S) = (m, q)" by fastforce
  have cert: "\<exists>certificate. sd_device_certificate (st_data (en_state e)) = Some certificate \<and> vc_master_ed25519 certificate = master"
    using Some p by (auto simp: own_list_def bind_eq_Some_conv split: if_splits)
  show ?thesis
  proof (cases "\<exists>held. q = Value (Inr held) \<and> hl_master held = master \<and>
      verify_signed_list (sv_crypto S) (sl_version (hl_list held)) (sl_keys (hl_list held)) master (sl_signature (hl_list held)) = Inr () \<and>
      \<not> (sl_version (hl_list held) \<le> sl_version old \<or> en_own_ed25519 e \<notin> set (sl_keys (hl_list held)))")
    case True
    then obtain held where held: "q = Value (Inr held)" "hl_master held = master"
      "verify_signed_list (sv_crypto S) (sl_version (hl_list held)) (sl_keys (hl_list held)) master (sl_signature (hl_list held)) = Inr ()"
      "sl_version old < sl_version (hl_list held)" "en_own_ed25519 e \<in> set (sl_keys (hl_list held))" by auto
    obtain f s where f: "stateDo (sv_engine S) (SetSignedList (hl_list held)) e = (f, s)" by fastforce
    have run: "e' = f" "r = Value (map_sum EE_Store (\<lambda>_. True) s)"
      using assms held
      by (cases s; auto simp: sync_own_list_def andThen_def engineCheck_def engineGet_def engineStep_def engineDo_def ok_or_def Some p m
          mapError_def orElse_def serverDo_def map_err_def f)+
    from stateDo_state [OF f] show ?thesis
    proof
      assume ok: "s = Inr () \<and> en_state f = changed (sv_store S) (en_state e) (SetSignedList (hl_list held))"
      then have "own_list (sv_crypto S) (en_state e') = Some (hl_list held, master)"
        using cert held(3) by (auto simp: run(1) changed_def change_signed_list_def own_list_def is_ok_def)
      then show ?thesis using ok run(2) held Some p by auto
    next
      assume "(\<exists>err. s = Inl err) \<and> en_state f = en_state e"
      then show ?thesis using run by auto
    qed
  next
    case False
    then show ?thesis
      using assms
      by (cases q)
         (auto simp: sync_own_list_def andThen_def engineCheck_def engineGet_def engineStep_def engineDo_def ok_or_def Some p m
          mapError_def orElse_def serverDo_def map_err_def split: sum.splits if_splits)
  qed
qed

text \<open>
  Claim C22. The own list only moves forward. A sync that takes the list of the server takes one that the
  same master signed, with a higher version and with this device in it; then it is the own list of the
  engine. Every other result leaves the sealed state as it was.
\<close>

theorem own_list_moves_forward:
  "case sync_own_list S (e, n) of
     ((e', _), Value (Inr True)) \<Rightarrow>
       (\<exists>old new master. own_list (sv_crypto S) (en_state e) = Some (old, master) \<and> own_list (sv_crypto S) (en_state e') = Some (new, master) \<and>
          sl_version old < sl_version new \<and> en_own_ed25519 e \<in> set (sl_keys new) \<and>
          verify_signed_list (sv_crypto S) (sl_version new) (sl_keys new) master (sl_signature new) = Inr ())
   | ((e', _), _) \<Rightarrow> en_state e' = en_state e"
proof -
  obtain e' n' r where run: "sync_own_list S (e, n) = ((e', n'), r)" by (metis surj_pair)
  show ?thesis using sync_own_list_cases [OF run] by (auto simp: run split: outcome.split sum.split bool.split)
qed

end
