(* ===== verification/Revoke.thy ===== *)
theory Revoke
  imports Provision
begin

text \<open>
  The revoke of an own device and the reset of the own identity, from \<^verbatim>\<open>e2e_revoke.rs\<close>. The steps run over
  the world of theory Effects; \<open>own_nick\<close> is the nick under which the own devices are stored as peers.
\<close>

section \<open>Results\<close>

datatype 'h RevokeError =
  RV_Store E2eStoreError | RV_Route "'h E2eRouteError" | RV_Wire WireError | RV_Crypto E2eError
| RV_NeedsMaster | RV_NoList | RV_UnknownDevice | RV_OwnDevice | RV_OtherPending | RV_ResetPending
| RV_MasterMismatch | RV_EmptyList

record Revoked =
  rk_did :: string
  rk_list_version :: nat

definition rvStore ::
    "('a, 's, 'n, 'h, 'v, 'x) step_env_scheme \<Rightarrow> ('a, 's) StoreOp \<Rightarrow> (('n, 'y) world_scheme, 'h RevokeError, unit) act" where
  "rvStore E x = mapError RV_Store (storeDo E x)"

definition rvNet ::
    "('n \<Rightarrow> 'n \<times> ('h E2eRouteError + 'r) outcome) \<Rightarrow> (('n, 'y) world_scheme, 'h RevokeError, 'r) act" where
  "rvNet f = mapError RV_Route (netDo f)"

definition check_routes ::
    "('a, 's, 'n, 'h, 'v, 'x) step_env_scheme \<Rightarrow> E2eOperation list \<Rightarrow> (('n, 'y) world_scheme, 'h RevokeError, unit) act" where
  "check_routes E operations =
     (if list_ex (\<lambda>x. \<not> E2eOperation_available x (se_protocol E)) operations then throw (RV_Route Unavailable) else ret ())"

text \<open>The master key of the store, as an account.\<close>

definition stored_master ::
    "('a, 's, 'n, 'h, 'v, 'x) step_env_scheme \<Rightarrow> (('n, 'y) world_scheme, 'h RevokeError, 'a) act" where
  "stored_master E =
     andThen (mapError RV_Store (storeRead (master_key (se_store E)))) (\<lambda>master. fromResult (ok_or master RV_NeedsMaster))"

definition master_text :: "('a, 's, 'n, 'h, 'v, 'x) step_env_scheme \<Rightarrow> 'a \<Rightarrow> string" where
  "master_text E master = acc_ed25519 (ac_identity (se_keys E) master)"

definition own_signed_list :: "(('n, 'y) world_scheme, 'h RevokeError, SignedList) act" where
  "own_signed_list = andThen (stored sd_signed_list) (\<lambda>l. fromResult (ok_or l RV_NoList))"

section \<open>Publishing\<close>

text \<open>A call that may find nothing on the server: a missing thing counts as done.\<close>

definition dropping :: "('w, 'h E2eRouteError, unit) act \<Rightarrow> ('w, 'h RevokeError, unit) act" where
  "dropping m = orElse m (\<lambda>err. case err of Refused R_NotFound _ \<Rightarrow> ret () | _ \<Rightarrow> throw (RV_Route err))"

text \<open>A stale answer: the held list, signed again above both without any revoked key. The result tells
  whether the list is settled.\<close>

definition resign_list ::
    "('a, 's, 'n, 'h, 'v, 'x) step_env_scheme \<Rightarrow> 'a \<Rightarrow> SignedList \<Rightarrow> (('n, 'y) world_scheme, 'h RevokeError, bool) act" where
  "resign_list E master l =
     andThen (rvNet (\<lambda>n. fetch_e2e_list (se_crypto E) (se_http E) n (se_token E) (se_network_id E) (se_protocol E))) (\<lambda>held.
     if hl_master held \<noteq> master_text E master then throw RV_MasterMismatch
     else
       andThen (fromResult (map_err RV_Crypto (verify_signed_list (se_crypto E) (sl_version (hl_list held)) (sl_keys (hl_list held))
                                                 (master_text E master) (sl_signature (hl_list held))))) (\<lambda>_.
       andThen (stored sd_own_revoked) (\<lambda>revoked.
       let keys = filter (\<lambda>key. key \<notin> set revoked) (sl_keys (hl_list held)) in
       if keys = [] then throw RV_EmptyList
       else if keys = sl_keys (hl_list held) \<and> sl_version (hl_list held) \<ge> sl_version l then
         andThen (rvStore E (SetSignedList (hl_list held))) (\<lambda>_.
         andThen (rvStore E ClearListPending) (\<lambda>_. ret True))
       else
         andThen (fromResult (map_err RV_Crypto (sign_list (se_crypto E) (ac_identity (se_keys E) master)
                                                   (max (sl_version (hl_list held)) (sl_version l) + 1) keys))) (\<lambda>next.
         andThen (rvStore E (SetSignedListPending next)) (\<lambda>_. ret False)))))"

fun publish_loop ::
    "('a, 's, 'n, 'h, 'v, 'x) step_env_scheme \<Rightarrow> 'a \<Rightarrow> nat \<Rightarrow> (('n, 'y) world_scheme, 'h RevokeError, unit) act" where
  "publish_loop E master 0 = throw (RV_Route (Refused R_StaleList None))"
| "publish_loop E master (Suc k) =
     andThen own_signed_list (\<lambda>l.
     andThen (fromResult (map_err RV_Wire (ListRequest_new (se_crypto E) (master_text E master) l))) (\<lambda>request.
     andThen (orElse
         (andThen (netDo (\<lambda>n. put_e2e_list (se_crypto E) (se_http E) n (se_token E) (se_network_id E) (se_protocol E) request))
            (\<lambda>_. ret True))
         (\<lambda>err. case err of Refused R_StaleList _ \<Rightarrow> ret False | _ \<Rightarrow> throw (RV_Route err))) (\<lambda>taken.
     if taken then rvStore E ClearListPending
     else andThen (resign_list E master l) (\<lambda>settled. if settled then ret () else publish_loop E master k))))"

definition publish_list ::
    "('a, 's, 'n, 'h, 'v, 'x) step_env_scheme \<Rightarrow> (('n, 'y) world_scheme, 'h RevokeError, unit) act" where
  "publish_list E = andThen (stored_master E) (\<lambda>master. publish_loop E master 2)"

section \<open>Revoking\<close>

definition stop_routing ::
    "('a, 's, 'n, 'h, 'v, 'x) step_env_scheme \<Rightarrow> string \<Rightarrow> PendingRevoke \<Rightarrow> (('n, 'y) world_scheme, 'h RevokeError, unit) act" where
  "stop_routing E own_nick pending =
     andThen (stored_master E) (\<lambda>master.
     andThen (stored sd_trust) (\<lambda>trust.
     case Trust.revoke_device (se_crypto E) trust (se_network_id E) own_nick (master_text E master) (rev_ed25519 pending) of
       (trust, Inl err) \<Rightarrow> throw (RV_Crypto err)
     | (trust, Inr _) \<Rightarrow>
         andThen (rvStore E (SetTrust trust)) (\<lambda>_.
           rvStore E (RemovePeerSession (se_network_id E) own_nick (rev_did pending)))))"

definition finish_revoke ::
    "('a, 's, 'n, 'h, 'v, 'x) step_env_scheme \<Rightarrow> string \<Rightarrow> PendingRevoke \<Rightarrow> (('n, 'y) world_scheme, 'h RevokeError, Revoked) act" where
  "finish_revoke E own_nick pending =
     andThen (stop_routing E own_nick pending) (\<lambda>_.
     andThen (stored sd_list_pending) (\<lambda>list_pending.
     andThen (whenever list_pending (publish_list E)) (\<lambda>_.
     andThen (dropping (netDo (\<lambda>n. drop_e2e_device (se_crypto E) (se_http E) n (se_token E) (se_network_id E) (rev_did pending) (se_protocol E)))) (\<lambda>_.
     andThen (rvStore E ClearPendingRevoke) (\<lambda>_.
     andThen own_signed_list (\<lambda>l. ret \<lparr> rk_did = rev_did pending, rk_list_version = sl_version l \<rparr>))))))"

text \<open>A new revoke: the list without the device is signed and stored with the pending revoke in one write.\<close>

definition begin_revoke ::
    "('a, 's, 'n, 'h, 'v, 'x) step_env_scheme \<Rightarrow> string \<Rightarrow> string \<Rightarrow> (('n, 'y) world_scheme, 'h RevokeError, Revoked) act" where
  "begin_revoke E own_nick did =
     andThen (stored_master E) (\<lambda>master.
     andThen own_signed_list (\<lambda>l.
     andThen (fromResult (ok_or (List.find (\<lambda>key. did_from_key_text (se_crypto E) key = Inr did) (sl_keys l)) RV_UnknownDevice)) (\<lambda>target.
     andThen (mapError RV_Store (storeRead (device_key (se_store E)))) (\<lambda>own.
     if own = Some target then throw RV_OwnDevice
     else
       let keys = filter (\<lambda>key. key \<noteq> target) (sl_keys l) in
       if keys = [] then throw RV_EmptyList
       else
         andThen (fromResult (map_err RV_Crypto (sign_list (se_crypto E) (ac_identity (se_keys E) master) (sl_version l + 1) keys))) (\<lambda>next.
         let pending = \<lparr> rev_ed25519 = target, rev_did = did \<rparr> in
         andThen (rvStore E (BeginRevoke pending next)) (\<lambda>_. finish_revoke E own_nick pending))))))"

definition revoke_own_device ::
    "('a, 's, 'n, 'h, 'v, 'x) step_env_scheme \<Rightarrow> string \<Rightarrow> string \<Rightarrow> (('n, 'y) world_scheme, 'h RevokeError, Revoked) act" where
  "revoke_own_device E own_nick did =
     andThen (check_routes E [DeviceDrop, ListPut, ListFetch]) (\<lambda>_.
     andThen (stored sd_reset_pending) (\<lambda>reset_pending.
     if reset_pending then throw RV_ResetPending
     else
       andThen (stored sd_pending_revoke) (\<lambda>found.
       case found of
         Some pending \<Rightarrow>
           if rev_did pending \<noteq> did then throw RV_OtherPending else finish_revoke E own_nick pending
       | None \<Rightarrow> begin_revoke E own_nick did)))"

definition finish_pending_revoke ::
    "('a, 's, 'n, 'h, 'v, 'x) step_env_scheme \<Rightarrow> string \<Rightarrow> (('n, 'y) world_scheme, 'h RevokeError, Revoked option) act" where
  "finish_pending_revoke E own_nick =
     andThen (stored sd_pending_revoke) (\<lambda>found.
       case found of
         Some pending \<Rightarrow> andThen (finish_revoke E own_nick pending) (\<lambda>done_it. ret (Some done_it))
       | None \<Rightarrow> ret None)"

section \<open>Resetting\<close>

definition complete_reset ::
    "('a, 's, 'n, 'h, 'v, 'x) step_env_scheme \<Rightarrow> string \<Rightarrow> (('n, 'y) world_scheme, 'h RevokeError, unit) act" where
  "complete_reset E own_nick =
     andThen (dropping (netDo (\<lambda>n. delete_e2e_identity (se_crypto E) (se_http E) n (se_token E) (se_network_id E) (se_protocol E)))) (\<lambda>_.
       rvStore E (FinishReset (se_network_id E) own_nick))"

definition reset_identity ::
    "('a, 's, 'n, 'h, 'v, 'x) step_env_scheme \<Rightarrow> string \<Rightarrow> (('n, 'y) world_scheme, 'h RevokeError, unit) act" where
  "reset_identity E own_nick =
     andThen (check_routes E [IdentityDelete]) (\<lambda>_.
     andThen (rvStore E BeginReset) (\<lambda>_. complete_reset E own_nick))"

definition resume_reset ::
    "('a, 's, 'n, 'h, 'v, 'x) step_env_scheme \<Rightarrow> string \<Rightarrow> (('n, 'y) world_scheme, 'h RevokeError, bool) act" where
  "resume_reset E own_nick =
     andThen (stored sd_reset_pending) (\<lambda>reset_pending.
       if \<not> reset_pending then ret False
       else
         andThen (check_routes E [IdentityDelete]) (\<lambda>_.
         andThen (complete_reset E own_nick) (\<lambda>_. ret True)))"

section \<open>Lemmas\<close>

text \<open>What a revoke never does: a key it revoked is not forgotten and not in the own list, and the master,
  the account and the certificate stay.\<close>

definition no_revoked_listed :: "StateData \<Rightarrow> bool" where
  "no_revoked_listed data \<longleftrightarrow>
     (case sd_signed_list data of None \<Rightarrow> True | Some l \<Rightarrow> set (sl_keys l) \<inter> set (sd_own_revoked data) = {})"

definition revoke_kept :: "StateData \<Rightarrow> StateData \<Rightarrow> bool" where
  "revoke_kept data data' \<longleftrightarrow>
     set (sd_own_revoked data) \<subseteq> set (sd_own_revoked data') \<and> (no_revoked_listed data \<longrightarrow> no_revoked_listed data') \<and>
     sd_account data' = sd_account data \<and> sd_master data' = sd_master data \<and>
     sd_device_certificate data' = sd_device_certificate data"

definition world_kept :: "('n, 'y) world_scheme \<Rightarrow> ('n, 'y) world_scheme \<Rightarrow> bool" where
  "world_kept w v \<longleftrightarrow> revoke_kept (st_data (wo_store w)) (st_data (wo_store v))"

interpretation revoking: world_order world_kept
  by unfold_locales (auto simp: world_kept_def revoke_kept_def)

abbreviation "sees w \<equiv> st_data (wo_store w)"

lemma revoke_kept_refl: "revoke_kept data data"
  by (simp add: revoke_kept_def)

lemma storeDo_kept:
  assumes "\<And>key data data'. store_change (se_store E) key x data = Some data' \<Longrightarrow> revoke_kept data data'"
  shows "world_kept w (fst (storeDo E x w))"
proof -
  obtain d s r where st: "store_step (se_store E) (wo_disk w) (se_nonce E (wo_draws w)) (wo_store w) x = (d, s, r)"
    by (metis prod_cases3)
  have "revoke_kept (sees w) (st_data (changed (se_store E) (wo_store w) x))"
    using assms by (simp add: changed_def revoke_kept_refl split: option.split)
  with store_step_memory [OF st] show ?thesis
    by (auto simp: world_kept_def storeDo_def st revoke_kept_refl)
qed

lemma store_kept:
  assumes "\<And>key data data'. store_change (se_store E) key x data = Some data' \<Longrightarrow> revoke_kept data data'"
  shows "keeps world_kept (rvStore E x)"
  unfolding rvStore_def by (rule revoking.keeps_mapError) (simp add: keeps_def storeDo_kept assms)

lemma simple_writes_kept:
  "keeps world_kept (rvStore E ClearListPending)" "keeps world_kept (rvStore E ClearPendingRevoke)"
  "keeps world_kept (rvStore E (SetTrust t))" "keeps world_kept (rvStore E (RemovePeerSession n k did))"
  "keeps world_kept (rvStore E BeginReset)"
  by (rule store_kept; auto simp: revoke_kept_def no_revoked_listed_def change_clear_list_pending_def change_clear_pending_revoke_def
      change_trust_def change_remove_session_def change_begin_reset_def split: if_splits option.split)+

lemma netDo_kept: "keeps world_kept (netDo f)"
  by (auto simp: keeps_def netDo_def world_kept_def revoke_kept_refl split: prod.split)

lemma rvNet_kept: "keeps world_kept (rvNet f)"
  unfolding rvNet_def by (rule revoking.keeps_mapError) (rule netDo_kept)

lemmas net_kept = netDo_kept rvNet_kept

text \<open>Writes of a list: the list was made in the world it is written to.\<close>

lemma sign_list_keys: "sign_list C master version keys = Inr l \<Longrightarrow> set (sl_keys l) = set keys"
  by (auto simp: sign_list_def rbind_eq_Inr)

lemma runs_write:
  assumes "\<And>key data. store_change (se_store E) key x (sees w) = Some data \<Longrightarrow> revoke_kept (sees w) data"
    and "\<And>v. world_kept w v \<Longrightarrow> Q () v"
  shows "runs (rvStore E x) w Q (world_kept w)"
  unfolding rvStore_def runs_simps
proof (rule runs_storeDo)
  fix d n
  show "world_kept w (w\<lparr>wo_disk := d, wo_draws := n\<rparr>)" by (simp add: world_kept_def revoke_kept_def)
  show "Q () (w\<lparr>wo_disk := d, wo_store := changed (se_store E) (wo_store w) x, wo_draws := n\<rparr>)"
    using assms(1) by (intro assms(2)) (auto simp: world_kept_def changed_def revoke_kept_def split: option.split)
qed

lemma runs_kept: "keeps world_kept m \<Longrightarrow> world_kept w v \<Longrightarrow> (\<And>x u. world_kept w u \<Longrightarrow> Q x u) \<Longrightarrow> runs m v Q (world_kept w)"
  unfolding keeps_iff_runs by (erule allE [of _ v], erule runs_mono) (blast intro: revoking.trans)+

lemma resign_list_kept: "keeps world_kept (resign_list E master l)"
  unfolding keeps_iff_runs
proof
  fix w
  have start: "runs (andThen (stored sd_own_revoked) (\<lambda>revoked.
       let keys = filter (\<lambda>key. key \<notin> set revoked) (sl_keys (hl_list held)) in
       if keys = [] then throw RV_EmptyList
       else if keys = sl_keys (hl_list held) \<and> sl_version (hl_list held) \<ge> sl_version l then
         andThen (rvStore E (SetSignedList (hl_list held))) (\<lambda>_.
         andThen (rvStore E ClearListPending) (\<lambda>_. ret True))
       else
         andThen (fromResult (map_err RV_Crypto (sign_list (se_crypto E) (ac_identity (se_keys E) master)
                                                   (max (sl_version (hl_list held)) (sl_version l) + 1) keys))) (\<lambda>next.
         andThen (rvStore E (SetSignedListPending next)) (\<lambda>_. ret False)))) v (\<lambda>_. world_kept v) (world_kept v)" for held v
  proof -
    let ?keys = "filter (\<lambda>key. key \<notin> set (sd_own_revoked (sees v))) (sl_keys (hl_list held))"
    have clean: "set ?keys \<inter> set (sd_own_revoked (sees v)) = {}" by auto
    have same: "runs (andThen (rvStore E (SetSignedList (hl_list held))) (\<lambda>_. andThen (rvStore E ClearListPending) (\<lambda>_. ret True))) v
        (\<lambda>_. world_kept v) (world_kept v)" if "?keys = sl_keys (hl_list held)"
      unfolding runs_simps
      by (rule runs_write)
         (use that clean in \<open>auto simp: revoke_kept_def no_revoked_listed_def change_signed_list_def intro!: runs_kept simple_writes_kept\<close>)
    have next_list: "runs (andThen (rvStore E (SetSignedListPending next)) (\<lambda>_. ret False)) v (\<lambda>_. world_kept v) (world_kept v)"
      if "sign_list C a version ?keys = Inr next" for C a version "next"
      unfolding runs_simps
      by (rule runs_write)
         (use sign_list_keys [OF that] clean in \<open>auto simp: revoke_kept_def no_revoked_listed_def change_signed_list_pending_def revoking.refl split: option.split\<close>)
    show ?thesis
      using same next_list by (auto simp: Let_def map_err_def revoking.refl split: sum.split)
  qed
  show "runs (resign_list E master l) w (\<lambda>_. world_kept w) (world_kept w)"
    unfolding resign_list_def rvNet_def runs_simps
  proof (rule runs_netDo)
    fix n r
    have net: "world_kept w (w\<lparr>wo_net := n\<rparr>)" by (simp add: world_kept_def revoke_kept_def)
    have same: "world_kept (w\<lparr>wo_net := n\<rparr>) = world_kept w" by (simp add: world_kept_def fun_eq_iff)
    show "case r of Value (Inr held) \<Rightarrow> runs (if hl_master held \<noteq> master_text E master then throw RV_MasterMismatch
     else
       andThen (fromResult (map_err RV_Crypto (verify_signed_list (se_crypto E) (sl_version (hl_list held)) (sl_keys (hl_list held))
                                                 (master_text E master) (sl_signature (hl_list held))))) (\<lambda>_.
       andThen (stored sd_own_revoked) (\<lambda>revoked.
       let keys = filter (\<lambda>key. key \<notin> set revoked) (sl_keys (hl_list held)) in
       if keys = [] then throw RV_EmptyList
       else if keys = sl_keys (hl_list held) \<and> sl_version (hl_list held) \<ge> sl_version l then
         andThen (rvStore E (SetSignedList (hl_list held))) (\<lambda>_.
         andThen (rvStore E ClearListPending) (\<lambda>_. ret True))
       else
         andThen (fromResult (map_err RV_Crypto (sign_list (se_crypto E) (ac_identity (se_keys E) master)
                                                   (max (sl_version (hl_list held)) (sl_version l) + 1) keys))) (\<lambda>next.
         andThen (rvStore E (SetSignedListPending next)) (\<lambda>_. ret False))))) (w\<lparr>wo_net := n\<rparr>) (\<lambda>_. world_kept w) (world_kept w)
      | _ \<Rightarrow> world_kept w (w\<lparr>wo_net := n\<rparr>)"
      using net start [of _ "w\<lparr>wo_net := n\<rparr>"] unfolding same
      by (cases r) (auto simp: map_err_def simp del: runs_world_simps split: sum.split)
  qed
qed

lemma own_reads_kept: "keeps world_kept own_signed_list" "keeps world_kept (stored_master E)"
  unfolding own_signed_list_def stored_master_def
  by (intro revoking.keeps_andThen revoking.keeps_ret keeps_reads [OF revoking.world_order_axioms] revoking.keeps_mapError)+

lemma publish_list_kept: "keeps world_kept (publish_list E)"
proof -
  have "keeps world_kept (publish_loop E master k)" for master k
  proof (induction k)
    case 0
    show ?case unfolding publish_loop.simps by (rule revoking.keeps_ret)
  next
    case (Suc k)
    have put: "keeps world_kept (orElse (andThen (netDo f) (\<lambda>_. ret True))
         (\<lambda>err. case err of Refused R_StaleList _ \<Rightarrow> ret False | _ \<Rightarrow> throw (RV_Route err)))" for f
      by (intro revoking.keeps_orElse revoking.keeps_andThen net_kept)
         (auto simp: revoking.keeps_ret simp del: ret_apply split: E2eRouteError.split E2eRefusal.split)
    show ?case
      unfolding publish_loop.simps
      by (intro revoking.keeps_andThen own_reads_kept revoking.keeps_ret put keeps_branches simple_writes_kept resign_list_kept Suc.IH)
  qed
  then show ?thesis unfolding publish_list_def by (intro revoking.keeps_andThen own_reads_kept)
qed

lemma dropping_kept: "keeps world_kept (dropping (netDo f))"
  unfolding dropping_def
  by (intro revoking.keeps_orElse net_kept)
     (auto simp: revoking.keeps_ret simp del: ret_apply split: E2eRouteError.split E2eRefusal.split)

lemma finish_revoke_kept: "keeps world_kept (finish_revoke E own_nick pending)"
proof -
  have "keeps world_kept (stop_routing E own_nick pending)"
    unfolding stop_routing_def
    by (intro revoking.keeps_andThen own_reads_kept keeps_reads [OF revoking.world_order_axioms] keeps_branches revoking.keeps_ret simple_writes_kept)
  then show ?thesis
    unfolding finish_revoke_def
    by (intro revoking.keeps_andThen revoking.keeps_whenever keeps_reads [OF revoking.world_order_axioms] publish_list_kept dropping_kept
        simple_writes_kept own_reads_kept revoking.keeps_ret)
qed

lemma runs_reads:
  "runs own_signed_list w Q Z = (case sd_signed_list (sees w) of None \<Rightarrow> Z w | Some l \<Rightarrow> Q l w)"
  "runs (stored_master E) w Q' Z =
     (case master_key (se_store E) (wo_store w) of Inl _ \<Rightarrow> Z w | Inr None \<Rightarrow> Z w | Inr (Some master) \<Rightarrow> Q' master w)"
  by (auto simp: own_signed_list_def stored_master_def ok_or_def split: option.split sum.split)

lemma begin_revoke_change_kept:
  assumes "sd_signed_list data = Some l" "set (sl_keys l') = set (sl_keys l) - {target}"
  shows "revoke_kept data (change_begin_revoke \<lparr> rev_ed25519 = target, rev_did = did \<rparr> l' data)"
  using assms by (auto simp: revoke_kept_def no_revoked_listed_def change_begin_revoke_def Let_def split: if_splits)

lemma begin_revoke_kept: "keeps world_kept (begin_revoke E own_nick did)"
  unfolding keeps_iff_runs
proof
  fix w
  have written: "runs (rvStore E (BeginRevoke \<lparr> rev_ed25519 = target, rev_did = did \<rparr> l')) w
      (\<lambda>_ v. runs (finish_revoke E own_nick pending) v (\<lambda>_. world_kept w) (world_kept w)) (world_kept w)"
    if "sd_signed_list (sees w) = Some l" "sign_list C a version (filter (\<lambda>key. key \<noteq> target) (sl_keys l)) = Inr l'" for l l' target pending C a version
  proof (rule runs_write)
    have "set (sl_keys l') = set (sl_keys l) - {target}" using sign_list_keys [OF that(2)] by auto
    then have "revoke_kept (sees w) (change_begin_revoke \<lparr> rev_ed25519 = target, rev_did = did \<rparr> l' (sees w))"
      by (rule begin_revoke_change_kept [OF that(1)])
    then show "revoke_kept (sees w) data"
      if "store_change (se_store E) key (BeginRevoke \<lparr> rev_ed25519 = target, rev_did = did \<rparr> l') (sees w) = Some data" for key data
      using that by simp
  qed (rule runs_kept [OF finish_revoke_kept])
  show "runs (begin_revoke E own_nick did) w (\<lambda>_. world_kept w) (world_kept w)"
    unfolding begin_revoke_def Let_def
    by (auto simp: runs_reads ok_or_def map_err_def revoking.refl intro!: written split: option.split sum.split)
qed

lemma revoke_own_device_kept: "keeps world_kept (revoke_own_device E own_nick did)"
  unfolding revoke_own_device_def check_routes_def
  by (intro revoking.keeps_andThen keeps_branches revoking.keeps_ret keeps_reads [OF revoking.world_order_axioms] finish_revoke_kept begin_revoke_kept)

lemma finish_pending_revoke_kept: "keeps world_kept (finish_pending_revoke E own_nick)"
  unfolding finish_pending_revoke_def
  by (intro revoking.keeps_andThen keeps_branches revoking.keeps_ret keeps_reads [OF revoking.world_order_axioms] finish_revoke_kept)

end
