(* ===== verification/Revoke_Claims.thy ===== *)
theory Revoke_Claims
  imports Revoke Provision_Facts
begin

text \<open>The promises of a revoke and of a reset, over the lemmas of theory Revoke.\<close>

section \<open>Runs\<close>

datatype RevokeOp = DoRevoke string | DoFinishRevoke

fun after_revoke ::
    "('a, 's, 'n, 'h, 'v, 'x) step_env_scheme \<Rightarrow> string \<Rightarrow> ('n, 'y) world_scheme \<Rightarrow> RevokeOp \<Rightarrow> ('n, 'y) world_scheme" where
  "after_revoke E own_nick w (DoRevoke did) = fst (revoke_own_device E own_nick did w)"
| "after_revoke E own_nick w DoFinishRevoke = fst (finish_pending_revoke E own_nick w)"

lemma after_revoke_kept: "world_kept w (after_revoke E own_nick w x)"
  using revoke_own_device_kept [unfolded keeps_def, rule_format] finish_pending_revoke_kept [unfolded keeps_def, rule_format]
  by (cases x; simp only: after_revoke.simps)

lemma revokes_kept: "world_kept w (foldl (after_revoke E own_nick) w xs)"
proof (induction xs rule: rev_induct)
  case (snoc x xs)
  from revoking.trans [OF snoc after_revoke_kept] show ?case by simp
qed (simp add: revoking.refl)

section \<open>Properties\<close>

text \<open>
  Claim C25. A revoked own device never comes back. Whatever revokes are started, refused, interrupted and
  finished again, and whatever lists the server answers with, a key that was revoked stays revoked and
  the own list never names a revoked key; the account, the master key and the certificate of this device
  stay.
\<close>

theorem revoked_own_devices_stay_out:
  assumes "no_revoked_listed (st_data (wo_store w))" and "foldl (after_revoke E own_nick) w xs = v"
  shows "no_revoked_listed (st_data (wo_store v)) \<and>
     set (sd_own_revoked (st_data (wo_store w))) \<subseteq> set (sd_own_revoked (st_data (wo_store v))) \<and>
     sd_account (st_data (wo_store v)) = sd_account (st_data (wo_store w)) \<and>
     sd_master (st_data (wo_store v)) = sd_master (st_data (wo_store w)) \<and>
     sd_device_certificate (st_data (wo_store v)) = sd_device_certificate (st_data (wo_store w))"
  using revokes_kept [of w E own_nick xs] assms by (simp add: world_kept_def revoke_kept_def)

definition toy_revoking :: "Request list world" where
  "toy_revoking = toy_owned_world\<lparr>wo_store := toy_store\<lparr>st_data := StateData_default\<lparr>
     sd_signed_list := Some \<lparr> sl_version = 2, sl_keys = [''a''], sl_signature = [] \<rparr>, sd_own_revoked := [''b''],
     sd_pending_revoke := Some \<lparr> rev_ed25519 = ''b'', rev_did = ''d'' \<rparr>\<rparr>\<rparr>\<rparr>"

theorem revoked_own_devices_stay_out_witness:
  "let v = foldl (after_revoke toy_step_env ''me'') toy_revoking [DoFinishRevoke, DoRevoke ''d'']
   in no_revoked_listed (st_data (wo_store v)) \<and> ''b'' \<in> set (sd_own_revoked (st_data (wo_store v)))"
proof -
  have start: "no_revoked_listed (st_data (wo_store toy_revoking))" "''b'' \<in> set (sd_own_revoked (st_data (wo_store toy_revoking)))"
    by (simp_all add: toy_revoking_def toy_store_def no_revoked_listed_def)
  show ?thesis
    using revoked_own_devices_stay_out [OF start(1) refl, of toy_step_env "''me''" "[DoFinishRevoke, DoRevoke ''d'']"] start(2)
    unfolding Let_def by blast
qed

text \<open>
  Claim C26. A reset takes the private state away only after the server dropped the identity or did not know
  it. Then the account and the master key are gone and the own master is released, which keeps the
  revocations of the peers; every other end leaves the state as it was, so a retry finishes the reset.
\<close>

theorem reset_waits_for_the_server:
  "case complete_reset E own_nick w of
     (v, Value (Inr _)) \<Rightarrow>
       sd_account (st_data (wo_store v)) = None \<and> sd_master (st_data (wo_store v)) = None \<and>
       sd_trust (st_data (wo_store v)) = release_master (sd_trust (st_data (wo_store w))) (se_network_id E) own_nick \<and>
       (case snd (delete_e2e_identity (se_crypto E) (se_http E) (wo_net w) (se_token E) (se_network_id E) (se_protocol E)) of
          Value (Inr _) \<Rightarrow> True
        | Value (Inl (Refused R_NotFound _)) \<Rightarrow> True
        | _ \<Rightarrow> False)
   | (v, _) \<Rightarrow> st_data (wo_store v) = st_data (wo_store w)"
proof -
  obtain n r where net: "delete_e2e_identity (se_crypto E) (se_http E) (wo_net w) (se_token E) (se_network_id E) (se_protocol E) = (n, r)"
    by fastforce
  let ?x = "FinishReset (se_network_id E) own_nick"
  obtain d s q where st: "store_step (se_store E) (wo_disk w) (se_nonce E (wo_draws w)) (wo_store w) ?x = (d, s, q)"
    by (metis prod_cases3)
  let ?ok = "r = Value (Inr ()) \<or> (\<exists>wait. r = Value (Inl (Refused R_NotFound wait)))"
  have drop: "?ok \<Longrightarrow> complete_reset E own_nick w =
      (w\<lparr>wo_net := n, wo_disk := d, wo_store := s, wo_draws := wo_draws w + 1\<rparr>, Value (map_err RV_Store q))"
    by (auto simp: complete_reset_def dropping_def netDo_def net andThen_def orElse_def rvStore_def mapError_def storeDo_def st map_err_def
        split: sum.split)
  have refuse: "\<not> ?ok \<Longrightarrow> \<exists>q. complete_reset E own_nick w = (w\<lparr>wo_net := n\<rparr>, q) \<and> (\<forall>x. q \<noteq> Value (Inr x))"
    by (cases r) (auto simp: complete_reset_def dropping_def netDo_def net andThen_def orElse_def split: sum.split E2eRouteError.split E2eRefusal.split)
  show ?thesis
  proof (cases ?ok)
    case True
    from store_step_memory [OF st] show ?thesis
      using True
      by (auto simp: drop [OF True] net map_err_def changed_def change_finish_reset_def split: sum.split)
  next
    case False
    from refuse [OF False] show ?thesis by (auto split: outcome.split sum.split)
  qed
qed

end
