(* ===== verification/Pairing_Driver.thy ===== *)
theory Pairing_Driver
  imports Provision Pairing_Session
begin

text \<open>
  The drivers of a pairing, from \<^verbatim>\<open>e2e_pairing_flow.rs\<close>: they join the session of theory Pairing_Session to
  the relay, the identity routes and the sealed store. A step runs over the world of theory Effects with
  the session in it. The derived JSON of the pairing record is a parameter.
\<close>

section \<open>The world of a pairing\<close>

record PendingRecord =
  pn_v :: nat
  pn_creator :: bool
  pn_rendezvous_id :: string
  pn_started_at :: int

record StalePairing =
  sp_role :: PairingRole
  sp_rendezvous_id :: string

record ('a, 's, 'n, 'h, 'v, 'k, 'i, 'c, 'm) pairing_env = "('a, 's, 'n, 'h, 'v) step_env" +
  pq_pair :: "('k, 'i, 'c, 'm) pair_api"
  pq_ecies :: "nat \<Rightarrow> 'k"
  pq_record_json :: "PendingRecord \<Rightarrow> string option"
  pq_record_of :: "string \<Rightarrow> PendingRecord option"

record ('n, 'k, 'c) pairing_world = "'n world" +
  pw_session :: "('k, 'c) PairingSession"

datatype 'h DriveError =
  DE_Flow FlowError | DE_Call "'h PairingCallError" | DE_Route "'h E2eRouteError" | DE_Provision "'h ProvisionError"

definition flowStore ::
    "('a, 's, 'n, 'h, 'v, 'x) step_env_scheme \<Rightarrow> ('a, 's) StoreOp \<Rightarrow> (('n, 'y) world_scheme, FlowError, unit) act" where
  "flowStore E x = mapError (\<lambda>_. F_Store) (storeDo E x)"

definition flowRead :: "(Store \<Rightarrow> E2eStoreError + 'r) \<Rightarrow> (('n, 'y) world_scheme, FlowError, 'r) act" where
  "flowRead f = mapError (\<lambda>_. F_Store) (storeRead f)"

text \<open>An operation of the session in the world.\<close>

definition sessionDo ::
    "(('k, 'c) PairingSession \<Rightarrow> ('k, 'c) PairingSession \<times> (FlowError + 'r)) \<Rightarrow> (('n, 'k, 'c) pairing_world, FlowError, 'r) act" where
  "sessionDo f w = (case f (pw_session w) of (s, r) \<Rightarrow> (w\<lparr>pw_session := s\<rparr>, Value r))"

definition sessionSet ::
    "(('k, 'c) PairingSession \<Rightarrow> ('k, 'c) PairingSession) \<Rightarrow> (('n, 'k, 'c) pairing_world, 'e, unit) act" where
  "sessionSet f w = (w\<lparr>pw_session := f (pw_session w)\<rparr>, Value (Inr ()))"

definition sessionGet :: "(('k, 'c) PairingSession \<Rightarrow> 'r) \<Rightarrow> (('n, 'k, 'c) pairing_world, 'e, 'r) act" where
  "sessionGet f = asking (\<lambda>w. f (pw_session w))"

section \<open>The device and the grant\<close>

definition from_store ::
    "('a, 's, 'n, 'h, 'v, 'x) step_env_scheme \<Rightarrow> (('n, 'y) world_scheme, FlowError, JoinerDevice) act" where
  "from_store E =
     andThen (flowRead (olm_identity (se_store E))) (\<lambda>found.
     andThen
       (case found of
          Some account \<Rightarrow> ret account
        | None \<Rightarrow>
            andThen (newAccount E) (\<lambda>account.
            andThen (flowStore E (SetAccount account)) (\<lambda>_. ret account)))
       (\<lambda>account. ret \<lparr> jd_ed25519 = acc_ed25519 (ac_identity (se_keys E) account),
                        jd_curve25519 = acc_curve25519 (ac_identity (se_keys E) account) \<rparr>))"

definition build_grant :: "crypto_api \<Rightarrow> account \<Rightarrow> SignedList \<Rightarrow> string \<Rightarrow> FlowError + Grant" where
  "build_grant C master current device_ed25519 =
     rbind (map_err (\<lambda>_. F_BadMessage) (decode_key C device_ed25519)) (\<lambda>_.
     rbind (map_err (\<lambda>_. F_NoIdentity)
              (verify_signed_list C (sl_version current) (sl_keys current) (acc_ed25519 master) (sl_signature current))) (\<lambda>_.
     let version = sl_version current + 1 in
     if \<not> version \<le> MAX_VERSION then Inl F_ListFull
     else if device_ed25519 \<notin> set (sl_keys current) \<and> length (sl_keys current) \<ge> MAX_ENROLLED_DEVICES then Inl F_ListFull
     else
       let keys = (if device_ed25519 \<in> set (sl_keys current) then sl_keys current else sl_keys current @ [device_ed25519]) in
       rbind (map_err (\<lambda>_. F_ListFull) (check_list_devices C keys)) (\<lambda>_.
       rbind (map_err (\<lambda>_. F_BadGrant) (build_signed_list_signature C version keys (acc_sign master))) (\<lambda>signature.
       rbind (map_err (\<lambda>_. F_BadGrant) (build_device_certificate C version device_ed25519 (acc_ed25519 master) (acc_sign master)))
         (\<lambda>certificate.
          Inr \<lparr> gr_master = acc_ed25519 master, gr_certificate = certificate,
                gr_list = \<lparr> sl_version = version, sl_keys = sort keys, sl_signature = signature \<rparr> \<rparr>)))))"

definition check_grant :: "crypto_api \<Rightarrow> string \<Rightarrow> Grant \<Rightarrow> FlowError + unit" where
  "check_grant C own_ed25519 grant =
     (let l = gr_list grant; certificate = gr_certificate grant in
      rbind (map_err (\<lambda>_. F_BadGrant) (verify_signed_list C (sl_version l) (sl_keys l) (gr_master grant) (sl_signature l))) (\<lambda>_.
      rbind (map_err (\<lambda>_. F_BadGrant) (check_list_devices C (sl_keys l))) (\<lambda>_.
      if \<not> (own_ed25519 \<in> set (sl_keys l) \<and> vc_device_ed25519 certificate = own_ed25519 \<and>
             vc_master_ed25519 certificate = gr_master grant \<and> vc_first_list_version certificate = sl_version l)
      then Inl F_BadGrant
      else map_err (\<lambda>_. F_BadGrant) (verify_device_certificate C certificate [gr_master grant]))))"

definition apply_grant ::
    "('a, 's, 'n, 'h, 'v, 'x) step_env_scheme \<Rightarrow> string \<Rightarrow> Grant \<Rightarrow> (('n, 'y) world_scheme, FlowError, unit) act" where
  "apply_grant E own_ed25519 grant =
     andThen (fromResult (check_grant (se_crypto E) own_ed25519 grant)) (\<lambda>_.
     andThen (flowRead (master_key (se_store E))) (\<lambda>own_master.
     if (case own_master of None \<Rightarrow> False | Some m \<Rightarrow> acc_ed25519 (ac_identity (se_keys E) m) \<noteq> gr_master grant)
     then throw F_BadGrant
     else
       andThen (flowStore E (SetSignedList (gr_list grant))) (\<lambda>_.
         flowStore E (SetDeviceCertificate (gr_certificate grant)))))"

section \<open>The pairing slot\<close>

definition RECORD_VERSION :: nat where "RECORD_VERSION = 1"

definition save_pending ::
    "('a, 's, 'n, 'h, 'v, 'k, 'i, 'c, 'm, 'x) pairing_env_scheme \<Rightarrow> ('k, 'c) PairingSession
     \<Rightarrow> (('n, 'y) world_scheme, FlowError, unit) act" where
  "save_pending E s =
     andThen (fromResult (ok_or (pq_record_json E \<lparr> pn_v = RECORD_VERSION, pn_creator = (ps_role s = Creator),
                                                    pn_rendezvous_id = ps_rendezvous_id s, pn_started_at = ps_started_at s \<rparr>) F_Store))
       (\<lambda>json. flowStore E (SetPendingPairing json))"

definition clear_pending ::
    "('a, 's, 'n, 'h, 'v, 'x) step_env_scheme \<Rightarrow> (('n, 'y) world_scheme, FlowError, unit) act" where
  "clear_pending E = flowStore E ClearPendingPairing"

definition take_stale_pairing ::
    "('a, 's, 'n, 'h, 'v, 'k, 'i, 'c, 'm, 'x) pairing_env_scheme \<Rightarrow> (('n, 'y) world_scheme, FlowError, StalePairing option) act" where
  "take_stale_pairing E =
     andThen (stored sd_pending_pairing) (\<lambda>stale.
       case stale of
         None \<Rightarrow> ret None
       | Some json \<Rightarrow>
           andThen (clear_pending E) (\<lambda>_.
             ret (case pq_record_of E json of
                    None \<Rightarrow> None
                  | Some r \<Rightarrow>
                      if pn_v r = RECORD_VERSION
                      then Some \<lparr> sp_role = (if pn_creator r then Creator else Joiner), sp_rendezvous_id = pn_rendezvous_id r \<rparr>
                      else None)))"

section \<open>Posting and ending\<close>

definition post_message ::
    "('a, 's, 'n, 'h, 'v, 'x) step_env_scheme \<Rightarrow> ('k, 'c) PairingSession \<Rightarrow> Outgoing \<Rightarrow> (('n, 'y) world_scheme, 'h DriveError, unit) act" where
  "post_message E s out =
     andThen (mapError DE_Call (netDo (\<lambda>n. post_pairing_message (se_http E) n (se_token E) (ps_rendezvous_id s) (og_payload out)
                                              (og_count out) (og_total_bytes out) (se_protocol E)))) (\<lambda>_. ret ())"

definition close_rendezvous ::
    "('a, 's, 'n, 'h, 'v, 'x) step_env_scheme \<Rightarrow> string \<Rightarrow> (('n, 'y) world_scheme, 'e, unit) act" where
  "close_rendezvous E i = ignored (netDo (\<lambda>n. close_pairing (se_http E) n (se_token E) i (se_protocol E)))"

definition cleanup ::
    "('a, 's, 'n, 'h, 'v, 'x) step_env_scheme \<Rightarrow> ('k, 'c) PairingSession \<Rightarrow> bool \<Rightarrow> (('n, 'y) world_scheme, 'e, unit) act" where
  "cleanup E s closing =
     andThen (whenever closing (close_rendezvous E (ps_rendezvous_id s))) (\<lambda>_. ignored (clear_pending E))"

definition abort_pairing ::
    "('a, 's, 'n, 'h, 'v, 'x) step_env_scheme \<Rightarrow> 'e \<Rightarrow> (('n, 'k, 'c) pairing_world, 'e, 'r) act" where
  "abort_pairing E err =
     andThen (sessionSet (\<lambda>s. end_session s EndFailed)) (\<lambda>_.
     andThen (sessionGet id) (\<lambda>s.
     andThen (cleanup E s True) (\<lambda>_. throw err)))"

definition cleaned ::
    "('a, 's, 'n, 'h, 'v, 'x) step_env_scheme \<Rightarrow> bool \<Rightarrow> (('n, 'k, 'c) pairing_world, 'e, unit) act" where
  "cleaned E closing = andThen (sessionGet id) (\<lambda>s. cleanup E s closing)"

definition posted ::
    "('a, 's, 'n, 'h, 'v, 'x) step_env_scheme \<Rightarrow> Outgoing \<Rightarrow> (('n, 'k, 'c) pairing_world, 'h DriveError, unit) act" where
  "posted E out = andThen (sessionGet id) (\<lambda>s. post_message E s out)"

section \<open>Opening\<close>

definition start_creator ::
    "('a, 's, 'n, 'h, 'v, 'k, 'i, 'c, 'm, 'x) pairing_env_scheme \<Rightarrow> int
     \<Rightarrow> (('n, 'y) world_scheme, 'h DriveError, ('k, 'c) PairingSession \<times> PairingLink) act" where
  "start_creator E now =
     andThen (stored sd_signed_list) (\<lambda>own.
     if (case own of None \<Rightarrow> False | Some l \<Rightarrow> length (sl_keys l) \<ge> MAX_ENROLLED_DEVICES) then throw (DE_Flow F_ListFull)
     else
       andThen (drawing (pq_ecies E)) (\<lambda>ecies.
       andThen (mapError DE_Call (netDo (\<lambda>n. create_pairing (se_http E) n (se_token E) (Some (ecies_public (pq_pair E) ecies))
                                                (se_protocol E)))) (\<lambda>rendezvous.
       andThen (fromResult (map_err DE_Flow (create_with (se_crypto E) (pq_pair E) ecies rendezvous (se_network_id E) now))) (\<lambda>(s, l).
       andThen (orElse (save_pending E s) (\<lambda>err.
                  andThen (close_rendezvous E (ps_rendezvous_id s)) (\<lambda>_. throw (DE_Flow err)))) (\<lambda>_. ret (s, l))))))"

definition start_joiner_any ::
    "('a, 's, 'n, 'h, 'v, 'k, 'i, 'c, 'm, 'x) pairing_env_scheme \<Rightarrow> string \<Rightarrow> string list \<Rightarrow> int
     \<Rightarrow> (('n, 'y) world_scheme, 'h DriveError, ('k, 'c) PairingSession) act" where
  "start_joiner_any E typed eligible now =
     andThen (fromResult (map_err (\<lambda>err. DE_Flow (F_Link err)) (snd (take_pairing_link (se_crypto E) typed)))) (\<lambda>l.
     andThen (mapError DE_Flow (from_store E)) (\<lambda>device.
     andThen (mapError DE_Call (netDo (\<lambda>n. join_pairing (se_http E) n (se_token E) (pl_rendezvous_id l) (se_protocol E)))) (\<lambda>rendezvous.
     andThen (drawing (pq_ecies E)) (\<lambda>own.
     andThen (fromResult (map_err DE_Flow (join_any (se_crypto E) (pq_pair E) own l rendezvous (se_network_id E) eligible device now)))
       (\<lambda>(s, hello).
     andThen (orElse (mapError DE_Flow (save_pending E s)) (\<lambda>err. andThen (cleanup E s True) (\<lambda>_. throw err))) (\<lambda>_.
     andThen (orElse (post_message E s hello) (\<lambda>err. andThen (cleanup E s True) (\<lambda>_. throw err))) (\<lambda>_. ret s)))))))"

definition start_joiner ::
    "('a, 's, 'n, 'h, 'v, 'k, 'i, 'c, 'm, 'x) pairing_env_scheme \<Rightarrow> string \<Rightarrow> int
     \<Rightarrow> (('n, 'y) world_scheme, 'h DriveError, ('k, 'c) PairingSession) act" where
  "start_joiner E typed now = start_joiner_any E typed [] now"

section \<open>Answering\<close>

definition send_join_if_ready ::
    "('a, 's, 'n, 'h, 'v, 'k, 'i, 'c, 'm, 'x) pairing_env_scheme \<Rightarrow> (('n, 'k, 'c) pairing_world, 'h DriveError, unit) act" where
  "send_join_if_ready E =
     andThen (sessionGet join_ready) (\<lambda>ready.
     if \<not> ready then ret ()
     else
       andThen (mapError DE_Flow (flowRead (olm_identity (se_store E)))) (\<lambda>found.
       andThen (fromResult (ok_or found (DE_Flow F_NoIdentity))) (\<lambda>account.
       andThen (sessionGet ps_master) (\<lambda>master.
       andThen (fromResult (ok_or master (DE_Flow F_NotConfirmed))) (\<lambda>master.
       let identity = ac_identity (se_keys E) account in
       andThen (mapError DE_Flow (sessionDo (\<lambda>s. seal_join (pq_pair E) s
                  (acc_sign identity (device_id_signed_text (acc_curve25519 identity) master))))) (posted E))))))"

definition refuse ::
    "('a, 's, 'n, 'h, 'v, 'k, 'i, 'c, 'm, 'x) pairing_env_scheme \<Rightarrow> string \<Rightarrow> (('n, 'k, 'c) pairing_world, 'h DriveError, unit) act" where
  "refuse E reason =
     andThen (mapError DE_Flow (sessionDo (\<lambda>s. seal_refusal (pq_pair E) s reason))) (\<lambda>out.
     andThen (posted E out) (\<lambda>_. cleaned E False))"

definition publish_grant ::
    "('a, 's, 'n, 'h, 'v, 'k, 'i, 'c, 'm, 'x) pairing_env_scheme \<Rightarrow> Grant \<Rightarrow> (('n, 'k, 'c) pairing_world, 'h DriveError, unit) act" where
  "publish_grant E grant =
     andThen (fromResult (map_err (\<lambda>err. DE_Route (WireErr err)) (ListRequest_new (se_crypto E) (gr_master grant) (gr_list grant)))) (\<lambda>request.
     andThen (mapError DE_Route (netDo (\<lambda>n. put_e2e_list (se_crypto E) (se_http E) n (se_token E) (se_network_id E)
                                               (se_protocol E) request))) (\<lambda>_.
     andThen (mapError DE_Flow (flowStore E (SetSignedList (gr_list grant)))) (\<lambda>_.
     andThen (mapError DE_Flow (sessionDo (\<lambda>s. seal_signed (pq_pair E) s grant))) (posted E))))"

definition finish_creator ::
    "('a, 's, 'n, 'h, 'v, 'k, 'i, 'c, 'm, 'x) pairing_env_scheme \<Rightarrow> (('n, 'k, 'c) pairing_world, 'h DriveError, unit) act" where
  "finish_creator E =
     andThen (sessionGet confirmed_device) (\<lambda>device.
     andThen (fromResult (ok_or device (DE_Flow F_NotConfirmed))) (\<lambda>device.
     andThen (sessionGet (peer_id_signature_valid (se_crypto E))) (\<lambda>valid.
     if \<not> valid then refuse E ''failed''
     else
       andThen (mapError DE_Flow (flowRead (master_key (se_store E)))) (\<lambda>found.
       andThen (fromResult (ok_or found (DE_Flow F_NoIdentity))) (\<lambda>master.
       andThen (stored sd_signed_list) (\<lambda>current.
       andThen (fromResult (ok_or current (DE_Flow F_NoIdentity))) (\<lambda>current.
       if jd_ed25519 device \<in> set (sl_keys current) then refuse E ''paired''
       else
         (case build_grant (se_crypto E) (ac_identity (se_keys E) master) current (jd_ed25519 device) of
            Inl F_ListFull \<Rightarrow> refuse E ''full''
          | Inl err \<Rightarrow> throw (DE_Flow err)
          | Inr grant \<Rightarrow> publish_grant E grant))))))))"

definition finish_joiner ::
    "('a, 's, 'n, 'h, 'v, 'k, 'i, 'c, 'm, 'x) pairing_env_scheme \<Rightarrow> Grant \<Rightarrow> (('n, 'k, 'c) pairing_world, 'h DriveError, unit) act" where
  "finish_joiner E grant =
     andThen (mapError DE_Flow (from_store E)) (\<lambda>own.
     andThen (mapError DE_Flow (apply_grant E (jd_ed25519 own) grant)) (\<lambda>_.
     andThen (mapError DE_Provision (provision_device E)) (\<lambda>_.
     andThen (mapError DE_Flow (sessionDo (seal_done (pq_pair E)))) (\<lambda>out.
     andThen (posted E out) (\<lambda>_.
     andThen (sessionSet finish) (\<lambda>_. cleaned E False))))))"

section \<open>The steps of a pairing\<close>

text \<open>A failure of the inner step ends the session and cleans up.\<close>

definition guarded ::
    "('a, 's, 'n, 'h, 'v, 'x) step_env_scheme \<Rightarrow> (('n, 'k, 'c) pairing_world, 'h DriveError, unit) act
     \<Rightarrow> (('n, 'k, 'c) pairing_world, 'h DriveError, unit) act" where
  "guarded E m = orElse m (abort_pairing E)"

definition handle_flow_event ::
    "('a, 's, 'n, 'h, 'v, 'k, 'i, 'c, 'm, 'x) pairing_env_scheme \<Rightarrow> FlowEvent \<Rightarrow> (('n, 'k, 'c) pairing_world, 'h DriveError, unit) act" where
  "handle_flow_event E event =
     (case event of
        CodeReady \<Rightarrow> ret ()
      | Offered \<Rightarrow>
          andThen (sessionGet ps_network) (\<lambda>network.
            if network \<noteq> se_network_id E then ret () else send_join_if_ready E)
      | Joined \<Rightarrow> finish_creator E
      | SignedAnswer grant \<Rightarrow> finish_joiner E grant
      | Paired \<Rightarrow> andThen (sessionSet finish) (\<lambda>_. cleaned E True))"

definition pump_inner ::
    "('a, 's, 'n, 'h, 'v, 'k, 'i, 'c, 'm, 'x) pairing_env_scheme \<Rightarrow> (('n, 'k, 'c) pairing_world, 'h DriveError, unit) act" where
  "pump_inner E =
     andThen (sessionGet id) (\<lambda>s.
     andThen (mapError DE_Call (netDo (\<lambda>n. fetch_pairing_messages (se_http E) n (se_token E) (ps_rendezvous_id s)
                                              (ps_last_seq s) (se_protocol E)))) (\<lambda>messages.
     andThen (mapError DE_Flow (sessionDo (\<lambda>s. accept (se_crypto E) (pq_pair E) s messages))) (\<lambda>events.
       forEach (handle_flow_event E) events)))"

definition pump ::
    "('a, 's, 'n, 'h, 'v, 'k, 'i, 'c, 'm, 'x) pairing_env_scheme \<Rightarrow> (('n, 'k, 'c) pairing_world, 'h DriveError, unit) act" where
  "pump E =
     andThen (sessionGet is_active) (\<lambda>active.
       if \<not> active then throw (DE_Flow F_NotActive) else guarded E (pump_inner E))"

definition bind_joiner ::
    "('a, 's, 'n, 'h, 'v, 'k, 'i, 'c, 'm, 'x) pairing_env_scheme \<Rightarrow> (('n, 'k, 'c) pairing_world, 'h DriveError, unit) act" where
  "bind_joiner E =
     guarded E
       (andThen (sessionGet id) (\<lambda>s.
        if ps_role s \<noteq> Joiner \<or> ps_network s \<noteq> se_network_id E then throw (DE_Flow F_NotActive)
        else
          andThen (mapError DE_Flow (from_store E)) (\<lambda>device.
          andThen (sessionSet (\<lambda>s. bind_device s device)) (\<lambda>_.
          andThen (sessionGet id) (\<lambda>s.
          andThen (mapError DE_Flow (save_pending E s)) (\<lambda>_. send_join_if_ready E))))))"

definition prepare_holder ::
    "('a, 's, 'n, 'h, 'v, 'x) step_env_scheme \<Rightarrow> (('n, 'k, 'c) pairing_world, FlowError, unit) act" where
  "prepare_holder E =
     andThen (sessionGet id) (\<lambda>s.
     if ps_role s \<noteq> Creator \<or> ps_master s \<noteq> None then ret ()
     else
       andThen (flowRead (master_key (se_store E))) (\<lambda>found.
       andThen (fromResult (ok_or found F_NoIdentity)) (\<lambda>master.
         sessionDo (\<lambda>s. set_master (se_crypto E) s (acc_ed25519 (ac_identity (se_keys E) master))))))"

definition confirm ::
    "('a, 's, 'n, 'h, 'v, 'k, 'i, 'c, 'm, 'x) pairing_env_scheme \<Rightarrow> string \<Rightarrow> (('n, 'k, 'c) pairing_world, 'h DriveError, unit) act" where
  "confirm E typed =
     andThen (mapError DE_Flow (prepare_holder E)) (\<lambda>_.
     andThen (orElse (sessionDo (\<lambda>s. confirm_code (pq_pair E) s typed)) (\<lambda>err.
                if err = F_WrongCode then andThen (cleaned E True) (\<lambda>_. throw (DE_Flow F_WrongCode))
                else throw (DE_Flow err))) (\<lambda>out.
       guarded E
         (andThen (case out of None \<Rightarrow> ret () | Some out \<Rightarrow> posted E out) (\<lambda>_. send_join_if_ready E))))"

definition on_push ::
    "('a, 's, 'n, 'h, 'v, 'k, 'i, 'c, 'm, 'x) pairing_env_scheme \<Rightarrow> PairingPush \<Rightarrow> (('n, 'k, 'c) pairing_world, 'h DriveError, unit) act" where
  "on_push E push =
     andThen (sessionGet ps_rendezvous_id) (\<lambda>own.
       case push of
         PushMessage i _ _ \<Rightarrow> if i = own then pump E else ret ()
       | PushClosed i reason \<Rightarrow>
           if i = own then andThen (sessionSet (\<lambda>s. on_closed s reason)) (\<lambda>_. cleaned E False) else ret ())"

definition cancel_pairing ::
    "('a, 's, 'n, 'h, 'v, 'x) step_env_scheme \<Rightarrow> (('n, 'k, 'c) pairing_world, 'h DriveError, unit) act" where
  "cancel_pairing E = andThen (sessionSet cancel_session) (\<lambda>_. cleaned E True)"

definition tick ::
    "('a, 's, 'n, 'h, 'v, 'x) step_env_scheme \<Rightarrow> int \<Rightarrow> (('n, 'k, 'c) pairing_world, 'h DriveError, bool) act" where
  "tick E now =
     andThen (mapError DE_Flow (sessionDo (\<lambda>s. case expire s now of (s, over) \<Rightarrow> (s, Inr over)))) (\<lambda>over.
       if over then andThen (cleaned E True) (\<lambda>_. ret True) else ret False)"

definition close_stale ::
    "('a, 's, 'n, 'h, 'v, 'x) step_env_scheme \<Rightarrow> StalePairing \<Rightarrow> (('n, 'y) world_scheme, 'e, unit) act" where
  "close_stale E stale = close_rendezvous E (sp_rendezvous_id stale)"

end
