(* ===== verification/Pairing_Promises.thy ===== *)
theory Pairing_Promises
  imports Pairing_Driver
begin

text \<open>The promises of the drivers of a pairing: who signs, who accepts and how a pairing ends.\<close>

section \<open>Runs\<close>

abbreviation "own_signed w \<equiv> sd_signed_list (st_data (wo_store w))"
abbreviation "own_certificate w \<equiv> sd_device_certificate (st_data (wo_store w))"

lemma runs_session [simp]:
  "runs (sessionGet g) w Q Z = Q (g (pw_session w)) w"
  "runs (sessionSet f) w Q2 Z = Q2 () (w\<lparr>pw_session := f (pw_session w)\<rparr>)"
  "runs (sessionDo h) w Q3 Z =
     (case h (pw_session w) of (s, Inl _) \<Rightarrow> Z (w\<lparr>pw_session := s\<rparr>) | (s, Inr x) \<Rightarrow> Q3 x (w\<lparr>pw_session := s\<rparr>))"
  by (auto simp: sessionGet_def sessionSet_def sessionDo_def runs_def split: prod.split sum.split)

lemma runs_flowRead [simp]:
  "runs (flowRead g) w Q Z = (case g (wo_store w) of Inl _ \<Rightarrow> Z w | Inr x \<Rightarrow> Q x w)"
  by (simp add: flowRead_def)

text \<open>A part of a step that keeps the own list.\<close>

definition list_kept :: "('n, 'y) world_scheme \<Rightarrow> ('n, 'y) world_scheme \<Rightarrow> bool" where
  "list_kept w v \<longleftrightarrow> own_signed v = own_signed w"

interpretation listing: world_order list_kept
  by unfold_locales (auto simp: list_kept_def)

lemma list_kept_parts:
  "keeps list_kept (clear_pending E)" "keeps list_kept (close_rendezvous E i)" "keeps list_kept (post_message E s out)"
  "keeps list_kept (sessionGet g)" "keeps list_kept (sessionSet f)" "keeps list_kept (sessionDo h)"
proof -
  show "keeps list_kept (clear_pending E)"
    unfolding keeps_iff_runs clear_pending_def flowStore_def runs_simps
    by (auto intro!: runs_storeDo simp: list_kept_def changed_def change_clear_pending_pairing_def split: option.split)
  show "keeps list_kept (close_rendezvous E i)"
    by (auto simp: keeps_def close_rendezvous_def ignored_def netDo_def list_kept_def split: prod.split outcome.split)
  show "keeps list_kept (post_message E s out)"
    unfolding keeps_iff_runs post_message_def runs_simps
    by (auto intro!: runs_netDo simp: list_kept_def split: outcome.split sum.split)
  show "keeps list_kept (sessionGet g)" "keeps list_kept (sessionSet f)" "keeps list_kept (sessionDo h)"
    unfolding keeps_iff_runs by (auto simp: list_kept_def split: prod.split sum.split)
qed

lemma posted_kept: "keeps list_kept (posted E out)"
  unfolding posted_def by (intro listing.keeps_andThen list_kept_parts)

lemma cleaned_kept: "keeps list_kept (cleaned E closing)"
  unfolding cleaned_def cleanup_def
  by (intro listing.keeps_andThen listing.keeps_whenever listing.keeps_ignored list_kept_parts)

lemma refuse_kept: "keeps list_kept (refuse E reason)"
  unfolding refuse_def by (intro listing.keeps_andThen listing.keeps_mapError list_kept_parts posted_kept cleaned_kept)

lemma runs_list_kept: "keeps list_kept m \<Longrightarrow> (\<And>v. own_signed v = own_signed w \<Longrightarrow> P v) \<Longrightarrow> runs m w (\<lambda>_. P) P"
  unfolding keeps_iff_runs by (erule allE [of _ w], erule runs_mono) (auto simp: list_kept_def)

section \<open>Grants\<close>

text \<open>The list of a grant is the list before with the new device, one version up.\<close>

lemma build_grant_facts:
  assumes "build_grant C master current key = Inr grant" "key \<notin> set (sl_keys current)"
  shows "gr_master grant = acc_ed25519 master" "sl_version (gr_list grant) = Suc (sl_version current)"
    "set (sl_keys (gr_list grant)) = insert key (set (sl_keys current))" "length (sl_keys (gr_list grant)) \<le> MAX_ENROLLED_DEVICES"
    "is_ok (verify_signed_list C (sl_version current) (sl_keys current) (acc_ed25519 master) (sl_signature current))"
  using assms by (auto simp: build_grant_def rbind_eq_Inr map_err_def Let_def is_ok_def split: if_splits sum.splits)

text \<open>What the new own list must be when a holder changes it.\<close>

definition holder_signed ::
    "('a, 's, 'n, 'h, 'v, 'k, 'i, 'c, 'm, 'x) pairing_env_scheme \<Rightarrow> ('n, 'k, 'c) pairing_world \<Rightarrow> SignedList option \<Rightarrow> bool" where
  "holder_signed E w l \<longleftrightarrow>
     (\<exists>device master current (grant :: Grant) request n held.
        confirmed_device (pw_session w) = Some device \<and> peer_id_signature_valid (se_crypto E) (pw_session w) \<and>
        master_key (se_store E) (wo_store w) = Inr (Some master) \<and> own_signed w = Some current \<and>
        gr_master grant = acc_ed25519 (ac_identity (se_keys E) master) \<and> l = Some (gr_list grant) \<and>
        is_ok (verify_signed_list (se_crypto E) (sl_version current) (sl_keys current) (gr_master grant) (sl_signature current)) \<and>
        ListRequest_new (se_crypto E) (gr_master grant) (gr_list grant) = Inr request \<and>
        put_e2e_list (se_crypto E) (se_http E) (wo_net w) (se_token E) (se_network_id E) (se_protocol E) request = (n, Value (Inr held)) \<and>
        jd_ed25519 device \<notin> set (sl_keys current) \<and>
        set (sl_keys (gr_list grant)) = insert (jd_ed25519 device) (set (sl_keys current)) \<and>
        sl_version (gr_list grant) = Suc (sl_version current) \<and> length (sl_keys (gr_list grant)) \<le> 3)"

lemma posted_list:
  assumes "P (own_signed u)"
  shows "runs (posted E out) u (\<lambda>_ v. P (own_signed v)) (\<lambda>v. P (own_signed v))"
  by (rule runs_list_kept [OF posted_kept]) (simp add: assms)

lemma publish_grant_list:
  assumes "P (own_signed w)"
    and "\<And>request n held. ListRequest_new (se_crypto E) (gr_master grant) (gr_list grant) = Inr request \<Longrightarrow>
      put_e2e_list (se_crypto E) (se_http E) (wo_net w) (se_token E) (se_network_id E) (se_protocol E) request = (n, Value (Inr held)) \<Longrightarrow>
      P (Some (gr_list grant))"
  shows "runs (publish_grant E grant) w (\<lambda>_ v. P (own_signed v)) (\<lambda>v. P (own_signed v))"
proof (cases "ListRequest_new (se_crypto E) (gr_master grant) (gr_list grant)")
  case (Inr request)
  show ?thesis
    unfolding publish_grant_def Inr map_err_def runs_simps sum.case
  proof (rule runs_netDo)
    fix n r
    assume put: "put_e2e_list (se_crypto E) (se_http E) (wo_net w) (se_token E) (se_network_id E) (se_protocol E) request = (n, r)"
    show "case r of
       Value (Inr x) \<Rightarrow> runs (flowStore E (SetSignedList (gr_list grant))) (w\<lparr>wo_net := n\<rparr>)
          (\<lambda>x v. runs (sessionDo (\<lambda>s. seal_signed (pq_pair E) s grant)) v
             (\<lambda>x v. runs (posted E x) v (\<lambda>_ v. P (own_signed v)) (\<lambda>v. P (own_signed v))) (\<lambda>v. P (own_signed v))) (\<lambda>v. P (own_signed v))
       | _ \<Rightarrow> P (own_signed (w\<lparr>wo_net := n\<rparr>))"
      using assms(1) assms(2) [OF Inr] put
      by (auto simp: flowStore_def changed_def change_signed_list_def intro!: runs_storeDo posted_list split: outcome.split sum.split prod.split)
  qed
qed (simp add: publish_grant_def map_err_def assms(1))

section \<open>Failures\<close>

lemma cleanup_session: "pw_session (fst (cleanup E s closing w)) = pw_session w"
  by (simp add: cleanup_def close_rendezvous_def clear_pending_def flowStore_def andThen_def whenever_def ignored_def netDo_def mapError_def
      orElse_def storeDo_def split: prod.split outcome.split sum.split)

lemma ended_session:
  "\<not> is_active (end_session s EndFailed)" "ps_channel (end_session s EndFailed) = None" "ps_waiting (end_session s EndFailed) = None"
  by (simp_all add: end_session_def is_active_def)

lemma cleanup_gives: "cleanup E s closing w = (v, r) \<Longrightarrow> pw_session v = pw_session w"
  by (metis cleanup_session fst_conv)

lemma abort_gives: "abort_pairing E err w = (v, r) \<Longrightarrow> pw_session v = end_session (pw_session w) EndFailed"
  by (auto simp: abort_pairing_def andThen_def sessionSet_def sessionGet_def split: prod.splits outcome.splits sum.splits dest!: cleanup_gives)

lemma guarded_failure: "guarded E m w = (v, Value (Inl err)) \<Longrightarrow> \<exists>s. pw_session v = end_session s EndFailed"
  by (auto simp: guarded_def orElse_def split: prod.splits outcome.splits sum.splits dest!: abort_gives)

section \<open>Properties\<close>

text \<open>
  Claim C31. The holder signs only for a confirmed device, and the server first. When the own list of the
  holder changes while it answers a join, the device was confirmed on both sides, its id signature
  verified, the own list verified under the stored master and did not name the device, and the server
  took the new list: the old one with the device, one version up, with at most three devices.
\<close>

theorem holder_list_follows_the_server:
  "let v = fst (finish_creator E w) in own_signed v = own_signed w \<or> holder_signed E w (own_signed v)"
proof -
  define P where "P l \<longleftrightarrow> l = own_signed w \<or> holder_signed E w l" for l
  have here: "P l" if "own_signed w = l" for l using that by (simp add: P_def)
  have refused: "runs (refuse E reason) w (\<lambda>_ v. P (own_signed v)) (\<lambda>v. P (own_signed v))" for reason
    by (rule runs_list_kept [OF refuse_kept]) (simp add: P_def)
  have granted: "runs (publish_grant E grant) w (\<lambda>_ v. P (own_signed v)) (\<lambda>v. P (own_signed v))"
    if "confirmed_device (pw_session w) = Some device" "peer_id_signature_valid (se_crypto E) (pw_session w)"
      "master_key (se_store E) (wo_store w) = Inr (Some master)" "own_signed w = Some current" "jd_ed25519 device \<notin> set (sl_keys current)"
      "build_grant (se_crypto E) (ac_identity (se_keys E) master) current (jd_ed25519 device) = Inr grant"
    for device master current grant
  proof (rule publish_grant_list [where P = P])
    fix request n held
    assume sent: "ListRequest_new (se_crypto E) (gr_master grant) (gr_list grant) = Inr request"
      "put_e2e_list (se_crypto E) (se_http E) (wo_net w) (se_token E) (se_network_id E) (se_protocol E) request = (n, Value (Inr held))"
    note new = build_grant_facts [OF that(6,5)]
    have "length (sl_keys (gr_list grant)) \<le> 3" using new(4) by (simp add: MAX_ENROLLED_DEVICES_def)
    then have "holder_signed E w (Some (gr_list grant))"
      unfolding holder_signed_def using that new sent
      by (intro exI [of _ device] exI [of _ master] exI [of _ current] exI [of _ grant] exI [of _ request] exI [of _ n] exI [of _ held]) simp
    then show "P (Some (gr_list grant))" by (simp add: P_def)
  qed (simp add: P_def)
  have "runs (finish_creator E) w (\<lambda>_ v. P (own_signed v)) (\<lambda>v. P (own_signed v))"
    unfolding finish_creator_def runs_simps
    by (auto simp: ok_or_def refused granted here split: option.split sum.split FlowError.split)
  then show ?thesis by (auto simp: runs_def Let_def P_def split: prod.splits outcome.splits sum.splits)
qed

text \<open>
  Claim C32. A device takes only a grant that is for it. After an answer was taken, the stored list and the
  stored certificate are those of the answer, the list verifies under the master of the offer and names
  the device, the certificate is for the device and for the version of the list, and a device with a
  master of its own has that master. Another end stores no certificate, and no list but that of a grant
  that passed the checks.
\<close>

theorem only_checked_grants_are_taken:
  "case apply_grant E own grant w of
     (v, Value (Inr _)) \<Rightarrow>
       own_signed v = Some (gr_list grant) \<and> own_certificate v = Some (gr_certificate grant) \<and>
       is_ok (verify_signed_list (se_crypto E) (sl_version (gr_list grant)) (sl_keys (gr_list grant)) (gr_master grant) (sl_signature (gr_list grant))) \<and>
       own \<in> set (sl_keys (gr_list grant)) \<and> vc_device_ed25519 (gr_certificate grant) = own \<and>
       vc_first_list_version (gr_certificate grant) = sl_version (gr_list grant) \<and>
       is_ok (verify_device_certificate (se_crypto E) (gr_certificate grant) [gr_master grant]) \<and>
       (case master_key (se_store E) (wo_store w) of
          Inr (Some m) \<Rightarrow> acc_ed25519 (ac_identity (se_keys E) m) = gr_master grant | Inr None \<Rightarrow> True | Inl _ \<Rightarrow> False)
   | (v, _) \<Rightarrow>
       own_certificate v = own_certificate w \<and>
       (own_signed v = own_signed w \<or> check_grant (se_crypto E) own grant = Inr () \<and> own_signed v = Some (gr_list grant))"
proof (cases "check_grant (se_crypto E) own grant")
  case (Inl err)
  then show ?thesis by (simp add: apply_grant_def andThen_def)
next
  case (Inr checked)
  then have ok: "check_grant (se_crypto E) own grant = Inr ()" by simp
  have checks: "is_ok (verify_signed_list (se_crypto E) (sl_version (gr_list grant)) (sl_keys (gr_list grant)) (gr_master grant) (sl_signature (gr_list grant)))"
    "own \<in> set (sl_keys (gr_list grant))" "vc_device_ed25519 (gr_certificate grant) = own"
    "vc_first_list_version (gr_certificate grant) = sl_version (gr_list grant)"
    "is_ok (verify_device_certificate (se_crypto E) (gr_certificate grant) [gr_master grant])"
    using ok by (auto simp: check_grant_def Let_def rbind_eq_Inr map_err_def is_ok_def split: if_splits sum.splits)
  have "runs (apply_grant E own grant) w
     (\<lambda>_ v. own_signed v = Some (gr_list grant) \<and> own_certificate v = Some (gr_certificate grant) \<and>
       (case master_key (se_store E) (wo_store w) of
          Inr (Some m) \<Rightarrow> acc_ed25519 (ac_identity (se_keys E) m) = gr_master grant | Inr None \<Rightarrow> True | Inl _ \<Rightarrow> False))
     (\<lambda>v. own_certificate v = own_certificate w \<and> (own_signed v = own_signed w \<or> own_signed v = Some (gr_list grant)))"
    unfolding apply_grant_def runs_simps ok sum.case flowStore_def
    by (auto simp: changed_def change_signed_list_def change_device_certificate_def flowStore_def intro!: runs_storeDo
        split: sum.split option.split)
  then show ?thesis
    using checks ok by (simp add: runs_def split: prod.splits outcome.splits sum.splits)
qed


definition toy_current :: SignedList where
  "toy_current = \<lparr> sl_version = 1, sl_keys = [toy_key CHR ''D''], sl_signature = toy_sign CHR ''M'' (list_text 1 [toy_key CHR ''D'']) \<rparr>"

lemma build_grant_exists:
  assumes "account_ok C master" "verify_signed_list C (sl_version current) (sl_keys current) (acc_ed25519 master) (sl_signature current) = Inr ()"
    and "key \<notin> set (sl_keys current)" "length (sl_keys current) < MAX_ENROLLED_DEVICES" "sl_version current + 1 \<le> MAX_VERSION"
    and "list_devices_ok C (sl_keys current @ [key])"
  shows "\<exists>grant. build_grant C master current key = Inr grant"
proof -
  obtain raw where raw: "decode_key C key = Inr raw"
    using assms(6) by (auto simp: list_devices_ok_def is_ok_def split: sum.splits)
  have signature: "build_signed_list_signature C (sl_version current + 1) (sl_keys current @ [key]) (acc_sign master) =
      Inr (acc_sign master (list_text (sl_version current + 1) (sort (sl_keys current @ [key]))))"
    using assms(5,6) account_signs(2) [OF assms(1)]
    by (auto simp: build_signed_list_signature_def rbind_eq_Inr signed_list_signed_text_Inr)
  obtain certificate where "build_device_certificate C (sl_version current + 1) key (acc_ed25519 master) (acc_sign master) = Inr certificate"
    using device_certificate_roundtrip [OF assms(1), of "[acc_ed25519 master]" "sl_version current + 1" key] raw assms(5) by (auto simp: is_ok_def)
  moreover have "check_list_devices C (sl_keys current @ [key]) = Inr ()" using assms(6) by (simp add: check_list_devices_ok)
  ultimately show ?thesis
    using assms(2-5) raw signature by (simp add: build_grant_def map_err_def Let_def)
qed


text \<open>
  A step that fails ends the pairing. When reading the relay or moving to the network of the offer
  fails on an open session, the session is over and holds no channel and no waiting key.
\<close>

theorem failed_step_ends_the_pairing:
  "(case pump E w of
      (v, Value (Inl _)) \<Rightarrow>
        \<not> is_active (pw_session v) \<and> (is_active (pw_session w) \<longrightarrow> ps_channel (pw_session v) = None \<and> ps_waiting (pw_session v) = None)
    | _ \<Rightarrow> True) \<and>
   (case bind_joiner E w of
      (v, Value (Inl _)) \<Rightarrow>
        \<not> is_active (pw_session v) \<and> ps_channel (pw_session v) = None \<and> ps_waiting (pw_session v) = None
    | _ \<Rightarrow> True)"
  by (auto simp: pump_def bind_joiner_def andThen_def sessionGet_def ended_session split: prod.split outcome.split sum.split
      dest!: guarded_failure)

end
