(* ===== verification/Engine_Setup.thy ===== *)
theory Engine_Setup
  imports Engine_Open Pairing_Driver
begin

text \<open>
  Making the files of an engine, from \<^verbatim>\<open>e2e_engine.rs\<close>: the first provision of a network and the opening
  for a pairing, which makes the identity of the device when it is missing. The parameters of a step of
  theory Effects and those of an opening are the same libraries.
\<close>

definition provision_for_network ::
    "('v, 'a, 's) open_env \<Rightarrow> ('a, 's, 'n, 'h, 'w, 'x) step_env_scheme \<Rightarrow> disk \<Rightarrow> 'n \<Rightarrow> nat \<Rightarrow> string \<Rightarrow> string \<Rightarrow> string
     \<Rightarrow> disk \<times> 'n \<times> ('h ProvisionError + Provisioned) outcome" where
  "provision_for_network P E d n draws server account network =
     (case storage_part (oe_hash P) server account network of
        None \<Rightarrow> (d, n, Value (Inl (PV_Store NoDataDir)))
      | Some part_name \<Rightarrow>
          (case oe_data_dir P of
             None \<Rightarrow> (d, n, Value (Inl (PV_Store NoDataDir)))
           | Some dir \<Rightarrow>
               provision_device_at (E\<lparr>se_network_id := network\<rparr>) d n draws (dir, state_file part_name) (oe_state_lock P) (oe_state_key P)))"

definition open_for_pairing ::
    "('v, 'a, 's) open_env \<Rightarrow> ('a, 's, unit, 'h, 'w, 'x) step_env_scheme \<Rightarrow> disk \<Rightarrow> nat \<Rightarrow> string \<Rightarrow> string \<Rightarrow> string
     \<Rightarrow> disk \<times> ('h EngineError + Engine)" where
  "open_for_pairing P E d draws server account network =
     (case (engine_files P server account network :: 'h EngineError + (string \<times> string)) of
        Inl err \<Rightarrow> (d, Inl err)
      | Inr (dir, part_name) \<Rightarrow>
          (case open_store (ee_store (oe_engine P)) d (ee_nonce (oe_engine P) draws) (dir, state_file part_name)
                  (oe_state_lock P) (oe_state_key P) of
             (d, Inl err) \<Rightarrow> (d, Inl (EE_Store err))
           | (d, Inr state) \<Rightarrow>
               (case from_store E \<lparr> wo_net = (), wo_disk = d, wo_store = state, wo_draws = draws + 1 \<rparr> of
                  (w, Value (Inr _)) \<Rightarrow>
                    (case history_open (ee_history (oe_engine P)) (wo_disk w) (dir, history_file part_name)
                            (oe_history_lock P) (oe_history_key P) of
                       (d, Inl err) \<Rightarrow> (d, Inl (EE_Store err))
                     | (d, Inr history) \<Rightarrow> (d, Engine_new (oe_engine P) d (wo_draws w) network (wo_store w) history))
                | (w, _) \<Rightarrow> (wo_disk w, Inl EE_NotReady))))"

section \<open>Lemmas\<close>

text \<open>A guest gets no file.\<close>

lemma guests_make_nothing:
  assumes "account = [] \<or> starts_with ''visitor:'' account"
  shows "open_for_pairing P E d draws server account network = (d, Inl EE_NotReady)"
    "provision_for_network P E d n draws server account network = (d, n, Value (Inl (PV_Store NoDataDir)))"
  using assms by (auto simp: open_for_pairing_def provision_for_network_def engine_files_def storage_part_def ok_or_def)

end
