(* ===== verification/Slash.thy ===== *)
theory Slash
  imports Send_Request
begin

text \<open>
  The slash commands of the compose line and the aliases of the user, from \<^verbatim>\<open>slash.rs\<close>. A text is its
  UTF-8 bytes; the bytes of a character that is not ASCII never are \<open>/\<close>, \<open>$\<close> or a comma, so the byte
  loops below do what the character loops of the code do. The map of aliases is the list of its entries
  in the order in which it is iterated.
\<close>

section \<open>Words\<close>

definition to_ascii_uppercase :: "char \<Rightarrow> char" where
  "to_ascii_uppercase c = (if is_ascii_lower c then char_of (char_code c - 32) else c)"

abbreviation ascii_lower :: "string \<Rightarrow> string" where "ascii_lower s \<equiv> map to_ascii_lowercase s"
abbreviation ascii_upper :: "string \<Rightarrow> string" where "ascii_upper s \<equiv> map to_ascii_uppercase s"

definition trim_start :: "string \<Rightarrow> string" where
  "trim_start s = trim_start_fuel (length s) s"

definition at_space :: "string \<Rightarrow> bool" where
  "at_space s \<longleftrightarrow> list_ex (\<lambda>w. starts_with w s) whitespace_seqs"

text \<open>The text before the first white space, and from it on.\<close>

fun until_space :: "string \<Rightarrow> string \<times> string" where
  "until_space [] = ([], [])"
| "until_space (c # s) =
     (if at_space (c # s) then ([], c # s) else (case until_space s of (word, more_text) \<Rightarrow> (c # word, more_text)))"

definition split_word :: "string \<Rightarrow> string \<times> string" where
  "split_word s = (case until_space (trim_start s) of (word, tail) \<Rightarrow> (word, trim tail))"

fun words_fuel :: "nat \<Rightarrow> string \<Rightarrow> string list" where
  "words_fuel 0 s = []"
| "words_fuel (Suc k) s =
     (let t = trim_start s in
      if t = [] then [] else (case until_space t of (word, tail) \<Rightarrow> word # words_fuel k tail))"

text \<open>Every word has a byte, so the length of the text is enough fuel.\<close>

definition words :: "string \<Rightarrow> string list" where
  "words s = words_fuel (length s) s"

definition strip_slashes :: "string \<Rightarrow> string" where
  "strip_slashes s = dropWhile (\<lambda>c. c = CHR ''/'') s"

definition non_empty :: "string \<Rightarrow> string option" where
  "non_empty s = (if s = [] then None else Some s)"

definition is_prefix_only_channel :: "string \<Rightarrow> bool" where
  "is_prefix_only_channel name \<longleftrightarrow> is_channel name \<and> length name = 1"

definition is_service_nick :: "string \<Rightarrow> bool" where
  "is_service_nick nick \<longleftrightarrow> length nick > 4 \<and> strip_suffix ''serv'' (ascii_lower nick) \<noteq> None"

definition channel_reason :: "string \<Rightarrow> string option \<times> string option" where
  "channel_reason args =
     (case split_word args of (head, tail) \<Rightarrow>
        if is_channel head then (Some head, non_empty tail) else (None, non_empty args))"

definition network_reason :: "string \<Rightarrow> string option \<times> string option" where
  "network_reason args = (case split_word args of (head, tail) \<Rightarrow> (non_empty head, non_empty tail))"

fun join_more :: "string \<Rightarrow> string list \<Rightarrow> string option" where
  "join_more joined [] = Some joined"
| "join_more joined (channel # channels) =
     (if \<not> is_channel channel \<or> is_prefix_only_channel channel then None
      else join_more (joined @ '','' @ channel) channels)"

definition join_channels :: "string \<Rightarrow> string option" where
  "join_channels listing =
     (case split_char CHR '','' listing of
        [] \<Rightarrow> None
      | head # channels \<Rightarrow>
          if head = [] \<or> is_prefix_only_channel head then None
          else join_more (if is_channel head then head else ''#'' @ head) channels)"

definition service_nick :: "string \<Rightarrow> string option" where
  "service_nick verb = map_of [(''cs'', ''ChanServ''), (''ns'', ''NickServ''), (''ms'', ''MemoServ''), (''os'', ''OperServ''),
     (''hs'', ''HelpServ''), (''rs'', ''RootServ'')] verb"

section \<open>Commands\<close>

datatype E2ePairAction = PairStart | PairJoin string | PairCode string | PairCancel | PairAccept | PairDecline

datatype E2eManageAction = ManageDevices | ManageRevoke string | ManageReset | ManageResetConfirm | ManageForget | ManageForgetConfirm

datatype SlashCommand =
  SlSay string | SlAction string | SlMsg string string | SlServiceConsole string | SlNotice string string
| SlQuery "string option" | SlJoin string "string option" | SlPart "string option" "string option"
| SlCycle "string option" "string option" | SlTopicSet "string option" string | SlTopicClear "string option"
| SlTopicShow "string option" | SlModeShow "string option" | SlNick string | SlAway "string option"
| SlCtcp string string "string option" | SlPing string | SlNickModes string "string list" | SlKick string string
| SlKickBan string string | SlBan string | SlUnban string | SlMode "string option" string "string list" | SlUmode string
| SlUmodeShow | SlNames "string option" | SlRaw string | SlOper string string | SlConnect string
| SlDisconnect "string option" "string option" | SlReconnect "string option" "string option" | SlQuit "string option"
| SlHighlight bool string | SlIgnore bool string "string option" | SlNowPlaying | SlNotify "string list"
| SlBeep "string option" | SlAliasDefine string string | SlUnalias string | SlFanOut bool string | SlUsage string
| SlUnknown string | SlE2ePair E2ePairAction | SlE2eManage E2eManageAction

definition cmd_msg :: "string \<Rightarrow> SlashCommand" where
  "cmd_msg args =
     (case split_word args of (target, body) \<Rightarrow>
        if target = [] \<or> body = [] \<or> (is_channel target \<and> \<not> is_statusmsg_target target) then SlUsage ''/msg <nick> <text>''
        else SlMsg target body)"

definition cmd_notice :: "string \<Rightarrow> SlashCommand" where
  "cmd_notice args =
     (case split_word args of (target, body) \<Rightarrow>
        if target = [] \<or> body = [] then SlUsage ''/notice <target> <text>'' else SlNotice target body)"

definition cmd_query :: "string \<Rightarrow> SlashCommand" where
  "cmd_query args =
     (case words args of
        [] \<Rightarrow> SlQuery None
      | [nick] \<Rightarrow> if \<not> is_channel nick then SlQuery (Some nick) else SlUsage ''/query <nick>''
      | _ \<Rightarrow> SlUsage ''/query <nick>'')"

definition cmd_join :: "string \<Rightarrow> SlashCommand" where
  "cmd_join args =
     (let usage = SlUsage ''/join <#channel>[,<#channel>] [key]'' in
      case words args of
        [listing] \<Rightarrow> (case join_channels listing of Some channels \<Rightarrow> SlJoin channels None | None \<Rightarrow> usage)
      | [listing, key] \<Rightarrow> (case join_channels listing of Some channels \<Rightarrow> SlJoin channels (Some key) | None \<Rightarrow> usage)
      | _ \<Rightarrow> usage)"

definition cmd_topic :: "string \<Rightarrow> SlashCommand" where
  "cmd_topic args =
     (case split_word args of (head, tail) \<Rightarrow>
        case (if is_channel head \<and> length head > 1 then (Some head, tail)
              else if head = ''#'' then (None, tail)
              else (None, args)) of
          (channel, body) \<Rightarrow>
            if body = ''-delete'' then SlTopicClear channel
            else if body = [] then SlTopicShow channel
            else SlTopicSet channel body)"

definition cmd_ctcp :: "string \<Rightarrow> SlashCommand" where
  "cmd_ctcp args =
     (case split_word args of (target, tail) \<Rightarrow>
      case split_word tail of (verb, ctcp_args) \<Rightarrow>
        if target = [] \<or> verb = [] then SlUsage ''/ctcp <target> <VERB> [args]''
        else SlCtcp target (ascii_upper verb) (non_empty ctcp_args))"

definition cmd_nick_modes :: "string \<Rightarrow> string \<Rightarrow> SlashCommand" where
  "cmd_nick_modes verb args = (if words args = [] then SlUsage ''/op <nick> [nick...]'' else SlNickModes verb (words args))"

definition cmd_kick :: "string \<Rightarrow> SlashCommand" where
  "cmd_kick args = (case split_word args of (nick, reason) \<Rightarrow> if nick = [] then SlUsage ''/kick <nick> [reason]'' else SlKick nick reason)"

definition cmd_kickban :: "string \<Rightarrow> SlashCommand" where
  "cmd_kickban args = (case split_word args of (nick, reason) \<Rightarrow> if nick = [] then SlUsage ''/kb <nick> [reason]'' else SlKickBan nick reason)"

definition cmd_mode :: "string \<Rightarrow> SlashCommand" where
  "cmd_mode args =
     (case words args of
        [] \<Rightarrow> SlModeShow None
      | head # tail \<Rightarrow>
          if starts_with ''+'' head \<or> starts_with ''-'' head then SlMode None head tail
          else (case tail of
                  modes # params \<Rightarrow> SlMode (Some head) modes params
                | [] \<Rightarrow> if is_channel head then SlModeShow (Some head) else SlUsage ''/mode [target] <modes> [params]''))"

definition cmd_one :: "string \<Rightarrow> (string \<Rightarrow> SlashCommand) \<Rightarrow> string \<Rightarrow> SlashCommand" where
  "cmd_one usage f args = (case words args of [x] \<Rightarrow> f x | _ \<Rightarrow> SlUsage usage)"

definition cmd_at_most_one :: "string \<Rightarrow> SlashCommand \<Rightarrow> (string \<Rightarrow> SlashCommand) \<Rightarrow> string \<Rightarrow> SlashCommand" where
  "cmd_at_most_one usage nothing f args = (case words args of [] \<Rightarrow> nothing | [x] \<Rightarrow> f x | _ \<Rightarrow> SlUsage usage)"

definition cmd_all :: "string \<Rightarrow> (string \<Rightarrow> SlashCommand) \<Rightarrow> string \<Rightarrow> SlashCommand" where
  "cmd_all usage f args = (if args = [] then SlUsage usage else f args)"

definition cmd_oper :: "string \<Rightarrow> SlashCommand" where
  "cmd_oper args = (case words args of [name, password] \<Rightarrow> SlOper name password | _ \<Rightarrow> SlUsage ''/oper <name> <password>'')"

definition cmd_kill :: "string \<Rightarrow> SlashCommand" where
  "cmd_kill args =
     (case split_word args of (nick, reason) \<Rightarrow>
        if nick = [] then SlUsage ''/kill <nick> [reason]''
        else if reason = [] then SlRaw (''KILL '' @ nick)
        else SlRaw (''KILL '' @ nick @ '' :'' @ reason))"

definition cmd_stats :: "string \<Rightarrow> string \<Rightarrow> SlashCommand" where
  "cmd_stats verb args =
     (if words args = [] then SlRaw (ascii_upper verb) else SlRaw (ascii_upper verb @ '' '' @ join_with '' '' (words args)))"

definition cmd_e2e :: "string \<Rightarrow> SlashCommand" where
  "cmd_e2e args =
     (let usage = SlUsage ''/e2e pair | join <link> | accept | decline | code <nn> | cancel | devices | revoke <id> | reset | forget'' in
      case words args of
        [step] \<Rightarrow>
          if step = ''pair'' then SlE2ePair PairStart
          else if step = ''cancel'' then SlE2ePair PairCancel
          else if step = ''accept'' then SlE2ePair PairAccept
          else if step = ''decline'' then SlE2ePair PairDecline
          else if step = ''devices'' then SlE2eManage ManageDevices
          else if step = ''reset'' then SlE2eManage ManageReset
          else if step = ''forget'' then SlE2eManage ManageForget
          else usage
      | [step, x] \<Rightarrow>
          if step = ''join'' then SlE2ePair (PairJoin x)
          else if step = ''code'' then SlE2ePair (PairCode x)
          else if step = ''revoke'' then SlE2eManage (ManageRevoke x)
          else if step = ''reset'' \<and> x = ''yes'' then SlE2eManage ManageResetConfirm
          else if step = ''forget'' \<and> x = ''yes'' then SlE2eManage ManageForgetConfirm
          else usage
      | _ \<Rightarrow> usage)"

text \<open>The mask is the first word; the pattern is what follows, trimmed.\<close>

definition cmd_ignore :: "bool \<Rightarrow> string \<Rightarrow> SlashCommand" where
  "cmd_ignore adding args =
     (let line = trim args in
      if line = [] then SlUsage ''/ignore <nick!user@host> [text pattern]''
      else (case until_space line of (pattern_mask, pattern) \<Rightarrow> SlIgnore adding pattern_mask (non_empty (trim pattern))))"

definition cmd_alias :: "string \<Rightarrow> SlashCommand" where
  "cmd_alias args =
     (case split_word args of (name, expansion) \<Rightarrow>
        let name = ascii_lower (strip_slashes name); expansion = strip_slashes expansion in
        if name = [] \<or> expansion = [] then SlUsage ''/alias <name> <expansion>'' else SlAliasDefine name expansion)"

definition cmd_service :: "string \<Rightarrow> string \<Rightarrow> SlashCommand" where
  "cmd_service verb args =
     (case service_nick verb of
        Some service \<Rightarrow> if args = [] then SlServiceConsole service else SlMsg service args
      | None \<Rightarrow> SlUnknown (''/'' @ verb))"

definition commands :: "(string list \<times> (string \<Rightarrow> string \<Rightarrow> SlashCommand)) list" where
  "commands =
    [([''me''], \<lambda>_. SlAction),
     ([''msg''], \<lambda>_. cmd_msg),
     ([''notice''], \<lambda>_. cmd_notice),
     ([''query'', ''q''], \<lambda>_. cmd_query),
     ([''join'', ''j''], \<lambda>_. cmd_join),
     ([''part''], \<lambda>_ args. case channel_reason args of (channel, reason) \<Rightarrow> SlPart channel reason),
     ([''cycle''], \<lambda>_ args. case channel_reason args of (channel, reason) \<Rightarrow> SlCycle channel reason),
     ([''topic''], \<lambda>_. cmd_topic),
     ([''nick''], \<lambda>_. cmd_one ''/nick <nick>'' SlNick),
     ([''away''], \<lambda>_ args. SlAway (non_empty (trim (case strip_prefix '':'' args of None \<Rightarrow> args | Some a \<Rightarrow> a)))),
     ([''ctcp''], \<lambda>_. cmd_ctcp),
     ([''ping''], \<lambda>_. cmd_one ''/ping <target>'' SlPing),
     ([''op'', ''deop'', ''voice'', ''devoice''], cmd_nick_modes),
     ([''kick''], \<lambda>_. cmd_kick),
     ([''kb'', ''kickban''], \<lambda>_. cmd_kickban),
     ([''ban''], \<lambda>_. cmd_one ''/ban <nick-or-mask>'' SlBan),
     ([''unban''], \<lambda>_. cmd_one ''/unban <mask>'' SlUnban),
     ([''mode''], \<lambda>_. cmd_mode),
     ([''umode''], \<lambda>_. cmd_at_most_one ''/umode [modes]'' SlUmodeShow SlUmode),
     ([''names''], \<lambda>_. cmd_at_most_one ''/names [#channel]'' (SlNames None) (\<lambda>x. SlNames (Some x))),
     ([''quote'', ''raw''], \<lambda>_. cmd_all ''/quote <raw IRC line>'' SlRaw),
     ([''oper''], \<lambda>_. cmd_oper),
     ([''kill''], \<lambda>_. cmd_kill),
     ([''stats'', ''rehash''], cmd_stats),
     ([''connect''], \<lambda>_. cmd_one ''/connect <network>'' SlConnect),
     ([''disconnect''], \<lambda>_ args. case network_reason args of (network, reason) \<Rightarrow> SlDisconnect network reason),
     ([''reconnect''], \<lambda>_ args. case network_reason args of (network, reason) \<Rightarrow> SlReconnect network reason),
     ([''quit''], \<lambda>_ args. SlQuit (non_empty args)),
     ([''e2e''], \<lambda>_. cmd_e2e),
     ([''hilight'', ''highlight'', ''dehilight''], \<lambda>verb. cmd_all ''/hilight <pattern>'' (SlHighlight (verb \<noteq> ''dehilight''))),
     ([''ignore'', ''unignore''], \<lambda>verb. cmd_ignore (verb = ''ignore'')),
     ([''np''], \<lambda>_ _. SlNowPlaying),
     ([''beep''], \<lambda>_. cmd_at_most_one ''/beep [sound]'' (SlBeep None) (\<lambda>x. SlBeep (Some (ascii_lower x)))),
     ([''notify'', ''watch''], \<lambda>_ args. if words args = [] then SlUsage ''/notify <nick> [nick...]'' else SlNotify (words args)),
     ([''alias''], \<lambda>_. cmd_alias),
     ([''unalias''], \<lambda>_. cmd_one ''/unalias <name>'' (\<lambda>name. SlUnalias (ascii_lower (strip_slashes name)))),
     ([''ame''], \<lambda>_. cmd_all ''/ame <text>'' (SlFanOut True)),
     ([''amsg''], \<lambda>_. cmd_all ''/amsg <text>'' (SlFanOut False))]"

definition parse_command :: "string \<Rightarrow> string \<Rightarrow> SlashCommand" where
  "parse_command verb args =
     (case List.find (\<lambda>(verbs, _). verb \<in> set verbs) commands of
        Some (_, f) \<Rightarrow> f verb args
      | None \<Rightarrow> cmd_service verb args)"

definition parse_slash :: "string \<Rightarrow> SlashCommand option" where
  "parse_slash input =
     Option.bind (strip_prefix ''/'' (trim input)) (\<lambda>tail.
       if starts_with ''/'' tail then Some (SlSay tail)
       else (case split_word tail of (verb, args) \<Rightarrow>
               if verb = [] then None else Some (parse_command (ascii_lower verb) args)))"

section \<open>Aliases\<close>

definition MAX_ALIAS_DEPTH :: nat where "MAX_ALIAS_DEPTH = 5"

definition BUILTIN_ALIASES :: "(string \<times> string) list" where
  "BUILTIN_ALIASES = [(''onotice'', ''notice @$C $*'')]"

datatype AliasError = TooDeep string | NoTarget string

text \<open>The loop over a template: the text so far and whether an argument was used.\<close>

fun fill :: "string \<Rightarrow> string list \<Rightarrow> string option \<Rightarrow> string \<Rightarrow> string \<Rightarrow> bool \<Rightarrow> (string \<times> bool) option" where
  "fill tail args target [] out used = Some (out, used)"
| "fill tail args target [c] out used = Some (out @ [c], used)"
| "fill tail args target (c # d # template) out used =
     (if c = CHR ''$'' \<and> d = CHR ''*'' then fill tail args target template (out @ tail) True
      else if c = CHR ''$'' \<and> is_ascii_digit d \<and> d \<noteq> CHR ''0'' then
        (let position = digit_val d - 1 in
         case template of
           e # template' \<Rightarrow>
             if e = CHR ''-'' then fill tail args target template' (out @ join_with '' '' (drop position args)) True
             else fill tail args target template (out @ (if position < length args then args ! position else [])) True
         | [] \<Rightarrow> fill tail args target template (out @ (if position < length args then args ! position else [])) True)
      else if c = CHR ''$'' \<and> d = CHR ''C'' then
        (case target of None \<Rightarrow> None | Some window \<Rightarrow> fill tail args target template (out @ window) used)
      else fill tail args target (d # template) (out @ [c]) used)"

definition substitute_alias :: "string \<Rightarrow> string \<Rightarrow> string option \<Rightarrow> string option" where
  "substitute_alias template tail target =
     map_option (\<lambda>(out, used). if used \<or> tail = [] then out else out @ '' '' @ tail) (fill tail (words tail) target template [] False)"

definition find_alias :: "(string \<times> string) list \<Rightarrow> string \<Rightarrow> string option" where
  "find_alias aliases lower =
     (case List.find (\<lambda>(name, _). ascii_lower (strip_slashes name) = ascii_lower lower) aliases of
        Some (_, expansion) \<Rightarrow> Some expansion
      | None \<Rightarrow> map_of BUILTIN_ALIASES lower)"

text \<open>\<open>left\<close> is the number of expansions that may still follow, \<^verbatim>\<open>MAX_ALIAS_DEPTH - depth\<close>. The arrow of the
  chain is the UTF-8 text of U+2192 between spaces.\<close>

definition chain_text :: "string list \<Rightarrow> string" where
  "chain_text chain = join_with [CHR '' '', CHR 0xE2, CHR 0x86, CHR 0x92, CHR '' ''] chain"

fun expand_loop ::
    "(string \<times> string) list \<Rightarrow> string option \<Rightarrow> nat \<Rightarrow> string \<Rightarrow> string \<Rightarrow> string list \<Rightarrow> bool \<Rightarrow> AliasError + (string \<times> string \<times> bool)" where
  "expand_loop aliases target left verb tail chain expanded =
     (let lower = ascii_lower verb in
      if lower = ''alias'' \<or> lower = ''unalias'' then Inr (verb, tail, expanded)
      else (case find_alias aliases lower of
              None \<Rightarrow> Inr (verb, tail, expanded)
            | Some template \<Rightarrow>
                (case left of
                   0 \<Rightarrow> Inl (TooDeep (chain_text chain))
                 | Suc k \<Rightarrow>
                     (case substitute_alias (strip_slashes template) tail target of
                        None \<Rightarrow> Inl (NoTarget lower)
                      | Some line \<Rightarrow>
                          (case split_word (trim line) of (verb, tail) \<Rightarrow>
                             expand_loop aliases target k verb tail (chain @ [ascii_lower verb]) True)))))"

declare expand_loop.simps [simp del]

definition short_form :: "string \<Rightarrow> string option" where
  "short_form lower = (if lower = ''w'' then Some ''whois'' else if lower = ''n'' then Some ''names'' else None)"

definition expand_aliases :: "string \<Rightarrow> (string \<times> string) list \<Rightarrow> string option \<Rightarrow> AliasError + string" where
  "expand_aliases input aliases target =
     (case strip_prefix ''/'' (trim input) of
        None \<Rightarrow> Inr input
      | Some stripped \<Rightarrow>
          if starts_with ''/'' stripped then Inr input
          else
            (case split_word stripped of (verb, tail) \<Rightarrow>
             rbind (expand_loop aliases target MAX_ALIAS_DEPTH verb tail [ascii_lower verb] False) (\<lambda>(verb, tail, expanded).
               let short = short_form (ascii_lower verb) in
               if \<not> expanded \<and> short = None then Inr input
               else
                 let verb = (case short of None \<Rightarrow> verb | Some s \<Rightarrow> s) in
                 Inr (if tail = [] then ''/'' @ verb else ''/'' @ verb @ '' '' @ tail))))"

section \<open>Lemmas\<close>

text \<open>No command is a plain text, and only two commands make a private message.\<close>

lemmas command_defs = cmd_notice_def cmd_query_def cmd_join_def cmd_topic_def cmd_ctcp_def cmd_nick_modes_def cmd_kick_def
  cmd_kickban_def cmd_mode_def cmd_one_def cmd_at_most_one_def cmd_all_def cmd_oper_def cmd_kill_def cmd_stats_def cmd_e2e_def
  cmd_ignore_def cmd_alias_def

definition safe_command :: "SlashCommand \<Rightarrow> bool" where
  "safe_command x \<longleftrightarrow>
     (case x of
        SlSay _ \<Rightarrow> False
      | SlMsg target body \<Rightarrow> target \<noteq> [] \<and> body \<noteq> [] \<and> (is_channel target \<longrightarrow> is_statusmsg_target target)
      | _ \<Rightarrow> True)"

lemma single_commands_safe:
  "safe_command (cmd_msg a)" "safe_command (cmd_notice a)" "safe_command (cmd_query a)" "safe_command (cmd_join a)" "safe_command (cmd_topic a)"
  "safe_command (cmd_ctcp a)" "safe_command (cmd_nick_modes v a)" "safe_command (cmd_kick a)" "safe_command (cmd_kickban a)"
  "safe_command (cmd_mode a)" "safe_command (cmd_oper a)" "safe_command (cmd_kill a)" "safe_command (cmd_stats v a)"
  "safe_command (cmd_e2e a)" "safe_command (cmd_ignore b a)" "safe_command (cmd_alias a)" "safe_command (SlUsage u)"
  by (auto simp: safe_command_def cmd_msg_def command_defs Let_def split: prod.split list.split option.split if_split)

lemma word_commands_safe:
  "(\<And>x. safe_command (f x)) \<Longrightarrow> safe_command (cmd_one usage f a)"
  "safe_command n \<Longrightarrow> (\<And>x. safe_command (f x)) \<Longrightarrow> safe_command (cmd_at_most_one usage n f a)"
  "(\<And>x. safe_command (f x)) \<Longrightarrow> safe_command (cmd_all usage f a)"
  by (auto simp: command_defs single_commands_safe split: list.split)

lemma service_commands_safe: "safe_command (cmd_service v a)"
proof (cases "service_nick v")
  case (Some service)
  then have "service \<in> {''ChanServ'', ''NickServ'', ''MemoServ'', ''OperServ'', ''HelpServ'', ''RootServ''}"
    by (auto simp: service_nick_def split: if_splits)
  then have "service \<noteq> [] \<and> \<not> is_channel service" by (auto simp: is_channel_def)
  then show ?thesis by (simp add: cmd_service_def Some safe_command_def)
qed (simp add: cmd_service_def safe_command_def)

lemma commands_safe: "list_all (\<lambda>(_, f). \<forall>v a. safe_command (f v a)) commands"
  unfolding commands_def list.pred_inject prod.case
  by (intro conjI allI; (intro word_commands_safe single_commands_safe)?; simp add: safe_command_def split: prod.split)

lemma parse_command_safe: "safe_command (parse_command v a)"
proof (cases "List.find (\<lambda>(verbs, _). v \<in> set verbs) commands")
  case (Some p)
  obtain verbs f where p: "p = (verbs, f)" by fastforce
  have "p \<in> set commands" using Some unfolding find_Some_iff by (metis nth_mem)
  then have "safe_command (f v a)" using commands_safe p by (auto simp: list_all_iff)
  then show ?thesis by (simp add: parse_command_def Some p)
qed (simp add: parse_command_def service_commands_safe)

section \<open>Properties\<close>

text \<open>
  A line goes where it says. A line is sent as a plain text only when it starts with two slashes,
  and then without the first; a private message has a target and a text, and its target is no channel,
  except one that is addressed at a membership level; and a line that does not start with a slash is no command.
\<close>

theorem slash_line_goes_where_it_says:
  "case parse_slash input of
     None \<Rightarrow> \<not> starts_with ''//'' (trim input)
   | Some (SlSay body) \<Rightarrow> trim input = ''/'' @ body \<and> starts_with ''/'' body
   | Some (SlMsg target body) \<Rightarrow>
       starts_with ''/'' (trim input) \<and> target \<noteq> [] \<and> body \<noteq> [] \<and> (\<not> is_channel target \<or> is_statusmsg_target target)
   | Some _ \<Rightarrow> starts_with ''/'' (trim input) \<and> \<not> starts_with ''//'' (trim input)"
proof (cases "strip_prefix ''/'' (trim input)")
  case None
  then show ?thesis by (cases "trim input") (auto simp: parse_slash_def strip_prefix_def starts_with_def split: if_splits)
next
  case (Some tail)
  then have line: "trim input = ''/'' @ tail" by (cases "trim input") (auto simp: strip_prefix_def split: if_splits)
  have one: "starts_with ''/'' (trim input)" by (simp add: line starts_with_def)
  have two: "starts_with ''//'' (trim input) \<longleftrightarrow> starts_with ''/'' tail" by (simp add: line starts_with_def)
  show ?thesis
  proof (cases "starts_with ''/'' tail")
    case True
    then have "parse_slash input = Some (SlSay tail)" by (simp add: parse_slash_def Some)
    then show ?thesis using line True by simp
  next
    case False
    obtain verb args where sw: "split_word tail = (verb, args)" by fastforce
    have parsed: "parse_slash input = (if verb = [] then None else Some (parse_command (ascii_lower verb) args))"
      by (simp add: parse_slash_def Some False sw)
    show ?thesis
      using parse_command_safe [of "ascii_lower verb" args] False one two
      by (cases "verb = []"; cases "parse_command (ascii_lower verb) args") (auto simp: parsed safe_command_def)
  qed
qed

text \<open>A line without a slash is not touched by the aliases.\<close>

lemma plain_line_is_not_expanded: "\<not> starts_with ''/'' (trim input) \<Longrightarrow> expand_aliases input aliases target = Inr input"
  by (simp add: expand_aliases_def strip_prefix_def starts_with_def)

end
