(* ===== verification/Formatting.thy ===== *)
theory Formatting
  imports Prelude_Rust "HOL-Library.Sublist"
begin

text \<open>
  The control codes of a chat text, from \<^verbatim>\<open>formatting.rs\<close>. A text is its UTF-8 bytes; the control codes, the
  digits and the comma are ASCII, so the byte loop does what the character loop of the code does.
\<close>

record ColorSegment =
  seg_text :: string
  seg_color :: "(nat \<times> nat \<times> nat) option"
  seg_bold :: bool

definition BOLD :: char where "BOLD = CHR 0x02"
definition COLOR :: char where "COLOR = CHR 0x03"
definition RESET :: char where "RESET = CHR 0x0F"
definition REVERSE :: char where "REVERSE = CHR 0x16"
definition ITALIC :: char where "ITALIC = CHR 0x1D"
definition UNDERLINE :: char where "UNDERLINE = CHR 0x1F"

definition MIRC_PALETTE :: "(nat \<times> nat \<times> nat) list" where
  "MIRC_PALETTE =
     [(255, 255, 255), (0, 0, 0), (0, 0, 127), (0, 147, 0), (255, 0, 0), (127, 0, 0), (156, 0, 156), (252, 127, 0),
      (255, 255, 0), (0, 252, 0), (0, 147, 147), (0, 255, 255), (0, 0, 252), (255, 0, 255), (127, 127, 127), (210, 210, 210)]"

text \<open>The color after the code and the text that follows it.\<close>

definition parse_color_code :: "string \<Rightarrow> (nat \<times> nat \<times> nat) option \<times> string" where
  "parse_color_code s =
     (let digits = takeWhile is_ascii_digit (take 2 s);
          tail = drop (length digits) s;
          tail = (case tail of c # cs \<Rightarrow> if c = CHR '','' then dropWhile is_ascii_digit cs else tail | [] \<Rightarrow> [])
      in (Option.bind (parse_uint u64_max digits) (\<lambda>index.
            if index < length MIRC_PALETTE then Some (MIRC_PALETTE ! index) else None), tail))"

definition flush :: "ColorSegment list \<Rightarrow> string \<Rightarrow> (nat \<times> nat \<times> nat) option \<Rightarrow> bool \<Rightarrow> ColorSegment list" where
  "flush segments current color bold =
     (if current = [] then segments else segments @ [\<lparr> seg_text = current, seg_color = color, seg_bold = bold \<rparr>])"

lemma parse_color_code_suffix: "suffix (snd (parse_color_code s)) s"
proof -
  let ?tail = "drop (length (takeWhile is_ascii_digit (take 2 s))) s"
  have "suffix ?tail s" by (simp add: suffix_drop)
  moreover have "suffix (case tail of c # cs \<Rightarrow> if c = CHR '','' then dropWhile is_ascii_digit cs else tail | [] \<Rightarrow> []) tail" for tail
    by (auto simp: suffix_Cons suffix_dropWhile split: list.split)
  ultimately show ?thesis unfolding parse_color_code_def Let_def snd_conv by (rule suffix_order.trans [rotated])
qed

function parse_loop ::
    "string \<Rightarrow> ColorSegment list \<Rightarrow> string \<Rightarrow> (nat \<times> nat \<times> nat) option \<Rightarrow> bool \<Rightarrow> ColorSegment list" where
  "parse_loop [] segments current color bold = flush segments current color bold"
| "parse_loop (c # s) segments current color bold =
     (if c = BOLD then parse_loop s (flush segments current color bold) [] color (\<not> bold)
      else if c = RESET then parse_loop s (flush segments current color bold) [] None False
      else if c \<in> {REVERSE, ITALIC, UNDERLINE} then parse_loop s segments current color bold
      else if c = COLOR then
        parse_loop (snd (parse_color_code s)) (flush segments current color bold) [] (fst (parse_color_code s)) bold
      else parse_loop s segments (current @ [c]) color bold)"
  by pat_completeness auto
termination
  by (relation "measure (\<lambda>(s, _). length s)") (use suffix_length_le [OF parse_color_code_suffix] in \<open>auto simp: less_Suc_eq_le\<close>)

definition parse_mirc_text :: "string \<Rightarrow> ColorSegment list" where
  "parse_mirc_text raw = parse_loop raw [] [] None False"

section \<open>Lemmas\<close>

definition is_code :: "char \<Rightarrow> bool" where
  "is_code c \<longleftrightarrow> c \<in> {BOLD, COLOR, RESET, REVERSE, ITALIC, UNDERLINE}"

definition segment_ok :: "ColorSegment \<Rightarrow> bool" where
  "segment_ok x \<longleftrightarrow> seg_text x \<noteq> [] \<and> list_all (\<lambda>c. \<not> is_code c) (seg_text x) \<and>
     (case seg_color x of None \<Rightarrow> True | Some color \<Rightarrow> color \<in> set MIRC_PALETTE)"

definition color_ok :: "(nat \<times> nat \<times> nat) option \<Rightarrow> bool" where
  "color_ok color \<longleftrightarrow> (case color of None \<Rightarrow> True | Some c \<Rightarrow> c \<in> set MIRC_PALETTE)"

lemma flush_ok:
  "list_all segment_ok segments \<Longrightarrow> list_all (\<lambda>c. \<not> is_code c) current \<Longrightarrow> color_ok color \<Longrightarrow>
   list_all segment_ok (flush segments current color bold)"
  by (auto simp: flush_def segment_ok_def color_ok_def)

lemma parse_color_code_ok: "color_ok (fst (parse_color_code s))"
  using nth_mem [of _ MIRC_PALETTE]
  by (cases "parse_uint u64_max (takeWhile is_ascii_digit (take 2 s))") (simp_all add: parse_color_code_def Let_def color_ok_def)

lemma parse_loop_ok:
  "list_all segment_ok segments \<Longrightarrow> list_all (\<lambda>c. \<not> is_code c) current \<Longrightarrow> color_ok color \<Longrightarrow>
   list_all segment_ok (parse_loop s segments current color bold)"
proof (induction s segments current color bold rule: parse_loop.induct)
  case (2 c s segments current color bold)
  have none: "color_ok None" by (simp add: color_ok_def)
  show ?case
    using 2 none flush_ok [OF 2(6-8)] parse_color_code_ok [of s] by (auto simp: is_code_def)
qed (simp add: flush_ok)

lemma flush_texts: "concat (map seg_text (flush segments current color bold)) = concat (map seg_text segments) @ current"
  by (simp add: flush_def)

lemma parse_loop_texts:
  "\<exists>shown. concat (map seg_text (parse_loop s segments current color bold)) = concat (map seg_text segments) @ current @ shown \<and> subseq shown s"
proof (induction s segments current color bold rule: parse_loop.induct)
  case (2 c s segments current color bold)
  show ?case
  proof (cases "c = COLOR")
    case True
    then have "c \<noteq> BOLD \<and> c \<noteq> RESET \<and> c \<notin> {REVERSE, ITALIC, UNDERLINE}"
      by (simp add: BOLD_def COLOR_def RESET_def REVERSE_def ITALIC_def UNDERLINE_def)
    with 2(4) True obtain shown where
      "concat (map seg_text (parse_loop (c # s) segments current color bold)) = concat (map seg_text segments) @ current @ shown"
      "subseq shown (snd (parse_color_code s))"
      by (auto simp: flush_texts)
    moreover have "subseq (snd (parse_color_code s)) (c # s)"
      using suffix_imp_subseq [OF parse_color_code_suffix [of s]] by (rule list_emb_Cons)
    ultimately show ?thesis by (meson subseq_order.trans)
  next
    case False
    have distinct: "RESET \<noteq> BOLD" "REVERSE \<noteq> BOLD" "ITALIC \<noteq> BOLD" "UNDERLINE \<noteq> BOLD"
      by (simp_all add: BOLD_def RESET_def REVERSE_def ITALIC_def UNDERLINE_def)
    show ?thesis using False 2(1,2,3,5) distinct by (auto simp: flush_texts intro: list_emb_Cons)
  qed
qed (simp add: flush_texts)

section \<open>Properties\<close>


text \<open>A comma after the digits of a color goes with all digits behind it, also when no digit follows.\<close>

lemma color_code_takes_comma:
  "concat (map seg_text (parse_mirc_text (COLOR # ''4, hi''))) = '' hi''"
  "concat (map seg_text (parse_mirc_text (COLOR # ''4,1234 hi''))) = '' hi''"
  by code_simp+

end
