(* ===== verification/Ban.thy ===== *)
theory Ban
  imports Prelude_Rust
begin

text \<open>The ban masks of the kick-ban command, from \<^verbatim>\<open>ban.rs\<close>. A mask is built in the form asked for, or not at all.\<close>

datatype BanType = BanNick | BanUserHost | BanHost

datatype BanMaskError = MissingPart

definition needs_userhost :: "BanType \<Rightarrow> bool" where
  "needs_userhost b \<longleftrightarrow> b \<noteq> BanNick"

fun wire_name :: "BanType \<Rightarrow> string" where
  "wire_name BanNick = ''nick''"
| "wire_name BanHost = ''host''"
| "wire_name BanUserHost = ''user_host''"

definition from_wire_name :: "string \<Rightarrow> BanType option" where
  "from_wire_name name =
     (if name = ''nick'' then Some BanNick else if name = ''host'' then Some BanHost
      else if name = ''user_host'' then Some BanUserHost else None)"

fun ban_index :: "BanType \<Rightarrow> int" where
  "ban_index BanNick = 0"
| "ban_index BanHost = 1"
| "ban_index BanUserHost = 2"

definition from_index :: "int \<Rightarrow> BanType" where
  "from_index i = (if i = 0 then BanNick else if i = 2 then BanUserHost else BanHost)"

text \<open>\<^verbatim>\<open>is_control\<close>: the characters below 32 and from 127 to 159, as UTF-8.\<close>

definition is_control_char :: "string \<Rightarrow> bool" where
  "is_control_char c \<longleftrightarrow>
     (case c of
        [b] \<Rightarrow> is_ascii_control b
      | [a, b] \<Rightarrow> char_code a = 194 \<and> 128 \<le> char_code b \<and> char_code b \<le> 159
      | _ \<Rightarrow> False)"

definition mask_part_is_valid :: "string \<Rightarrow> bool" where
  "mask_part_is_valid value \<longleftrightarrow>
     value \<noteq> [] \<and>
     \<not> list_ex (\<lambda>c. c \<in> set whitespace_seqs \<or> is_control_char c \<or> c \<in> {''!'', ''@'', ''*'', ''?'', '',''}) (utf8_chars value)"

definition mask_part :: "string option \<Rightarrow> BanMaskError + string" where
  "mask_part value =
     (case value of None \<Rightarrow> Inl MissingPart | Some v \<Rightarrow> if mask_part_is_valid v then Inr v else Inl MissingPart)"

definition ban_mask :: "BanType \<Rightarrow> string \<Rightarrow> string option \<Rightarrow> string option \<Rightarrow> BanMaskError + string" where
  "ban_mask b nick user host =
     (case b of
        BanNick \<Rightarrow> rbind (mask_part (Some nick)) (\<lambda>n. Inr (n @ ''!*@*''))
      | BanHost \<Rightarrow> rbind (mask_part host) (\<lambda>h. Inr (''*!*@'' @ h))
      | BanUserHost \<Rightarrow> rbind (mask_part user) (\<lambda>u. rbind (mask_part host) (\<lambda>h. Inr (''*!'' @ u @ ''@'' @ h))))"

section \<open>Lemmas\<close>

lemma wire_name_roundtrip: "from_wire_name (wire_name b) = Some b" "from_index (ban_index b) = b"
  by (cases b; simp add: from_wire_name_def from_index_def)+

lemma wire_name_exact: "from_wire_name name = Some b \<longleftrightarrow> name = wire_name b"
  by (cases b) (auto simp: from_wire_name_def)

text \<open>A mask has the form of its kind and valid parts; a missing part gives no mask.\<close>

lemma ban_mask_exact:
  "ban_mask b nick user host = Inr t \<longleftrightarrow>
     (b = BanNick \<and> mask_part_is_valid nick \<and> t = nick @ ''!*@*'') \<or>
     (b = BanHost \<and> (\<exists>h. host = Some h \<and> mask_part_is_valid h \<and> t = ''*!*@'' @ h)) \<or>
     (b = BanUserHost \<and> (\<exists>u h. user = Some u \<and> host = Some h \<and> mask_part_is_valid u \<and> mask_part_is_valid h \<and> t = ''*!'' @ u @ ''@'' @ h))"
  by (cases b) (auto simp: ban_mask_def mask_part_def rbind_eq_Inr split: option.splits if_splits)

end
