(* ===== verification/Release.thy ===== *)
theory Release
  imports Prelude_Rust
begin

text \<open>
  The check for a newer release, from \<^verbatim>\<open>release.rs\<close>. The version of this program and the answer of the
  release server are arguments.
\<close>

definition version_triplet :: "string \<Rightarrow> (nat \<times> nat \<times> nat) option" where
  "version_triplet version =
     (let version = (case strip_prefix ''v'' version of
                       Some s \<Rightarrow> s
                     | None \<Rightarrow> (case strip_prefix ''V'' version of Some s \<Rightarrow> s | None \<Rightarrow> version)) in
      case split_char CHR ''.'' version of
        a # b # c # parts \<Rightarrow>
          Option.bind (parse_uint u64_max a) (\<lambda>major.
          Option.bind (parse_uint u64_max b) (\<lambda>minor.
          Option.bind (parse_uint u64_max c) (\<lambda>patch.
            case parts of
              [] \<Rightarrow> Some (major, minor, patch)
            | build # others \<Rightarrow>
                Option.bind (parse_uint u64_max build) (\<lambda>_. if others = [] then Some (major, minor, patch) else None))))
      | _ \<Rightarrow> None)"

text \<open>The order of tuples: the first component that differs decides.\<close>

definition triplet_less :: "nat \<times> nat \<times> nat \<Rightarrow> nat \<times> nat \<times> nat \<Rightarrow> bool" where
  "triplet_less x y \<longleftrightarrow>
     (case (x, y) of ((a, b, c), (a', b', c')) \<Rightarrow> a < a' \<or> a = a' \<and> (b < b' \<or> b = b' \<and> c < c'))"

definition newer_than_installed :: "string \<Rightarrow> string \<Rightarrow> bool" where
  "newer_than_installed app_version tag \<longleftrightarrow>
     (case (version_triplet tag, version_triplet app_version) of
        (Some latest, Some installed) \<Rightarrow> triplet_less installed latest
      | _ \<Rightarrow> False)"

definition check_newer_release :: "string \<Rightarrow> 'h + string \<Rightarrow> 'h + string option" where
  "check_newer_release app_version answer =
     rbind answer (\<lambda>tag. Inr (if newer_than_installed app_version tag then Some tag else None))"

section \<open>Lemmas\<close>

text \<open>An update is never offered both ways, and only for a tag that reads as a version.\<close>

lemma newer_is_one_way: "newer_than_installed a b \<Longrightarrow> \<not> newer_than_installed b a"
  by (auto simp: newer_than_installed_def triplet_less_def split: option.splits prod.splits)

lemma newer_is_transitive: "newer_than_installed a b \<Longrightarrow> newer_than_installed b c \<Longrightarrow> newer_than_installed a c"
  by (auto simp: newer_than_installed_def triplet_less_def split: option.splits prod.splits)

lemma offered_tag_reads: "check_newer_release a answer = Inr (Some tag) \<Longrightarrow> answer = Inr tag \<and> version_triplet tag \<noteq> None"
  by (auto simp: check_newer_release_def newer_than_installed_def rbind_eq_Inr split: if_splits option.splits)

end
