(* ===== verification/Presence.thy ===== *)
theory Presence
  imports Json_Api
begin

text \<open>
  Which presence lines a channel hides and how the choices of this device and of the server are joined, from
  \<^verbatim>\<open>presence.rs\<close>. A sorted map of the code is a map; the set of the choices not sent yet is a list.
\<close>

section \<open>Hiding\<close>

definition LARGE_CHANNEL_THRESHOLD :: nat where "LARGE_CHANNEL_THRESHOLD = 200"

definition SUPPRESSED_KINDS :: "string list" where
  "SUPPRESSED_KINDS = [''join'', ''part'', ''quit'', ''nick_change'', ''mode'']"

datatype PresencePref = PrefShow | PrefHide

fun PresencePref_as_str :: "PresencePref \<Rightarrow> string" where
  "PresencePref_as_str PrefShow = ''show''"
| "PresencePref_as_str PrefHide = ''hide''"

definition PresencePref_parse :: "string \<Rightarrow> PresencePref option" where
  "PresencePref_parse t = (if t = ''show'' then Some PrefShow else if t = ''hide'' then Some PrefHide else None)"

definition is_presence_noise :: "string option \<Rightarrow> bool \<Rightarrow> bool" where
  "is_presence_noise kind structural \<longleftrightarrow>
     \<not> structural \<and> (case kind of None \<Rightarrow> False | Some k \<Rightarrow> k \<in> set SUPPRESSED_KINDS)"

definition presence_hidden :: "PresencePref option \<Rightarrow> nat option \<Rightarrow> bool" where
  "presence_hidden pref member_count \<longleftrightarrow>
     (case pref of
        Some PrefHide \<Rightarrow> True
      | Some PrefShow \<Rightarrow> False
      | None \<Rightarrow> (case member_count of None \<Rightarrow> False | Some n \<Rightarrow> n \<ge> LARGE_CHANNEL_THRESHOLD))"

definition toggled_pref :: "bool \<Rightarrow> PresencePref" where
  "toggled_pref currently_hidden = (if currently_hidden then PrefShow else PrefHide)"

section \<open>Joining the choices\<close>

type_synonym pins = "string \<rightharpoonup> PresencePref"

record PresencePins =
  pp_pins :: pins
  pp_persisted :: bool

record Reconciled =
  rc_pins :: pins
  rc_push :: pins

definition presence_from_response :: "'v json_api \<Rightarrow> 'v \<Rightarrow> PresencePins" where
  "presence_from_response J body = \<lparr>
     pp_pins =
       (case Option.bind (Option.bind (get_field J body ''display_prefs'') (\<lambda>prefs. get_field J prefs ''presence_filter'')) (as_map J) of
          None \<Rightarrow> Map.empty
        | Some m \<Rightarrow> map_of (List.map_filter (\<lambda>(key, value).
            Option.bind (as_str J value) (\<lambda>t. map_option (Pair key) (PresencePref_parse t))) m)),
     pp_persisted = (Option.bind (get_field J body ''persisted'') (as_bool J) = Some True) \<rparr>"

definition reconcile :: "pins \<Rightarrow> string list \<Rightarrow> PresencePins \<Rightarrow> Reconciled" where
  "reconcile local unsynced server =
     (if \<not> pp_persisted server then \<lparr> rc_pins = local, rc_push = local \<rparr>
      else
        (case fold (\<lambda>key (pins, push).
                case local key of
                  Some pref \<Rightarrow> (pins(key \<mapsto> pref), push(key \<mapsto> pref))
                | None \<Rightarrow> (pins, push)) unsynced (pp_pins server, Map.empty) of
           (pins, push) \<Rightarrow> \<lparr> rc_pins = pins, rc_push = push \<rparr>))"

section \<open>Lemmas\<close>

lemma pref_roundtrip: "PresencePref_parse (PresencePref_as_str p) = Some p"
  by (cases p) (simp_all add: PresencePref_parse_def)

lemma toggle_flips: "presence_hidden (Some (toggled_pref hidden)) count = (\<not> hidden)"
  by (simp add: presence_hidden_def toggled_pref_def)

lemma reconcile_fold:
  "fold (\<lambda>key (pins, push).
      case local key of Some pref \<Rightarrow> (pins(key \<mapsto> pref), push(key \<mapsto> pref)) | None \<Rightarrow> (pins, push)) keys (pins, push) =
   (pins ++ local |` set keys, push ++ local |` set keys)"
proof (induction keys arbitrary: pins push)
  case (Cons key keys)
  have some: "m(key \<mapsto> pref) ++ local |` set keys = m ++ local |` insert key (set keys)" if "local key = Some pref" for m pref
    using that by (auto simp: map_add_def restrict_map_def fun_eq_iff split: option.split)
  have none: "local |` set keys = local |` insert key (set keys)" if "local key = None"
    using that by (auto simp: restrict_map_def fun_eq_iff)
  show ?case
  proof (cases "local key")
    case None
    then show ?thesis using Cons [of pins push] none by simp
  next
    case (Some pref)
    then show ?thesis using Cons [of "pins(key \<mapsto> pref)" "push(key \<mapsto> pref)"] some by (simp del: fun_upd_apply)
  qed
qed (simp add: restrict_map_def)

text \<open>The server wins but for the choices that were not sent; those, and only those, are sent.\<close>

lemma reconcile_exact:
  "reconcile local unsynced server =
     (if pp_persisted server
      then \<lparr> rc_pins = pp_pins server ++ local |` set unsynced, rc_push = local |` set unsynced \<rparr>
      else \<lparr> rc_pins = local, rc_push = local \<rparr>)"
  by (simp add: reconcile_def reconcile_fold)

text \<open>What is sent is what is used, and a second run with the server up to date sends nothing new.\<close>

lemma reconcile_push_is_used: "rc_push (reconcile local unsynced server) \<subseteq>\<^sub>m rc_pins (reconcile local unsynced server)"
  by (simp add: reconcile_exact map_le_def map_add_dom_app_simps)

lemma reconcile_settles:
  "reconcile (rc_pins (reconcile local unsynced server)) [] \<lparr> pp_pins = rc_pins (reconcile local unsynced server), pp_persisted = True \<rparr> =
     \<lparr> rc_pins = rc_pins (reconcile local unsynced server), rc_push = Map.empty \<rparr>"
  by (simp add: reconcile_exact restrict_map_def)

end
