(* ===== verification/Links.thy ===== *)
theory Links
  imports Prelude_Rust
begin

text \<open>
  The tree of the servers of a network from the flat list of its links, from \<^verbatim>\<open>links.rs\<close>. The two maps of the
  code, of the depths and of the parents, always have the same keys and are one map here. The layout on
  circles is floating point and is left out; it recurses along the tree, so it ends because of the
  property below.
\<close>

record LinksEntry =
  le_server :: string
  le_linked_to :: "string option"
  le_hopcount :: "int option"
  le_description :: "string option"

record LinksNode =
  ln_server :: string
  ln_description :: "string option"
  ln_hopcount :: "int option"
  ln_depth :: nat
  ln_parent :: "string option"
  ln_is_root :: bool

type_synonym placed = "string \<rightharpoonup> nat \<times> string option"

definition hop_key :: "LinksEntry \<Rightarrow> int" where
  "hop_key entry = (case le_hopcount entry of None \<Rightarrow> int i64_max | Some h \<Rightarrow> h)"

text \<open>A self link, else the first entry with the smallest hop count.\<close>

definition root_server :: "LinksEntry list \<Rightarrow> string" where
  "root_server entries =
     (case List.find (\<lambda>entry. le_linked_to entry = Some (le_server entry)) entries of
        Some entry \<Rightarrow> le_server entry
      | None \<Rightarrow>
          (case List.find (\<lambda>entry. list_all (\<lambda>x. hop_key entry \<le> hop_key x) entries) entries of
             Some entry \<Rightarrow> le_server entry
           | None \<Rightarrow> le_server (hd entries)))"

definition usable_parent :: "LinksEntry list \<Rightarrow> LinksEntry \<Rightarrow> string option" where
  "usable_parent entries entry =
     (case le_linked_to entry of
        None \<Rightarrow> None
      | Some parent \<Rightarrow>
          if parent \<noteq> le_server entry \<and> list_ex (\<lambda>x. le_server x = parent) entries then Some parent else None)"

definition attach :: "LinksEntry list \<Rightarrow> string \<Rightarrow> LinksEntry \<Rightarrow> placed \<times> bool \<Rightarrow> placed \<times> bool" where
  "attach entries root entry acc =
     (case acc of (m, attached_any) \<Rightarrow>
        (case m (le_server entry) of
           Some _ \<Rightarrow> (m, attached_any)
         | None \<Rightarrow>
             (case usable_parent entries entry of
                Some parent \<Rightarrow>
                  (case m parent of
                     Some (depth, _) \<Rightarrow> (m(le_server entry \<mapsto> (depth + 1, Some parent)), True)
                   | None \<Rightarrow> (m, attached_any))
              | None \<Rightarrow> (m(le_server entry \<mapsto> (1, Some root)), True))))"

definition attach_pass :: "LinksEntry list \<Rightarrow> string \<Rightarrow> placed \<Rightarrow> placed \<times> bool" where
  "attach_pass entries root m = fold (attach entries root) entries (m, False)"

text \<open>A pass that attached something leaves fewer entries without a place.\<close>

lemma attach_progress:
  assumes "fold (attach entries root) es (m, any) = (m', any')"
  shows "dom m \<subseteq> dom m' \<and> (any' \<longrightarrow> any \<or> (\<exists>e \<in> set es. m (le_server e) = None \<and> m' (le_server e) \<noteq> None))"
  using assms
proof (induction es arbitrary: m any)
  case (Cons e es)
  obtain n b where one: "attach entries root e (m, any) = (n, b)" by fastforce
  have rest: "fold (attach entries root) es (n, b) = (m', any')" using Cons.prems by (simp add: one)
  note ih = Cons.IH [OF rest]
  have grow: "n x \<noteq> None \<Longrightarrow> m' x \<noteq> None" for x using ih by (metis domIff subsetD)
  have step: "dom m \<subseteq> dom n \<and> (b \<longrightarrow> any \<or> m (le_server e) = None \<and> n (le_server e) \<noteq> None)"
    using one by (auto simp: attach_def split: if_splits option.splits prod.splits)
  show ?case
  proof (intro conjI impI)
    show "dom m \<subseteq> dom m'" using ih step by blast
    assume any': any'
    then consider "b" | e' where "e' \<in> set es" "n (le_server e') = None" "m' (le_server e') \<noteq> None" using ih by blast
    then show "any \<or> (\<exists>x \<in> set (e # es). m (le_server x) = None \<and> m' (le_server x) \<noteq> None)"
    proof cases
      case 1
      then have "any \<or> m (le_server e) = None \<and> n (le_server e) \<noteq> None" using step by blast
      then show ?thesis using grow by (metis list.set_intros(1))
    next
      case 2
      moreover have "m (le_server e') = None" using 2(2) step by (metis domIff subsetD)
      ultimately show ?thesis by auto
    qed
  qed
qed simp

function attach_loop :: "LinksEntry list \<Rightarrow> string \<Rightarrow> placed \<Rightarrow> placed" where
  "attach_loop entries root m =
     (case attach_pass entries root m of (m', attached_any) \<Rightarrow> if attached_any then attach_loop entries root m' else m')"
  by pat_completeness auto
termination
proof (relation "measure (\<lambda>(entries, root, m). length (filter (\<lambda>e. m (le_server e) = None) entries))")
  fix entries root m m' any
  assume pass: "(m', any) = attach_pass entries root m" "any"
  then have run: "fold (attach entries root) entries (m, False) = (m', True)" unfolding attach_pass_def by metis
  note progress = attach_progress [OF run]
  obtain e where e: "e \<in> set entries" "m (le_server e) = None" "m' (le_server e) \<noteq> None" using progress by auto
  have sub: "m (le_server x) = None" if "m' (le_server x) = None" for x using progress that unfolding dom_def by blast
  have "filter (\<lambda>e. m' (le_server e) = None) entries =
      filter (\<lambda>e. m' (le_server e) = None) (filter (\<lambda>e. m (le_server e) = None) entries)"
    using sub by (auto intro: filter_cong)
  moreover have "length (filter (\<lambda>e. m' (le_server e) = None) (filter (\<lambda>e. m (le_server e) = None) entries)) <
      length (filter (\<lambda>e. m (le_server e) = None) entries)"
    by (rule length_filter_less [of e]) (use e in auto)
  ultimately show "((entries, root, m'), entries, root, m) \<in>
      measure (\<lambda>(entries, root, m). length (filter (\<lambda>e. m (le_server e) = None) entries))" by simp
qed simp

declare attach_loop.simps [simp del]

definition sweep :: "string \<Rightarrow> LinksEntry list \<Rightarrow> placed \<Rightarrow> placed" where
  "sweep root entries m =
     fold (\<lambda>entry m. if m (le_server entry) = None then m(le_server entry \<mapsto> (1, Some root)) else m) entries m"

definition build_links_tree :: "LinksEntry list \<Rightarrow> LinksNode list" where
  "build_links_tree entries =
     (if entries = [] then []
      else
        let root = root_server entries;
            m = sweep root entries (attach_loop entries root [root \<mapsto> (0, None)]) in
        map (\<lambda>entry. \<lparr> ln_server = le_server entry, ln_description = le_description entry, ln_hopcount = le_hopcount entry,
                        ln_depth = (case m (le_server entry) of None \<Rightarrow> 1 | Some (depth, _) \<Rightarrow> depth),
                        ln_parent = (case m (le_server entry) of None \<Rightarrow> None | Some (_, parent) \<Rightarrow> parent),
                        ln_is_root = (le_server entry = root) \<rparr>) entries)"

section \<open>Lemmas\<close>

definition tree_ok :: "LinksEntry list \<Rightarrow> string \<Rightarrow> placed \<Rightarrow> bool" where
  "tree_ok entries root m \<longleftrightarrow>
     m root = Some (0, None) \<and> dom m \<subseteq> le_server ` set entries \<and>
     (\<forall>s depth parent. m s = Some (depth, parent) \<longrightarrow>
        (case parent of None \<Rightarrow> s = root \<and> depth = 0 | Some q \<Rightarrow> \<exists>d p. m q = Some (d, p) \<and> depth = Suc d))"

lemma tree_ok_add:
  assumes "tree_ok entries root m" "m s = None" "m q = Some (d, p)" "s \<in> le_server ` set entries"
  shows "tree_ok entries root (m(s \<mapsto> (Suc d, Some q)))"
  unfolding tree_ok_def
proof (intro conjI allI impI)
  have ne: "root \<noteq> s" "q \<noteq> s" using assms(1-3) by (auto simp: tree_ok_def)
  show "(m(s \<mapsto> (Suc d, Some q))) root = Some (0, None)" using assms(1) ne by (simp add: tree_ok_def)
  show "dom (m(s \<mapsto> (Suc d, Some q))) \<subseteq> le_server ` set entries" using assms(1,4) by (simp add: tree_ok_def)
  fix x depth parent
  assume at: "(m(s \<mapsto> (Suc d, Some q))) x = Some (depth, parent)"
  show "case parent of None \<Rightarrow> x = root \<and> depth = 0 | Some y \<Rightarrow> \<exists>d' p. (m(s \<mapsto> (Suc d, Some q))) y = Some (d', p) \<and> depth = Suc d'"
  proof (cases "x = s")
    case True
    then show ?thesis using at assms(3) ne by auto
  next
    case False
    then have "m x = Some (depth, parent)" using at by simp
    then have old: "case parent of None \<Rightarrow> x = root \<and> depth = 0 | Some y \<Rightarrow> \<exists>d' p. m y = Some (d', p) \<and> depth = Suc d'"
      using assms(1) unfolding tree_ok_def by blast
    show ?thesis
    proof (cases parent)
      case None
      then show ?thesis using old by simp
    next
      case (Some y)
      then obtain d' p where "m y = Some (d', p)" "depth = Suc d'" using old by auto
      moreover have "y \<noteq> s" using calculation(1) assms(2) by auto
      ultimately show ?thesis using Some by simp
    qed
  qed
qed

lemma attach_ok:
  assumes "tree_ok entries root m" "entry \<in> set entries"
  shows "tree_ok entries root (fst (attach entries root entry (m, any)))"
proof -
  have root: "m root = Some (0, None)" using assms(1) by (simp add: tree_ok_def)
  have here: "le_server entry \<in> le_server ` set entries" using assms(2) by simp
  show ?thesis
  proof (cases "m (le_server entry)")
    case None
    note add = tree_ok_add [OF assms(1) None _ here]
    show ?thesis
    proof (cases "usable_parent entries entry")
      case u: None
      show ?thesis using add [OF root] by (simp add: attach_def None u)
    next
      case u: (Some parent)
      show ?thesis
      proof (cases "m parent")
        case (Some place)
        then show ?thesis using add [of parent] by (cases place) (simp add: attach_def None u)
      qed (simp add: attach_def None u assms(1))
    qed
  qed (simp add: attach_def assms(1))
qed

lemma attach_fold_ok:
  "tree_ok entries root m \<Longrightarrow> set es \<subseteq> set entries \<Longrightarrow> tree_ok entries root (fst (fold (attach entries root) es (m, any)))"
proof (induction es arbitrary: m any)
  case (Cons e es)
  obtain n b where one: "attach entries root e (m, any) = (n, b)" by fastforce
  have "tree_ok entries root n" using attach_ok [of entries root m e any] Cons.prems by (simp add: one)
  then show ?case using Cons.IH [of n b] Cons.prems by (simp add: one)
qed simp

lemma attach_loop_ok: "tree_ok entries root m \<Longrightarrow> tree_ok entries root (attach_loop entries root m)"
proof (induction entries root m rule: attach_loop.induct)
  case (1 entries root m)
  obtain m' any where pass: "attach_pass entries root m = (m', any)" by fastforce
  have "tree_ok entries root m'" using attach_fold_ok [OF 1(2), of entries False] pass by (simp add: attach_pass_def)
  then show ?case using 1(1) [OF pass [symmetric]] by (subst attach_loop.simps) (simp add: pass)
qed

lemma sweep_ok:
  "tree_ok entries root m \<Longrightarrow> set es \<subseteq> set entries \<Longrightarrow> tree_ok entries root (sweep root es m) \<and> le_server ` set es \<subseteq> dom (sweep root es m) \<and> dom m \<subseteq> dom (sweep root es m)"
proof (induction es arbitrary: m)
  case (Cons e es)
  define n where "n = (if m (le_server e) = None then m(le_server e \<mapsto> (1, Some root)) else m)"
  have root: "m root = Some (0, None)" using Cons.prems(1) by (simp add: tree_ok_def)
  have "tree_ok entries root n"
    using tree_ok_add [OF Cons.prems(1) _ root, of "le_server e"] Cons.prems by (simp add: n_def)
  moreover have "sweep root (e # es) m = sweep root es n" by (simp add: sweep_def n_def)
  moreover have "le_server e \<in> dom n" "dom m \<subseteq> dom n" by (auto simp: n_def)
  ultimately have facts: "tree_ok entries root n" "sweep root (e # es) m = sweep root es n" "le_server e \<in> dom n" "dom m \<subseteq> dom n"
    by blast+
  have es: "set es \<subseteq> set entries" using Cons.prems(2) by simp
  note ih = Cons.IH [OF facts(1) es]
  have "le_server e \<in> dom (sweep root es n)" using ih facts(3) by (metis subsetD)
  moreover have "dom m \<subseteq> dom (sweep root es n)" using ih facts(4) by (metis subset_trans)
  ultimately show ?case using ih unfolding facts(2) list.set image_insert insert_subset by metis
qed (simp add: sweep_def)

lemma root_is_listed: "entries \<noteq> [] \<Longrightarrow> root_server entries \<in> le_server ` set entries"
proof -
  assume ne: "entries \<noteq> []"
  have found: "List.find P entries = Some e \<Longrightarrow> e \<in> set entries" for P e unfolding find_Some_iff by (metis nth_mem)
  show ?thesis
    using ne found by (auto simp: root_server_def split: option.split)
qed

section \<open>Properties\<close>

text \<open>
  Claim C39. The result is a tree that misses nothing. It has one node for each entry, in the order of the
  entries; every node but a root has a parent that is a node one level above it, so no node is its own
  ancestor, whatever cycles and missing servers the reply has.
\<close>

theorem links_tree_is_a_tree:
  "map ln_server (build_links_tree entries) = map le_server entries \<and>
   list_all (\<lambda>node. case ln_parent node of
       None \<Rightarrow> ln_is_root node \<and> ln_depth node = 0
     | Some parent \<Rightarrow> list_ex (\<lambda>above. ln_server above = parent \<and> ln_depth node = Suc (ln_depth above)) (build_links_tree entries))
     (build_links_tree entries)"
proof (cases "entries = []")
  case False
  define root where "root = root_server entries"
  define m where "m = sweep root entries (attach_loop entries root [root \<mapsto> (0, None)])"
  have "tree_ok entries root [root \<mapsto> (0, None)]"
    using root_is_listed [OF False] by (auto simp: tree_ok_def root_def)
  then have ok: "tree_ok entries root m" "le_server ` set entries \<subseteq> dom m"
    using sweep_ok [OF attach_loop_ok, of entries root _ entries] by (auto simp: m_def)
  let ?node = "\<lambda>entry. \<lparr> ln_server = le_server entry, ln_description = le_description entry, ln_hopcount = le_hopcount entry,
                        ln_depth = (case m (le_server entry) of None \<Rightarrow> 1 | Some (depth, _) \<Rightarrow> depth),
                        ln_parent = (case m (le_server entry) of None \<Rightarrow> None | Some (_, parent) \<Rightarrow> parent),
                        ln_is_root = (le_server entry = root) \<rparr>"
  have tree: "build_links_tree entries = map ?node entries"
    using False by (simp add: build_links_tree_def Let_def root_def m_def)
  have each: "case ln_parent (?node e) of
       None \<Rightarrow> ln_is_root (?node e) \<and> ln_depth (?node e) = 0
     | Some parent \<Rightarrow> list_ex (\<lambda>above. ln_server above = parent \<and> ln_depth (?node e) = Suc (ln_depth above)) (map ?node entries)"
    if e: "e \<in> set entries" for e
  proof -
    obtain depth parent where at: "m (le_server e) = Some (depth, parent)" using ok(2) e by (metis domD imageI subsetD surj_pair)
    have above: "case parent of None \<Rightarrow> le_server e = root \<and> depth = 0 | Some q \<Rightarrow> \<exists>d p. m q = Some (d, p) \<and> depth = Suc d"
      using ok(1) at unfolding tree_ok_def by blast
    show ?thesis
    proof (cases parent)
      case None
      then show ?thesis using above at by simp
    next
      case (Some q)
      then obtain d p where q: "m q = Some (d, p)" "depth = Suc d" using above by auto
      have "q \<in> le_server ` set entries" using ok(1) domI [of m q, OF q(1)] unfolding tree_ok_def by blast
      then obtain x where "x \<in> set entries" "le_server x = q" by blast
      then show ?thesis using at q Some by (auto simp: list_ex_iff)
    qed
  qed
  show ?thesis
    unfolding tree
  proof
    show "list_all (\<lambda>node. case ln_parent node of
       None \<Rightarrow> ln_is_root node \<and> ln_depth node = 0
     | Some parent \<Rightarrow> list_ex (\<lambda>above. ln_server above = parent \<and> ln_depth node = Suc (ln_depth above)) (map ?node entries))
     (map ?node entries)"
      unfolding list_all_iff
    proof
      fix x
      assume "x \<in> set (map ?node entries)"
      then obtain e where e: "e \<in> set entries" "x = ?node e" by auto
      show "case ln_parent x of
         None \<Rightarrow> ln_is_root x \<and> ln_depth x = 0
       | Some parent \<Rightarrow> list_ex (\<lambda>above. ln_server above = parent \<and> ln_depth x = Suc (ln_depth above)) (map ?node entries)"
        unfolding e(2) by (rule each [OF e(1)])
    qed
  qed simp
qed (simp add: build_links_tree_def)

end
