(* ===== verification/Spec2Isabelle.thy ===== *)
theory Spec2Isabelle
  imports Prelude_Rust Json_Api Crypto_Api Wire Isupport Pacing Device Trust Peer Refusal Files State_Store
    Pairing Pairing_Session Protocol Backoff Identity Client Account Effects Provision Provision_Facts
    Inbox History Send_Request Selfcopy Engine_Data Engine Engine_Facts Receive Toy_Engine Receive_Claims Drain
    Send_Plan Engine_Send Engine_Copies Engine_Open Send_Facts Send_Claims Send_Promises Revoke Revoke_Claims
    Pairing_Driver Pairing_Promises Engine_Setup Slash Formatting Ban Release Presence Links
begin

text \<open>
  Verification of the end-to-end encryption core of Cordiale, a desktop client for the Grappa chat
  server. The code is the crate \<^verbatim>\<open>src/crates/cordiale-core\<close>; file names below are files of its
  \<^verbatim>\<open>src\<close> directory.

  \<^bold>\<open>The program.\<close> Every device of a user has an Olm account (Ed25519 and Curve25519 keys). A master key
  signs the list of the devices of the user, with a version, and a certificate for each device. Peers pin
  the master and accept a device only through its list or its certificate; a revoked key stays revoked.
  The state of a device is one sealed file. A new device joins by a pairing: a session over a relay with a
  check code that a user types, after which a holder of the master signs a new list. The client talks to
  the server over REST routes that exist from certain protocol versions on.

  \<^bold>\<open>Theories and the code they model.\<close>
  \<^item> \<open>Prelude_Rust\<close>: the parts of the Rust standard library in use (results, text, integers with
    their bounds). \<open>Json_Api\<close> and \<open>Crypto_Api\<close>: \<^verbatim>\<open>serde_json\<close>, \<^verbatim>\<open>base64\<close>, \<^verbatim>\<open>sha2\<close> and \<^verbatim>\<open>vodozemac\<close> as
    records of functions, the documented facts as predicates on them, and one instance each.
  \<^item> \<open>Wire\<close> (\<^verbatim>\<open>e2e_wire.rs\<close>): keys, signed texts, device lists, frames and fragments. The frame
    lemmas show that printing and parsing are inverse, that reassembly accepts exactly complete sets
    and that the frame count is minimal.
  \<^item> \<open>Device\<close> (\<^verbatim>\<open>e2e_device.rs\<close>, \<^verbatim>\<open>e2e_list_migration.rs\<close>, \<^verbatim>\<open>e2e_manage.rs\<close>), \<open>Trust\<close>
    (\<^verbatim>\<open>e2e_trust.rs\<close>), \<open>Peer\<close> (\<^verbatim>\<open>e2e_peer.rs\<close>): lists, certificates and what a peer is trusted with.
    The locale \<open>device_ledger\<close> is the contract of a holder of lists (revocations last, versions do
    not go back, a device that leaves is revoked); it is interpreted on the directory and on the trust
    state, and the properties rest on its facts.
  \<^item> \<open>Files\<close> (\<^verbatim>\<open>persistence.rs\<close>, the atomic writer over a disk whose calls can fail) and
    \<open>State_Store\<close> (\<^verbatim>\<open>e2e_state.rs\<close>): the locale \<open>atomic_files\<close> is the contract of a writer, on which
    the transactions of the store rest.
  \<^item> \<open>Isupport\<close> (\<^verbatim>\<open>isupport.rs\<close>), \<open>Pacing\<close> (\<^verbatim>\<open>e2e_pacing.rs\<close>), \<open>Refusal\<close> (\<^verbatim>\<open>e2e_refusal.rs\<close>),
    \<open>Protocol\<close> (\<^verbatim>\<open>e2e_protocol.rs\<close>), \<open>Backoff\<close> (\<^verbatim>\<open>backoff.rs\<close>): limits in time, refusals, routes
    and waiting hints. A clock value is an argument; a duration is a number of its units.
  \<^item> \<open>Pairing\<close> (\<^verbatim>\<open>e2e_pairing.rs\<close>, \<^verbatim>\<open>e2e_sas.rs\<close>) and \<open>Pairing_Session\<close>
    (\<^verbatim>\<open>e2e_pairing_flow.rs\<close>): links, offers and codes; the session as a state record with one
    definition per operation, \<open>session_step\<close> for one operation and \<open>session_run\<close> for a run. The
    invariant \<open>session_ok\<close> and the relation \<open>evolves\<close> hold along every run. \<open>Pairing_Driver\<close> joins the
    session to the relay, the server and the store; \<open>Pairing_Promises\<close> shows who signs, who accepts and
    how a failed step ends.
  \<^item> \<open>Identity\<close> (\<^verbatim>\<open>e2e_identity_routes.rs\<close>) and \<open>Client\<close> (\<^verbatim>\<open>client.rs\<close>): checked requests, readers of
    answers, and the calls as functions of the state of the other side.
  \<^item> \<open>History\<close> (\<^verbatim>\<open>e2e_store.rs\<close>): the sealed rows of the conversations in a file that grows by
    appending, read back after every operation; \<open>Inbox\<close> (\<^verbatim>\<open>e2e_device_routes.rs\<close>): the requests
    and rows of the inbox of a device.
  \<^item> \<open>Account\<close> (\<^verbatim>\<open>e2e_account.rs\<close>), \<open>Effects\<close>, \<open>Provision\<close> and \<open>Provision_Facts\<close> (\<^verbatim>\<open>e2e_provision.rs\<close>): a run of
    the provision as a step on the world (server, disk, open store, random draws). The locale
    \<open>world_order\<close> turns a relation on worlds that every part keeps into one that a whole step keeps; it
    is interpreted on the agreement of disk and memory and on what a run must not touch: the identity,
    the master, the trust. The relation \<open>runs\<close> is a weakest precondition over the stages.

  \<^item> \<open>Engine_Data\<close>, \<open>Engine\<close> (\<^verbatim>\<open>e2e_engine.rs\<close>): the engine of one network as a record with its store, its
    history and its disk, and \<open>handle_row\<close>, which reads one row of the inbox: keys of a peer, a first or a
    normal message, a copy of an own message, a list, a NACK. \<open>Engine_Facts\<close> shows that every operation is
    a run of the three steps of \<open>engine_step\<close> (memory, one write of the state, one new row of the history);
    \<open>Receive\<close> and \<open>Receive_Claims\<close> draw the invariants from the steps. The rows are an interpretation of
    \<open>device_ledger\<close>. \<open>Drain\<close>: acknowledging, the loop over the pages of the inbox and the claim of a key.
    \<open>Toy_Engine\<close> is a concrete engine on which the promises are run.
  \<^item> \<open>Send_Request\<close> (\<^verbatim>\<open>rest.rs\<close>) and \<open>Selfcopy\<close> (\<^verbatim>\<open>e2e_selfcopy.rs\<close>): the checked request of the send door and
    the rules of the copies between own devices.
  \<^item> \<open>Send_Plan\<close>, \<open>Engine_Send\<close>, \<open>Engine_Copies\<close>, \<open>Engine_Open\<close> (\<^verbatim>\<open>e2e_engine.rs\<close>): the devices a text goes
    to, the plan of its requests, the sealing, the send door, the queue of waiting texts, lists and key
    requests; the copies to the own devices; the opening of the files of an engine, which \<open>Engine_Setup\<close>
    makes. A step is an \<open>act\<close> over the engine and the state of the server. \<open>Send_Facts\<close> shows that every step of the send path is a run of
    the steps of \<open>engine_step\<close>; \<open>Send_Claims\<close> and \<open>Send_Promises\<close> hold the properties: no text leaves in the
    clear or for an unchecked device, sessions are saved before their messages leave, a text is sent as a
    whole or not at all.
  \<^item> \<open>Revoke\<close> and \<open>Revoke_Claims\<close> (\<^verbatim>\<open>e2e_revoke.rs\<close>): the runs of a revoke and of a reset over the world of
    \<open>Effects\<close>; \<open>world_order\<close> is interpreted on what a revoke must keep.
  \<^item> \<open>Slash\<close> (\<^verbatim>\<open>slash.rs\<close>), \<open>Formatting\<close> (\<^verbatim>\<open>formatting.rs\<close>), \<open>Ban\<close> (\<^verbatim>\<open>ban.rs\<close>) and \<open>Release\<close>
    (\<^verbatim>\<open>release.rs\<close>): the parsers of the chat client that work on text alone: command lines with their
    aliases, control codes, ban masks, version tags. \<open>Presence\<close> (\<^verbatim>\<open>presence.rs\<close>): the choices of hidden
    presence lines and how they are joined with those of the server. \<open>Links\<close> (\<^verbatim>\<open>links.rs\<close>): the tree of
    the servers of a network from a flat reply.

  \<^bold>\<open>Strings, integers, errors.\<close> A text is the list of its UTF-8 bytes as characters. Unsigned integers
  are natural numbers with the bound written out where the code checks, saturates or wraps; \<^verbatim>\<open>i64\<close> is
  \<open>int\<close>, with \<open>wrap64\<close> where the code can overflow. A \<^verbatim>\<open>Result\<close> is a sum with the error on the left; a
  panic is a value of its own (\<open>outcome\<close>). Loops are structural or have a
  termination proof; the text loops of \<open>trim\<close> and \<open>words\<close> count down from the length of the text, which is
  enough because every round takes a byte. The drain of the inbox, which asks a server that may never
  stop, is a partial function whose return is a theorem for a server whose pages move on.

  \<^bold>\<open>Not modelled.\<close> The jitter of the reconnect
  delay is floating point and random. Derived JSON readers and writers are parameters. Of
  \<^verbatim>\<open>client.rs\<close> the calls of chat, media, administration and bootstrap are thin wrappers over the modelled
  sender; of \<^verbatim>\<open>persistence.rs\<close> only the atomic writer has logic of its own. The other
  chat logic, the channel session, the platform services and the desktop application
  (\<^verbatim>\<open>src/crates/cordiale-ui\<close>) are outside the development: they are mostly input and output around the
  core; the small readers of themes and the drawing of the links among them are not modelled either.
\<close>

end
